(* ===== verification/Cam_Prelude.thy ===== *)
theory Cam_Prelude
  imports "HOL-Library.Word"
begin

text \<open>
  Shared vocabulary of the development: the C++ integer types, the errors a C++ operation can
  end in, byte memory with bounds-checked access, little-endian numbers, byte strings, and the
  list lemmas the components share.

  A C++ value of type \<open>int\<close> is an \<open>int\<close> kept in range by \<open>c_int\<close>; \<open>uint32_t\<close> is \<open>u32\<close>,
  \<open>uint8_t\<close> is \<open>u8\<close>; \<open>size_t\<close> (64 bits wide in this program) is a \<open>nat\<close>.
  An operation that can leave its memory, dereference null or throw a standard exception
  returns a sum whose left side is the \<open>cpp_error\<close>.
\<close>

unbundle bit_operations_syntax

type_synonym u8 = "8 word"
type_synonym u32 = "32 word"

datatype cpp_error =
    OutOfBounds          \<comment> \<open>memory access outside the object, undefined in C++\<close>
  | NullPointer          \<comment> \<open>dereference of a null pointer\<close>
  | StdInvalidArgument   \<comment> \<open>\<open>std::invalid_argument\<close>\<close>
  | StdOutOfRange        \<comment> \<open>\<open>std::out_of_range\<close>\<close>
  | StdLengthError       \<comment> \<open>\<open>std::length_error\<close>\<close>
  | StdBadAlloc          \<comment> \<open>\<open>std::bad_alloc\<close> and its subclass \<open>std::bad_array_new_length\<close>\<close>
  | StdTerminate         \<comment> \<open>\<open>std::terminate\<close>\<close>
  | DivideByZero         \<comment> \<open>integer division by zero\<close>
  | DanglingPointer      \<comment> \<open>use of an object after its destruction\<close>

type_synonym 'a cpp = "cpp_error + 'a"

named_theorems mem_simps "bounds-checked memory access on concrete shapes"
named_theorems cpp_range "conversion of C++ integers that are in range"

subsection \<open>Sequencing of operations that can fail\<close>

fun cbind :: "'a cpp \<Rightarrow> ('a \<Rightarrow> 'b cpp) \<Rightarrow> 'b cpp" where
  "cbind (Inl e) f = Inl e"
| "cbind (Inr x) f = f x"

lemma cbind_Inr_iff: "cbind m f = Inr y \<longleftrightarrow> (\<exists>x. m = Inr x \<and> f x = Inr y)"
  by (cases m) auto

lemma cbind_Inl_iff: "cbind m f = Inl e \<longleftrightarrow> m = Inl e \<or> (\<exists>x. m = Inr x \<and> f x = Inl e)"
  by (cases m) auto

lemma cbind_assoc: "cbind (cbind m f) g = cbind m (\<lambda>x. cbind (f x) g)"
  by (cases m) auto

lemma cbind_cong [fundef_cong]:
  "m = m' \<Longrightarrow> (\<And>x. m' = Inr x \<Longrightarrow> f x = f' x) \<Longrightarrow> cbind m f = cbind m' f'"
  by (cases m') auto

subsection \<open>Machine integers\<close>

text \<open>Conversion of any integer to a 32-bit \<open>int\<close>, two's complement.\<close>

definition c_int :: "int \<Rightarrow> int" where
  "c_int x = (x + 2 ^ 31) mod 2 ^ 32 - 2 ^ 31"

definition int32_range :: "int \<Rightarrow> bool" where
  "int32_range x \<longleftrightarrow> - (2 ^ 31) \<le> x \<and> x < 2 ^ 31"

lemma c_int_id [cpp_range]: "int32_range x \<Longrightarrow> c_int x = x"
  by (simp add: c_int_def int32_range_def)

lemma c_int_range: "int32_range (c_int x)"
proof -
  have "0 \<le> (x + 2 ^ 31) mod 2 ^ 32 \<and> (x + 2 ^ 31) mod 2 ^ 32 < 2 ^ 32"
    by simp
  then show ?thesis
    unfolding c_int_def int32_range_def by simp
qed

lemma c_int_small [cpp_range]: "0 \<le> x \<Longrightarrow> x < 2147483648 \<Longrightarrow> c_int x = x"
  by (rule c_int_id) (simp add: int32_range_def)

text \<open>C++ integer division rounds towards zero.\<close>

definition c_div :: "int \<Rightarrow> int \<Rightarrow> int" where
  "c_div a b = sgn a * sgn b * (\<bar>a\<bar> div \<bar>b\<bar>)"

definition c_mod :: "int \<Rightarrow> int \<Rightarrow> int" where
  "c_mod a b = a - b * c_div a b"

lemma c_div_nonneg [cpp_range]: "0 \<le> a \<Longrightarrow> 0 < b \<Longrightarrow> c_div a b = a div b"
  by (cases "a = 0") (simp_all add: c_div_def)

lemma c_mod_nonneg [cpp_range]: "0 \<le> a \<Longrightarrow> 0 < b \<Longrightarrow> c_mod a b = a mod b"
  by (simp add: c_mod_def c_div_nonneg minus_mult_div_eq_mod)

lemma unat_u32_of_nat [cpp_range]: "n < 4294967296 \<Longrightarrow> unat (word_of_nat n :: u32) = n"
  by (simp add: unat_of_nat)

lemma unat_u32_lt: "unat (w :: u32) < 4294967296"
  using unsigned_less [of w] by simp

lemma uint_u32_unat: "uint (w :: u32) = int (unat w)"
  by simp

lemma sint_u32_small [cpp_range]:
  assumes "unat w < 2147483648"
  shows "sint (w :: u32) = int (unat w)"
proof -
  have "signed_take_bit 31 (int (unat w)) = int (unat w)"
  proof (rule signed_take_bit_int_eq_self)
    show "- (2 ^ 31) \<le> int (unat w)" by (rule order.trans [of _ 0]) simp_all
    show "int (unat w) < 2 ^ 31" using assms by (simp del: of_nat_unat)
  qed
  moreover have "sint w = signed_take_bit 31 (uint w)"
    by (simp add: sint_uint)
  ultimately show ?thesis
    by (simp only: uint_u32_unat)
qed

subsection \<open>Byte memory\<close>

text \<open>Reading one byte, reading \<open>n\<close> bytes, and \<open>memcpy\<close> into memory at offset \<open>i\<close>.\<close>

definition rd :: "u8 list \<Rightarrow> int \<Rightarrow> u8 cpp" where
  "rd mem i = (if 0 \<le> i \<and> i < int (length mem) then Inr (mem ! nat i) else Inl OutOfBounds)"

definition rd_n :: "u8 list \<Rightarrow> int \<Rightarrow> nat \<Rightarrow> u8 list cpp" where
  "rd_n mem i n = (if 0 \<le> i \<and> i + int n \<le> int (length mem)
     then Inr (take n (drop (nat i) mem)) else Inl OutOfBounds)"

definition wr :: "u8 list \<Rightarrow> nat \<Rightarrow> u8 list \<Rightarrow> u8 list cpp" where
  "wr mem i src = (if i + length src \<le> length mem
     then Inr (take i mem @ src @ drop (i + length src) mem) else Inl OutOfBounds)"

text \<open>\<open>std::vector::resize(n, v)\<close>.\<close>

definition vec_resize :: "nat \<Rightarrow> 'a \<Rightarrow> 'a list \<Rightarrow> 'a list" where
  "vec_resize n v b = take n b @ replicate (n - length b) v"

lemma length_vec_resize [simp]: "length (vec_resize n v b) = n"
  by (simp add: vec_resize_def)

lemma take_vec_resize [simp]: "k \<le> length b \<Longrightarrow> k \<le> n \<Longrightarrow> take k (vec_resize n v b) = take k b"
  by (simp add: vec_resize_def min_def)

lemma wr_ok [mem_simps]:
  "i + length src \<le> length mem \<Longrightarrow>
   wr mem i src = Inr (take i mem @ src @ drop (i + length src) mem)"
  by (simp add: wr_def)

lemma wr_Inr_length: "wr mem i src = Inr mem' \<Longrightarrow> length mem' = length mem"
  by (auto simp: wr_def split: if_splits)

lemma rd_nth [mem_simps]: "i < length mem \<Longrightarrow> rd mem (int i) = Inr (mem ! i)"
  by (simp add: rd_def)

lemma rd_n_nat [mem_simps]:
  "i + n \<le> length mem \<Longrightarrow> rd_n mem (int i) n = Inr (take n (drop i mem))"
  by (simp add: rd_n_def)

lemma rd_n_length: "rd_n mem i n = Inr bs \<Longrightarrow> length bs = n"
  by (auto simp: rd_n_def split: if_splits)

text \<open>Reading inside a memory given as a concatenation.\<close>

lemma rd_append_mid [mem_simps]:
  "i = int (length pre) \<Longrightarrow> rd (pre @ x # post) i = Inr x"
  by (simp add: rd_def)

lemma rd_n_append_mid [mem_simps]:
  "i = int (length pre) \<Longrightarrow> n = length xs \<Longrightarrow> rd_n (pre @ xs @ post) i n = Inr xs"
  by (simp add: rd_n_def)

subsection \<open>Little-endian numbers\<close>

text \<open>The \<open>n\<close> low bytes of a number as x86 stores them, and the number read back.\<close>

primrec le_bytes :: "nat \<Rightarrow> nat \<Rightarrow> u8 list" where
  "le_bytes 0 x = []"
| "le_bytes (Suc n) x = word_of_nat x # le_bytes n (x div 256)"

primrec le_val :: "u8 list \<Rightarrow> nat" where
  "le_val [] = 0"
| "le_val (b # bs) = unat b + 256 * le_val bs"

lemma length_le_bytes [simp]: "length (le_bytes n x) = n"
  by (induction n arbitrary: x) auto

lemma le_val_le_bytes: "le_val (le_bytes n x) = x mod 256 ^ n"
proof (induction n arbitrary: x)
  case 0
  then show ?case by simp
next
  case (Suc n)
  have "unat (word_of_nat x :: u8) = x mod 256"
    by (simp add: unat_of_nat)
  then have "le_val (le_bytes (Suc n) x) = x mod 256 + 256 * (x div 256 mod 256 ^ n)"
    using Suc by simp
  also have "\<dots> = x mod (256 * 256 ^ n)"
    by (simp add: mod_mult2_eq)
  finally show ?case by simp
qed

lemma take_le_bytes: "k \<le> n \<Longrightarrow> take k (le_bytes n x) = le_bytes k x"
proof (induction n arbitrary: k x)
  case 0
  then show ?case by simp
next
  case (Suc n)
  then show ?case by (cases k) auto
qed

lemma le_bytes_inj_u32: "le_val (le_bytes 4 (unat (w :: u32))) = unat w"
proof -
  have "unat w < 2 ^ 32"
    using unsigned_less [of w] by simp
  then show ?thesis by (simp add: le_val_le_bytes)
qed

subsection \<open>Strings as bytes\<close>

definition char_byte :: "char \<Rightarrow> u8" where
  "char_byte c = word_of_nat (of_char c)"

definition byte_char :: "u8 \<Rightarrow> char" where
  "byte_char b = char_of (unat b)"

definition str_bytes :: "string \<Rightarrow> u8 list" where
  "str_bytes s = map char_byte s"

definition bytes_str :: "u8 list \<Rightarrow> string" where
  "bytes_str bs = map byte_char bs"

lemma byte_char_char_byte [simp]: "byte_char (char_byte c) = c"
  by (simp add: byte_char_def char_byte_def unat_of_nat)

lemma char_byte_byte_char [simp]: "char_byte (byte_char b) = b"
proof -
  have "unat b < 256"
    using unsigned_less [of b] by simp
  then show ?thesis
    by (simp add: byte_char_def char_byte_def)
qed

lemma char_byte_eq_iff [simp]: "char_byte c = char_byte d \<longleftrightarrow> c = d"
  by (metis byte_char_char_byte)

lemma length_str_bytes [simp]: "length (str_bytes s) = length s"
  by (simp add: str_bytes_def)

lemma length_bytes_str [simp]: "length (bytes_str bs) = length bs"
  by (simp add: bytes_str_def)

lemma bytes_str_str_bytes [simp]: "bytes_str (str_bytes s) = s"
  by (simp add: bytes_str_def str_bytes_def o_def)

lemma str_bytes_bytes_str [simp]: "str_bytes (bytes_str bs) = bs"
  by (simp add: bytes_str_def str_bytes_def o_def)

lemma str_bytes_simps [simp]:
  "str_bytes [] = []" "str_bytes (c # s) = char_byte c # str_bytes s"
  "str_bytes (s @ t) = str_bytes s @ str_bytes t"
  by (simp_all add: str_bytes_def)

lemma str_bytes_inj [simp]: "str_bytes s = str_bytes t \<longleftrightarrow> s = t"
  by (metis bytes_str_str_bytes)

end
