(* ===== verification/Std_Convert.thy ===== *)
theory Std_Convert
  imports Cam_Prelude
begin

text \<open>
  The conversions of the C++ standard library that the program uses between numbers and
  strings: \<open>std::to_string\<close> on integers, and \<open>std::stoi\<close> / \<open>std::stol\<close>, which skip white
  space, accept a sign, read the longest run of decimal digits, throw \<open>std::invalid_argument\<close>
  when there is none and \<open>std::out_of_range\<close> when the value does not fit. Both \<open>int\<close> and
  \<open>long\<close> have 32 bits on the program's platform (64-bit Windows), so \<open>stoi\<close> and \<open>stol\<close>
  have the same range.
\<close>

definition digit_char :: "nat \<Rightarrow> char" where
  "digit_char d = char_of (48 + d)"

fun nat_digits :: "nat \<Rightarrow> string" where
  "nat_digits n = (if n < 10 then [digit_char n]
     else nat_digits (n div 10) @ [digit_char (n mod 10)])"

declare nat_digits.simps [simp del]

definition to_string :: "int \<Rightarrow> string" where
  "to_string x = (if x < 0 then CHR ''-'' # nat_digits (nat (- x)) else nat_digits (nat x))"

definition is_digit :: "char \<Rightarrow> bool" where
  "is_digit c \<longleftrightarrow> 48 \<le> (of_char c :: nat) \<and> (of_char c :: nat) \<le> 57"

definition is_space :: "char \<Rightarrow> bool" where
  "is_space c \<longleftrightarrow> (of_char c :: nat) \<in> {9, 10, 11, 12, 13, 32}"

definition digits_val :: "string \<Rightarrow> nat" where
  "digits_val ds = foldl (\<lambda>acc c. 10 * acc + (of_char c - 48)) 0 ds"

definition split_sign :: "string \<Rightarrow> bool \<times> string" where
  "split_sign s = (case s of [] \<Rightarrow> (False, [])
     | c # cs \<Rightarrow> if c = CHR ''-'' then (True, cs) else if c = CHR ''+'' then (False, cs) else (False, s))"

definition sto_range :: "int \<Rightarrow> int \<Rightarrow> string \<Rightarrow> int cpp" where
  "sto_range lo hi s =
     (let (neg, t) = split_sign (dropWhile is_space s);
          ds = takeWhile is_digit t;
          v = (if neg then - int (digits_val ds) else int (digits_val ds))
      in if ds = [] then Inl StdInvalidArgument
         else if lo \<le> v \<and> v \<le> hi then Inr v else Inl StdOutOfRange)"

definition stoi :: "string \<Rightarrow> int cpp" where
  "stoi s = sto_range (- (2 ^ 31)) (2 ^ 31 - 1) s"

definition stol :: "string \<Rightarrow> int cpp" where
  "stol s = sto_range (- (2 ^ 31)) (2 ^ 31 - 1) s"

subsection \<open>Digits\<close>

lemma of_digit_char [simp]: "d < 10 \<Longrightarrow> (of_char (digit_char d) :: nat) = 48 + d"
  by (simp add: digit_char_def)

lemma is_digit_digit_char: "d < 10 \<Longrightarrow> is_digit (digit_char d)"
  by (simp add: is_digit_def)

lemma nat_digits_all_digits: "c \<in> set (nat_digits n) \<Longrightarrow> is_digit c"
proof (induction n rule: nat_digits.induct)
  case (1 n)
  then show ?case
    by (cases "n < 10") (auto simp: nat_digits.simps [of n] is_digit_digit_char)
qed

lemma nat_digits_not_empty [simp]: "nat_digits n \<noteq> []"
  by (simp add: nat_digits.simps)

lemma digits_val_snoc: "digits_val (ds @ [c]) = 10 * digits_val ds + (of_char c - 48)"
  by (simp add: digits_val_def)

lemma digits_val_nat_digits [simp]: "digits_val (nat_digits n) = n"
proof (induction n rule: nat_digits.induct)
  case (1 n)
  show ?case
  proof (cases "n < 10")
    case True
    then show ?thesis by (simp add: nat_digits.simps [of n] digits_val_def)
  next
    case False
    then have "digits_val (nat_digits n) = 10 * (n div 10) + n mod 10"
      using 1 by (simp add: nat_digits.simps [of n] digits_val_snoc)
    then show ?thesis by simp
  qed
qed

lemma takeWhile_nat_digits [simp]: "takeWhile is_digit (nat_digits n) = nat_digits n"
  by (simp add: nat_digits_all_digits)

lemma digit_not_space: "is_digit c \<Longrightarrow> \<not> is_space c"
  by (auto simp: is_digit_def is_space_def)

lemma digit_not_sign: "is_digit c \<Longrightarrow> c \<noteq> CHR ''-'' \<and> c \<noteq> CHR ''+''"
  by (auto simp: is_digit_def)

lemma hd_nat_digits: "is_digit (hd (nat_digits n))"
  by (rule nat_digits_all_digits [of _ n]) simp

lemma split_sign_to_string:
  "split_sign (dropWhile is_space (to_string x)) = (x < 0, nat_digits (nat \<bar>x\<bar>))"
proof (cases "x < 0")
  case True
  have "\<not> is_space (CHR ''-'')" by (simp add: is_space_def)
  with True show ?thesis by (simp add: to_string_def split_sign_def)
next
  case False
  obtain c cs where nd: "nat_digits (nat x) = c # cs"
    by (cases "nat_digits (nat x)") auto
  with hd_nat_digits [of "nat x"] have "is_digit c" by simp
  with False nd show ?thesis
    by (auto simp: to_string_def split_sign_def digit_not_space digit_not_sign)
qed

text \<open>
  Reading back a printed number gives the number when it fits the target type, and throws
  \<open>std::out_of_range\<close> when it does not.
\<close>

lemma sto_range_to_string:
  "sto_range lo hi (to_string x) = (if lo \<le> x \<and> x \<le> hi then Inr x else Inl StdOutOfRange)"
  by (auto simp: sto_range_def split_sign_to_string Let_def)

lemma stoi_to_string: "stoi (to_string x) = (if int32_range x then Inr x else Inl StdOutOfRange)"
  by (auto simp: stoi_def sto_range_to_string int32_range_def)

lemma stol_to_string: "stol (to_string x) = (if int32_range x then Inr x else Inl StdOutOfRange)"
  by (auto simp: stol_def sto_range_to_string int32_range_def)

lemma sto_range_bounds: "sto_range lo hi s = Inr v \<Longrightarrow> lo \<le> v \<and> v \<le> hi"
  by (auto simp: sto_range_def Let_def split: prod.splits if_splits)

lemma stoi_range: "stoi s = Inr v \<Longrightarrow> int32_range v"
  unfolding stoi_def int32_range_def by (drule sto_range_bounds) simp

lemma length_nat_digits: "n < 10 ^ m \<Longrightarrow> 0 < m \<Longrightarrow> length (nat_digits n) \<le> m"
proof (induction m arbitrary: n)
  case (Suc m)
  show ?case
  proof (cases "n < 10")
    case False
    then have "0 < m" using Suc.prems(1) by (cases m) auto
    moreover have "n div 10 < 10 ^ m" using Suc.prems(1) by (simp add: less_mult_imp_div_less mult.commute)
    ultimately show ?thesis using False Suc.IH [of "n div 10"] by (simp add: nat_digits.simps [of n])
  qed (simp add: nat_digits.simps [of n])
qed simp

text \<open>\<open>%0nd\<close> of \<open>printf\<close> for a number that is not negative, and a number after \<open>std::setfill('0')\<close> and \<open>std::setw(n)\<close>.\<close>

definition zero_padded :: "nat \<Rightarrow> nat \<Rightarrow> string" where
  "zero_padded n x = replicate (n - length (nat_digits x)) (CHR ''0'') @ nat_digits x"

lemma length_zero_padded: "x < 10 ^ n \<Longrightarrow> 0 < n \<Longrightarrow> length (zero_padded n x) = n"
  by (simp add: zero_padded_def length_nat_digits)

end
