(* ===== verification/Packet_Define.thy ===== *)
theory Packet_Define
  imports Std_Convert
begin

text \<open>
  \<open>CPacketDefine\<close>, \<open>CPacketWriter\<close> and \<open>CPacketReader\<close> of \<open>include/network/PacketDefine.cpp\<close>:
  the wire format of the messages that the camera process and its clients exchange through
  shared memory.

  A packet is \<open>STX | length (4) | name | NUL | blocks | ETX\<close>, a block is
  \<open>length (4) | name | ':' | data\<close>. A pointer into a packet is the packet's memory (a byte
  list) and an offset; a \<open>BlockItem\<close> of the reader does not copy its data, it keeps the offset
  into the packet it was read from, so every operation that looks at the data takes the memory
  as it is at that time. Reads outside the memory, undefined in C++, are \<open>OutOfBounds\<close>.
\<close>

section \<open>CPacketDefine\<close>

definition m_stx :: "u8 list" where
  "m_stx = [0x10, 0x20, 0x30, 0x40]"

definition m_etx :: "u8 list" where
  "m_etx = [0x40, 0x30, 0x20, 0x10]"

definition GetSTX :: "int \<Rightarrow> u8 cpp" where
  "GetSTX pos = rd m_stx pos"

definition GetETX :: "int \<Rightarrow> u8 cpp" where
  "GetETX pos = rd m_etx pos"

definition GetSizeSTX :: int where
  "GetSizeSTX = int (length m_stx)"

definition GetSizeETX :: int where
  "GetSizeETX = int (length m_etx)"

definition GetSizeMainLength :: int where
  "GetSizeMainLength = 4"

definition GetSizeBlockLength :: int where
  "GetSizeBlockLength = 4"

definition GetPosSTX :: int where
  "GetPosSTX = 0"

definition GetPosETX :: "int \<Rightarrow> int" where
  "GetPosETX main_length = main_length - GetSizeETX"

definition GetPosMainLength :: int where
  "GetPosMainLength = GetPosSTX + GetSizeSTX"

definition GetPosMainName :: int where
  "GetPosMainName = GetPosMainLength + GetSizeMainLength"

definition GetBlockDataDelimiter :: u8 where
  "GetBlockDataDelimiter = char_byte (CHR '':'')"

definition GetStartBlockDelimiter :: u8 where
  "GetStartBlockDelimiter = 0"

record BlockItem =
  bi_name :: string
  bi_data :: int      \<comment> \<open>pointer to the data: offset into the packet\<close>
  bi_length :: int

text \<open>
  The loop of \<open>HasSTX\<close> and \<open>HasETX\<close>: compare the bytes from index \<open>ii\<close> on, leaving at the first
  difference, so a short packet is only read as far as it agrees. \<open>get\<close> is \<open>GetSTX\<close> or \<open>GetETX\<close>.
\<close>

function cmp_mark :: "u8 list \<Rightarrow> int \<Rightarrow> (int \<Rightarrow> u8 cpp) \<Rightarrow> int \<Rightarrow> int \<Rightarrow> bool cpp" where
  "cmp_mark packet base get nLen ii =
     (if ii < nLen then
        cbind (rd packet (base + ii)) (\<lambda>b. cbind (get ii) (\<lambda>m.
          if b \<noteq> m then Inr False else cmp_mark packet base get nLen (ii + 1)))
      else Inr True)"
  by pat_completeness auto
termination
  by (relation "measure (\<lambda>(packet, base, get, nLen, ii). nat (nLen - ii))") auto

declare cmp_mark.simps [simp del]

definition HasSTX :: "u8 list \<Rightarrow> bool cpp" where
  "HasSTX packet = cmp_mark packet 0 GetSTX GetSizeSTX 0"

definition HasETX :: "u8 list \<Rightarrow> int \<Rightarrow> bool cpp" where
  "HasETX packet main_length = cmp_mark packet (GetPosETX main_length) GetETX GetSizeETX 0"

definition GetMainLength :: "u8 list \<Rightarrow> u32 cpp" where
  "GetMainLength packet =
     cbind (rd_n packet GetPosMainLength (nat GetSizeMainLength)) (\<lambda>bs. Inr (word_of_nat (le_val bs)))"

text \<open>
  The \<open>do\<close> loop that \<open>GetMainName\<close> and \<open>GetBlock\<close> use to read a name up to its delimiter: it always
  takes the first byte, whatever it is. It returns the name and the index of the delimiter.
\<close>

function scan_name :: "u8 list \<Rightarrow> u8 \<Rightarrow> string \<Rightarrow> int \<Rightarrow> (string \<times> int) cpp" where
  "scan_name mem delim name ii =
     cbind (rd mem ii) (\<lambda>b. cbind (rd mem (ii + 1)) (\<lambda>b'.
       if b' \<noteq> delim then scan_name mem delim (name @ [byte_char b]) (ii + 1)
       else Inr (name @ [byte_char b], ii + 1)))"
  by pat_completeness auto
termination
  by (relation "measure (\<lambda>(mem, delim, name, ii). nat (int (length mem) - ii))")
     (auto simp: rd_def split: if_splits)

declare scan_name.simps [simp del]

definition GetMainName :: "u8 list \<Rightarrow> string cpp" where
  "GetMainName packet =
     cbind (scan_name packet GetStartBlockDelimiter [] GetPosMainName) (\<lambda>(name, ii). Inr name)"

definition GetBlockLength :: "u8 list \<Rightarrow> int \<Rightarrow> u32 cpp" where
  "GetBlockLength packet block =
     cbind (rd_n packet block (nat GetSizeBlockLength)) (\<lambda>bs. Inr (word_of_nat (le_val bs)))"

definition GetBlock :: "u8 list \<Rightarrow> int \<Rightarrow> BlockItem \<Rightarrow> (int \<times> BlockItem) cpp" where
  "GetBlock packet block item =
     cbind (GetBlockLength packet block) (\<lambda>nLen.
     cbind (scan_name packet GetBlockDataDelimiter (bi_name item) (block + GetSizeBlockLength)) (\<lambda>(name, ii).
       Inr (0, item\<lparr>bi_name := name, bi_data := ii + 1,
                   bi_length := c_int (int (unat nLen) - (GetSizeBlockLength + 1 + int (length name)))\<rparr>)))"

section \<open>CPacketWriter\<close>

text \<open>
  \<open>m_buffer\<close> points to a vector owned by the caller; \<open>None\<close> is the null pointer, \<open>Some b\<close> the vector's
  bytes. The constructors leave \<open>m_pos\<close> uninitialised: \<open>junk\<close> stands for its value.
\<close>

record CPacketWriter =
  m_pos :: nat
  m_buffer :: "u8 list option"

definition CPacketWriter_new :: "nat \<Rightarrow> u8 list option \<Rightarrow> CPacketWriter" where
  "CPacketWriter_new junk buffer = \<lparr>m_pos = junk, m_buffer = buffer\<rparr>"

definition CPacketWriter_new_size :: "nat \<Rightarrow> u8 list \<Rightarrow> nat \<Rightarrow> CPacketWriter" where
  "CPacketWriter_new_size junk buffer size' =
     \<lparr>m_pos = junk, m_buffer = Some (if length buffer < size' then vec_resize size' 0 buffer else buffer)\<rparr>"

definition SetBuffer :: "u8 list option \<Rightarrow> CPacketWriter \<Rightarrow> CPacketWriter" where
  "SetBuffer buffer w = w\<lparr>m_buffer := buffer\<rparr>"

definition GetBufferPtr :: "CPacketWriter \<Rightarrow> u8 list cpp" where
  "GetBufferPtr w = (case m_buffer w of None \<Rightarrow> Inl NullPointer | Some b \<Rightarrow> Inr b)"

definition GetBufferLength :: "CPacketWriter \<Rightarrow> nat cpp" where
  "GetBufferLength w = cbind (GetBufferPtr w) (\<lambda>b. Inr (length b))"

definition GetPos :: "CPacketWriter \<Rightarrow> nat" where
  "GetPos w = m_pos w"

definition Writer_Clear :: "CPacketWriter \<Rightarrow> CPacketWriter" where
  "Writer_Clear w = w\<lparr>m_pos := 0\<rparr>"

definition GetBlockHeaderLength :: "string \<Rightarrow> nat" where
  "GetBlockHeaderLength name = nat GetSizeBlockLength + length name + 1"

definition CheckBuffer :: "nat \<Rightarrow> CPacketWriter \<Rightarrow> int \<times> CPacketWriter" where
  "CheckBuffer len w = (case m_buffer w of None \<Rightarrow> (1, w)
     | Some b \<Rightarrow> (0, if m_pos w + len > length b
                      then w\<lparr>m_buffer := Some (vec_resize (length b + len) 0 b)\<rparr> else w))"

definition WriteCurBuffer :: "u8 list \<Rightarrow> CPacketWriter \<Rightarrow> CPacketWriter cpp" where
  "WriteCurBuffer src w =
     cbind (GetBufferPtr w) (\<lambda>b. cbind (wr b (m_pos w) src) (\<lambda>b'.
       Inr (w\<lparr>m_buffer := Some b', m_pos := m_pos w + length src\<rparr>)))"

definition WriteBuffer :: "nat \<Rightarrow> u8 list \<Rightarrow> CPacketWriter \<Rightarrow> CPacketWriter cpp" where
  "WriteBuffer pos src w =
     cbind (GetBufferPtr w) (\<lambda>b. cbind (wr b pos src) (\<lambda>b'. Inr (w\<lparr>m_buffer := Some b'\<rparr>)))"

definition BufferPushBack :: "u8 \<Rightarrow> CPacketWriter \<Rightarrow> CPacketWriter cpp" where
  "BufferPushBack data w = WriteCurBuffer [data] w"

definition WriteBlockName :: "string \<Rightarrow> CPacketWriter \<Rightarrow> CPacketWriter cpp" where
  "WriteBlockName name w =
     cbind (WriteCurBuffer (str_bytes name) w) (BufferPushBack GetBlockDataDelimiter)"

definition Writer_GetMainName :: "CPacketWriter \<Rightarrow> string cpp" where
  "Writer_GetMainName w = (case m_buffer w of None \<Rightarrow> Inr [] | Some b \<Rightarrow> GetMainName b)"

text \<open>The \<open>for\<close> loops of \<open>Start\<close> and \<open>End\<close> that push the marks byte by byte.\<close>

function push_mark :: "(int \<Rightarrow> u8 cpp) \<Rightarrow> int \<Rightarrow> int \<Rightarrow> CPacketWriter \<Rightarrow> CPacketWriter cpp" where
  "push_mark get size' ii w =
     (if ii < size' then cbind (get ii) (\<lambda>b. cbind (BufferPushBack b w) (push_mark get size' (ii + 1)))
      else Inr w)"
  by pat_completeness auto
termination
  by (relation "measure (\<lambda>(get, size', ii, w). nat (size' - ii))") auto

declare push_mark.simps [simp del]

definition Start :: "string \<Rightarrow> CPacketWriter \<Rightarrow> (int \<times> CPacketWriter) cpp" where
  "Start name w = (case m_buffer w of None \<Rightarrow> Inr (0, w)
     | Some b \<Rightarrow>
        let w1 = (if b = [] \<or> length b < 1024 then w\<lparr>m_buffer := Some (vec_resize 1024 0 b)\<rparr> else w);
            w2 = w1\<lparr>m_pos := 0\<rparr>
        in cbind (push_mark GetSTX GetSizeSTX 0 w2) (\<lambda>w3.
           let w4 = w3\<lparr>m_pos := m_pos w3 + nat GetSizeMainLength\<rparr>
           in cbind (WriteCurBuffer (str_bytes name) w4) (\<lambda>w5.
              cbind (BufferPushBack GetStartBlockDelimiter w5) (\<lambda>w6.
                Inr (c_int (int (m_pos w6)), w6)))))"

text \<open>\<open>Write(name, data, len)\<close>: \<open>data\<close> holds the \<open>len\<close> bytes at the source pointer.\<close>

definition Write_bytes :: "string \<Rightarrow> u8 list \<Rightarrow> CPacketWriter \<Rightarrow> (int \<times> CPacketWriter) cpp" where
  "Write_bytes name data w =
     (let block_len = word_of_nat (GetBlockHeaderLength name + length data) :: u32;
          (failed, w1) = CheckBuffer (unat block_len) w
      in if failed \<noteq> 0 then Inr (0, w1)
         else cbind (WriteCurBuffer (le_bytes 4 (unat block_len)) w1) (\<lambda>w2.
              cbind (WriteBlockName name w2) (\<lambda>w3.
              cbind (WriteCurBuffer data w3) (\<lambda>w4. Inr (c_int (int (m_pos w4)), w4)))))"

definition Write_string :: "string \<Rightarrow> string \<Rightarrow> CPacketWriter \<Rightarrow> (int \<times> CPacketWriter) cpp" where
  "Write_string name data w =
     (let block_len = word_of_nat (GetBlockHeaderLength name + length data) :: u32;
          (failed, w1) = CheckBuffer (unat block_len) w
      in if failed \<noteq> 0 then Inr (0, w1)
         else cbind (WriteCurBuffer (le_bytes 4 (unat block_len)) w1) (\<lambda>w2.
              cbind (WriteBlockName name w2) (\<lambda>w3.
              cbind (WriteCurBuffer (str_bytes data) w3) (\<lambda>w4. Inr (c_int (int (m_pos w4)), w4)))))"

text \<open>
  \<open>Write(name, len, func)\<close>: the caller's \<open>func\<close> gets the write pointer and fills in the data. It is a
  parameter: it maps the memory from the write pointer on to what it leaves there.
\<close>

definition Write_func :: "string \<Rightarrow> nat \<Rightarrow> (u8 list \<Rightarrow> u8 list) \<Rightarrow> CPacketWriter \<Rightarrow> (int \<times> CPacketWriter) cpp" where
  "Write_func name len func w =
     (let block_len = word_of_nat (GetBlockHeaderLength name + len) :: u32;
          (failed, w1) = CheckBuffer (unat block_len) w
      in if failed \<noteq> 0 then Inr (0, w1)
         else cbind (WriteCurBuffer (le_bytes 4 (unat block_len)) w1) (\<lambda>w2.
              cbind (WriteBlockName name w2) (\<lambda>w3.
              cbind (GetBufferPtr w3) (\<lambda>b.
                let w4 = w3\<lparr>m_buffer := Some (take (m_pos w3) b @ func (drop (m_pos w3) b)),
                            m_pos := m_pos w3 + len\<rparr>
                in Inr (c_int (int (m_pos w4)), w4)))))"

definition Write_int32 :: "string \<Rightarrow> int \<Rightarrow> CPacketWriter \<Rightarrow> (int \<times> CPacketWriter) cpp" where
  "Write_int32 name data w = Write_string name (to_string data) w"

definition Write_uint32 :: "string \<Rightarrow> u32 \<Rightarrow> CPacketWriter \<Rightarrow> (int \<times> CPacketWriter) cpp" where
  "Write_uint32 name data w = Write_string name (to_string (uint data)) w"

definition Write_int64 :: "string \<Rightarrow> 64 word \<Rightarrow> CPacketWriter \<Rightarrow> (int \<times> CPacketWriter) cpp" where
  "Write_int64 name data w = Write_string name (to_string (sint data)) w"

definition Write_uint64 :: "string \<Rightarrow> 64 word \<Rightarrow> CPacketWriter \<Rightarrow> (int \<times> CPacketWriter) cpp" where
  "Write_uint64 name data w = Write_string name (to_string (uint data)) w"

definition Write_long :: "string \<Rightarrow> int \<Rightarrow> CPacketWriter \<Rightarrow> (int \<times> CPacketWriter) cpp" where
  "Write_long name data w = Write_string name (to_string data) w"

definition Write_bool :: "string \<Rightarrow> bool \<Rightarrow> CPacketWriter \<Rightarrow> (int \<times> CPacketWriter) cpp" where
  "Write_bool name data w = Write_string name (to_string (if data then 1 else 0)) w"

text \<open>
  The \<open>float\<close> and \<open>double\<close> overloads print with \<open>std::fixed\<close> and five decimals; the printing of a
  floating-point number is the parameter \<open>fixed5\<close>.
\<close>

definition Write_double :: "('f \<Rightarrow> string) \<Rightarrow> string \<Rightarrow> 'f \<Rightarrow> CPacketWriter \<Rightarrow> (int \<times> CPacketWriter) cpp" where
  "Write_double fixed5 name data w = Write_string name (fixed5 data) w"

definition Write_float :: "('f \<Rightarrow> string) \<Rightarrow> string \<Rightarrow> 'f \<Rightarrow> CPacketWriter \<Rightarrow> (int \<times> CPacketWriter) cpp" where
  "Write_float fixed5 name data w = Write_string name (fixed5 data) w"

text \<open>
  \<open>End\<close> pushes the end mark and copies the first four bytes of \<open>m_pos\<close>, an 8-byte \<open>size_t\<close>, to the
  packet's length field. It does not call \<open>CheckBuffer\<close>.
\<close>

definition End :: "CPacketWriter \<Rightarrow> (int \<times> CPacketWriter) cpp" where
  "End w = (case m_buffer w of None \<Rightarrow> Inr (0, w)
     | Some b \<Rightarrow>
        cbind (push_mark GetETX GetSizeETX 0 w) (\<lambda>w1.
        cbind (WriteBuffer (nat GetPosMainLength) (take (nat GetSizeMainLength) (le_bytes 8 (m_pos w1))) w1) (\<lambda>w2.
          Inr (c_int (int (m_pos w2)), w2))))"

section \<open>CPacketReader\<close>

record CPacketReader =
  m_main_name :: string
  m_block_items :: "BlockItem list"

definition CPacketReader_new :: CPacketReader where
  "CPacketReader_new = \<lparr>m_main_name = [], m_block_items = []\<rparr>"

definition Reader_Clear :: "CPacketReader \<Rightarrow> CPacketReader" where
  "Reader_Clear r = r\<lparr>m_main_name := [], m_block_items := []\<rparr>"

definition BlockItem_new :: BlockItem where
  "BlockItem_new = \<lparr>bi_name = [], bi_data = 0, bi_length = 0\<rparr>"

text \<open>
  The \<open>while\<close> loop of \<open>DoAnalyze\<close>. The block lengths come from the packet, so it need not end:
  \<open>None\<close> is "does not return". \<open>nPos += nLen\<close> adds a \<open>uint32_t\<close> to an \<open>int\<close>.
\<close>

partial_function (option) analyze_blocks :: "u8 list \<Rightarrow> int \<Rightarrow> int \<Rightarrow> BlockItem list \<Rightarrow> BlockItem list cpp option" where
  "analyze_blocks packet nEndPos nPos items =
     (if nPos < nEndPos then
        (case GetBlockLength packet nPos of Inl e \<Rightarrow> Some (Inl e)
         | Inr nLen \<Rightarrow>
           (case GetBlock packet nPos BlockItem_new of Inl e \<Rightarrow> Some (Inl e)
            | Inr (_, item) \<Rightarrow>
                analyze_blocks packet nEndPos (c_int (nPos + int (unat nLen))) (items @ [item])))
      else Some (Inr items))"

definition DoAnalyze :: "u8 list \<Rightarrow> int \<Rightarrow> CPacketReader \<Rightarrow> (int \<times> CPacketReader) cpp option" where
  "DoAnalyze packet len r =
     (let r1 = Reader_Clear r in
      case HasSTX packet of Inl e \<Rightarrow> Some (Inl e)
      | Inr stx \<Rightarrow> if \<not> stx then Some (Inr (1, r1)) else
      (case HasETX packet len of Inl e \<Rightarrow> Some (Inl e)
      | Inr etx \<Rightarrow> if \<not> etx then Some (Inr (2, r1)) else
      (case GetMainName packet of Inl e \<Rightarrow> Some (Inl e)
      | Inr name \<Rightarrow>
        let r2 = r1\<lparr>m_main_name := name\<rparr> in
        if name = [] then Some (Inr (3, r2)) else
        (case GetMainLength packet of Inl e \<Rightarrow> Some (Inl e)
        | Inr main_length \<Rightarrow>
          let nEndPos = c_int (GetPosSTX + int (unat main_length) - GetSizeETX);
              nPos = c_int (GetPosMainName + int (length name) + 1)
          in (case analyze_blocks packet nEndPos nPos [] of None \<Rightarrow> None
              | Some (Inl e) \<Rightarrow> Some (Inl e)
              | Some (Inr items) \<Rightarrow> Some (Inr (0, r2\<lparr>m_block_items := items\<rparr>)))))))"

definition GetReadMainName :: "CPacketReader \<Rightarrow> string" where
  "GetReadMainName r = m_main_name r"

definition HasReadMainName :: "CPacketReader \<Rightarrow> bool" where
  "HasReadMainName r = (if m_main_name r = [] then False else True)"

text \<open>
  \<open>Read\<close> returns the C++ status (0 found, 1 not found) and the value of the output argument, which
  stays the caller's \<open>data\<close> when the name is not found.
\<close>

fun find_item :: "string \<Rightarrow> BlockItem list \<Rightarrow> BlockItem \<Rightarrow> int \<times> BlockItem" where
  "find_item name [] data = (1, data)"
| "find_item name (item # items) data =
     (if name = bi_name item then (0, item) else find_item name items data)"

definition Read_item :: "CPacketReader \<Rightarrow> string \<Rightarrow> BlockItem \<Rightarrow> int \<times> BlockItem" where
  "Read_item r name data = find_item name (m_block_items r) data"

definition ReadLength :: "CPacketReader \<Rightarrow> string \<Rightarrow> int" where
  "ReadLength r name =
     (let (ret, data) = Read_item r name BlockItem_new in if ret \<noteq> 0 then 0 else bi_length data)"

text \<open>
  \<open>data.insert(0, ptr, length)\<close>: the bytes go before what \<open>data\<close> already holds. A negative length
  becomes a huge \<open>size_t\<close> and \<open>insert\<close> throws \<open>std::length_error\<close>.
\<close>

definition Read_string :: "u8 list \<Rightarrow> CPacketReader \<Rightarrow> string \<Rightarrow> string \<Rightarrow> (int \<times> string) cpp" where
  "Read_string mem r name data =
     (let (ret, item) = Read_item r name BlockItem_new in
      if ret \<noteq> 0 then Inr (1, data)
      else if bi_length item < 0 then Inl StdLengthError
      else cbind (rd_n mem (bi_data item) (nat (bi_length item))) (\<lambda>bs. Inr (0, bytes_str bs @ data)))"

text \<open>The numeric overloads read a fresh string and convert it; \<open>conv\<close> is \<open>stoi\<close>, \<open>stol\<close>, \<open>stof\<close> or \<open>stod\<close>.\<close>

definition Read_conv :: "(string \<Rightarrow> 'a cpp) \<Rightarrow> u8 list \<Rightarrow> CPacketReader \<Rightarrow> string \<Rightarrow> 'a \<Rightarrow> (int \<times> 'a) cpp" where
  "Read_conv conv mem r name data =
     cbind (Read_string mem r name []) (\<lambda>(ret, temp).
       if ret \<noteq> 0 then Inr (1, data) else cbind (conv temp) (\<lambda>v. Inr (0, v)))"

definition Read_int32 :: "u8 list \<Rightarrow> CPacketReader \<Rightarrow> string \<Rightarrow> int \<Rightarrow> (int \<times> int) cpp" where
  "Read_int32 = Read_conv stoi"

definition Read_uint32 :: "u8 list \<Rightarrow> CPacketReader \<Rightarrow> string \<Rightarrow> u32 \<Rightarrow> (int \<times> u32) cpp" where
  "Read_uint32 = Read_conv (\<lambda>s. cbind (stoi s) (\<lambda>v. Inr (word_of_int v)))"

definition Read_int64 :: "u8 list \<Rightarrow> CPacketReader \<Rightarrow> string \<Rightarrow> 64 word \<Rightarrow> (int \<times> 64 word) cpp" where
  "Read_int64 = Read_conv (\<lambda>s. cbind (stoi s) (\<lambda>v. Inr (word_of_int v)))"

definition Read_uint64 :: "u8 list \<Rightarrow> CPacketReader \<Rightarrow> string \<Rightarrow> 64 word \<Rightarrow> (int \<times> 64 word) cpp" where
  "Read_uint64 = Read_conv (\<lambda>s. cbind (stoi s) (\<lambda>v. Inr (word_of_int v)))"

definition Read_long :: "u8 list \<Rightarrow> CPacketReader \<Rightarrow> string \<Rightarrow> int \<Rightarrow> (int \<times> int) cpp" where
  "Read_long = Read_conv stol"

definition Read_bool :: "u8 list \<Rightarrow> CPacketReader \<Rightarrow> string \<Rightarrow> bool \<Rightarrow> (int \<times> bool) cpp" where
  "Read_bool = Read_conv (\<lambda>s. cbind (stoi s) (\<lambda>v. Inr (v \<noteq> 0)))"

definition Read_float :: "(string \<Rightarrow> 'f cpp) \<Rightarrow> u8 list \<Rightarrow> CPacketReader \<Rightarrow> string \<Rightarrow> 'f \<Rightarrow> (int \<times> 'f) cpp" where
  "Read_float stof = Read_conv stof"

definition Read_double :: "(string \<Rightarrow> 'f cpp) \<Rightarrow> u8 list \<Rightarrow> CPacketReader \<Rightarrow> string \<Rightarrow> 'f \<Rightarrow> (int \<times> 'f) cpp" where
  "Read_double stod = Read_conv stod"

text \<open>\<open>Read(name, uint8_t*& data)\<close> hands out the pointer into the packet.\<close>

definition Read_ptr :: "CPacketReader \<Rightarrow> string \<Rightarrow> int \<Rightarrow> int \<times> int" where
  "Read_ptr r name data =
     (let (ret, item) = Read_item r name BlockItem_new in if ret \<noteq> 0 then (1, data) else (0, bi_data item))"

text \<open>\<open>ReadMemCopy\<close> into the caller's buffer \<open>data\<close>, and into a vector, which is grown when too small.\<close>

definition ReadMemCopy :: "u8 list \<Rightarrow> CPacketReader \<Rightarrow> string \<Rightarrow> u8 list \<Rightarrow> (int \<times> u8 list) cpp" where
  "ReadMemCopy mem r name data =
     (let (ret, item) = Read_item r name BlockItem_new in
      if ret \<noteq> 0 then Inr (1, data)
      else if bi_length item < 0 then Inl OutOfBounds
      else cbind (rd_n mem (bi_data item) (nat (bi_length item))) (\<lambda>bs.
           cbind (wr data 0 bs) (\<lambda>data'. Inr (0, data'))))"

text \<open>
  In \<open>data.size() < data_len\<close> the \<open>int\<close> is converted to \<open>size_t\<close>: a negative length is huge and the
  \<open>resize\<close> throws \<open>std::length_error\<close>.
\<close>

definition ReadMemCopy_vector :: "u8 list \<Rightarrow> CPacketReader \<Rightarrow> string \<Rightarrow> u8 list \<Rightarrow> (int \<times> u8 list) cpp" where
  "ReadMemCopy_vector mem r name data =
     (let (ret, item) = Read_item r name BlockItem_new in
      if ret \<noteq> 0 then Inr (1, data)
      else let data_len = ReadLength r name in
        if data_len < 0 then Inl StdLengthError
        else let data1 = (if length data < nat data_len then vec_resize (nat data_len) 0 data else data)
        in cbind (rd_n mem (bi_data item) (nat data_len)) (\<lambda>bs.
           cbind (wr data1 0 bs) (\<lambda>data'. Inr (0, data'))))"

end
