(* ===== verification/Packet_Codec.thy ===== *)
theory Packet_Codec
  imports Packet_Define
begin

text \<open>
  The wire format as a function of the packet's content, and the lemmas that connect it to the
  writer and the reader: what each writer operation leaves in the buffer, what the reader finds
  in a memory that holds a packet, and when either leaves its memory.
\<close>

section \<open>The wire format\<close>

type_synonym block = "string \<times> u8 list"

definition block_len :: "block \<Rightarrow> nat" where
  "block_len b = 5 + length (fst b) + length (snd b)"

definition block_bytes :: "block \<Rightarrow> u8 list" where
  "block_bytes b = le_bytes 4 (block_len b) @ str_bytes (fst b) @ [GetBlockDataDelimiter] @ snd b"

definition blocks_bytes :: "block list \<Rightarrow> u8 list" where
  "blocks_bytes bs = concat (map block_bytes bs)"

definition packet_len :: "string \<Rightarrow> block list \<Rightarrow> nat" where
  "packet_len name bs = 13 + length name + length (blocks_bytes bs)"

definition packet_bytes :: "string \<Rightarrow> block list \<Rightarrow> u8 list" where
  "packet_bytes name bs =
     m_stx @ le_bytes 4 (packet_len name bs) @ str_bytes name @ [GetStartBlockDelimiter]
       @ blocks_bytes bs @ m_etx"

text \<open>
  The reader takes the first byte of a name whatever it is and stops at the next delimiter, so
  these are exactly the names it reads back.
\<close>

definition main_name_ok :: "string \<Rightarrow> bool" where
  "main_name_ok n \<longleftrightarrow> n \<noteq> [] \<and> CHR 0x00 \<notin> set (tl n)"

definition block_name_ok :: "string \<Rightarrow> bool" where
  "block_name_ok n \<longleftrightarrow> n \<noteq> [] \<and> CHR '':'' \<notin> set (tl n)"

lemma length_block_bytes [simp]: "length (block_bytes b) = block_len b"
  by (simp add: block_bytes_def block_len_def)

lemma length_m_stx [simp]: "length m_stx = 4"
  by (simp add: m_stx_def)

lemma length_m_etx [simp]: "length m_etx = 4"
  by (simp add: m_etx_def)

lemma length_packet_bytes [simp]: "length (packet_bytes name bs) = packet_len name bs"
  by (simp add: packet_bytes_def packet_len_def)

lemma blocks_bytes_simps [simp]:
  "blocks_bytes [] = []"
  "blocks_bytes (b # bs) = block_bytes b @ blocks_bytes bs"
  "blocks_bytes (bs @ cs) = blocks_bytes bs @ blocks_bytes cs"
  by (simp_all add: blocks_bytes_def)

lemmas size_consts =
  GetSizeSTX_def GetSizeETX_def GetSizeMainLength_def GetSizeBlockLength_def
  GetPosSTX_def GetPosETX_def GetPosMainLength_def GetPosMainName_def

section \<open>The writer\<close>

text \<open>A writer that has written \<open>bs\<close> into a buffer whose remaining bytes are \<open>rest\<close>.\<close>

definition wstate :: "u8 list \<Rightarrow> u8 list \<Rightarrow> CPacketWriter" where
  "wstate bs rest = \<lparr>m_pos = length bs, m_buffer = Some (bs @ rest)\<rparr>"

lemma wstate_sel [simp]:
  "m_pos (wstate bs rest) = length bs" "m_buffer (wstate bs rest) = Some (bs @ rest)"
  by (simp_all add: wstate_def)

lemma WriteCurBuffer_wstate:
  "WriteCurBuffer src (wstate bs rest) =
     (if length src \<le> length rest then Inr (wstate (bs @ src) (drop (length src) rest))
      else Inl OutOfBounds)"
  by (simp add: WriteCurBuffer_def GetBufferPtr_def wr_def wstate_def)

lemma BufferPushBack_wstate:
  "BufferPushBack x (wstate bs rest) =
     (if rest = [] then Inl OutOfBounds else Inr (wstate (bs @ [x]) (tl rest)))"
  by (cases rest) (simp_all add: BufferPushBack_def WriteCurBuffer_wstate)

lemma WriteBlockName_wstate:
  "length name + 1 \<le> length rest \<Longrightarrow>
   WriteBlockName name (wstate bs rest) =
     Inr (wstate (bs @ str_bytes name @ [GetBlockDataDelimiter]) (drop (length name + 1) rest))"
  by (auto simp: WriteBlockName_def WriteCurBuffer_wstate BufferPushBack_wstate drop_Suc tl_drop)

lemma push_mark4:
  assumes "get 0 = Inr a" "get 1 = Inr b" "get 2 = Inr c" "get 3 = Inr d"
  shows "push_mark get 4 0 (wstate bs rest) =
    (if 4 \<le> length rest then Inr (wstate (bs @ [a, b, c, d]) (drop 4 rest)) else Inl OutOfBounds)"
proof -
  have "push_mark get 4 0 (wstate bs rest) =
    cbind (BufferPushBack a (wstate bs rest)) (\<lambda>w. cbind (BufferPushBack b w) (\<lambda>w.
    cbind (BufferPushBack c w) (\<lambda>w. BufferPushBack d w)))"
    (is "_ = ?chain")
  proof -
    have step: "push_mark get 4 ii = (\<lambda>w. cbind (get ii) (\<lambda>x. cbind (BufferPushBack x w) (push_mark get 4 (ii + 1))))"
      if "ii < 4" for ii
      using that by (simp add: fun_eq_iff push_mark.simps [of get 4 ii])
    have stop: "push_mark get 4 4 = Inr"
      by (simp add: fun_eq_iff push_mark.simps)
    have last: "cbind m Inr = m" for m :: "CPacketWriter cpp"
      by (cases m) auto
    show ?thesis
      using step [of 0] step [of 1] step [of 2] step [of 3] assms by (simp add: stop last)
  qed
  also have "?chain = (if 4 \<le> length rest then Inr (wstate (bs @ [a, b, c, d]) (drop 4 rest)) else Inl OutOfBounds)"
  proof (cases "4 \<le> length rest")
    case True
    then obtain p q r s t where "rest = p # q # r # s # t"
      by (auto simp: numeral_eq_Suc Suc_le_length_iff)
    then show ?thesis by (simp add: BufferPushBack_wstate)
  next
    case False
    then have "rest = [] \<or> (\<exists>p. rest = [p]) \<or> (\<exists>p q. rest = [p, q]) \<or> (\<exists>p q r. rest = [p, q, r])"
      by (cases rest; cases "tl rest"; cases "tl (tl rest)"; cases "tl (tl (tl rest))") auto
    then show ?thesis by (auto simp: BufferPushBack_wstate)
  qed
  finally show ?thesis .
qed

lemma push_stx:
  "push_mark GetSTX 4 0 (wstate bs rest) =
    (if 4 \<le> length rest then Inr (wstate (bs @ m_stx) (drop 4 rest)) else Inl OutOfBounds)"
  using push_mark4 [of GetSTX "0x10" "0x20" "0x30" "0x40"]
  by (simp add: GetSTX_def rd_def m_stx_def)

lemma push_etx:
  "push_mark GetETX 4 0 (wstate bs rest) =
    (if 4 \<le> length rest then Inr (wstate (bs @ m_etx) (drop 4 rest)) else Inl OutOfBounds)"
  using push_mark4 [of GetETX "0x40" "0x30" "0x20" "0x10"]
  by (simp add: GetETX_def rd_def m_etx_def)

text \<open>The buffer after \<open>CheckBuffer\<close>: it grows by the whole block when the room is too small.\<close>

definition grown :: "nat \<Rightarrow> u8 list \<Rightarrow> u8 list" where
  "grown len rest = (if length rest < len then rest @ replicate len 0 else rest)"

lemma length_grown: "len \<le> length (grown len rest)"
  by (simp add: grown_def)

lemma CheckBuffer_wstate: "CheckBuffer len (wstate bs rest) = (0, wstate bs (grown len rest))"
  by (auto simp: CheckBuffer_def grown_def wstate_def vec_resize_def)

lemma Write_string_bytes: "Write_string name data = Write_bytes name (str_bytes data)"
  by (simp add: fun_eq_iff Write_string_def Write_bytes_def)

lemma Write_bytes_wstate:
  assumes "block_len (name, data) < 2 ^ 32"
  shows "Write_bytes name data (wstate bs rest) =
    (let bs' = bs @ block_bytes (name, data) in
     Inr (c_int (int (length bs')),
          wstate bs' (drop (block_len (name, data)) (grown (block_len (name, data)) rest))))"
proof -
  let ?L = "block_len (name, data)" and ?r = "grown (block_len (name, data)) rest"
  have L: "GetBlockHeaderLength name + length data = ?L"
    by (simp add: GetBlockHeaderLength_def block_len_def size_consts)
  have u: "unat (word_of_nat ?L :: u32) = ?L"
    using assms by (intro unat_u32_of_nat) simp
  have room: "?L \<le> length ?r"
    by (rule length_grown)
  then have r4: "4 \<le> length ?r" and rn: "length name + 1 \<le> length (drop 4 ?r)"
    and rd: "length data \<le> length (drop (length name + 1) (drop 4 ?r))"
    by (simp_all add: block_len_def)
  have "Write_bytes name data (wstate bs rest) =
    cbind (WriteCurBuffer (le_bytes 4 ?L) (wstate bs ?r)) (\<lambda>w2.
      cbind (WriteBlockName name w2) (\<lambda>w3.
      cbind (WriteCurBuffer data w3) (\<lambda>w4. Inr (c_int (int (m_pos w4)), w4))))"
    by (simp add: Write_bytes_def L u CheckBuffer_wstate)
  also have "\<dots> = cbind (WriteBlockName name (wstate (bs @ le_bytes 4 ?L) (drop 4 ?r))) (\<lambda>w3.
      cbind (WriteCurBuffer data w3) (\<lambda>w4. Inr (c_int (int (m_pos w4)), w4)))"
    using r4 by (simp add: WriteCurBuffer_wstate)
  also have "\<dots> = cbind (WriteCurBuffer data
      (wstate (bs @ le_bytes 4 ?L @ str_bytes name @ [GetBlockDataDelimiter])
        (drop (length name + 1) (drop 4 ?r)))) (\<lambda>w4. Inr (c_int (int (m_pos w4)), w4))"
    using rn by (simp add: WriteBlockName_wstate)
  also have "\<dots> = Inr (c_int (int (length (bs @ block_bytes (name, data)))),
      wstate (bs @ block_bytes (name, data)) (drop ?L ?r))"
    using rd by (simp add: WriteCurBuffer_wstate block_bytes_def block_len_def add_ac)
  finally show ?thesis by (simp add: Let_def)
qed

text \<open>A whole message: \<open>Start\<close>, one \<open>Write\<close> per block, \<open>End\<close>, as every packet type writes it.\<close>

primrec write_blocks :: "block list \<Rightarrow> CPacketWriter \<Rightarrow> CPacketWriter cpp" where
  "write_blocks [] w = Inr w"
| "write_blocks (b # bs) w =
     cbind (Write_bytes (fst b) (snd b) w) (\<lambda>(_, w'). write_blocks bs w')"

definition write_packet :: "string \<Rightarrow> block list \<Rightarrow> CPacketWriter \<Rightarrow> CPacketWriter cpp" where
  "write_packet name bs w =
     cbind (Start name w) (\<lambda>(_, w1). cbind (write_blocks bs w1) (\<lambda>w2.
       cbind (End w2) (\<lambda>(_, w3). Inr w3)))"

text \<open>
  The room left in the buffer after the blocks. A block that fits takes its length; one that does
  not makes the buffer grow by exactly its length, so the room stays what it was.
\<close>

primrec room_after :: "nat \<Rightarrow> block list \<Rightarrow> nat" where
  "room_after r [] = r"
| "room_after r (b # bs) = room_after (if r < block_len b then r else r - block_len b) bs"

lemma write_blocks_wstate:
  assumes "\<forall>b \<in> set bl. block_len b < 2 ^ 32"
  shows "\<exists>rest'. write_blocks bl (wstate bs rest) = Inr (wstate (bs @ blocks_bytes bl) rest')
    \<and> length rest' = room_after (length rest) bl"
  using assms
proof (induction bl arbitrary: bs rest)
  case Nil
  show ?case by (rule exI [of _ rest]) simp
next
  case (Cons b bl)
  let ?r = "drop (block_len b) (grown (block_len b) rest)"
  have "Write_bytes (fst b) (snd b) (wstate bs rest) =
    Inr (c_int (int (length (bs @ block_bytes b))), wstate (bs @ block_bytes b) ?r)"
    using Write_bytes_wstate [of "fst b" "snd b" bs rest] Cons.prems by simp
  moreover obtain rest' where
    "write_blocks bl (wstate (bs @ block_bytes b) ?r) = Inr (wstate ((bs @ block_bytes b) @ blocks_bytes bl) rest')"
    "length rest' = room_after (length ?r) bl"
    using Cons.IH [of "bs @ block_bytes b" ?r] Cons.prems by auto
  moreover have "length ?r = (if length rest < block_len b then length rest else length rest - block_len b)"
    by (simp add: grown_def)
  ultimately show ?case
    by (intro exI [of _ rest']) simp
qed

definition start_size :: "u8 list \<Rightarrow> nat" where
  "start_size b = max 1024 (length b)"

lemma Start_wstate:
  assumes "m_buffer w = Some b" and "length name + 9 \<le> start_size b"
  shows "\<exists>j rest. length j = 4 \<and> length rest = start_size b - (length name + 9) \<and>
    Start name w = Inr (c_int (int (length name + 9)),
      wstate (m_stx @ j @ str_bytes name @ [GetStartBlockDelimiter]) rest)"
proof -
  define b1 where "b1 = (if b = [] \<or> length b < 1024 then vec_resize 1024 0 b else b)"
  have len: "length b1 = start_size b"
    by (auto simp: b1_def start_size_def)
  have w2: "(if b = [] \<or> length b < 1024 then w\<lparr>m_buffer := Some (vec_resize 1024 0 b)\<rparr> else w)\<lparr>m_pos := 0\<rparr> = wstate [] b1"
    using assms(1) by (auto simp: b1_def wstate_def)
  define b2 where "b2 = drop 4 b1"
  define j where "j = take 4 b2"
  have j: "length j = 4"
    using assms(2) len by (simp add: j_def b2_def)
  have p: "(wstate m_stx b2)\<lparr>m_pos := m_pos (wstate m_stx b2) + nat GetSizeMainLength\<rparr> = wstate (m_stx @ j) (drop 4 b2)"
    using j by (simp add: wstate_def size_consts j_def)
  let ?n = "length (str_bytes name)"
  have fit: "?n < length (drop 4 b2)"
    using assms(2) len by (simp add: b2_def)
  have "Start name w = cbind (WriteCurBuffer (str_bytes name) (wstate (m_stx @ j) (drop 4 b2))) (\<lambda>w5.
      cbind (BufferPushBack GetStartBlockDelimiter w5) (\<lambda>w6. Inr (c_int (int (m_pos w6)), w6)))"
    using assms len p by (simp add: Start_def w2 push_stx Let_def b2_def [symmetric] size_consts)
  also have "\<dots> = Inr (c_int (int (length name + 9)),
      wstate (m_stx @ j @ str_bytes name @ [GetStartBlockDelimiter]) (tl (drop ?n (drop 4 b2))))"
    using fit j by (simp add: WriteCurBuffer_wstate BufferPushBack_wstate add.commute)
  finally show ?thesis
    using j len by (intro exI [of _ j] exI [of _ "tl (drop ?n (drop 4 b2))"]) (simp add: b2_def)
qed

lemma End_wstate:
  assumes "length j = 4"
  shows "End (wstate (m_stx @ j @ t) rest) =
    (if 4 \<le> length rest
     then Inr (c_int (int (length t + 12)), wstate (m_stx @ le_bytes 4 (length t + 12) @ t @ m_etx) (drop 4 rest))
     else Inl OutOfBounds)"
proof (cases "4 \<le> length rest")
  case True
  let ?w1 = "wstate (m_stx @ j @ t @ m_etx) (drop 4 rest)"
  have "End (wstate (m_stx @ j @ t) rest) =
    cbind (WriteBuffer 4 (le_bytes 4 (length t + 12)) ?w1) (\<lambda>w2. Inr (c_int (int (m_pos w2)), w2))"
    using True assms by (simp add: End_def push_etx take_le_bytes size_consts add_ac)
  also have "WriteBuffer 4 (le_bytes 4 (length t + 12)) ?w1 =
    Inr (wstate (m_stx @ le_bytes 4 (length t + 12) @ t @ m_etx) (drop 4 rest))"
    using assms by (simp add: WriteBuffer_def GetBufferPtr_def wr_def wstate_def)
  finally show ?thesis
    using True by (simp add: add_ac)
next
  case False
  then show ?thesis by (simp add: End_def push_etx size_consts)
qed

lemma room_after_total: "r \<le> room_after r bl + length (blocks_bytes bl)"
proof (induction bl arbitrary: r)
  case Nil
  then show ?case by simp
next
  case (Cons b bl)
  from Cons [of r] Cons [of "r - block_len b"] show ?case by auto
qed

text \<open>
  The complete behaviour of writing one message: the buffer holds the packet from its start and
  \<open>m_pos\<close> is its length, unless fewer than four bytes are left for the end mark, in which case
  \<open>End\<close> writes past the buffer.
\<close>

lemma write_packet_result:
  assumes "m_buffer w = Some b" and "length name + 9 \<le> start_size b"
    and "\<forall>x \<in> set bl. block_len x < 2 ^ 32"
  shows "if 4 \<le> room_after (start_size b - (length name + 9)) bl
    then (\<exists>rest. write_packet name bl w = Inr (wstate (packet_bytes name bl) rest)
      \<and> start_size b \<le> packet_len name bl + length rest)
    else write_packet name bl w = Inl OutOfBounds"
proof -
  obtain j rest where j: "length j = 4" and r: "length rest = start_size b - (length name + 9)"
    and s: "Start name w = Inr (c_int (int (length name + 9)),
      wstate (m_stx @ j @ str_bytes name @ [GetStartBlockDelimiter]) rest)"
    using Start_wstate [OF assms(1,2)] by blast
  let ?t = "str_bytes name @ [GetStartBlockDelimiter] @ blocks_bytes bl"
  obtain rest' where wb: "write_blocks bl (wstate (m_stx @ j @ str_bytes name @ [GetStartBlockDelimiter]) rest)
      = Inr (wstate (m_stx @ j @ ?t) rest')"
    and r': "length rest' = room_after (length rest) bl"
    using write_blocks_wstate [OF assms(3), of "m_stx @ j @ str_bytes name @ [GetStartBlockDelimiter]" rest]
    by auto
  have "write_packet name bl w = cbind (End (wstate (m_stx @ j @ ?t) rest')) (\<lambda>(_, w3). Inr w3)"
    by (simp add: write_packet_def s wb)
  then show ?thesis
    using r r' room_after_total [of "length rest" bl] assms(2)
    by (auto simp: End_wstate [OF j] packet_bytes_def packet_len_def add_ac)
qed

lemma room_after_fits: "length (blocks_bytes bl) + k \<le> r \<Longrightarrow> k \<le> room_after r bl"
proof (induction bl arbitrary: r)
  case Nil
  then show ?case by simp
next
  case (Cons b bl)
  then show ?case by auto
qed

lemma write_packet_fits:
  assumes "m_buffer w = Some b" and "packet_len name bl \<le> start_size b"
    and "\<forall>x \<in> set bl. block_len x < 2 ^ 32"
  obtains rest where "write_packet name bl w = Inr (wstate (packet_bytes name bl) rest)"
    and "start_size b \<le> packet_len name bl + length rest"
  using write_packet_result [OF assms(1) _ assms(3), of name]
    room_after_fits [of bl 4 "start_size b - (length name + 9)"] assms(2)
  by (auto simp: packet_len_def split: if_splits)

end
