(* ===== verification/Packet_Parse.thy ===== *)
theory Packet_Parse
  imports Packet_Codec
begin

text \<open>
  What the reader finds in a memory that holds a packet: the marks, the names and the blocks, and
  the values of \<open>Read\<close> on the items it collected. The last section is about memories that hold no
  packet: when \<open>DoAnalyze\<close> returns and when it does not.
\<close>

section \<open>Marks, lengths and names\<close>

lemma cmp_mark4:
  assumes "length xs = 4" and "\<And>i. i < 4 \<Longrightarrow> get (int i) = Inr (xs ! i)" and "base = int (length pre)"
  shows "cmp_mark (pre @ xs @ post) base get 4 0 = Inr True"
proof -
  have rd: "rd (pre @ xs @ post) (base + int i) = Inr (xs ! i)" if "i < 4" for i
    using that assms(1,3) by (simp add: rd_def nat_add_distrib nth_append)
  have g: "get 0 = Inr (xs ! 0)" "get 1 = Inr (xs ! 1)" "get 2 = Inr (xs ! 2)" "get 3 = Inr (xs ! 3)"
    using assms(2) [of 0] assms(2) [of 1] assms(2) [of 2] assms(2) [of 3] by simp_all
  show ?thesis
    using rd [of 0] rd [of 1] rd [of 2] rd [of 3] g
    by (simp add: cmp_mark.simps)
qed

lemma HasSTX_ok: "HasSTX (m_stx @ post) = Inr True"
  using cmp_mark4 [of m_stx GetSTX 0 "[]" post]
  by (simp add: HasSTX_def GetSTX_def rd_nth size_consts)

lemma HasSTX_iff:
  assumes "4 \<le> length mem"
  shows "HasSTX mem = Inr (take 4 mem = m_stx)"
proof -
  obtain p q r s t where mem: "mem = p # q # r # s # t"
    using assms by (auto simp: numeral_eq_Suc Suc_le_length_iff)
  have get: "GetSTX 0 = Inr 0x10" "GetSTX 1 = Inr 0x20" "GetSTX 2 = Inr 0x30" "GetSTX 3 = Inr 0x40"
    by (simp_all add: GetSTX_def rd_def m_stx_def)
  have rd: "rd mem 0 = Inr p" "rd mem 1 = Inr q" "rd mem 2 = Inr r" "rd mem 3 = Inr s"
    by (simp_all add: rd_def mem)
  have step: "cmp_mark mem 0 GetSTX 4 ii = cbind (rd mem ii) (\<lambda>b. cbind (GetSTX ii) (\<lambda>m.
      if b \<noteq> m then Inr False else cmp_mark mem 0 GetSTX 4 (ii + 1)))" if "ii < 4" for ii
    using that by (simp add: cmp_mark.simps [of mem 0 GetSTX 4 ii])
  have stop: "cmp_mark mem 0 GetSTX 4 4 = Inr True"
    by (simp add: cmp_mark.simps)
  show ?thesis
    using step [of 0] step [of 1] step [of 2] step [of 3]
    by (simp add: HasSTX_def size_consts stop rd get) (simp add: mem m_stx_def)
qed

lemma HasSTX_total: "4 \<le> length mem \<Longrightarrow> \<exists>b. HasSTX mem = Inr b"
  by (simp add: HasSTX_iff)

lemma HasETX_ok:
  assumes "len = int (length pre) + 4"
  shows "HasETX (pre @ m_etx @ post) len = Inr True"
  using cmp_mark4 [of m_etx GetETX "int (length pre)" pre post] assms
  by (simp add: HasETX_def GetETX_def rd_nth size_consts)

lemma GetMainLength_ok:
  assumes "n < 2 ^ 32"
  shows "GetMainLength (m_stx @ le_bytes 4 n @ post) = Inr (word_of_nat n)"
  using assms by (simp add: GetMainLength_def size_consts rd_n_append_mid le_val_le_bytes)

lemma GetBlockLength_ok:
  assumes "n < 2 ^ 32" and "pos = int (length pre)"
  shows "GetBlockLength (pre @ le_bytes 4 n @ post) pos = Inr (word_of_nat n)"
  using assms by (simp add: GetBlockLength_def size_consts rd_n_append_mid le_val_le_bytes)

lemma scan_name_ok:
  assumes "s \<noteq> []" and "d \<notin> set (tl (str_bytes s))"
  shows "scan_name (pre @ str_bytes s @ d # post) d acc (int (length pre))
    = Inr (acc @ s, int (length pre + length s))"
  using assms
proof (induction s arbitrary: pre acc)
  case Nil
  then show ?case by simp
next
  case (Cons c s)
  let ?m = "pre @ str_bytes (c # s) @ d # post"
  have r1: "rd ?m (int (length pre)) = Inr (char_byte c)"
    by (simp add: rd_append_mid)
  show ?case
  proof (cases s)
    case Nil
    have "rd ?m (int (length pre) + 1) = Inr d"
      using Nil rd_append_mid [of "int (length pre) + 1" "pre @ [char_byte c]" d post] by simp
    with r1 show ?thesis
      using Nil by (subst scan_name.simps) simp
  next
    case (Cons c' s')
    have "rd ?m (int (length pre) + 1) = Inr (char_byte c')"
      using Cons rd_append_mid [of "int (length pre) + 1" "pre @ [char_byte c]" "char_byte c'" "str_bytes s' @ d # post"]
      by simp
    moreover have "char_byte c' \<noteq> d"
      using Cons.prems(2) Cons by auto
    ultimately have "scan_name ?m d acc (int (length pre))
        = scan_name ?m d (acc @ [c]) (int (length pre) + 1)"
      using r1 by (subst scan_name.simps) simp
    also have "\<dots> = scan_name ((pre @ [char_byte c]) @ str_bytes s @ d # post) d (acc @ [c])
        (int (length (pre @ [char_byte c])))"
      by (simp add: add.commute)
    also have "\<dots> = Inr ((acc @ [c]) @ s, int (length (pre @ [char_byte c]) + length s))"
      using Cons.prems Cons by (intro Cons.IH) auto
    finally show ?thesis by simp
  qed
qed

lemma delim_notin_bytes: "char_byte c \<notin> set (str_bytes s) \<longleftrightarrow> c \<notin> set s"
  by (auto simp: str_bytes_def)

lemma NUL_byte: "GetStartBlockDelimiter = char_byte (CHR 0x00)"
  by (simp add: GetStartBlockDelimiter_def char_byte_def)

lemma tl_str_bytes: "tl (str_bytes s) = str_bytes (tl s)"
  by (simp add: str_bytes_def map_tl)

lemma GetMainName_ok:
  assumes "main_name_ok n" and "length pre = 8"
  shows "GetMainName (pre @ str_bytes n @ [GetStartBlockDelimiter] @ post) = Inr n"
  using scan_name_ok [of n GetStartBlockDelimiter pre post "[]"] assms
  by (simp add: GetMainName_def size_consts main_name_ok_def NUL_byte tl_str_bytes delim_notin_bytes)

lemma GetBlock_ok:
  assumes "block_name_ok (fst b)" and "block_len b < 2 ^ 31" and "pos = int (length pre)"
  shows "GetBlock (pre @ block_bytes b @ post) pos BlockItem_new =
    Inr (0, \<lparr>bi_name = fst b, bi_data = pos + int (5 + length (fst b)), bi_length = int (length (snd b))\<rparr>)"
proof -
  let ?m = "pre @ block_bytes b @ post" and ?l = "le_bytes 4 (block_len b)"
  have len: "GetBlockLength ?m pos = Inr (word_of_nat (block_len b))"
    using assms GetBlockLength_ok [of "block_len b" pos pre]
    by (simp add: block_bytes_def)
  have u: "unat (word_of_nat (block_len b) :: u32) = block_len b"
    using assms(2) by (intro unat_u32_of_nat) simp
  have "scan_name ((pre @ ?l) @ str_bytes (fst b) @ GetBlockDataDelimiter # (snd b @ post))
      GetBlockDataDelimiter [] (int (length (pre @ ?l))) = Inr ([] @ fst b, int (length (pre @ ?l) + length (fst b)))"
    using assms(1)
    by (intro scan_name_ok)
       (simp_all add: block_name_ok_def GetBlockDataDelimiter_def tl_str_bytes delim_notin_bytes)
  then have sc: "scan_name ?m GetBlockDataDelimiter [] (pos + 4) = Inr (fst b, pos + 4 + int (length (fst b)))"
    using assms(3) by (simp add: block_bytes_def)
  have dl: "c_int (int (block_len b) - (4 + 1 + int (length (fst b)))) = int (length (snd b))"
    using assms(2) by (simp add: block_len_def c_int_small)
  have ul: "int (unat (word_of_nat (block_len b) :: u32)) = int (block_len b)"
    by (simp only: u)
  show ?thesis
    unfolding GetBlock_def len cbind.simps size_consts(4) BlockItem_new_def
    by (simp only: BlockItem.simps sc cbind.simps prod.case ul dl) simp
qed

section \<open>The blocks of a packet\<close>

text \<open>The items the reader collects for blocks that start at offset \<open>pos\<close>.\<close>

primrec items_at :: "int \<Rightarrow> block list \<Rightarrow> BlockItem list" where
  "items_at pos [] = []"
| "items_at pos (b # bs) =
     \<lparr>bi_name = fst b, bi_data = pos + int (5 + length (fst b)), bi_length = int (length (snd b))\<rparr>
       # items_at (pos + int (block_len b)) bs"

lemma analyze_blocks_stop: "\<not> p < e \<Longrightarrow> analyze_blocks m e p items = Some (Inr items)"
  by (simp add: analyze_blocks.simps)

lemma analyze_blocks_step:
  "p < e \<Longrightarrow> GetBlockLength m p = Inr l \<Longrightarrow> GetBlock m p BlockItem_new = Inr (z, it) \<Longrightarrow>
   analyze_blocks m e p items = analyze_blocks m e (c_int (p + int (unat l))) (items @ [it])"
  by (simp add: analyze_blocks.simps [of m e p])

lemma block_len_le: "b \<in> set bs \<Longrightarrow> block_len b \<le> length (blocks_bytes bs)"
  by (induction bs) auto

lemma analyze_blocks_ok:
  assumes "\<forall>b \<in> set bs. block_name_ok (fst b)"
    and "length pre + length (blocks_bytes bs) < 2 ^ 31"
  shows "analyze_blocks (pre @ blocks_bytes bs @ post) (int (length pre + length (blocks_bytes bs)))
      (int (length pre)) items = Some (Inr (items @ items_at (int (length pre)) bs))"
  using assms
proof (induction bs arbitrary: pre items)
  case Nil
  then show ?case by (simp add: analyze_blocks_stop)
next
  case (Cons b bs)
  let ?m = "pre @ blocks_bytes (b # bs) @ post" and ?e = "int (length pre + length (blocks_bytes (b # bs)))"
  let ?p = "int (length pre)"
  let ?it = "\<lparr>bi_name = fst b, bi_data = ?p + int (5 + length (fst b)), bi_length = int (length (snd b))\<rparr>"
  have bl: "block_len b < 2 ^ 31"
    using Cons.prems(2) by simp
  have pos: "0 < block_len b"
    by (simp add: block_len_def)
  have gl: "GetBlockLength ?m ?p = Inr (word_of_nat (block_len b))"
    using GetBlockLength_ok [of "block_len b" ?p pre] bl by (simp add: block_bytes_def)
  have gb: "GetBlock ?m ?p BlockItem_new = Inr (0, ?it)"
    using GetBlock_ok [of b ?p pre "blocks_bytes bs @ post"] Cons.prems(1) bl by simp
  have u: "unat (word_of_nat (block_len b) :: u32) = block_len b"
    using bl by (intro unat_u32_of_nat) simp
  have c: "c_int (?p + int (block_len b)) = int (length (pre @ block_bytes b))"
    using Cons.prems(2) by (simp add: c_int_small)
  have "analyze_blocks ?m ?e ?p items =
      analyze_blocks ?m ?e (int (length (pre @ block_bytes b))) (items @ [?it])"
    using analyze_blocks_step [OF _ gl gb, of ?e items] pos u c by simp
  also have "\<dots> = Some (Inr ((items @ [?it]) @ items_at (int (length (pre @ block_bytes b))) bs))"
    using Cons.IH [of "pre @ block_bytes b" "items @ [?it]"] Cons.prems by (simp add: add_ac)
  finally show ?case by simp
qed

definition blocks_pos :: "string \<Rightarrow> nat" where
  "blocks_pos name = 9 + length name"

lemma DoAnalyze_packet:
  assumes "main_name_ok name" and "\<forall>b \<in> set bs. block_name_ok (fst b)"
    and "packet_len name bs < 2 ^ 31"
  shows "DoAnalyze (packet_bytes name bs @ post) (int (packet_len name bs)) r =
    Some (Inr (0, r\<lparr>m_main_name := name, m_block_items := items_at (int (blocks_pos name)) bs\<rparr>))"
proof -
  let ?m = "packet_bytes name bs @ post" and ?n = "packet_len name bs"
  let ?h = "m_stx @ le_bytes 4 ?n @ str_bytes name @ [GetStartBlockDelimiter]"
  have m: "?m = ?h @ blocks_bytes bs @ m_etx @ post"
    by (simp add: packet_bytes_def)
  have stx: "HasSTX ?m = Inr True"
    using HasSTX_ok by (simp add: packet_bytes_def)
  have etx: "HasETX ?m (int ?n) = Inr True"
    using HasETX_ok [of "int ?n" "?h @ blocks_bytes bs" post] by (simp add: m packet_len_def)
  have nm: "GetMainName ?m = Inr name"
    using GetMainName_ok [OF assms(1), of "m_stx @ le_bytes 4 ?n"] by (simp add: packet_bytes_def)
  have len: "GetMainLength ?m = Inr (word_of_nat ?n)"
    using GetMainLength_ok [of ?n] assms(3) by (simp add: packet_bytes_def)
  have u: "unat (word_of_nat ?n :: u32) = ?n"
    using assms(3) by (intro unat_u32_of_nat) simp
  have e: "c_int (GetPosSTX + int ?n - GetSizeETX) = int (length ?h + length (blocks_bytes bs))"
    using assms(3) by (simp add: size_consts packet_len_def c_int_small)
  have p: "c_int (GetPosMainName + int (length name) + 1) = int (length ?h)"
    using assms(3) by (simp add: size_consts packet_len_def c_int_small)
  have loop: "analyze_blocks ?m (int (length ?h + length (blocks_bytes bs))) (int (length ?h)) [] =
      Some (Inr (items_at (int (length ?h)) bs))"
    using analyze_blocks_ok [of bs ?h "m_etx @ post" "[]"] assms(2,3)
    by (simp add: m packet_len_def)
  have h: "int (length ?h) = int (blocks_pos name)"
    by (simp add: blocks_pos_def)
  have ne: "name \<noteq> []"
    using assms(1) by (simp add: main_name_ok_def)
  show ?thesis
    unfolding DoAnalyze_def Let_def stx etx nm len sum.case u e p loop option.case
    unfolding h by (cases r) (simp add: ne Reader_Clear_def)
qed

section \<open>Reading the items\<close>

text \<open>A memory and the items of a reader that stand for a list of blocks.\<close>

definition items_of :: "u8 list \<Rightarrow> BlockItem list \<Rightarrow> block list \<Rightarrow> bool" where
  "items_of mem items bs \<longleftrightarrow> list_all2 (\<lambda>it b. bi_name it = fst b \<and> bi_length it = int (length (snd b))
     \<and> rd_n mem (bi_data it) (length (snd b)) = Inr (snd b)) items bs"

lemma items_of_packet:
  "p = int (length pre) \<Longrightarrow> items_of (pre @ blocks_bytes bs @ post) (items_at p bs) bs"
proof (induction bs arbitrary: pre p)
  case Nil
  then show ?case by (simp add: items_of_def)
next
  case (Cons b bs)
  let ?m = "pre @ blocks_bytes (b # bs) @ post"
  have "rd_n ((pre @ le_bytes 4 (block_len b) @ str_bytes (fst b) @ [GetBlockDataDelimiter]) @ snd b
      @ (blocks_bytes bs @ post)) (p + int (5 + length (fst b))) (length (snd b)) = Inr (snd b)"
    by (rule rd_n_append_mid) (simp_all add: Cons.prems)
  then have "rd_n ?m (p + int (5 + length (fst b))) (length (snd b)) = Inr (snd b)"
    by (simp add: block_bytes_def)
  moreover have "items_of ((pre @ block_bytes b) @ blocks_bytes bs @ post) (items_at (p + int (block_len b)) bs) bs"
    by (rule Cons.IH) (simp add: Cons.prems)
  ultimately show ?case by (simp add: items_of_def)
qed

lemma find_item_items_of:
  assumes "items_of mem items bs"
  shows "case map_of bs name of None \<Rightarrow> find_item name items d = (1, d)
    | Some x \<Rightarrow> (\<exists>it. find_item name items d = (0, it) \<and> bi_length it = int (length x)
        \<and> rd_n mem (bi_data it) (length x) = Inr x)"
  using assms unfolding items_of_def
proof (induction rule: list_all2_induct)
  case Nil
  then show ?case by simp
next
  case (Cons it items b bs)
  then show ?case by (cases b) (auto split: option.splits)
qed

lemma Read_string_items_of:
  assumes "items_of mem (m_block_items r) bs"
  shows "Read_string mem r name data =
    (case map_of bs name of None \<Rightarrow> Inr (1, data) | Some x \<Rightarrow> Inr (0, bytes_str x @ data))"
  using find_item_items_of [OF assms, of name BlockItem_new]
  by (auto simp: Read_string_def Read_item_def split: option.splits)

lemma Read_conv_items_of:
  assumes "items_of mem (m_block_items r) bs"
  shows "Read_conv conv mem r name data =
    (case map_of bs name of None \<Rightarrow> Inr (1, data)
     | Some x \<Rightarrow> cbind (conv (bytes_str x)) (\<lambda>v. Inr (0, v)))"
  by (simp add: Read_conv_def Read_string_items_of [OF assms] split: option.splits)

lemma ReadLength_items_of:
  assumes "items_of mem (m_block_items r) bs"
  shows "ReadLength r name = (case map_of bs name of None \<Rightarrow> 0 | Some x \<Rightarrow> int (length x))"
  using find_item_items_of [OF assms, of name BlockItem_new]
  by (auto simp: ReadLength_def Read_item_def split: option.splits)

lemma Read_ptr_items_of:
  assumes "items_of mem (m_block_items r) bs"
  shows "case map_of bs name of None \<Rightarrow> Read_ptr r name d = (1, d)
    | Some x \<Rightarrow> (\<exists>p. Read_ptr r name d = (0, p) \<and> rd_n mem p (length x) = Inr x)"
  using find_item_items_of [OF assms, of name BlockItem_new]
  by (auto simp: Read_ptr_def Read_item_def split: option.splits)

lemma ReadMemCopy_vector_items_of:
  assumes "items_of mem (m_block_items r) bs"
  shows "ReadMemCopy_vector mem r name data =
    (case map_of bs name of None \<Rightarrow> Inr (1, data) | Some x \<Rightarrow> Inr (0, x @ drop (length x) data))"
  using find_item_items_of [OF assms, of name BlockItem_new] ReadLength_items_of [OF assms, of name]
  by (auto simp: ReadMemCopy_vector_def Read_item_def wr_def vec_resize_def split: option.splits)

lemma ReadMemCopy_items_of:
  assumes "items_of mem (m_block_items r) bs"
  shows "ReadMemCopy mem r name data =
    (case map_of bs name of None \<Rightarrow> Inr (1, data)
     | Some x \<Rightarrow> if length x \<le> length data then Inr (0, x @ drop (length x) data) else Inl OutOfBounds)"
  using find_item_items_of [OF assms, of name BlockItem_new]
  by (auto simp: ReadMemCopy_def Read_item_def wr_def split: option.splits)


section \<open>When the block loop returns\<close>

text \<open>
  One turn of the loop of \<open>DoAnalyze\<close> from block offset \<open>p\<close>: the block is readable, and \<open>q\<close> is the
  offset of the next one.
\<close>

definition block_step :: "u8 list \<Rightarrow> int \<Rightarrow> int \<Rightarrow> int \<Rightarrow> bool" where
  "block_step m e p q \<longleftrightarrow> p < e \<and> (\<exists>l x. GetBlockLength m p = Inr l
     \<and> GetBlock m p BlockItem_new = Inr x \<and> q = c_int (p + int (unat l)))"

lemma analyze_blocks_step_None:
  "block_step m e p q \<Longrightarrow> \<exists>it. analyze_blocks m e p items = analyze_blocks m e q (items @ [it])"
proof -
  assume "block_step m e p q"
  then obtain l z it where "p < e" "GetBlockLength m p = Inr l" "GetBlock m p BlockItem_new = Inr (z, it)"
      "q = c_int (p + int (unat l))"
    by (auto simp: block_step_def)
  then show ?thesis
    using analyze_blocks_step [of p e m l z it items] by blast
qed

lemma analyze_blocks_no_step:
  assumes "\<nexists>q. block_step m e p q"
  shows "analyze_blocks m e p items \<noteq> None"
proof -
  consider "\<not> p < e" | x where "GetBlockLength m p = Inl x"
    | l x where "GetBlockLength m p = Inr l" "GetBlock m p BlockItem_new = Inl x"
    using assms by (cases "GetBlockLength m p"; cases "GetBlock m p BlockItem_new") (auto simp: block_step_def)
  then show ?thesis
    by cases (subst analyze_blocks.simps, simp)+
qed

text \<open>Where the loop returns, it has come to an offset from which there is no further turn.\<close>

lemma analyze_blocks_Some_stuck:
  "analyze_blocks m e p items = Some y \<Longrightarrow> \<exists>q. (block_step m e)\<^sup>*\<^sup>* p q \<and> (\<nexists>q'. block_step m e q q')"
proof (erule analyze_blocks.raw_induct
    [where P = "\<lambda>m e p items y. \<exists>q. (block_step m e)\<^sup>*\<^sup>* p q \<and> (\<nexists>q'. block_step m e q q')", rotated])
  fix rec m e p items and y :: "BlockItem list cpp"
  assume IH: "\<And>m e p items y. rec m e p items = Some y \<Longrightarrow>
      \<exists>q. (block_step m e)\<^sup>*\<^sup>* p q \<and> (\<nexists>q'. block_step m e q q')"
    and body: "(if p < e then case GetBlockLength m p of Inl e \<Rightarrow> Some (Inl e)
        | Inr nLen \<Rightarrow> (case GetBlock m p BlockItem_new of Inl e \<Rightarrow> Some (Inl e)
            | Inr (_, item) \<Rightarrow> rec m e (c_int (p + int (unat nLen))) (items @ [item]))
      else Some (Inr items)) = Some y"
  show "\<exists>q. (block_step m e)\<^sup>*\<^sup>* p q \<and> (\<nexists>q'. block_step m e q q')"
  proof (cases "\<exists>q. block_step m e p q")
    case False
    then show ?thesis by blast
  next
    case True
    then obtain l x q where st: "p < e" "GetBlockLength m p = Inr l" "GetBlock m p BlockItem_new = Inr x"
        "q = c_int (p + int (unat l))" and step: "block_step m e p q"
      by (auto simp: block_step_def)
    from body st have "rec m e q (items @ [snd x]) = Some y"
      by (cases x) simp
    from IH [OF this] obtain q' where "(block_step m e)\<^sup>*\<^sup>* q q'" "\<nexists>q''. block_step m e q' q''"
      by blast
    with step show ?thesis
      by (blast intro: converse_rtranclp_into_rtranclp)
  qed
qed

lemma analyze_blocks_stuck_Some:
  "(block_step m e)\<^sup>*\<^sup>* p q \<Longrightarrow> \<nexists>q'. block_step m e q q' \<Longrightarrow> analyze_blocks m e p items \<noteq> None"
proof (induction arbitrary: items rule: converse_rtranclp_induct)
  case base
  then show ?case using analyze_blocks_no_step by blast
next
  case (step p p')
  obtain it where "analyze_blocks m e p items = analyze_blocks m e p' (items @ [it])"
    using analyze_blocks_step_None [OF step.hyps(1)] by blast
  with step.IH [OF step.prems] show ?case by simp
qed

lemma analyze_blocks_returns_iff:
  "analyze_blocks m e p items \<noteq> None \<longleftrightarrow> (\<exists>q. (block_step m e)\<^sup>*\<^sup>* p q \<and> (\<nexists>q'. block_step m e q q'))"
  using analyze_blocks_Some_stuck analyze_blocks_stuck_Some by (metis not_Some_eq)

lemma block_step_det: "block_step m e p q \<Longrightarrow> block_step m e p q' \<Longrightarrow> q = q'"
  by (auto simp: block_step_def)

text \<open>A block whose length field is zero is read for ever.\<close>

lemma analyze_blocks_zero:
  assumes "p < e" "GetBlockLength m p = Inr 0" "GetBlock m p BlockItem_new = Inr x" "int32_range p"
  shows "analyze_blocks m e p items = None"
proof -
  have self: "block_step m e p p"
    using assms by (auto simp: block_step_def c_int_id)
  have "q = p" if "(block_step m e)\<^sup>*\<^sup>* p q" for q
    using that by induction (auto dest: block_step_det [OF self])
  with self show ?thesis
    using analyze_blocks_returns_iff [of m e p items] by blast
qed

text \<open>Where every block on the way moves the offset forward, the loop returns.\<close>

lemma analyze_blocks_forward:
  assumes "\<And>q q'. (block_step m e)\<^sup>*\<^sup>* p q \<Longrightarrow> block_step m e q q' \<Longrightarrow> q < q'"
  shows "analyze_blocks m e p items \<noteq> None"
proof -
  have "\<exists>r. (block_step m e)\<^sup>*\<^sup>* q r \<and> (\<nexists>q'. block_step m e r q')" if "(block_step m e)\<^sup>*\<^sup>* p q" for q
    using that
  proof (induction "nat (e - q)" arbitrary: q rule: less_induct)
    case less
    show ?case
    proof (cases "\<exists>q'. block_step m e q q'")
      case False
      then show ?thesis by blast
    next
      case True
      then obtain q' where st: "block_step m e q q'" ..
      with assms less.prems have "q < q'" by blast
      moreover have "q < e"
        using st by (simp add: block_step_def)
      ultimately have "nat (e - q') < nat (e - q)" by simp
      with less.hyps [of q'] less.prems st obtain r where
        "(block_step m e)\<^sup>*\<^sup>* q' r" "\<nexists>q'. block_step m e r q'"
        by (meson rtranclp.rtrancl_into_rtrancl)
      with st show ?thesis
        by (meson converse_rtranclp_into_rtranclp)
    qed
  qed
  then show ?thesis
    using analyze_blocks_returns_iff [of m e p items] by blast
qed

text \<open>
  The loop passes over well-formed blocks, so what follows them decides.
\<close>

lemma analyze_blocks_prefix:
  assumes "\<forall>b \<in> set bs. block_name_ok (fst b)" and "length pre + length (blocks_bytes bs) < 2 ^ 31"
    and "int (length pre + length (blocks_bytes bs)) \<le> e"
  shows "\<exists>its. analyze_blocks (pre @ blocks_bytes bs @ post) e (int (length pre)) items =
    analyze_blocks (pre @ blocks_bytes bs @ post) e (int (length pre + length (blocks_bytes bs))) its"
  using assms
proof (induction bs arbitrary: pre items)
  case Nil
  then show ?case by auto
next
  case (Cons b bs)
  let ?m = "pre @ blocks_bytes (b # bs) @ post" and ?p = "int (length pre)"
  have bl: "block_len b < 2 ^ 31" and pos: "0 < block_len b"
    using Cons.prems(2) by (simp_all add: block_len_def)
  have gl: "GetBlockLength ?m ?p = Inr (word_of_nat (block_len b))"
    using GetBlockLength_ok [of "block_len b" ?p pre] bl by (simp add: block_bytes_def)
  obtain it where gb: "GetBlock ?m ?p BlockItem_new = Inr (0, it)"
    using GetBlock_ok [of b ?p pre "blocks_bytes bs @ post"] Cons.prems(1) bl by simp
  have u: "unat (word_of_nat (block_len b) :: u32) = block_len b"
    using bl by (intro unat_u32_of_nat) simp
  have c: "c_int (?p + int (block_len b)) = int (length (pre @ block_bytes b))"
    using Cons.prems(2) by (simp add: c_int_small)
  have "analyze_blocks ?m e ?p items = analyze_blocks ?m e (int (length (pre @ block_bytes b))) (items @ [it])"
    using analyze_blocks_step [OF _ gl gb, of e items] pos u c Cons.prems(3) by simp
  moreover obtain its where "analyze_blocks ((pre @ block_bytes b) @ blocks_bytes bs @ post) e
      (int (length (pre @ block_bytes b))) (items @ [it]) =
    analyze_blocks ((pre @ block_bytes b) @ blocks_bytes bs @ post) e
      (int (length (pre @ block_bytes b) + length (blocks_bytes bs))) its"
    using Cons.IH [of "pre @ block_bytes b" "items @ [it]"] Cons.prems by auto
  ultimately show ?case by (auto simp: add_ac)
qed

end
