(* ===== verification/Packet_Messages.thy ===== *)
theory Packet_Messages
  imports Packet_Parse
begin

text \<open>
  The six messages of \<open>include/network/PacketStruct.cpp\<close>: their members, the factory that makes an
  empty message from its packet name, and the \<open>Writer\<close> and \<open>Reader\<close> of each. The lemmas show that
  writing a message, analysing the bytes and reading them into the message the factory makes from
  the packet's name gives the message back.

  The base class member \<open>type\<close> is never assigned and never read; it is left out.
\<close>

section \<open>Message types\<close>

datatype PACKEK_TYPE =
    PACKEK_TYPE_NONE
  | PACKEK_TYPE_FRAME
  | PACKEK_TYPE_PROCESS_INFO_REQ
  | PACKEK_TYPE_PROCESS_INFO
  | PACKEK_TYPE_STREAM_INFO
  | PACKEK_TYPE_STREAM_REQUEST
  | PACKEK_TYPE_STREAM_STATUS

text \<open>
  A \<open>uint8_t*\<close> is null or a memory and an offset into it. \<open>ptr_bytes\<close> reads \<open>len\<close> bytes at a pointer,
  the way \<open>memcpy\<close> does: a negative length is a huge \<open>size_t\<close>.
\<close>

type_synonym byte_ptr = "(u8 list \<times> int) option"

definition ptr_bytes :: "byte_ptr \<Rightarrow> int \<Rightarrow> u8 list cpp" where
  "ptr_bytes p len =
     (if len < 0 then Inl OutOfBounds
      else (case p of None \<Rightarrow> if len = 0 then Inr [] else Inl NullPointer
            | Some (mem, off) \<Rightarrow> rd_n mem off (nat len)))"

record Packet_Frame =
  camera_guid :: string
  fr_stream_index :: int
  order_num :: int
  stream_width :: int
  stream_height :: int
  fr_frame_type :: int
  frame_pixel_format :: int
  frame_width :: int
  frame_height :: int
  vcodec_id :: int
  frame_buffer :: byte_ptr
  frame_buffer_len :: int

record Packet_ProcessInfoReq =
  ir_queue_name :: string
  sync_count :: int

record Packet_ProcessInfo =
  process_name :: string
  process_id :: int
  packet_version :: string

record Packet_StreamInfo =
  setup_file :: string

record Packet_StreamRequest =
  rq_queue_name :: string
  rq_stream_index :: int
  video_streaming :: bool
  rq_frame_type :: int
  pixel_format :: int
  rq_width :: int
  rq_height :: int

datatype STATUS = NONE | READY | RECONNECT | NO_SIGNAL

fun STATUS_code :: "STATUS \<Rightarrow> int" where
  "STATUS_code NONE = 0"
| "STATUS_code READY = 1"
| "STATUS_code RECONNECT = 2"
| "STATUS_code NO_SIGNAL = 3"

record Packet_StreamStatus =
  st_stream_index :: int
  st_status :: int

datatype PacketStruct =
    PFrame Packet_Frame
  | PProcessInfoReq Packet_ProcessInfoReq
  | PProcessInfo Packet_ProcessInfo
  | PStreamInfo Packet_StreamInfo
  | PStreamRequest Packet_StreamRequest
  | PStreamStatus Packet_StreamStatus

text \<open>The members' initial values.\<close>

definition Packet_Frame_new :: Packet_Frame where
  "Packet_Frame_new = \<lparr>camera_guid = [], fr_stream_index = 0, order_num = 0, stream_width = 0,
     stream_height = 0, fr_frame_type = 0, frame_pixel_format = 0, frame_width = 0, frame_height = 0,
     vcodec_id = 0, frame_buffer = None, frame_buffer_len = 0\<rparr>"

definition Packet_ProcessInfoReq_new :: Packet_ProcessInfoReq where
  "Packet_ProcessInfoReq_new = \<lparr>ir_queue_name = [], sync_count = 3\<rparr>"

definition Packet_ProcessInfo_new :: Packet_ProcessInfo where
  "Packet_ProcessInfo_new = \<lparr>process_name = [], process_id = 0, packet_version = []\<rparr>"

definition Packet_StreamInfo_new :: Packet_StreamInfo where
  "Packet_StreamInfo_new = \<lparr>setup_file = []\<rparr>"

definition Packet_StreamRequest_new :: Packet_StreamRequest where
  "Packet_StreamRequest_new = \<lparr>rq_queue_name = [], rq_stream_index = 0, video_streaming = True,
     rq_frame_type = 0, pixel_format = 0, rq_width = 0, rq_height = 0\<rparr>"

definition Packet_StreamStatus_new :: Packet_StreamStatus where
  "Packet_StreamStatus_new = \<lparr>st_stream_index = 0, st_status = STATUS_code NONE\<rparr>"

section \<open>Factory\<close>

definition CreateFactory :: "string \<Rightarrow> PacketStruct option" where
  "CreateFactory name =
     (if ''PACKEK_TYPE_FRAME'' = name then Some (PFrame Packet_Frame_new)
      else if ''PACKEK_TYPE_PROCESS_INFO_REQ'' = name then Some (PProcessInfoReq Packet_ProcessInfoReq_new)
      else if ''PACKEK_TYPE_PROCESS_INFO'' = name then Some (PProcessInfo Packet_ProcessInfo_new)
      else if ''PACKEK_TYPE_STREAM_INFO'' = name then Some (PStreamInfo Packet_StreamInfo_new)
      else if ''PACKEK_TYPE_STREAM_REQUEST'' = name then Some (PStreamRequest Packet_StreamRequest_new)
      else if ''PACKEK_TYPE_STREAM_STATUS'' = name then Some (PStreamStatus Packet_StreamStatus_new)
      else None)"

definition CreateFactory_type :: "PACKEK_TYPE \<Rightarrow> PacketStruct option" where
  "CreateFactory_type type =
     (if PACKEK_TYPE_FRAME = type then Some (PFrame Packet_Frame_new)
      else if PACKEK_TYPE_PROCESS_INFO_REQ = type then Some (PProcessInfoReq Packet_ProcessInfoReq_new)
      else if PACKEK_TYPE_PROCESS_INFO = type then Some (PProcessInfo Packet_ProcessInfo_new)
      else if PACKEK_TYPE_STREAM_INFO = type then Some (PStreamInfo Packet_StreamInfo_new)
      else if PACKEK_TYPE_STREAM_REQUEST = type then Some (PStreamRequest Packet_StreamRequest_new)
      else if PACKEK_TYPE_STREAM_STATUS = type then Some (PStreamStatus Packet_StreamStatus_new)
      else None)"

fun PacketType :: "PacketStruct \<Rightarrow> PACKEK_TYPE" where
  "PacketType (PFrame _) = PACKEK_TYPE_FRAME"
| "PacketType (PProcessInfoReq _) = PACKEK_TYPE_PROCESS_INFO_REQ"
| "PacketType (PProcessInfo _) = PACKEK_TYPE_PROCESS_INFO"
| "PacketType (PStreamInfo _) = PACKEK_TYPE_STREAM_INFO"
| "PacketType (PStreamRequest _) = PACKEK_TYPE_STREAM_REQUEST"
| "PacketType (PStreamStatus _) = PACKEK_TYPE_STREAM_STATUS"

fun PacketTypeStr :: "PacketStruct \<Rightarrow> string" where
  "PacketTypeStr (PFrame _) = ''PACKEK_TYPE_FRAME''"
| "PacketTypeStr (PProcessInfoReq _) = ''PACKEK_TYPE_PROCESS_INFO_REQ''"
| "PacketTypeStr (PProcessInfo _) = ''PACKEK_TYPE_PROCESS_INFO''"
| "PacketTypeStr (PStreamInfo _) = ''PACKEK_TYPE_STREAM_INFO''"
| "PacketTypeStr (PStreamRequest _) = ''PACKEK_TYPE_STREAM_REQUEST''"
| "PacketTypeStr (PStreamStatus _) = ''PACKEK_TYPE_STREAM_STATUS''"

text \<open>\<open>std::dynamic_pointer_cast\<close> of a message pointer to its own class, null otherwise.\<close>

fun Packet_Frame_Casting :: "PacketStruct option \<Rightarrow> Packet_Frame option" where
  "Packet_Frame_Casting (Some (PFrame p)) = Some p"
| "Packet_Frame_Casting _ = None"

fun Packet_ProcessInfoReq_Casting :: "PacketStruct option \<Rightarrow> Packet_ProcessInfoReq option" where
  "Packet_ProcessInfoReq_Casting (Some (PProcessInfoReq p)) = Some p"
| "Packet_ProcessInfoReq_Casting _ = None"

fun Packet_ProcessInfo_Casting :: "PacketStruct option \<Rightarrow> Packet_ProcessInfo option" where
  "Packet_ProcessInfo_Casting (Some (PProcessInfo p)) = Some p"
| "Packet_ProcessInfo_Casting _ = None"

fun Packet_StreamInfo_Casting :: "PacketStruct option \<Rightarrow> Packet_StreamInfo option" where
  "Packet_StreamInfo_Casting (Some (PStreamInfo p)) = Some p"
| "Packet_StreamInfo_Casting _ = None"

fun Packet_StreamRequest_Casting :: "PacketStruct option \<Rightarrow> Packet_StreamRequest option" where
  "Packet_StreamRequest_Casting (Some (PStreamRequest p)) = Some p"
| "Packet_StreamRequest_Casting _ = None"

fun Packet_StreamStatus_Casting :: "PacketStruct option \<Rightarrow> Packet_StreamStatus option" where
  "Packet_StreamStatus_Casting (Some (PStreamStatus p)) = Some p"
| "Packet_StreamStatus_Casting _ = None"

section \<open>Writers\<close>

text \<open>
  The writers call operations of the packet writer one after the other and ignore what they
  return; the readers read member after member. \<open>run\<close> is that sequence, \<open>call\<close> drops the result.
\<close>

primrec run :: "('s \<Rightarrow> 's cpp) list \<Rightarrow> 's \<Rightarrow> 's cpp" where
  "run [] s = Inr s"
| "run (f # fs) s = cbind (f s) (run fs)"

definition call :: "('s \<Rightarrow> ('r \<times> 's) cpp) \<Rightarrow> 's \<Rightarrow> 's cpp" where
  "call f s = cbind (f s) (\<lambda>(_, s'). Inr s')"

text \<open>
  \<open>Write(name, uint8_t* data, int len)\<close> on a pointer; the block is written only when there is a buffer.
\<close>

definition Write_ptr :: "string \<Rightarrow> byte_ptr \<Rightarrow> int \<Rightarrow> CPacketWriter \<Rightarrow> (int \<times> CPacketWriter) cpp" where
  "Write_ptr name data len w = (case m_buffer w of None \<Rightarrow> Inr (0, w)
     | Some _ \<Rightarrow> cbind (ptr_bytes data len) (\<lambda>bs. Write_bytes name bs w))"

definition Packet_Frame_Writer :: "Packet_Frame \<Rightarrow> CPacketWriter \<Rightarrow> CPacketWriter cpp" where
  "Packet_Frame_Writer p = run
     [call (Start (PacketTypeStr (PFrame p))),
      call (Write_string ''GUID'' (camera_guid p)),
      call (Write_int32 ''StreamIndex'' (fr_stream_index p)),
      call (Write_int32 ''OrderNum'' (order_num p)),
      call (Write_int32 ''SWidth'' (stream_width p)),
      call (Write_int32 ''SHeight'' (stream_height p)),
      call (Write_int32 ''FrameType'' (fr_frame_type p)),
      call (Write_int32 ''FPixelFormat'' (frame_pixel_format p)),
      call (Write_int32 ''FWidth'' (frame_width p)),
      call (Write_int32 ''FHeight'' (frame_height p)),
      call (Write_int32 ''VCodecId'' (vcodec_id p)),
      call (Write_ptr ''FrameData'' (frame_buffer p) (frame_buffer_len p)),
      call End]"

definition Packet_ProcessInfoReq_Writer :: "Packet_ProcessInfoReq \<Rightarrow> CPacketWriter \<Rightarrow> CPacketWriter cpp" where
  "Packet_ProcessInfoReq_Writer p = run
     [call (Start (PacketTypeStr (PProcessInfoReq p))),
      call (Write_string ''QueueName'' (ir_queue_name p)),
      call (Write_int32 ''SyncCount'' (sync_count p)),
      call End]"

definition Packet_ProcessInfo_Writer :: "Packet_ProcessInfo \<Rightarrow> CPacketWriter \<Rightarrow> CPacketWriter cpp" where
  "Packet_ProcessInfo_Writer p = run
     [call (Start (PacketTypeStr (PProcessInfo p))),
      call (Write_string ''Name'' (process_name p)),
      call (Write_int32 ''PID'' (process_id p)),
      call (Write_string ''PacketVersion'' (packet_version p)),
      call End]"

definition Packet_StreamInfo_Writer :: "Packet_StreamInfo \<Rightarrow> CPacketWriter \<Rightarrow> CPacketWriter cpp" where
  "Packet_StreamInfo_Writer p = run
     [call (Start (PacketTypeStr (PStreamInfo p))),
      call (Write_string ''SetupFile'' (setup_file p)),
      call End]"

definition Packet_StreamRequest_Writer :: "Packet_StreamRequest \<Rightarrow> CPacketWriter \<Rightarrow> CPacketWriter cpp" where
  "Packet_StreamRequest_Writer p = run
     [call (Start (PacketTypeStr (PStreamRequest p))),
      call (Write_string ''QueueName'' (rq_queue_name p)),
      call (Write_int32 ''StreamIndex'' (rq_stream_index p)),
      call (Write_bool ''VideoStreaming'' (video_streaming p)),
      call (Write_int32 ''FrameType'' (rq_frame_type p)),
      call (Write_int32 ''PixelFormat'' (pixel_format p)),
      call (Write_int32 ''Width'' (rq_width p)),
      call (Write_int32 ''Height'' (rq_height p)),
      call End]"

definition Packet_StreamStatus_Writer :: "Packet_StreamStatus \<Rightarrow> CPacketWriter \<Rightarrow> CPacketWriter cpp" where
  "Packet_StreamStatus_Writer p = run
     [call (Start (PacketTypeStr (PStreamStatus p))),
      call (Write_int32 ''StreamIndex'' (st_stream_index p)),
      call (Write_int32 ''Status'' (st_status p)),
      call End]"

fun Writer :: "PacketStruct \<Rightarrow> CPacketWriter \<Rightarrow> CPacketWriter cpp" where
  "Writer (PFrame p) w = Packet_Frame_Writer p w"
| "Writer (PProcessInfoReq p) w = Packet_ProcessInfoReq_Writer p w"
| "Writer (PProcessInfo p) w = Packet_ProcessInfo_Writer p w"
| "Writer (PStreamInfo p) w = Packet_StreamInfo_Writer p w"
| "Writer (PStreamRequest p) w = Packet_StreamRequest_Writer p w"
| "Writer (PStreamStatus p) w = Packet_StreamStatus_Writer p w"

section \<open>Readers\<close>

text \<open>\<open>reader->Read(name, member)\<close>: the member is passed by reference.\<close>

definition into :: "('v \<Rightarrow> (int \<times> 'v) cpp) \<Rightarrow> ('p \<Rightarrow> 'v) \<Rightarrow> ('v \<Rightarrow> 'p \<Rightarrow> 'p) \<Rightarrow> 'p \<Rightarrow> 'p cpp" where
  "into read get put p = cbind (read (get p)) (\<lambda>(_, v). Inr (put v p))"

definition Read_frame_data :: "u8 list \<Rightarrow> CPacketReader \<Rightarrow> Packet_Frame \<Rightarrow> Packet_Frame cpp" where
  "Read_frame_data mem r p =
     (let p1 = p\<lparr>frame_buffer_len := ReadLength r ''FrameData''\<rparr>;
          (ret, off) = Read_ptr r ''FrameData'' 0
      in Inr (if ret \<noteq> 0 then p1 else p1\<lparr>frame_buffer := Some (mem, off)\<rparr>))"

definition Packet_Frame_Reader :: "u8 list \<Rightarrow> CPacketReader \<Rightarrow> Packet_Frame \<Rightarrow> Packet_Frame cpp" where
  "Packet_Frame_Reader mem r = run
     [into (Read_string mem r ''GUID'') camera_guid (\<lambda>v p. p\<lparr>camera_guid := v\<rparr>),
      into (Read_int32 mem r ''StreamIndex'') fr_stream_index (\<lambda>v p. p\<lparr>fr_stream_index := v\<rparr>),
      into (Read_int32 mem r ''OrderNum'') order_num (\<lambda>v p. p\<lparr>order_num := v\<rparr>),
      into (Read_int32 mem r ''SWidth'') stream_width (\<lambda>v p. p\<lparr>stream_width := v\<rparr>),
      into (Read_int32 mem r ''SHeight'') stream_height (\<lambda>v p. p\<lparr>stream_height := v\<rparr>),
      into (Read_int32 mem r ''FrameType'') fr_frame_type (\<lambda>v p. p\<lparr>fr_frame_type := v\<rparr>),
      into (Read_int32 mem r ''FPixelFormat'') frame_pixel_format (\<lambda>v p. p\<lparr>frame_pixel_format := v\<rparr>),
      into (Read_int32 mem r ''FWidth'') frame_width (\<lambda>v p. p\<lparr>frame_width := v\<rparr>),
      into (Read_int32 mem r ''FHeight'') frame_height (\<lambda>v p. p\<lparr>frame_height := v\<rparr>),
      into (Read_int32 mem r ''VCodecId'') vcodec_id (\<lambda>v p. p\<lparr>vcodec_id := v\<rparr>),
      Read_frame_data mem r]"

definition Packet_ProcessInfoReq_Reader ::
    "u8 list \<Rightarrow> CPacketReader \<Rightarrow> Packet_ProcessInfoReq \<Rightarrow> Packet_ProcessInfoReq cpp" where
  "Packet_ProcessInfoReq_Reader mem r = run
     [into (Read_string mem r ''QueueName'') ir_queue_name (\<lambda>v p. p\<lparr>ir_queue_name := v\<rparr>),
      into (Read_int32 mem r ''SyncCount'') sync_count (\<lambda>v p. p\<lparr>sync_count := v\<rparr>)]"

definition Packet_ProcessInfo_Reader ::
    "u8 list \<Rightarrow> CPacketReader \<Rightarrow> Packet_ProcessInfo \<Rightarrow> Packet_ProcessInfo cpp" where
  "Packet_ProcessInfo_Reader mem r = run
     [into (Read_string mem r ''Name'') process_name (\<lambda>v p. p\<lparr>process_name := v\<rparr>),
      into (Read_int32 mem r ''PID'') process_id (\<lambda>v p. p\<lparr>process_id := v\<rparr>),
      into (Read_string mem r ''PacketVersion'') packet_version (\<lambda>v p. p\<lparr>packet_version := v\<rparr>)]"

definition Packet_StreamInfo_Reader ::
    "u8 list \<Rightarrow> CPacketReader \<Rightarrow> Packet_StreamInfo \<Rightarrow> Packet_StreamInfo cpp" where
  "Packet_StreamInfo_Reader mem r = run
     [into (Read_string mem r ''SetupFile'') setup_file (\<lambda>v p. p\<lparr>setup_file := v\<rparr>)]"

definition Packet_StreamRequest_Reader ::
    "u8 list \<Rightarrow> CPacketReader \<Rightarrow> Packet_StreamRequest \<Rightarrow> Packet_StreamRequest cpp" where
  "Packet_StreamRequest_Reader mem r = run
     [into (Read_string mem r ''QueueName'') rq_queue_name (\<lambda>v p. p\<lparr>rq_queue_name := v\<rparr>),
      into (Read_int32 mem r ''StreamIndex'') rq_stream_index (\<lambda>v p. p\<lparr>rq_stream_index := v\<rparr>),
      into (Read_bool mem r ''VideoStreaming'') video_streaming (\<lambda>v p. p\<lparr>video_streaming := v\<rparr>),
      into (Read_int32 mem r ''FrameType'') rq_frame_type (\<lambda>v p. p\<lparr>rq_frame_type := v\<rparr>),
      into (Read_int32 mem r ''PixelFormat'') pixel_format (\<lambda>v p. p\<lparr>pixel_format := v\<rparr>),
      into (Read_int32 mem r ''Width'') rq_width (\<lambda>v p. p\<lparr>rq_width := v\<rparr>),
      into (Read_int32 mem r ''Height'') rq_height (\<lambda>v p. p\<lparr>rq_height := v\<rparr>)]"

definition Packet_StreamStatus_Reader ::
    "u8 list \<Rightarrow> CPacketReader \<Rightarrow> Packet_StreamStatus \<Rightarrow> Packet_StreamStatus cpp" where
  "Packet_StreamStatus_Reader mem r = run
     [into (Read_int32 mem r ''StreamIndex'') st_stream_index (\<lambda>v p. p\<lparr>st_stream_index := v\<rparr>),
      into (Read_int32 mem r ''Status'') st_status (\<lambda>v p. p\<lparr>st_status := v\<rparr>)]"

fun Reader :: "u8 list \<Rightarrow> CPacketReader \<Rightarrow> PacketStruct \<Rightarrow> PacketStruct cpp" where
  "Reader mem r (PFrame p) = cbind (Packet_Frame_Reader mem r p) (\<lambda>p. Inr (PFrame p))"
| "Reader mem r (PProcessInfoReq p) = cbind (Packet_ProcessInfoReq_Reader mem r p) (\<lambda>p. Inr (PProcessInfoReq p))"
| "Reader mem r (PProcessInfo p) = cbind (Packet_ProcessInfo_Reader mem r p) (\<lambda>p. Inr (PProcessInfo p))"
| "Reader mem r (PStreamInfo p) = cbind (Packet_StreamInfo_Reader mem r p) (\<lambda>p. Inr (PStreamInfo p))"
| "Reader mem r (PStreamRequest p) = cbind (Packet_StreamRequest_Reader mem r p) (\<lambda>p. Inr (PStreamRequest p))"
| "Reader mem r (PStreamStatus p) = cbind (Packet_StreamStatus_Reader mem r p) (\<lambda>p. Inr (PStreamStatus p))"

section \<open>Content of a message\<close>

text \<open>
  The blocks a message is written as, \<open>data\<close> being the bytes at a frame's buffer, and the blocks a
  well-formed one has: its numbers are 32-bit \<open>int\<close> values, as in C++.
\<close>

definition int_block :: "string \<Rightarrow> int \<Rightarrow> block" where
  "int_block name v = (name, str_bytes (to_string v))"

definition str_block :: "string \<Rightarrow> string \<Rightarrow> block" where
  "str_block name s = (name, str_bytes s)"

fun frame_data :: "PacketStruct \<Rightarrow> u8 list cpp" where
  "frame_data (PFrame p) = ptr_bytes (frame_buffer p) (frame_buffer_len p)"
| "frame_data _ = Inr []"

fun msg_blocks :: "u8 list \<Rightarrow> PacketStruct \<Rightarrow> block list" where
  "msg_blocks data (PFrame p) =
     [str_block ''GUID'' (camera_guid p), int_block ''StreamIndex'' (fr_stream_index p),
      int_block ''OrderNum'' (order_num p), int_block ''SWidth'' (stream_width p),
      int_block ''SHeight'' (stream_height p), int_block ''FrameType'' (fr_frame_type p),
      int_block ''FPixelFormat'' (frame_pixel_format p), int_block ''FWidth'' (frame_width p),
      int_block ''FHeight'' (frame_height p), int_block ''VCodecId'' (vcodec_id p), (''FrameData'', data)]"
| "msg_blocks data (PProcessInfoReq p) =
     [str_block ''QueueName'' (ir_queue_name p), int_block ''SyncCount'' (sync_count p)]"
| "msg_blocks data (PProcessInfo p) =
     [str_block ''Name'' (process_name p), int_block ''PID'' (process_id p),
      str_block ''PacketVersion'' (packet_version p)]"
| "msg_blocks data (PStreamInfo p) = [str_block ''SetupFile'' (setup_file p)]"
| "msg_blocks data (PStreamRequest p) =
     [str_block ''QueueName'' (rq_queue_name p), int_block ''StreamIndex'' (rq_stream_index p),
      int_block ''VideoStreaming'' (if video_streaming p then 1 else 0),
      int_block ''FrameType'' (rq_frame_type p), int_block ''PixelFormat'' (pixel_format p),
      int_block ''Width'' (rq_width p), int_block ''Height'' (rq_height p)]"
| "msg_blocks data (PStreamStatus p) =
     [int_block ''StreamIndex'' (st_stream_index p), int_block ''Status'' (st_status p)]"

fun msg_ints :: "PacketStruct \<Rightarrow> int list" where
  "msg_ints (PFrame p) = [fr_stream_index p, order_num p, stream_width p, stream_height p, fr_frame_type p,
     frame_pixel_format p, frame_width p, frame_height p, vcodec_id p, frame_buffer_len p]"
| "msg_ints (PProcessInfoReq p) = [sync_count p]"
| "msg_ints (PProcessInfo p) = [process_id p]"
| "msg_ints (PStreamInfo p) = []"
| "msg_ints (PStreamRequest p) = [rq_stream_index p, rq_frame_type p, pixel_format p, rq_width p, rq_height p]"
| "msg_ints (PStreamStatus p) = [st_stream_index p, st_status p]"

definition msg_typed :: "PacketStruct \<Rightarrow> bool" where
  "msg_typed p \<longleftrightarrow> (\<forall>v \<in> set (msg_ints p). int32_range v)"

text \<open>
  The bytes of a message, and the message a reader rebuilds from a memory \<open>mem\<close>: the same members,
  except that a frame's buffer points to its data in \<open>mem\<close>.
\<close>

definition msg_bytes :: "u8 list \<Rightarrow> PacketStruct \<Rightarrow> u8 list" where
  "msg_bytes data p = packet_bytes (PacketTypeStr p) (msg_blocks data p)"

definition msg_len :: "u8 list \<Rightarrow> PacketStruct \<Rightarrow> nat" where
  "msg_len data p = packet_len (PacketTypeStr p) (msg_blocks data p)"

fun same_message :: "u8 list \<Rightarrow> PacketStruct \<Rightarrow> PacketStruct \<Rightarrow> bool" where
  "same_message mem (PFrame p) (PFrame q) = (\<exists>off. q = p\<lparr>frame_buffer := Some (mem, off)\<rparr>
      \<and> ptr_bytes (frame_buffer q) (frame_buffer_len q) = ptr_bytes (frame_buffer p) (frame_buffer_len p))"
| "same_message mem p q = (p = q)"

section \<open>Writing\<close>

lemma cbind_Inr [simp]: "cbind m Inr = m"
  by (cases m) auto

lemma cbind_ext: "(\<And>x. m = Inr x \<Longrightarrow> f x = g x) \<Longrightarrow> cbind m f = cbind m g"
  by (cases m) auto

lemma run_single: "run [f] s = f s"
  by (cases "f s") simp_all

lemma run_append: "run (fs @ gs) s = cbind (run fs s) (run gs)"
  by (induction fs arbitrary: s) (auto simp: cbind_assoc intro: cbind_ext)

lemma run_write_packet:
  "run (call (Start name) # map (\<lambda>b. call (Write_bytes (fst b) (snd b))) bs @ [call End]) w = write_packet name bs w"
proof -
  have blocks: "run (map (\<lambda>b. call (Write_bytes (fst b) (snd b))) bs) w' = write_blocks bs w'" for w'
    by (induction bs arbitrary: w') (auto simp: call_def cbind_assoc case_prod_unfold intro: cbind_ext)
  have last: "run [call End] = call End"
    by (rule ext) (rule run_single)
  have callE: "call End = (\<lambda>s. cbind (End s) (\<lambda>(_, s'). Inr s'))"
    by (rule ext) (simp add: call_def)
  show ?thesis
    unfolding run.simps run_append last callE
    by (simp add: blocks write_packet_def call_def cbind_assoc case_prod_unfold)
qed

lemma Write_int32_bytes: "Write_int32 name v = Write_bytes name (str_bytes (to_string v))"
  by (simp add: fun_eq_iff Write_int32_def Write_string_bytes)

lemma Write_bool_bytes: "Write_bool name v = Write_bytes name (str_bytes (to_string (if v then 1 else 0)))"
  by (simp add: fun_eq_iff Write_bool_def Write_string_bytes)

lemmas write_as_bytes = Write_int32_bytes Write_bool_bytes Write_string_bytes int_block_def str_block_def

lemmas writer_defs = Packet_ProcessInfoReq_Writer_def Packet_ProcessInfo_Writer_def
  Packet_StreamInfo_Writer_def Packet_StreamRequest_Writer_def Packet_StreamStatus_Writer_def

text \<open>The buffer pointer stays non-null.\<close>

lemma WriteCurBuffer_nonnull: "WriteCurBuffer src w = Inr w' \<Longrightarrow> m_buffer w' \<noteq> None"
  by (auto simp: WriteCurBuffer_def cbind_Inr_iff)

lemma BufferPushBack_nonnull: "BufferPushBack b w = Inr w' \<Longrightarrow> m_buffer w' \<noteq> None"
  by (auto simp: BufferPushBack_def dest: WriteCurBuffer_nonnull)

lemma call_Start_nonnull: "m_buffer w \<noteq> None \<Longrightarrow> call (Start name) w = Inr w' \<Longrightarrow> m_buffer w' \<noteq> None"
  by (auto simp: call_def Start_def Let_def cbind_Inr_iff dest!: BufferPushBack_nonnull)

lemma call_Write_nonnull:
  "m_buffer w \<noteq> None \<Longrightarrow> call (Write_bytes name data) w = Inr w' \<Longrightarrow> m_buffer w' \<noteq> None"
  by (auto simp: call_def Write_bytes_def CheckBuffer_def Let_def cbind_Inr_iff dest!: WriteCurBuffer_nonnull
      split: option.splits)

lemma run_writes_nonnull:
  "m_buffer w \<noteq> None \<Longrightarrow> run (map (\<lambda>b. call (Write_bytes (fst b) (snd b))) bs) w = Inr w' \<Longrightarrow> m_buffer w' \<noteq> None"
  by (induction bs arbitrary: w) (auto simp: cbind_Inr_iff dest!: call_Write_nonnull [rotated])

lemma Write_ptr_bytes:
  "m_buffer w \<noteq> None \<Longrightarrow> ptr_bytes p len = Inr data \<Longrightarrow> Write_ptr name p len w = Write_bytes name data w"
  by (auto simp: Write_ptr_def)

lemma Writer_frame:
  assumes "m_buffer w \<noteq> None" and "ptr_bytes (frame_buffer p) (frame_buffer_len p) = Inr data"
  shows "Packet_Frame_Writer p w = write_packet (PacketTypeStr (PFrame p)) (msg_blocks data (PFrame p)) w"
proof -
  let ?bs = "butlast (msg_blocks data (PFrame p))" and ?name = "PacketTypeStr (PFrame p)"
  let ?head = "call (Start ?name) # map (\<lambda>b. call (Write_bytes (fst b) (snd b))) ?bs"
  let ?wp = "call (Write_ptr ''FrameData'' (frame_buffer p) (frame_buffer_len p))"
    and ?wb = "call (Write_bytes ''FrameData'' data)"
  have same: "run [?wp, call End] w' = run [?wb, call End] w'" if "run ?head w = Inr w'" for w'
  proof -
    from that obtain w1 where "call (Start ?name) w = Inr w1"
        "run (map (\<lambda>b. call (Write_bytes (fst b) (snd b))) ?bs) w1 = Inr w'"
      by (auto simp only: run.simps cbind_Inr_iff)
    then have "m_buffer w' \<noteq> None"
      using call_Start_nonnull [OF assms(1)] run_writes_nonnull by blast
    then show ?thesis
      using Write_ptr_bytes [OF _ assms(2)] by (simp add: call_def)
  qed
  have "Packet_Frame_Writer p w = run (?head @ [?wp, call End]) w"
    by (simp add: Packet_Frame_Writer_def write_as_bytes)
  also have "\<dots> = run (?head @ [?wb, call End]) w"
    unfolding run_append using same by (intro cbind_ext) blast
  also have "\<dots> = run (call (Start ?name) # map (\<lambda>b. call (Write_bytes (fst b) (snd b)))
      (msg_blocks data (PFrame p)) @ [call End]) w"
    by simp
  finally show ?thesis
    by (simp only: run_write_packet)
qed

text \<open>Every message's writer writes its blocks as one packet.\<close>

lemma Writer_write_packet:
  assumes "m_buffer w \<noteq> None" and "frame_data p = Inr data"
  shows "Writer p w = write_packet (PacketTypeStr p) (msg_blocks data p) w"
proof (cases p)
  case (PFrame q)
  with assms Writer_frame [of w q data] show ?thesis by simp
qed (simp_all add: run_write_packet [symmetric] writer_defs write_as_bytes)

lemma block_len_msg: "x \<in> set (msg_blocks data p) \<Longrightarrow> block_len x \<le> msg_len data p"
  using block_len_le [of x "msg_blocks data p"] by (simp add: msg_len_def packet_len_def)

lemma Writer_bytes:
  assumes "m_buffer w = Some b" and "frame_data p = Inr data"
    and "msg_len data p \<le> start_size b" and "msg_len data p < 2 ^ 31"
  obtains rest where "Writer p w = Inr (wstate (msg_bytes data p) rest)"
    and "start_size b \<le> msg_len data p + length rest"
proof -
  have "\<forall>x \<in> set (msg_blocks data p). block_len x < 2 ^ 32"
    using block_len_msg [of _ data p] assms(4) by fastforce
  from write_packet_fits [OF assms(1) assms(3) [unfolded msg_len_def] this] that
  show ?thesis
    using Writer_write_packet [OF _ assms(2), of w] assms(1) by (auto simp: msg_bytes_def msg_len_def)
qed

text \<open>
  Whether the buffer of \<open>n\<close> bytes, as \<open>Start\<close> leaves it, has room for the end mark of the message: it grows for every block that
  does not fit, so that a message of any length may have it.
\<close>

definition end_fits :: "nat \<Rightarrow> u8 list \<Rightarrow> PacketStruct \<Rightarrow> bool" where
  "end_fits n data p \<longleftrightarrow> 4 \<le> room_after (n - (length (PacketTypeStr p) + 9)) (msg_blocks data p)"

lemma end_fits_short: "msg_len data p \<le> n \<Longrightarrow> end_fits n data p"
  unfolding end_fits_def by (rule room_after_fits) (simp add: msg_len_def packet_len_def)

lemma Writer_end_fits:
  assumes "m_buffer w = Some b" and "frame_data p = Inr data" and "end_fits (start_size b) data p" and "msg_len data p < 2 ^ 31"
  obtains rest where "Writer p w = Inr (wstate (msg_bytes data p) rest)"
    and "start_size b \<le> msg_len data p + length rest"
proof -
  have bl: "\<forall>x \<in> set (msg_blocks data p). block_len x < 2 ^ 32"
    using block_len_msg [of _ data p] assms(4) by fastforce
  have "length (PacketTypeStr p) + 9 \<le> start_size b"
    by (cases p) (simp_all add: start_size_def)
  from write_packet_result [OF assms(1) this bl] obtain rest where "write_packet (PacketTypeStr p) (msg_blocks data p) w = Inr (wstate (msg_bytes data p) rest)"
    "start_size b \<le> msg_len data p + length rest"
    using assms(3) by (auto simp: end_fits_def msg_bytes_def msg_len_def)
  then show ?thesis
    using that Writer_write_packet [OF _ assms(2), of w] assms(1) by auto
qed

section \<open>Reading\<close>

lemma into_string:
  assumes "items_of mem (m_block_items r) bs" and "map_of bs name = Some (str_bytes s)"
  shows "into (Read_string mem r name) get put p = Inr (put (s @ get p) p)"
  by (simp add: into_def Read_string_items_of [OF assms(1)] assms(2))

lemma into_int32:
  assumes "items_of mem (m_block_items r) bs" and "map_of bs name = Some (str_bytes (to_string v))"
    and "int32_range v"
  shows "into (Read_int32 mem r name) get put p = Inr (put v p)"
  by (simp add: into_def Read_int32_def Read_conv_items_of [OF assms(1)] assms(2,3) stoi_to_string)

lemma into_bool:
  assumes "items_of mem (m_block_items r) bs" and "map_of bs name = Some (str_bytes (to_string (if v then 1 else 0)))"
  shows "into (Read_bool mem r name) get put p = Inr (put v p)"
proof -
  have "int32_range (if v then 1 else 0)"
    by (simp add: int32_range_def)
  then show ?thesis
    by (simp add: into_def Read_bool_def Read_conv_items_of [OF assms(1)] assms(2) stoi_to_string)
qed

lemmas reader_defs = Packet_ProcessInfoReq_Reader_def Packet_ProcessInfo_Reader_def
  Packet_StreamInfo_Reader_def Packet_StreamRequest_Reader_def Packet_StreamStatus_Reader_def

lemmas new_defs = Packet_Frame_new_def Packet_ProcessInfoReq_new_def Packet_ProcessInfo_new_def
  Packet_StreamInfo_new_def Packet_StreamRequest_new_def Packet_StreamStatus_new_def

lemma CreateFactory_simps [simp]:
  "CreateFactory ''PACKEK_TYPE_FRAME'' = Some (PFrame Packet_Frame_new)"
  "CreateFactory ''PACKEK_TYPE_PROCESS_INFO_REQ'' = Some (PProcessInfoReq Packet_ProcessInfoReq_new)"
  "CreateFactory ''PACKEK_TYPE_PROCESS_INFO'' = Some (PProcessInfo Packet_ProcessInfo_new)"
  "CreateFactory ''PACKEK_TYPE_STREAM_INFO'' = Some (PStreamInfo Packet_StreamInfo_new)"
  "CreateFactory ''PACKEK_TYPE_STREAM_REQUEST'' = Some (PStreamRequest Packet_StreamRequest_new)"
  "CreateFactory ''PACKEK_TYPE_STREAM_STATUS'' = Some (PStreamStatus Packet_StreamStatus_new)"
  by (simp_all add: CreateFactory_def)

lemma Reader_frame:
  assumes it: "items_of mem (m_block_items r) (msg_blocks data (PFrame p))"
    and typed: "msg_typed (PFrame p)"
    and data: "ptr_bytes (frame_buffer p) (frame_buffer_len p) = Inr data"
  shows "\<exists>off. Packet_Frame_Reader mem r Packet_Frame_new = Inr (p\<lparr>frame_buffer := Some (mem, off)\<rparr>)
    \<and> rd_n mem off (length data) = Inr data"
proof -
  have len: "frame_buffer_len p = int (length data)"
    using data by (auto simp: ptr_bytes_def dest: rd_n_length split: if_splits option.splits)
  obtain off where off: "\<And>q. Read_frame_data mem r q =
      Inr (q\<lparr>frame_buffer_len := int (length data), frame_buffer := Some (mem, off)\<rparr>)
    \<and> rd_n mem off (length data) = Inr data"
  proof -
    obtain off where "rd_n mem off (length data) = Inr data" and rp: "Read_ptr r ''FrameData'' 0 = (0, off)"
      using Read_ptr_items_of [OF it, of "''FrameData''" 0] by (auto simp: int_block_def str_block_def)
    moreover have "ReadLength r ''FrameData'' = int (length data)"
      by (simp add: ReadLength_items_of [OF it] int_block_def str_block_def)
    ultimately show ?thesis
      using that by (simp add: Read_frame_data_def)
  qed
  have range: "\<forall>v \<in> set (msg_ints (PFrame p)). int32_range v"
    using typed by (simp add: msg_typed_def)
  have "Packet_Frame_Reader mem r Packet_Frame_new = Inr (p\<lparr>frame_buffer := Some (mem, off)\<rparr>)"
    using range
    by (simp add: Packet_Frame_Reader_def into_string [OF it] into_int32 [OF it] off
        int_block_def str_block_def Packet_Frame_new_def len [symmetric])
  with off show ?thesis by blast
qed

text \<open>A fresh message, read from a reader that found the blocks of \<open>p\<close>, is \<open>p\<close>.\<close>

lemma Reader_items:
  assumes it: "items_of mem (m_block_items r) (msg_blocks data p)"
    and typed: "msg_typed p" and data: "frame_data p = Inr data"
  shows "\<exists>q p'. CreateFactory (PacketTypeStr p) = Some q \<and> Reader mem r q = Inr p' \<and> same_message mem p p'"
proof (cases p)
  case (PFrame f)
  obtain off where r: "Packet_Frame_Reader mem r Packet_Frame_new = Inr (f\<lparr>frame_buffer := Some (mem, off)\<rparr>)"
    and rn: "rd_n mem off (length data) = Inr data"
    using Reader_frame [of mem r data f] assms PFrame by auto
  have len: "frame_buffer_len f = int (length data)"
    using data PFrame by (auto simp: ptr_bytes_def dest: rd_n_length split: if_splits option.splits)
  have "ptr_bytes (Some (mem, off)) (frame_buffer_len f) = Inr data"
    using rn by (simp add: ptr_bytes_def len)
  with r data PFrame show ?thesis by auto
qed (use typed in \<open>simp_all add: reader_defs new_defs into_string [OF it] into_int32 [OF it] into_bool [OF it]
       int_block_def str_block_def msg_typed_def\<close>)

lemma PacketTypeStr_ok: "main_name_ok (PacketTypeStr p)"
  by (cases p) (simp_all add: main_name_ok_def)

lemma msg_block_names_ok: "\<forall>b \<in> set (msg_blocks data p). block_name_ok (fst b)"
  by (cases p) (simp_all add: block_name_ok_def int_block_def str_block_def)

text \<open>
  What the receiver of a message does with its bytes: analyse the packet, make the message its name
  stands for, and read it.
\<close>

definition decode_message :: "u8 list \<Rightarrow> int \<Rightarrow> (int \<times> PacketStruct option) cpp option" where
  "decode_message mem len =
     (case DoAnalyze mem len CPacketReader_new of None \<Rightarrow> None
      | Some (Inl e) \<Rightarrow> Some (Inl e)
      | Some (Inr (ret, r)) \<Rightarrow>
          if ret \<noteq> 0 then Some (Inr (ret, None))
          else (case CreateFactory (GetReadMainName r) of None \<Rightarrow> Some (Inr (0, None))
                | Some q \<Rightarrow> Some (cbind (Reader mem r q) (\<lambda>p. Inr (0, Some p)))))"

lemma decode_msg_bytes:
  assumes typed: "msg_typed p" and data: "frame_data p = Inr data" and len: "msg_len data p < 2 ^ 31"
  shows "\<exists>p'. decode_message (msg_bytes data p @ post) (int (msg_len data p)) = Some (Inr (0, Some p'))
    \<and> same_message (msg_bytes data p @ post) p p'"
proof -
  let ?n = "PacketTypeStr p" and ?bs = "msg_blocks data p" and ?m = "msg_bytes data p @ post"
  let ?r = "CPacketReader_new\<lparr>m_main_name := ?n, m_block_items := items_at (int (blocks_pos ?n)) ?bs\<rparr>"
  have an: "DoAnalyze ?m (int (msg_len data p)) CPacketReader_new = Some (Inr (0, ?r))"
    using DoAnalyze_packet [OF PacketTypeStr_ok msg_block_names_ok, of p data] len
    by (simp add: msg_bytes_def msg_len_def)
  have "items_of ((m_stx @ le_bytes 4 (packet_len ?n ?bs) @ str_bytes ?n @ [GetStartBlockDelimiter])
      @ blocks_bytes ?bs @ m_etx @ post) (items_at (int (blocks_pos ?n)) ?bs) ?bs"
    by (rule items_of_packet) (simp add: blocks_pos_def)
  then have "items_of ?m (m_block_items ?r) ?bs"
    by (simp add: msg_bytes_def packet_bytes_def)
  from Reader_items [OF this typed data] obtain q p' where
    "CreateFactory ?n = Some q" "Reader ?m ?r q = Inr p'" "same_message ?m p p'"
    by blast
  then show ?thesis
    by (simp add: decode_message_def an GetReadMainName_def)
qed

end
