(* ===== verification/Queue_Ring.thy ===== *)
theory Queue_Ring
  imports Cam_Prelude
begin

text \<open>
  The ring buffer that \<open>QueueLocalMemory\<close> and \<open>QueueSharedMemory\<close> share line for line: the two
  \<open>memcpy\<close> pairs of \<open>Push\<close> and \<open>Front\<close> and the head movement of \<open>Pop\<close>, all in \<open>uint32_t\<close> arithmetic,
  what they do to the sequence of bytes the ring stands for, and the interface \<open>byte_queue\<close> that
  both queues are shown to provide.
\<close>

section \<open>Code\<close>

record QueueInfo =
  tail :: u32
  head :: u32
  queue_size :: u32
  use_size :: u32

definition QueueInfo_new :: QueueInfo where
  "QueueInfo_new = \<lparr>tail = 0, head = 0, queue_size = 0, use_size = 0\<rparr>"

text \<open>\<open>Push\<close> after its checks: copy \<open>len\<close> bytes from \<open>src\<close> to the tail, in two parts when they wrap.\<close>

definition ring_push :: "QueueInfo \<Rightarrow> u8 list \<Rightarrow> u8 list \<Rightarrow> u32 \<Rightarrow> (QueueInfo \<times> u8 list) cpp" where
  "ring_push info buf src len =
     (let write_size = queue_size info - tail info in
      if write_size < len then
        cbind (rd_n src 0 (unat write_size)) (\<lambda>d1.
        cbind (wr buf (unat (tail info)) d1) (\<lambda>buf1.
        cbind (rd_n src (int (unat write_size)) (unat (len - write_size))) (\<lambda>d2.
        cbind (wr buf1 0 d2) (\<lambda>buf2.
          Inr (info\<lparr>tail := len - write_size, use_size := use_size info + len\<rparr>, buf2)))))
      else
        cbind (rd_n src 0 (unat len)) (\<lambda>d.
        cbind (wr buf (unat (tail info)) d) (\<lambda>buf1.
          Inr (info\<lparr>tail := tail info + len, use_size := use_size info + len\<rparr>, buf1))))"

text \<open>\<open>Front\<close> after its checks: copy \<open>len\<close> bytes from the head to \<open>dst\<close>.\<close>

definition ring_front :: "QueueInfo \<Rightarrow> u8 list \<Rightarrow> u8 list \<Rightarrow> u32 \<Rightarrow> u8 list cpp" where
  "ring_front info buf dst len =
     (let read_size = queue_size info - head info in
      if read_size < len then
        cbind (rd_n buf (int (unat (head info))) (unat read_size)) (\<lambda>d1.
        cbind (wr dst 0 d1) (\<lambda>dst1.
        cbind (rd_n buf 0 (unat (len - read_size))) (\<lambda>d2.
          wr dst1 (unat read_size) d2)))
      else
        cbind (rd_n buf (int (unat (head info))) (unat len)) (\<lambda>d. wr dst 0 d))"

text \<open>\<open>Pop\<close> after its check; \<open>qsize\<close> is what \<open>GetQueueSize\<close> returns.\<close>

definition ring_pop :: "u32 \<Rightarrow> QueueInfo \<Rightarrow> u32 \<Rightarrow> QueueInfo" where
  "ring_pop qsize info pop_len =
     (let nReadSize = qsize - head info;
          info1 = (if nReadSize < pop_len then info\<lparr>head := pop_len - nReadSize\<rparr>
                   else info\<lparr>head := head info + pop_len\<rparr>)
      in info1\<lparr>use_size := use_size info1 - pop_len\<rparr>)"

section \<open>The bytes a ring stands for\<close>

definition ring_inv :: "QueueInfo \<Rightarrow> u8 list \<Rightarrow> bool" where
  "ring_inv info buf \<longleftrightarrow>
     length buf = unat (queue_size info) \<and> unat (use_size info) < length buf
     \<and> unat (head info) \<le> length buf \<and> unat (tail info) \<le> length buf
     \<and> (unat (head info) + unat (use_size info)) mod length buf = unat (tail info) mod length buf"

definition ring_contents :: "QueueInfo \<Rightarrow> u8 list \<Rightarrow> u8 list" where
  "ring_contents info buf = take (unat (use_size info)) (rotate (unat (head info)) buf)"

text \<open>The same operations on positions that are natural numbers.\<close>

definition put_wrap :: "u8 list \<Rightarrow> nat \<Rightarrow> u8 list \<Rightarrow> u8 list" where
  "put_wrap buf t d =
     (let ws = length buf - t in
      if ws < length d then drop ws d @ drop (length d - ws) (take t buf @ take ws d)
      else take t buf @ d @ drop (t + length d) buf)"

definition get_wrap :: "u8 list \<Rightarrow> nat \<Rightarrow> nat \<Rightarrow> u8 list" where
  "get_wrap buf h n =
     (let rs = length buf - h in
      if rs < n then drop h buf @ take (n - rs) buf else take n (drop h buf))"

definition next_pos :: "nat \<Rightarrow> nat \<Rightarrow> nat \<Rightarrow> nat" where
  "next_pos n p k = (if n - p < k then k - (n - p) else p + k)"

lemma mod_lt_twice: "(x::nat) < 2 * n \<Longrightarrow> x mod n = (if x < n then x else x - n)"
  by (simp add: mod_if)

lemma length_put_wrap: "t \<le> length buf \<Longrightarrow> length d \<le> length buf \<Longrightarrow> length (put_wrap buf t d) = length buf"
  by (auto simp: put_wrap_def Let_def)

lemma put_wrap_in:
  assumes "t \<le> length buf" "length d \<le> length buf" "i < length d"
  shows "put_wrap buf t d ! ((t + i) mod length buf) = d ! i"
proof -
  have "t + i < 2 * length buf"
    using assms by linarith
  then show ?thesis
    using assms by (auto simp: put_wrap_def Let_def mod_lt_twice nth_append add.commute)
qed

lemma put_wrap_out:
  assumes "t \<le> length buf" "length d \<le> length buf" "j < length buf"
    and "\<And>i. i < length d \<Longrightarrow> (t + i) mod length buf \<noteq> j"
  shows "put_wrap buf t d ! j = buf ! j"
proof (cases "length buf - t < length d")
  case True
  have "length d - (length buf - t) \<le> j \<and> j < t"
  proof (rule ccontr)
    assume *: "\<not> (length d - (length buf - t) \<le> j \<and> j < t)"
    let ?i = "if j < t then j + (length buf - t) else j - t"
    have "?i < length d" "t + ?i < 2 * length buf"
      using * True assms(1-3) by auto
    moreover have "(t + ?i) mod length buf = j"
      using * assms(1,3) calculation(2) by (auto simp: mod_lt_twice)
    ultimately show False using assms(4) by blast
  qed
  then show ?thesis
    using True assms(1-3) by (auto simp: put_wrap_def Let_def nth_append)
next
  case False
  have "j < t \<or> t + length d \<le> j"
  proof (rule ccontr)
    assume *: "\<not> ?thesis"
    with assms(3) have "(t + (j - t)) mod length buf = j" "j - t < length d"
      by auto
    with assms(4) show False by blast
  qed
  then show ?thesis
    using False assms(1-3) by (auto simp: put_wrap_def Let_def nth_append)
qed

lemma rotate_put_wrap:
  assumes n: "h \<le> length buf" "t \<le> length buf" "u + length d < length buf"
    and ht: "(h + u) mod length buf = t mod length buf"
  shows "take (u + length d) (rotate h (put_wrap buf t d)) = take u (rotate h buf) @ d"
proof (rule nth_equalityI)
  let ?n = "length buf" and ?p = "put_wrap buf t d"
  have len: "length ?p = ?n"
    using n by (intro length_put_wrap) auto
  show "length (take (u + length d) (rotate h ?p)) = length (take u (rotate h buf) @ d)"
    using n len by simp
  fix i assume "i < length (take (u + length d) (rotate h ?p))"
  then have i: "i < u + length d" by simp
  with n have lhs: "take (u + length d) (rotate h ?p) ! i = ?p ! ((h + i) mod ?n)"
    by (simp add: nth_rotate len)
  show "take (u + length d) (rotate h ?p) ! i = (take u (rotate h buf) @ d) ! i"
  proof (cases "i < u")
    case False
    then obtain k where k: "i = u + k" "k < length d"
      using i by (metis add_diff_inverse_nat nat_add_left_cancel_less)
    have "(h + i) mod ?n = (h + u + k) mod ?n"
      by (simp add: k add.assoc)
    also have "\<dots> = (t + k) mod ?n"
      using ht by (metis mod_add_left_eq)
    finally show ?thesis
      using lhs put_wrap_in [of t buf d k] n k by (simp add: nth_append)
  next
    case True
    have out: "(t + k) mod ?n \<noteq> (h + i) mod ?n" if "k < length d" for k
    proof
      assume "(t + k) mod ?n = (h + i) mod ?n"
      then have "(h + u + k) mod ?n = (h + i) mod ?n"
        using ht by (metis mod_add_left_eq)
      then have "(u + k) mod ?n = i mod ?n"
        by (simp add: add.assoc nat_mod_eq_iff)
      moreover have "u + k < ?n" "i < ?n"
        using that n(3) True by auto
      ultimately show False using True by simp
    qed
    have "?p ! ((h + i) mod ?n) = buf ! ((h + i) mod ?n)"
    proof (rule put_wrap_out)
      show "(h + i) mod ?n < ?n"
        using n(3) by (intro mod_less_divisor) linarith
    qed (use n out in auto)
    with lhs True n show ?thesis
      by (simp add: nth_append nth_rotate)
  qed
qed

lemma get_wrap_rotate:
  assumes "h \<le> length buf" "n \<le> length buf"
  shows "get_wrap buf h n = take n (rotate h buf)"
proof (cases "h = length buf")
  case True
  with assms show ?thesis
    by (auto simp: get_wrap_def rotate_drop_take)
next
  case False
  with assms show ?thesis
    by (auto simp: get_wrap_def Let_def rotate_drop_take)
qed

lemma rotate_next_pos:
  assumes "h \<le> length buf" "k \<le> length buf" "0 < length buf"
  shows "rotate (next_pos (length buf) h k) buf = rotate (h + k) buf"
proof -
  have "next_pos (length buf) h k mod length buf = (h + k) mod length buf"
  proof (cases "length buf - h < k")
    case True
    then have "next_pos (length buf) h k + length buf = h + k"
      using assms by (simp add: next_pos_def)
    then show ?thesis by (metis mod_add_self2)
  next
    case False
    then show ?thesis by (simp add: next_pos_def)
  qed
  then show ?thesis
    by (metis rotate_conv_mod)
qed

lemma next_pos_le: "p \<le> n \<Longrightarrow> k \<le> n \<Longrightarrow> next_pos n p k \<le> n"
  by (auto simp: next_pos_def)

lemma next_pos_mod: "p \<le> n \<Longrightarrow> k \<le> n \<Longrightarrow> 0 < n \<Longrightarrow> next_pos n p k mod n = (p + k) mod n"
proof -
  assume a: "p \<le> n" "k \<le> n" "0 < n"
  show ?thesis
  proof (cases "n - p < k")
    case True
    then have "next_pos n p k + n = p + k"
      using a by (simp add: next_pos_def)
    then show ?thesis by (metis mod_add_self2)
  next
    case False
    then show ?thesis by (simp add: next_pos_def)
  qed
qed

lemma rotate_drop_front:
  assumes "k \<le> u" "u \<le> length buf" "k < length buf"
  shows "take (u - k) (rotate (h + k) buf) = drop k (take u (rotate h buf))"
proof -
  have "rotate (h + k) buf = rotate k (rotate h buf)"
    by (simp add: rotate_rotate add.commute)
  also have "\<dots> = drop k (rotate h buf) @ take k (rotate h buf)"
    using assms by (simp add: rotate_drop_take)
  finally show ?thesis
    using assms by (simp add: drop_take)
qed


section \<open>The word-level operations\<close>

lemma unat_diff_le: "b \<le> a \<Longrightarrow> unat (a - b) = unat a - unat (b :: u32)"
  by (simp add: unat_sub word_le_nat_alt)

lemma unat_add_no_wrap: "unat a + unat b < 2 ^ 32 \<Longrightarrow> unat (a + b :: u32) = unat a + unat b"
  by (simp add: unat_add_lem [THEN iffD1])

lemma wr_len: "length src = k \<Longrightarrow> i + k \<le> length mem \<Longrightarrow>
    wr mem i src = Inr (take i mem @ src @ drop (i + k) mem)"
  by (auto simp: wr_def)

lemma ring_inv_words:
  assumes "ring_inv info buf"
  shows "unat (queue_size info - tail info) = length buf - unat (tail info)"
    and "unat (queue_size info - head info) = length buf - unat (head info)"
    and "length buf < 2 ^ 32"
  using assms unsigned_less [of "queue_size info"]
  by (simp_all add: ring_inv_def unat_diff_le word_le_nat_alt)

lemma ring_push_wrap:
  assumes inv: "ring_inv info buf" and room: "unat (use_size info) + unat len < length buf"
    and src: "unat len \<le> length src"
  shows "\<exists>info'. ring_push info buf src len = Inr (info', put_wrap buf (unat (tail info)) (take (unat len) src))
    \<and> queue_size info' = queue_size info \<and> head info' = head info
    \<and> unat (use_size info') = unat (use_size info) + unat len
    \<and> unat (tail info') = next_pos (length buf) (unat (tail info)) (unat len)"
proof -
  let ?t = "unat (tail info)" and ?n = "length buf" and ?ws = "queue_size info - tail info"
  note w = ring_inv_words [OF inv]
  have t: "?t \<le> ?n" using inv by (simp add: ring_inv_def)
  have use: "unat (use_size info + len) = unat (use_size info) + unat len"
    using room w(3) by (intro unat_add_no_wrap) simp
  show ?thesis
  proof (cases "?ws < len")
    case True
    then have lt: "?n - ?t < unat len"
      using w(1) by (simp add: word_less_nat_alt)
    have d2: "unat (len - ?ws) = unat len - (?n - ?t)"
      using unat_diff_le [OF order.strict_implies_order [OF True]] w(1) by simp
    have rd1: "rd_n src 0 (?n - ?t) = Inr (take (?n - ?t) src)"
      using rd_n_nat [of 0 "?n - ?t" src] lt src by simp
    have wr1: "wr buf ?t (take (?n - ?t) src) = Inr (take ?t buf @ take (?n - ?t) src)"
      using lt src t by (simp add: wr_def)
    have rd2: "rd_n src (int (?n - ?t)) (unat len - (?n - ?t)) = Inr (take (unat len - (?n - ?t)) (drop (?n - ?t) src))"
      using lt src by (intro rd_n_nat) simp
    have wr2: "wr (take ?t buf @ take (?n - ?t) src) 0 (take (unat len - (?n - ?t)) (drop (?n - ?t) src)) =
        Inr (take (unat len - (?n - ?t)) (drop (?n - ?t) src)
          @ drop (unat len - (?n - ?t)) (take ?t buf @ take (?n - ?t) src))"
      using lt src t room wr_len [of "take (unat len - (?n - ?t)) (drop (?n - ?t) src)" "unat len - (?n - ?t)" 0
          "take ?t buf @ take (?n - ?t) src"] by simp
    have "ring_push info buf src len = Inr (info\<lparr>tail := len - ?ws, use_size := use_size info + len\<rparr>,
        take (unat len - (?n - ?t)) (drop (?n - ?t) src)
          @ drop (unat len - (?n - ?t)) (take ?t buf @ take (?n - ?t) src))"
      by (simp only: ring_push_def Let_def True if_True w(1) d2 rd1 wr1 rd2 wr2 cbind.simps)
    moreover have "put_wrap buf ?t (take (unat len) src) = take (unat len - (?n - ?t)) (drop (?n - ?t) src)
          @ drop (unat len - (?n - ?t)) (take ?t buf @ take (?n - ?t) src)"
    proof -
      have "length (take (unat len) src) = unat len"
        using src by simp
      moreover have "take (?n - ?t) (take (unat len) src) = take (?n - ?t) src"
        using lt by (simp add: min_absorb1)
      ultimately show ?thesis
        using lt by (simp only: put_wrap_def Let_def if_True drop_take)
    qed
    ultimately show ?thesis
      using lt use d2 by (simp add: next_pos_def)
  next
    case False
    then have ge: "unat len \<le> ?n - ?t"
      using w(1) by (simp add: word_less_nat_alt)
    have tl: "unat (tail info + len) = ?t + unat len"
      using ge t w(3) by (intro unat_add_no_wrap) simp
    have "ring_push info buf src len = Inr (info\<lparr>tail := tail info + len, use_size := use_size info + len\<rparr>,
        take ?t buf @ take (unat len) src @ drop (?t + unat len) buf)"
    proof -
      have r: "rd_n src 0 (unat len) = Inr (take (unat len) src)"
        using rd_n_nat [of 0 "unat len" src] src by simp
      have "wr buf ?t (take (unat len) src) = Inr (take ?t buf @ take (unat len) src @ drop (?t + unat len) buf)"
        using ge src t by (intro wr_len) auto
      with r show ?thesis
        by (simp only: ring_push_def Let_def False if_False cbind.simps)
    qed
    moreover have "put_wrap buf ?t (take (unat len) src) = take ?t buf @ take (unat len) src @ drop (?t + unat len) buf"
      using ge src by (simp add: put_wrap_def Let_def min_def)
    ultimately show ?thesis
      using ge use tl by (simp add: next_pos_def)
  qed
qed

lemma ring_push_ok:
  assumes inv: "ring_inv info buf" and room: "unat (use_size info) + unat len < length buf"
    and src: "unat len \<le> length src"
  shows "\<exists>info' buf'. ring_push info buf src len = Inr (info', buf') \<and> ring_inv info' buf'
    \<and> ring_contents info' buf' = ring_contents info buf @ take (unat len) src
    \<and> queue_size info' = queue_size info \<and> length buf' = length buf"
proof -
  let ?d = "take (unat len) src" and ?t = "unat (tail info)" and ?h = "unat (head info)"
    and ?u = "unat (use_size info)" and ?n = "length buf"
  obtain info' where eq: "ring_push info buf src len = Inr (info', put_wrap buf ?t ?d)"
    and f: "queue_size info' = queue_size info" "head info' = head info"
      "unat (use_size info') = ?u + unat len" "unat (tail info') = next_pos ?n ?t (unat len)"
    using ring_push_wrap [OF assms] by blast
  have b: "length buf = unat (queue_size info)" "?h \<le> ?n" "?t \<le> ?n" "(?h + ?u) mod ?n = ?t mod ?n" "unat len \<le> ?n" "0 < ?n"
    using inv room by (auto simp: ring_inv_def)
  have ld: "length ?d = unat len" using src by simp
  have lp: "length (put_wrap buf ?t ?d) = ?n"
    using b(3,5) ld by (intro length_put_wrap) auto
  have "(?h + (?u + unat len)) mod ?n = (?t + unat len) mod ?n"
    using b(4) by (metis add.assoc mod_add_left_eq)
  then have "ring_inv info' (put_wrap buf ?t ?d)"
    using b f lp room by (simp add: ring_inv_def next_pos_le next_pos_mod)
  moreover have "ring_contents info' (put_wrap buf ?t ?d) = ring_contents info buf @ ?d"
    using rotate_put_wrap [OF b(2,3) _ b(4), of ?d] room ld f by (simp add: ring_contents_def)
  ultimately show ?thesis
    using eq f lp by blast
qed

lemma ring_front_ok:
  assumes inv: "ring_inv info buf" and len: "unat len \<le> unat (use_size info)" and dst: "unat len \<le> length dst"
  shows "ring_front info buf dst len = Inr (take (unat len) (ring_contents info buf) @ drop (unat len) dst)"
proof -
  let ?h = "unat (head info)" and ?n = "length buf" and ?rs = "queue_size info - head info"
  note w = ring_inv_words [OF inv]
  have h: "?h \<le> ?n" and ln: "unat len \<le> ?n"
    using inv len by (simp_all add: ring_inv_def)
  have "ring_front info buf dst len = Inr (get_wrap buf ?h (unat len) @ drop (unat len) dst)"
  proof (cases "?rs < len")
    case True
    then have lt: "?n - ?h < unat len"
      using w(2) by (simp add: word_less_nat_alt)
    have d2: "unat (len - ?rs) = unat len - (?n - ?h)"
      using unat_diff_le [OF order.strict_implies_order [OF True]] w(2) by simp
    have r1: "rd_n buf (int ?h) (?n - ?h) = Inr (drop ?h buf)"
      using h by (simp add: rd_n_def)
    have w1: "wr dst 0 (drop ?h buf) = Inr (drop ?h buf @ drop (?n - ?h) dst)"
      using lt dst by (simp add: wr_def)
    have r2: "rd_n buf 0 (unat len - (?n - ?h)) = Inr (take (unat len - (?n - ?h)) buf)"
      using ln by (simp add: rd_n_def)
    have w2: "wr (drop ?h buf @ drop (?n - ?h) dst) (?n - ?h) (take (unat len - (?n - ?h)) buf)
      = Inr (drop ?h buf @ take (unat len - (?n - ?h)) buf @ drop (unat len) dst)"
      using lt dst ln h wr_len [of "take (unat len - (?n - ?h)) buf" "unat len - (?n - ?h)" "?n - ?h"
          "drop ?h buf @ drop (?n - ?h) dst"] by simp
    have "ring_front info buf dst len = Inr (drop ?h buf @ take (unat len - (?n - ?h)) buf @ drop (unat len) dst)"
      by (simp only: ring_front_def Let_def True if_True w(2) d2 r1 w1 r2 w2 cbind.simps)
    then show ?thesis
      using lt by (simp add: get_wrap_def)
  next
    case False
    then have "unat len \<le> ?n - ?h"
      using w(2) by (simp add: word_less_nat_alt)
    then have le: "?h + unat len \<le> ?n" "unat len \<le> ?n - ?h"
      using h by simp_all
    have "wr dst 0 (take (unat len) (drop ?h buf)) = Inr (take (unat len) (drop ?h buf) @ drop (unat len) dst)"
      using wr_len [of "take (unat len) (drop ?h buf)" "unat len" 0 dst] le dst by simp
    then have "ring_front info buf dst len = Inr (take (unat len) (drop ?h buf) @ drop (unat len) dst)"
      by (simp only: ring_front_def Let_def False if_False rd_n_nat [OF le(1)] cbind.simps)
    then show ?thesis
      using le(2) by (simp add: get_wrap_def)
  qed
  also have "get_wrap buf ?h (unat len) = take (unat len) (rotate ?h buf)"
    by (rule get_wrap_rotate [OF h ln])
  also have "\<dots> = take (unat len) (ring_contents info buf)"
    using len by (simp add: ring_contents_def min_def)
  finally show ?thesis .
qed

lemma ring_pop_ok:
  assumes inv: "ring_inv info buf" and len: "unat len \<le> unat (use_size info)"
  shows "ring_inv (ring_pop (queue_size info) info len) buf"
    and "ring_contents (ring_pop (queue_size info) info len) buf = drop (unat len) (ring_contents info buf)"
    and "queue_size (ring_pop (queue_size info) info len) = queue_size info"
proof -
  let ?h = "unat (head info)" and ?n = "length buf" and ?rs = "queue_size info - head info"
    and ?u = "unat (use_size info)" and ?i = "ring_pop (queue_size info) info len"
  note w = ring_inv_words [OF inv]
  have b: "?n = unat (queue_size info)" "?u < ?n" "?h \<le> ?n" "unat (tail info) \<le> ?n"
      "(?h + ?u) mod ?n = unat (tail info) mod ?n" and k: "unat len < ?n" "unat len \<le> ?n"
    using inv len by (auto simp: ring_inv_def)
  have use: "unat (use_size ?i) = ?u - unat len" and q: "queue_size ?i = queue_size info" and t: "tail ?i = tail info"
    using len by (simp_all add: ring_pop_def Let_def unat_diff_le word_le_nat_alt)
  have h: "unat (head ?i) = next_pos ?n ?h (unat len)"
  proof (cases "?rs < len")
    case True
    then have "unat (len - ?rs) = unat len - (?n - ?h)" "?n - ?h < unat len"
      using unat_diff_le [OF order.strict_implies_order [OF True]] w(2) by (simp_all add: word_less_nat_alt)
    with True show ?thesis by (simp add: ring_pop_def next_pos_def)
  next
    case False
    then have le: "unat len \<le> ?n - ?h"
      using w(2) by (simp add: word_less_nat_alt)
    then have "unat (head info + len) = ?h + unat len"
      using b(3) w(3) by (intro unat_add_no_wrap) simp
    with False le show ?thesis by (simp add: ring_pop_def next_pos_def)
  qed
  have "(next_pos ?n ?h (unat len) + (?u - unat len)) mod ?n = (?h + unat len + (?u - unat len)) mod ?n"
  proof -
    have "0 < ?n"
      using k(1) by linarith
    then have "next_pos ?n ?h (unat len) mod ?n = (?h + unat len) mod ?n"
      by (rule next_pos_mod [OF b(3) k(2)])
    then show ?thesis by (rule mod_add_cong) simp
  qed
  also have "\<dots> = unat (tail info) mod ?n"
    using len b(5) by simp
  finally have m: "(next_pos ?n ?h (unat len) + (?u - unat len)) mod ?n = unat (tail info) mod ?n" .
  show "ring_inv ?i buf"
    using b k m by (simp add: ring_inv_def h use t q next_pos_le)
  show "ring_contents ?i buf = drop (unat len) (ring_contents info buf)"
  proof -
    have "0 < ?n" and u: "?u \<le> ?n"
      using b(2) by linarith+
    then show ?thesis
      unfolding ring_contents_def h use rotate_next_pos [OF b(3) k(2) \<open>0 < ?n\<close>]
      by (intro rotate_drop_front [OF len u k(1)])
  qed
  show "queue_size ?i = queue_size info" by (rule q)
qed

lemma length_ring_contents: "ring_inv info buf \<Longrightarrow> length (ring_contents info buf) = unat (use_size info)"
  by (simp add: ring_inv_def ring_contents_def)

lemma ring_free:
  assumes "ring_inv info buf"
  shows "unat (queue_size info - 1 - use_size info) = unat (queue_size info) - 1 - unat (use_size info)"
proof -
  have u: "unat (use_size info) < unat (queue_size info)"
    using assms by (simp add: ring_inv_def)
  then have "1 \<le> queue_size info"
    by (simp add: word_le_nat_alt)
  then have "unat (queue_size info - 1) = unat (queue_size info) - 1"
    by (simp add: unat_diff_le)
  with u show ?thesis
    by (subst unat_diff_le) (auto simp: word_le_nat_alt)
qed

section \<open>The interface of a byte queue\<close>

text \<open>
  What a client relies on. \<open>push d\<close> appends all bytes or refuses and changes nothing; \<open>front n\<close> shows the
  first \<open>n\<close> bytes and changes nothing that counts; \<open>pop\<close> after a successful \<open>front n\<close> drops them. The
  result 0 is success, as in the code.
\<close>

locale byte_queue =
  fixes inv :: "'q \<Rightarrow> bool" and contents :: "'q \<Rightarrow> u8 list" and capacity :: "'q \<Rightarrow> nat"
    and push :: "u8 list \<Rightarrow> 'q \<Rightarrow> (int \<times> 'q) cpp"
    and front :: "nat \<Rightarrow> 'q \<Rightarrow> (int \<times> u8 list \<times> 'q) cpp"
    and pop :: "'q \<Rightarrow> (int \<times> 'q) cpp"
  assumes push_fits: "inv q \<Longrightarrow> length (contents q) + length d \<le> capacity q \<Longrightarrow>
      \<exists>q'. push d q = Inr (0, q') \<and> inv q' \<and> contents q' = contents q @ d \<and> capacity q' = capacity q"
    and push_full: "inv q \<Longrightarrow> capacity q < length (contents q) + length d \<Longrightarrow> length d < 2 ^ 32 \<Longrightarrow>
      \<exists>c. push d q = Inr (c, q) \<and> c \<noteq> 0"
    and front_pop: "inv q \<Longrightarrow> 0 < n \<Longrightarrow> n \<le> length (contents q) \<Longrightarrow>
      \<exists>q' q''. front n q = Inr (0, take n (contents q), q') \<and> inv q' \<and> contents q' = contents q
        \<and> capacity q' = capacity q \<and> pop q' = Inr (0, q'') \<and> inv q''
        \<and> contents q'' = drop n (contents q) \<and> capacity q'' = capacity q"
    and front_short: "inv q \<Longrightarrow> length (contents q) < n \<Longrightarrow> n < 2 ^ 32 \<Longrightarrow>
      \<exists>c bs. front n q = Inr (c, bs, q) \<and> c \<noteq> 0"

text \<open>A history of a queue: messages sent, and receptions of a number of bytes.\<close>

datatype queue_op = QSend "u8 list" | QRecv nat

datatype queue_out = Sent bool | Got "u8 list" | Short

definition op_ok :: "queue_op \<Rightarrow> bool" where
  "op_ok p = (case p of QSend d \<Rightarrow> length d < 2 ^ 32 | QRecv n \<Rightarrow> 0 < n \<and> n < 2 ^ 32)"

text \<open>The history of an ideal queue of \<open>cap\<close> bytes.\<close>

primrec spec_outs :: "nat \<Rightarrow> queue_op list \<Rightarrow> u8 list \<Rightarrow> queue_out list \<times> u8 list" where
  "spec_outs cap [] c = ([], c)"
| "spec_outs cap (p # ps) c =
     (let (out, c') = (case p of QSend d \<Rightarrow> if length c + length d \<le> cap then (Sent True, c @ d) else (Sent False, c)
          | QRecv n \<Rightarrow> if n \<le> length c then (Got (take n c), drop n c) else (Short, c));
          (outs, c'') = spec_outs cap ps c'
      in (out # outs, c''))"

text \<open>The same history run with a queue's operations.\<close>

definition queue_step :: "(u8 list \<Rightarrow> 'q \<Rightarrow> (int \<times> 'q) cpp) \<Rightarrow> (nat \<Rightarrow> 'q \<Rightarrow> (int \<times> u8 list \<times> 'q) cpp)
    \<Rightarrow> ('q \<Rightarrow> (int \<times> 'q) cpp) \<Rightarrow> queue_op \<Rightarrow> 'q \<Rightarrow> (queue_out \<times> 'q) cpp" where
  "queue_step push front pop p q = (case p of
     QSend d \<Rightarrow> cbind (push d q) (\<lambda>(r, q'). Inr (Sent (r = 0), q'))
   | QRecv n \<Rightarrow> cbind (front n q) (\<lambda>(r, bs, q'). if r \<noteq> 0 then Inr (Short, q')
        else cbind (pop q') (\<lambda>(r', q''). Inr (if r' \<noteq> 0 then Short else Got bs, q''))))"

primrec queue_run :: "(u8 list \<Rightarrow> 'q \<Rightarrow> (int \<times> 'q) cpp) \<Rightarrow> (nat \<Rightarrow> 'q \<Rightarrow> (int \<times> u8 list \<times> 'q) cpp)
    \<Rightarrow> ('q \<Rightarrow> (int \<times> 'q) cpp) \<Rightarrow> queue_op list \<Rightarrow> 'q \<Rightarrow> (queue_out list \<times> 'q) cpp" where
  "queue_run push front pop [] q = Inr ([], q)"
| "queue_run push front pop (p # ps) q =
     cbind (queue_step push front pop p q) (\<lambda>(out, q').
       cbind (queue_run push front pop ps q') (\<lambda>(outs, q''). Inr (out # outs, q'')))"

context byte_queue
begin

lemma queue_step_spec:
  assumes "inv q" "op_ok p"
  shows "\<exists>q'. queue_step push front pop p q = Inr (hd (fst (spec_outs (capacity q) [p] (contents q))), q')
    \<and> inv q' \<and> contents q' = snd (spec_outs (capacity q) [p] (contents q)) \<and> capacity q' = capacity q"
proof (cases p)
  case (QSend d)
  show ?thesis
  proof (cases "length (contents q) + length d \<le> capacity q")
    case True
    with push_fits [OF assms(1) True] QSend show ?thesis
      by (auto simp: queue_step_def)
  next
    case False
    with push_full [OF assms(1), of d] QSend assms show ?thesis
      by (auto simp: queue_step_def op_ok_def)
  qed
next
  case (QRecv n)
  show ?thesis
  proof (cases "n \<le> length (contents q)")
    case True
    with front_pop [OF assms(1) _ True] QRecv assms(2) show ?thesis
      by (auto simp: queue_step_def op_ok_def)
  next
    case False
    with front_short [OF assms(1), of n] QRecv assms show ?thesis
      by (auto simp: queue_step_def op_ok_def)
  qed
qed

lemma queue_run_spec:
  assumes "inv q" "\<forall>p \<in> set ps. op_ok p"
  shows "\<exists>q'. queue_run push front pop ps q = Inr (fst (spec_outs (capacity q) ps (contents q)), q')
    \<and> inv q' \<and> contents q' = snd (spec_outs (capacity q) ps (contents q))"
  using assms
proof (induction ps arbitrary: q)
  case Nil
  then show ?case by simp
next
  case (Cons p ps)
  from Cons.prems queue_step_spec [of q p] obtain q1 where q1:
    "queue_step push front pop p q = Inr (hd (fst (spec_outs (capacity q) [p] (contents q))), q1)"
    "inv q1" "contents q1 = snd (spec_outs (capacity q) [p] (contents q))" "capacity q1 = capacity q"
    by auto
  with Cons.IH [OF q1(2)] Cons.prems show ?case
    by (auto simp: Let_def case_prod_unfold)
qed

end

end
