(* ===== verification/Queue_Shared.thy ===== *)
theory Queue_Shared
  imports Queue_Ring
begin

text \<open>
  \<open>QueueSharedMemory\<close> of \<open>include/common/QueueSharedMemory.cpp\<close>: the byte queue in a file mapping that
  several processes map. Each process has its own \<open>QueueShared\<close> (handle, view, pending pop length);
  the mapped objects are a store that all processes share, and a view is the name of an object in
  it. What the Windows calls return is the parameter \<open>map_env\<close>: a handle, a view, or the error code
  of \<open>GetLastError\<close>.
\<close>

section \<open>Code\<close>

datatype SharedFailedCode =
    CREATE_MAMORY_MAP_HANDLE | BRING_QUEUE_INFO | DID_NOT_INITIALIZE | NOT_ENOUGH_FREE_SPACE
  | READ_BUFFER_SIZE_IS_BIG | POP_DATA_EMPTY | RANGE_IS_NOT_RIGHT

fun SharedFailedCode_int :: "SharedFailedCode \<Rightarrow> int" where
  "SharedFailedCode_int CREATE_MAMORY_MAP_HANDLE = 1"
| "SharedFailedCode_int BRING_QUEUE_INFO = 2"
| "SharedFailedCode_int DID_NOT_INITIALIZE = 3"
| "SharedFailedCode_int NOT_ENOUGH_FREE_SPACE = 4"
| "SharedFailedCode_int READ_BUFFER_SIZE_IS_BIG = 5"
| "SharedFailedCode_int POP_DATA_EMPTY = 6"
| "SharedFailedCode_int RANGE_IS_NOT_RIGHT = 7"

text \<open>The mapped memory: the packed \<open>QueueInfo\<close>, whose last member is \<open>m_user_space\<close>, and the queue bytes after it.\<close>

record shm_obj =
  so_info :: QueueInfo
  m_user_space :: "u8 list"
  so_buffer :: "u8 list"

type_synonym shm = "nat \<Rightarrow> shm_obj option"

record map_env =
  OpenFileMappingA :: "string \<Rightarrow> nat + u32"
  CreateFileMappingA :: "string \<Rightarrow> u32 \<Rightarrow> nat + u32"
  MapViewOfFile :: "nat \<Rightarrow> nat + u32"

record QueueShared =
  qs_name :: string
  m_memory_map :: "nat option"
  m_queue_info :: "nat option"
  m_pop_data_len :: u32
  m_error_code :: u32

definition QueueShared_new :: QueueShared where
  "QueueShared_new = \<lparr>qs_name = [], m_memory_map = None, m_queue_info = None, m_pop_data_len = 0, m_error_code = 0\<rparr>"

definition sizeof_QueueInfo :: u32 where
  "sizeof_QueueInfo = 48"

definition CreateSharedMemory :: "map_env \<Rightarrow> u32 \<Rightarrow> QueueShared \<Rightarrow> bool \<times> QueueShared" where
  "CreateSharedMemory env len q =
     (if len = 0 then (False, q)
      else case CreateFileMappingA env (qs_name q) (sizeof_QueueInfo + len) of
        Inr e \<Rightarrow> (False, q\<lparr>m_memory_map := None, m_error_code := e\<rparr>)
      | Inl h \<Rightarrow> (True, q\<lparr>m_memory_map := Some h\<rparr>))"

definition OpenSharedMemory :: "map_env \<Rightarrow> QueueShared \<Rightarrow> bool \<times> QueueShared" where
  "OpenSharedMemory env q = (case OpenFileMappingA env (qs_name q) of
      Inr e \<Rightarrow> (False, q\<lparr>m_memory_map := None, m_error_code := e\<rparr>)
    | Inl h \<Rightarrow> (True, q\<lparr>m_memory_map := Some h\<rparr>))"

definition GetSharedPoint :: "map_env \<Rightarrow> QueueShared \<Rightarrow> bool \<times> QueueShared" where
  "GetSharedPoint env q = (case m_memory_map q of None \<Rightarrow> (False, q\<lparr>m_queue_info := None\<rparr>)
    | Some h \<Rightarrow> (case MapViewOfFile env h of
        Inr e \<Rightarrow> (False, q\<lparr>m_queue_info := None, m_error_code := e\<rparr>)
      | Inl a \<Rightarrow> (True, q\<lparr>m_queue_info := Some a\<rparr>)))"

text \<open>The object behind \<open>m_queue_info\<close>, and storing it back.\<close>

definition deref :: "QueueShared \<Rightarrow> shm \<Rightarrow> shm_obj cpp" where
  "deref q m = (case m_queue_info q of None \<Rightarrow> Inl NullPointer
     | Some a \<Rightarrow> (case m a of None \<Rightarrow> Inl OutOfBounds | Some x \<Rightarrow> Inr x))"

definition store :: "QueueShared \<Rightarrow> shm_obj \<Rightarrow> shm \<Rightarrow> shm" where
  "store q x m = (case m_queue_info q of None \<Rightarrow> m | Some a \<Rightarrow> m(a \<mapsto> x))"

definition HasQueueInfo :: "QueueShared \<Rightarrow> bool" where
  "HasQueueInfo q = (if m_queue_info q = None then False else True)"

definition QS_Initialize :: "map_env \<Rightarrow> string \<Rightarrow> u32 \<Rightarrow> QueueShared \<Rightarrow> shm \<Rightarrow> (int \<times> QueueShared \<times> shm) cpp" where
  "QS_Initialize env name len q m =
     (let q1 = q\<lparr>qs_name := name\<rparr>;
          (opened, q2) = OpenSharedMemory env q1;
          (have_map, create, q3) =
            (if opened then (True, False, q2)
             else let (created, q3) = CreateSharedMemory env len q2 in (created, created, q3))
      in if \<not> have_map then Inr (SharedFailedCode_int CREATE_MAMORY_MAP_HANDLE, q3, m)
         else let (viewed, q4) = GetSharedPoint env q3 in
           if \<not> viewed then Inr (SharedFailedCode_int BRING_QUEUE_INFO, q4, m)
           else if create then cbind (deref q4 m) (\<lambda>x.
             Inr (0, q4, store q4 (x\<lparr>so_info := (so_info x)\<lparr>queue_size := len\<rparr>\<rparr>) m))
           else Inr (0, q4, m))"

definition QS_Finalize :: "QueueShared \<Rightarrow> QueueShared" where
  "QS_Finalize q =
     (let q1 = (if m_queue_info q = None then q else q\<lparr>m_queue_info := None\<rparr>)
      in if m_memory_map q1 = None then q1 else q1\<lparr>m_memory_map := None\<rparr>)"

definition QS_GetName :: "QueueShared \<Rightarrow> string" where
  "QS_GetName q = (if m_queue_info q = None then [] else qs_name q)"

definition GetInformation :: "u8 list \<Rightarrow> QueueShared \<Rightarrow> shm \<Rightarrow> (int \<times> u8 list) cpp" where
  "GetInformation buffer q m =
     (if m_queue_info q = None then Inr (SharedFailedCode_int DID_NOT_INITIALIZE, buffer)
      else cbind (deref q m) (\<lambda>x. cbind (wr buffer 0 (m_user_space x)) (\<lambda>b. Inr (0, b))))"

definition SetInformation :: "u8 list \<Rightarrow> QueueShared \<Rightarrow> shm \<Rightarrow> (int \<times> shm) cpp" where
  "SetInformation buffer q m =
     (if m_queue_info q = None then Inr (SharedFailedCode_int DID_NOT_INITIALIZE, m)
      else cbind (deref q m) (\<lambda>x. cbind (rd_n buffer 0 (length (m_user_space x))) (\<lambda>b.
        Inr (0, store q (x\<lparr>m_user_space := b\<rparr>) m))))"

definition QS_GetUseSize :: "QueueShared \<Rightarrow> shm \<Rightarrow> u32 cpp" where
  "QS_GetUseSize q m = (if m_queue_info q = None then Inr 0 else cbind (deref q m) (\<lambda>x. Inr (use_size (so_info x))))"

definition QS_GetQueueSize :: "QueueShared \<Rightarrow> shm \<Rightarrow> u32 cpp" where
  "QS_GetQueueSize q m = (if m_queue_info q = None then Inr 0 else cbind (deref q m) (\<lambda>x. Inr (queue_size (so_info x))))"

definition QS_GetFreeSize :: "QueueShared \<Rightarrow> shm \<Rightarrow> u32 cpp" where
  "QS_GetFreeSize q m = (if m_queue_info q = None then Inr 0
     else cbind (deref q m) (\<lambda>x. Inr ((queue_size (so_info x) - 1) - use_size (so_info x))))"

definition GetWinErrorCode :: "QueueShared \<Rightarrow> u32" where
  "GetWinErrorCode q = m_error_code q"

definition QS_Clear :: "QueueShared \<Rightarrow> shm \<Rightarrow> (int \<times> shm) cpp" where
  "QS_Clear q m =
     (if m_queue_info q = None then Inr (SharedFailedCode_int DID_NOT_INITIALIZE, m)
      else cbind (deref q m) (\<lambda>x. cbind (QS_GetQueueSize q m) (\<lambda>n.
        cbind (wr (so_buffer x) 0 (replicate (unat n) 0)) (\<lambda>buf.
          Inr (0, store q (x\<lparr>so_buffer := buf, so_info := (so_info x)\<lparr>head := 0, tail := 0, use_size := 0\<rparr>\<rparr>) m)))))"

definition QS_Push :: "u8 list \<Rightarrow> u32 \<Rightarrow> QueueShared \<Rightarrow> shm \<Rightarrow> (int \<times> shm) cpp" where
  "QS_Push buffer buffer_len q m =
     (if m_queue_info q = None then Inr (SharedFailedCode_int DID_NOT_INITIALIZE, m)
      else cbind (QS_GetFreeSize q m) (\<lambda>free.
        if buffer_len > free then Inr (SharedFailedCode_int NOT_ENOUGH_FREE_SPACE, m)
        else cbind (deref q m) (\<lambda>x. cbind (ring_push (so_info x) (so_buffer x) buffer buffer_len) (\<lambda>(info', buf').
          Inr (0, store q (x\<lparr>so_info := info', so_buffer := buf'\<rparr>) m)))))"

definition QS_Front :: "u8 list \<Rightarrow> u32 \<Rightarrow> QueueShared \<Rightarrow> shm \<Rightarrow> (int \<times> u8 list \<times> QueueShared) cpp" where
  "QS_Front buffer buffer_len q m =
     (if m_queue_info q = None then Inr (SharedFailedCode_int DID_NOT_INITIALIZE, buffer, q)
      else cbind (deref q m) (\<lambda>x.
        if use_size (so_info x) < buffer_len then Inr (SharedFailedCode_int READ_BUFFER_SIZE_IS_BIG, buffer, q)
        else cbind (ring_front (so_info x) (so_buffer x) buffer buffer_len) (\<lambda>buffer'.
          Inr (0, buffer', q\<lparr>m_pop_data_len := buffer_len\<rparr>))))"

text \<open>\<open>Pop\<close> dereferences \<open>m_queue_info\<close> without a check.\<close>

definition QS_Pop :: "QueueShared \<Rightarrow> shm \<Rightarrow> (int \<times> QueueShared \<times> shm) cpp" where
  "QS_Pop q m =
     (if m_pop_data_len q = 0 then Inr (SharedFailedCode_int POP_DATA_EMPTY, q, m)
      else cbind (QS_GetQueueSize q m) (\<lambda>n. cbind (deref q m) (\<lambda>x.
        Inr (0, q\<lparr>m_pop_data_len := 0\<rparr>, store q (x\<lparr>so_info := ring_pop n (so_info x) (m_pop_data_len q)\<rparr>) m))))"

definition QS_SetData :: "u32 \<Rightarrow> u8 list \<Rightarrow> u32 \<Rightarrow> QueueShared \<Rightarrow> shm \<Rightarrow> (int \<times> shm) cpp" where
  "QS_SetData pos buffer buffer_len q m =
     (if m_queue_info q = None then Inr (SharedFailedCode_int DID_NOT_INITIALIZE, m)
      else cbind (QS_GetQueueSize q m) (\<lambda>n.
        if pos < 0 \<or> pos + buffer_len \<ge> n then Inr (SharedFailedCode_int RANGE_IS_NOT_RIGHT, m)
        else cbind (deref q m) (\<lambda>x. cbind (rd_n buffer 0 (unat buffer_len)) (\<lambda>d.
          cbind (wr (so_buffer x) (unat pos) d) (\<lambda>buf. Inr (0, store q (x\<lparr>so_buffer := buf\<rparr>) m))))))"

definition QS_GetData :: "u32 \<Rightarrow> u8 list \<Rightarrow> u32 \<Rightarrow> QueueShared \<Rightarrow> shm \<Rightarrow> (int \<times> u8 list) cpp" where
  "QS_GetData pos buffer buffer_len q m =
     (if m_queue_info q = None then Inr (SharedFailedCode_int DID_NOT_INITIALIZE, buffer)
      else cbind (QS_GetQueueSize q m) (\<lambda>n.
        if pos < 0 \<or> pos \<ge> n then Inr (SharedFailedCode_int RANGE_IS_NOT_RIGHT, buffer)
        else if n - pos < buffer_len then Inr (SharedFailedCode_int RANGE_IS_NOT_RIGHT, buffer)
        else cbind (deref q m) (\<lambda>x. cbind (rd_n (so_buffer x) (int (unat pos)) (unat buffer_len)) (\<lambda>d.
          cbind (wr buffer 0 d) (\<lambda>b. Inr (0, b))))))"

section \<open>Invariant and contents\<close>

text \<open>A process whose view is the object \<open>a\<close>, and an object that is a well-formed queue.\<close>

definition mapped :: "nat \<Rightarrow> QueueShared \<Rightarrow> bool" where
  "mapped a q \<longleftrightarrow> m_queue_info q = Some a"

definition shm_inv :: "nat \<Rightarrow> shm \<Rightarrow> bool" where
  "shm_inv a m \<longleftrightarrow> (\<exists>x. m a = Some x \<and> ring_inv (so_info x) (so_buffer x) \<and> length (m_user_space x) = 32)"

definition shm_contents :: "nat \<Rightarrow> shm \<Rightarrow> u8 list" where
  "shm_contents a m = (case m a of None \<Rightarrow> [] | Some x \<Rightarrow> ring_contents (so_info x) (so_buffer x))"

definition shm_capacity :: "nat \<Rightarrow> shm \<Rightarrow> nat" where
  "shm_capacity a m = (case m a of None \<Rightarrow> 0 | Some x \<Rightarrow> unat (queue_size (so_info x)) - 1)"

definition shm_user :: "nat \<Rightarrow> shm \<Rightarrow> u8 list" where
  "shm_user a m = (case m a of None \<Rightarrow> [] | Some x \<Rightarrow> m_user_space x)"

lemma deref_mapped: "mapped a q \<Longrightarrow> m a = Some x \<Longrightarrow> deref q m = Inr x"
  by (simp add: deref_def mapped_def)

lemma store_mapped: "mapped a q \<Longrightarrow> store q x m = m(a \<mapsto> x)"
  by (simp add: store_def mapped_def)

lemma mapped_not_None: "mapped a q \<Longrightarrow> m_queue_info q \<noteq> None"
  by (simp add: mapped_def)

lemma shm_contents_length:
  assumes "shm_inv a m" "m a = Some x"
  shows "length (shm_contents a m) = unat (use_size (so_info x))"
  using assms by (auto simp: shm_inv_def shm_contents_def length_ring_contents)

lemma shm_contents_le: "shm_inv a m \<Longrightarrow> length (shm_contents a m) \<le> shm_capacity a m"
  by (auto simp: shm_inv_def shm_contents_def shm_capacity_def length_ring_contents ring_inv_def ring_contents_def)

lemma shm_capacity_u32: "shm_capacity a m < 2 ^ 32"
proof (cases "m a")
  case None
  then show ?thesis by (simp add: shm_capacity_def)
next
  case (Some x)
  then show ?thesis
    using unat_u32_lt [of "queue_size (so_info x)"] by (simp add: shm_capacity_def)
qed

lemma QS_GetFreeSize_mapped:
  assumes "mapped a q" "shm_inv a m"
  shows "\<exists>free. QS_GetFreeSize q m = Inr free \<and> unat free = shm_capacity a m - length (shm_contents a m)"
  using assms
  by (auto simp: QS_GetFreeSize_def mapped_not_None deref_mapped shm_inv_def shm_capacity_def shm_contents_def
      length_ring_contents ring_free)

lemma QS_Push_ok:
  assumes q: "mapped a q" and inv: "shm_inv a m" and fits: "length (shm_contents a m) + unat len \<le> shm_capacity a m"
    and len: "unat len \<le> length data"
  shows "\<exists>m'. QS_Push data len q m = Inr (0, m') \<and> shm_inv a m'
    \<and> shm_contents a m' = shm_contents a m @ take (unat len) data \<and> shm_capacity a m' = shm_capacity a m
    \<and> shm_user a m' = shm_user a m \<and> (\<forall>b. b \<noteq> a \<longrightarrow> m' b = m b)"
proof -
  obtain x where x: "m a = Some x" and r: "ring_inv (so_info x) (so_buffer x)" and u: "length (m_user_space x) = 32"
    using inv by (auto simp: shm_inv_def)
  obtain free where free: "QS_GetFreeSize q m = Inr free" "unat free = shm_capacity a m - length (shm_contents a m)"
    using QS_GetFreeSize_mapped [OF q inv] by blast
  have nf: "\<not> len > free"
    using free(2) fits by (simp add: word_less_nat_alt not_less)
  have "unat (use_size (so_info x)) + unat len < length (so_buffer x)"
    using fits shm_contents_length [OF inv x] x r by (auto simp: shm_capacity_def ring_inv_def)
  then obtain info' buf' where "ring_push (so_info x) (so_buffer x) data len = Inr (info', buf')" "ring_inv info' buf'"
    "ring_contents info' buf' = ring_contents (so_info x) (so_buffer x) @ take (unat len) data"
    "queue_size info' = queue_size (so_info x)"
    using ring_push_ok [OF r _ len] by blast
  then show ?thesis
    using q x u nf free(1)
    by (auto simp: QS_Push_def mapped_not_None deref_mapped store_mapped shm_inv_def shm_contents_def
        shm_capacity_def shm_user_def)
qed

lemma QS_Push_full:
  assumes q: "mapped a q" and inv: "shm_inv a m" and full: "shm_capacity a m < length (shm_contents a m) + unat len"
  shows "QS_Push data len q m = Inr (SharedFailedCode_int NOT_ENOUGH_FREE_SPACE, m)"
proof -
  obtain free where free: "QS_GetFreeSize q m = Inr free" "unat free = shm_capacity a m - length (shm_contents a m)"
    using QS_GetFreeSize_mapped [OF q inv] by blast
  then have "len > free"
    using full shm_contents_le [OF inv] by (simp add: word_less_nat_alt)
  then show ?thesis
    using q free(1) by (simp add: QS_Push_def mapped_not_None)
qed

lemma QS_Front_ok:
  assumes q: "mapped a q" and inv: "shm_inv a m" and len: "unat len \<le> length (shm_contents a m)"
    and dst: "unat len \<le> length dst"
  shows "QS_Front dst len q m =
    Inr (0, take (unat len) (shm_contents a m) @ drop (unat len) dst, q\<lparr>m_pop_data_len := len\<rparr>)"
proof -
  obtain x where x: "m a = Some x" and r: "ring_inv (so_info x) (so_buffer x)"
    using inv by (auto simp: shm_inv_def)
  have le: "unat len \<le> unat (use_size (so_info x))"
    using len shm_contents_length [OF inv x] by simp
  with ring_front_ok [OF r le dst] q x show ?thesis
    by (simp add: QS_Front_def mapped_not_None deref_mapped shm_contents_def word_less_nat_alt)
qed

lemma QS_Front_short:
  assumes q: "mapped a q" and inv: "shm_inv a m" and len: "length (shm_contents a m) < unat len"
  shows "QS_Front dst len q m = Inr (SharedFailedCode_int READ_BUFFER_SIZE_IS_BIG, dst, q)"
proof -
  obtain x where x: "m a = Some x"
    using inv by (auto simp: shm_inv_def)
  have "use_size (so_info x) < len"
    using len shm_contents_length [OF inv x] by (simp add: word_less_nat_alt)
  with q x show ?thesis
    by (simp add: QS_Front_def mapped_not_None deref_mapped)
qed

lemma QS_Pop_ok:
  assumes q: "mapped a q" and inv: "shm_inv a m" and pos: "0 < m_pop_data_len q"
    and len: "unat (m_pop_data_len q) \<le> length (shm_contents a m)"
  shows "\<exists>m'. QS_Pop q m = Inr (0, q\<lparr>m_pop_data_len := 0\<rparr>, m') \<and> shm_inv a m'
    \<and> shm_contents a m' = drop (unat (m_pop_data_len q)) (shm_contents a m) \<and> shm_capacity a m' = shm_capacity a m
    \<and> shm_user a m' = shm_user a m \<and> (\<forall>b. b \<noteq> a \<longrightarrow> m' b = m b)"
proof -
  obtain x where x: "m a = Some x" and r: "ring_inv (so_info x) (so_buffer x)" and u: "length (m_user_space x) = 32"
    using inv by (auto simp: shm_inv_def)
  have le: "unat (m_pop_data_len q) \<le> unat (use_size (so_info x))"
    using len shm_contents_length [OF inv x] by simp
  have "QS_GetQueueSize q m = Inr (queue_size (so_info x))"
    using q x by (simp add: QS_GetQueueSize_def mapped_not_None deref_mapped)
  then show ?thesis
    using q x u pos ring_pop_ok [OF r le]
    by (auto simp: QS_Pop_def deref_mapped store_mapped shm_inv_def shm_contents_def shm_capacity_def shm_user_def)
qed

lemma QS_Clear_ok:
  assumes q: "mapped a q" and inv: "shm_inv a m"
  shows "\<exists>m'. QS_Clear q m = Inr (0, m') \<and> shm_inv a m' \<and> shm_contents a m' = []
    \<and> shm_capacity a m' = shm_capacity a m \<and> shm_user a m' = shm_user a m \<and> (\<forall>b. b \<noteq> a \<longrightarrow> m' b = m b)"
proof -
  obtain x where x: "m a = Some x" and r: "ring_inv (so_info x) (so_buffer x)" and u: "length (m_user_space x) = 32"
    using inv by (auto simp: shm_inv_def)
  then show ?thesis
    using q by (auto simp: QS_Clear_def QS_GetQueueSize_def mapped_not_None deref_mapped store_mapped wr_def shm_inv_def
        ring_inv_def shm_contents_def ring_contents_def shm_capacity_def shm_user_def)
qed

text \<open>Before \<open>Initialize\<close> and after \<open>Finalize\<close> every operation but \<open>Pop\<close> reports \<open>DID_NOT_INITIALIZE\<close>.\<close>

lemma QS_null:
  assumes "m_queue_info q = None"
  shows "QS_Push data len q m = Inr (3, m)" and "QS_Front dst len q m = Inr (3, dst, q)" and "QS_Clear q m = Inr (3, m)"
    and "QS_SetData pos data len q m = Inr (3, m)" and "QS_GetData pos dst len q m = Inr (3, dst)"
    and "GetInformation dst q m = Inr (3, dst)" and "SetInformation data q m = Inr (3, m)"
    and "QS_GetUseSize q m = Inr 0" and "QS_GetQueueSize q m = Inr 0" and "QS_GetFreeSize q m = Inr 0"
  using assms by (simp_all add: QS_Push_def QS_Front_def QS_Clear_def QS_SetData_def QS_GetData_def GetInformation_def
      SetInformation_def QS_GetUseSize_def QS_GetQueueSize_def QS_GetFreeSize_def)

lemma QS_Pop_null:
  assumes "m_queue_info q = None" and "m_pop_data_len q \<noteq> 0"
  shows "QS_Pop q m = Inl NullPointer"
  using assms by (simp add: QS_Pop_def QS_GetQueueSize_def deref_def)

section \<open>Initialisation\<close>

text \<open>A new file mapping is filled with zeros; the view of \<open>n\<close> bytes has the queue bytes after the header.\<close>

definition zero_obj :: "nat \<Rightarrow> shm_obj" where
  "zero_obj n = \<lparr>so_info = QueueInfo_new, m_user_space = replicate 32 0, so_buffer = replicate (n - 48) 0\<rparr>"

lemma QS_Initialize_create:
  assumes "OpenFileMappingA env name = Inr e" and "CreateFileMappingA env name (sizeof_QueueInfo + len) = Inl h"
    and "MapViewOfFile env h = Inl a" and "m a = Some (zero_obj (unat (sizeof_QueueInfo + len)))"
    and "0 < unat len" and "unat len < 2 ^ 32 - 48"
  shows "\<exists>q' m'. QS_Initialize env name len q m = Inr (0, q', m') \<and> mapped a q' \<and> QS_GetName q' = name
    \<and> shm_inv a m' \<and> shm_contents a m' = [] \<and> shm_capacity a m' = unat len - 1 \<and> shm_user a m' = replicate 32 0
    \<and> m_pop_data_len q' = m_pop_data_len q"
proof -
  have t: "unat (sizeof_QueueInfo + len) = 48 + unat len"
    using assms(6) by (subst unat_add_no_wrap) (simp_all add: sizeof_QueueInfo_def)
  have "len \<noteq> 0"
    using assms(5) by (simp add: unat_gt_0)
  then show ?thesis
    using assms(1-4) t
    by (simp add: QS_Initialize_def OpenSharedMemory_def CreateSharedMemory_def GetSharedPoint_def deref_def store_def
        mapped_def QS_GetName_def shm_inv_def zero_obj_def ring_inv_def QueueInfo_new_def shm_contents_def
        ring_contents_def shm_capacity_def shm_user_def) (use assms(5) in simp)
qed

lemma QS_Initialize_open:
  assumes "OpenFileMappingA env name = Inl h" and "MapViewOfFile env h = Inl a"
  shows "\<exists>q'. QS_Initialize env name len q m = Inr (0, q', m) \<and> mapped a q' \<and> QS_GetName q' = name
    \<and> m_pop_data_len q' = m_pop_data_len q"
  using assms by (simp add: QS_Initialize_def OpenSharedMemory_def GetSharedPoint_def mapped_def QS_GetName_def)

section \<open>A producer and a consumer on one object\<close>

text \<open>The state of two processes that map the same object: the producer's queue, the consumer's, the store.\<close>

record pair_state =
  pr :: QueueShared
  co :: QueueShared
  mem :: shm
  obj :: nat

definition pair_inv :: "pair_state \<Rightarrow> bool" where
  "pair_inv s \<longleftrightarrow> mapped (obj s) (pr s) \<and> mapped (obj s) (co s) \<and> shm_inv (obj s) (mem s)"

definition pair_contents :: "pair_state \<Rightarrow> u8 list" where
  "pair_contents s = shm_contents (obj s) (mem s)"

definition pair_capacity :: "pair_state \<Rightarrow> nat" where
  "pair_capacity s = shm_capacity (obj s) (mem s)"

definition pair_push :: "u8 list \<Rightarrow> pair_state \<Rightarrow> (int \<times> pair_state) cpp" where
  "pair_push d s = cbind (QS_Push d (word_of_nat (length d)) (pr s) (mem s)) (\<lambda>(r, m). Inr (r, s\<lparr>mem := m\<rparr>))"

definition pair_front :: "nat \<Rightarrow> pair_state \<Rightarrow> (int \<times> u8 list \<times> pair_state) cpp" where
  "pair_front n s = cbind (QS_Front (replicate n 0) (word_of_nat n) (co s) (mem s)) (\<lambda>(r, bs, q). Inr (r, bs, s\<lparr>co := q\<rparr>))"

definition pair_pop :: "pair_state \<Rightarrow> (int \<times> pair_state) cpp" where
  "pair_pop s = cbind (QS_Pop (co s) (mem s)) (\<lambda>(r, q, m). Inr (r, s\<lparr>co := q, mem := m\<rparr>))"

interpretation shared_queue: byte_queue pair_inv pair_contents pair_capacity pair_push pair_front pair_pop
proof
  fix s and d :: "u8 list"
  assume s: "pair_inv s" and fits: "length (pair_contents s) + length d \<le> pair_capacity s"
  have u: "unat (word_of_nat (length d) :: u32) = length d"
    using fits shm_capacity_u32 [of "obj s" "mem s"] by (intro unat_u32_of_nat) (simp add: pair_capacity_def)
  show "\<exists>s'. pair_push d s = Inr (0, s') \<and> pair_inv s' \<and> pair_contents s' = pair_contents s @ d
      \<and> pair_capacity s' = pair_capacity s"
    using QS_Push_ok [of "obj s" "pr s" "mem s" "word_of_nat (length d)" d] s fits u
    by (auto simp: pair_push_def pair_inv_def pair_contents_def pair_capacity_def)
next
  fix s and d :: "u8 list"
  assume s: "pair_inv s" and full: "pair_capacity s < length (pair_contents s) + length d" and d: "length d < 2 ^ 32"
  have u: "unat (word_of_nat (length d) :: u32) = length d"
    using d by (intro unat_u32_of_nat) simp
  show "\<exists>c. pair_push d s = Inr (c, s) \<and> c \<noteq> 0"
    using QS_Push_full [of "obj s" "pr s" "mem s" "word_of_nat (length d)" d] s full u
    by (auto simp: pair_push_def pair_inv_def pair_contents_def pair_capacity_def)
next
  fix s and n :: nat
  assume s: "pair_inv s" and n: "0 < n" "n \<le> length (pair_contents s)"
  have inv: "mapped (obj s) (co s)" "mapped (obj s) (pr s)" "shm_inv (obj s) (mem s)"
    using s by (simp_all add: pair_inv_def)
  have lt: "n < 2 ^ 32"
    using n(2) shm_contents_le [OF inv(3)] shm_capacity_u32 [of "obj s" "mem s"] by (simp add: pair_contents_def)
  then have u: "unat (word_of_nat n :: u32) = n"
    by (intro unat_u32_of_nat) simp
  let ?q = "co s\<lparr>m_pop_data_len := word_of_nat n\<rparr>"
  have q: "mapped (obj s) ?q"
    using inv(1) by (simp add: mapped_def)
  have pos: "0 < m_pop_data_len ?q" "unat (m_pop_data_len ?q) \<le> length (shm_contents (obj s) (mem s))"
    using u n by (simp_all add: word_less_nat_alt pair_contents_def)
  obtain m' where m': "QS_Pop ?q (mem s) = Inr (0, ?q\<lparr>m_pop_data_len := 0\<rparr>, m')" "shm_inv (obj s) m'"
    "shm_contents (obj s) m' = drop n (shm_contents (obj s) (mem s))"
    "shm_capacity (obj s) m' = shm_capacity (obj s) (mem s)"
    using QS_Pop_ok [OF q inv(3) pos] u by auto
  have "mapped (obj s) (?q\<lparr>m_pop_data_len := 0\<rparr>)"
    using q by (simp add: mapped_def)
  then show "\<exists>s' s''. pair_front n s = Inr (0, take n (pair_contents s), s') \<and> pair_inv s'
      \<and> pair_contents s' = pair_contents s \<and> pair_capacity s' = pair_capacity s \<and> pair_pop s' = Inr (0, s'')
      \<and> pair_inv s'' \<and> pair_contents s'' = drop n (pair_contents s) \<and> pair_capacity s'' = pair_capacity s"
    using QS_Front_ok [OF inv(1,3), of "word_of_nat n" "replicate n 0"] u n q inv m'
    by (simp add: pair_front_def pair_pop_def pair_inv_def pair_contents_def pair_capacity_def)
next
  fix s and n :: nat
  assume s: "pair_inv s" and n: "length (pair_contents s) < n" "n < 2 ^ 32"
  have "unat (word_of_nat n :: u32) = n"
    using n(2) by (intro unat_u32_of_nat) simp
  then show "\<exists>c bs. pair_front n s = Inr (c, bs, s) \<and> c \<noteq> 0"
    using QS_Front_short [of "obj s" "co s" "mem s" "word_of_nat n"] s n
    by (simp add: pair_front_def pair_inv_def pair_contents_def)
qed

end
