(* ===== verification/Sync_Memory.thy ===== *)
theory Sync_Memory
  imports Queue_Shared
begin

text \<open>
  \<open>SyncSharedMemory\<close> of \<open>include/common/SyncSharedMemory.cpp\<close>: the producer and consumer semaphores and
  the mutex around the shared queue.

  The Windows calls are not code of this program. What they return is an argument (\<open>create_os\<close>,
  \<open>sync_os\<close>, \<open>reset_os\<close>), for any outcome, and every operation also returns the list of the calls it
  made, with their outcomes. \<open>sem_run\<close> replays such a list on one semaphore as Windows documents it;
  it is used only in statements.
\<close>

section \<open>Codes and calls\<close>

datatype SyncFailedCode =
    Ret_SharedMemoryInitFailed | Ret_CreateSemaphoreObjectFailed | Ret_CreateMutexObjectFailed
  | Ret_CreateEventObjectFailed | Ret_UserInfoReadFailed | Ret_RecvDeactivaed | Ret_RecvUnlock
  | Ret_SemaphoreTimeout | Ret_MutexTimeout | Ret_WaitForObjectFailed | Ret_UserFuncFailed
  | Ret_ClearFailed | Ret_ReleaseSemaphoreFailed

fun SyncFailedCode_int :: "SyncFailedCode \<Rightarrow> int" where
  "SyncFailedCode_int Ret_SharedMemoryInitFailed = 1"
| "SyncFailedCode_int Ret_CreateSemaphoreObjectFailed = 2"
| "SyncFailedCode_int Ret_CreateMutexObjectFailed = 3"
| "SyncFailedCode_int Ret_CreateEventObjectFailed = 4"
| "SyncFailedCode_int Ret_UserInfoReadFailed = 5"
| "SyncFailedCode_int Ret_RecvDeactivaed = 6"
| "SyncFailedCode_int Ret_RecvUnlock = 7"
| "SyncFailedCode_int Ret_SemaphoreTimeout = 8"
| "SyncFailedCode_int Ret_MutexTimeout = 9"
| "SyncFailedCode_int Ret_WaitForObjectFailed = 10"
| "SyncFailedCode_int Ret_UserFuncFailed = 11"
| "SyncFailedCode_int Ret_ClearFailed = 12"
| "SyncFailedCode_int Ret_ReleaseSemaphoreFailed = 13"

text \<open>The constants of the Windows headers.\<close>

definition WAIT_OBJECT_0 :: u32 where "WAIT_OBJECT_0 = 0"
definition WAIT_ABANDONED_0 :: u32 where "WAIT_ABANDONED_0 = 0x80"
definition WAIT_TIMEOUT :: u32 where "WAIT_TIMEOUT = 0x102"
definition ERROR_TOO_MANY_POSTS :: u32 where "ERROR_TOO_MANY_POSTS = 298"
definition INFINITE_ms :: u32 where "INFINITE_ms = 0xFFFFFFFF"

datatype sync_handle = SemProducer | SemConsumer | MutexQueue | EventExit | EventUnlock

datatype sys_call =
    CreateSemaphoreA u32 u32 string
  | CreateMutexA string
  | CreateEventA
  | WaitMultiple "sync_handle list" u32 u32      \<comment> \<open>objects, timeout, result\<close>
  | WaitSingle sync_handle u32 u32
  | ReleaseSemaphore sync_handle bool             \<comment> \<open>result\<close>
  | ReleaseMutex sync_handle
  | SetEvent sync_handle
  | CloseHandle sync_handle

section \<open>State\<close>

record ActivateParam =
  producer_count :: u32
  consumer_count :: u32
  ap_queue :: QueueShared

text \<open>
  A handle is non-null or null, and so is the pointer \<open>m_queue\<close>. The queue it points to belongs to the
  worker that owns both; operations that use it take it as an argument.
\<close>

record SyncShared =
  m_event_exit :: bool
  m_event_unlock :: bool
  m_semaphore_producer :: bool
  m_semaphore_consumer :: bool
  m_mutex_queue :: bool
  m_producer_count :: u32
  m_consumer_count :: u32
  m_timeout_mutex :: u32
  m_queue :: bool

definition SyncShared_new :: SyncShared where
  "SyncShared_new = \<lparr>m_event_exit = False, m_event_unlock = False, m_semaphore_producer = False,
     m_semaphore_consumer = False, m_mutex_queue = False, m_producer_count = 0, m_consumer_count = 0,
     m_timeout_mutex = INFINITE_ms, m_queue = False\<rparr>"

section \<open>Activation\<close>

definition ReadSharedMemoryInfo :: "ActivateParam \<Rightarrow> QueueShared \<Rightarrow> shm \<Rightarrow> (int \<times> ActivateParam) cpp" where
  "ReadSharedMemoryInfo param q m =
     cbind (GetInformation (replicate 32 0) q m) (\<lambda>(_, sm_info).
     cbind (rd_n sm_info 0 4) (\<lambda>b0. cbind (rd_n sm_info 4 4) (\<lambda>b1.
       let pc = word_of_nat (le_val b0) :: u32; cc = word_of_nat (le_val b1) :: u32 in
       if pc = 0 then Inr (SyncFailedCode_int Ret_UserInfoReadFailed, param)
       else if cc = 0 then Inr (SyncFailedCode_int Ret_UserInfoReadFailed, param)
       else Inr (0, param\<lparr>producer_count := pc, consumer_count := cc\<rparr>))))"

definition WriteSharedMemoryInfo :: "ActivateParam \<Rightarrow> QueueShared \<Rightarrow> shm \<Rightarrow> (int \<times> shm) cpp" where
  "WriteSharedMemoryInfo param q m =
     cbind (wr (replicate 32 0) 0 (le_bytes 4 (unat (producer_count param)))) (\<lambda>s1.
     cbind (wr s1 4 (le_bytes 4 (unat (consumer_count param)))) (\<lambda>s2.
     cbind (SetInformation s2 q m) (\<lambda>(_, m'). Inr (0, m'))))"

text \<open>\<open>snprintf(object_name, 128, "%s-...", name.c_str())\<close>.\<close>

definition object_name :: "string \<Rightarrow> string \<Rightarrow> string" where
  "object_name name suffix = take 127 (takeWhile (\<lambda>c. c \<noteq> CHR 0x00) name @ suffix)"

record create_os =
  sem_producer_ok :: bool
  sem_consumer_ok :: bool
  mutex_ok :: bool
  exit_ok :: bool
  unlock_ok :: bool

definition Sync_Activate :: "create_os \<Rightarrow> ActivateParam \<Rightarrow> SyncShared \<Rightarrow> shm \<Rightarrow> (int \<times> SyncShared \<times> shm \<times> sys_call list) cpp" where
  "Sync_Activate os data s m =
     (let q = ap_queue data in
      if \<not> HasQueueInfo q then Inr (SyncFailedCode_int Ret_SharedMemoryInitFailed, s, m, [])
      else
        let s0 = s\<lparr>m_queue := True\<rparr> in
        cbind (ReadSharedMemoryInfo data q m) (\<lambda>(ret, ap).
        cbind (if ret \<noteq> 0 then WriteSharedMemoryInfo ap q m else Inr (0, m)) (\<lambda>(_, m').
          let name = QS_GetName q;
              c1 = CreateSemaphoreA (producer_count ap) (producer_count ap) (object_name name ''-SamaphoreProducer'');
              s1 = s0\<lparr>m_semaphore_producer := sem_producer_ok os\<rparr>
          in if \<not> sem_producer_ok os then Inr (SyncFailedCode_int Ret_CreateSemaphoreObjectFailed, s1, m', [c1])
          else let
              c2 = CreateSemaphoreA 0 (consumer_count ap) (object_name name ''-SemaphoreConsumer'');
              s2 = s1\<lparr>m_semaphore_consumer := sem_consumer_ok os\<rparr>
          in if \<not> sem_consumer_ok os then Inr (SyncFailedCode_int Ret_CreateSemaphoreObjectFailed, s2, m', [c1, c2])
          else let
              c3 = CreateMutexA (object_name name ''-Mutex'');
              s3 = s2\<lparr>m_mutex_queue := mutex_ok os\<rparr>
          in if \<not> mutex_ok os then Inr (SyncFailedCode_int Ret_CreateMutexObjectFailed, s3, m', [c1, c2, c3])
          else let
              s4 = s3\<lparr>m_event_exit := exit_ok os\<rparr>
          in if \<not> exit_ok os then Inr (SyncFailedCode_int Ret_CreateEventObjectFailed, s4, m', [c1, c2, c3, CreateEventA])
          else let
              s5 = s4\<lparr>m_event_unlock := unlock_ok os\<rparr>;
              cs = [c1, c2, c3, CreateEventA, CreateEventA]
          in if \<not> unlock_ok os then Inr (SyncFailedCode_int Ret_CreateEventObjectFailed, s5, m', cs)
          else Inr (0, s5\<lparr>m_producer_count := producer_count ap, m_consumer_count := consumer_count ap\<rparr>, m', cs))))"

definition Sync_Deactivate :: "SyncShared \<Rightarrow> SyncShared \<times> sys_call list" where
  "Sync_Deactivate s =
     (let c1 = (if m_event_exit s then [SetEvent EventExit, CloseHandle EventExit] else []);
          s1 = (if m_event_exit s then s\<lparr>m_event_exit := False\<rparr> else s);
          c2 = (if m_event_unlock s1 then [CloseHandle EventUnlock] else []);
          s2 = (if m_event_unlock s1 then s1\<lparr>m_event_unlock := False\<rparr> else s1);
          c3 = (if m_mutex_queue s2 then [ReleaseMutex MutexQueue, CloseHandle MutexQueue] else []);
          s3 = (if m_mutex_queue s2 then s2\<lparr>m_mutex_queue := False\<rparr> else s2);
          c4 = (if m_semaphore_producer s3 then [CloseHandle SemProducer] else []);
          s4 = (if m_semaphore_producer s3 then s3\<lparr>m_semaphore_producer := False\<rparr> else s3);
          c5 = (if m_semaphore_consumer s4 then [CloseHandle SemConsumer] else []);
          s5 = (if m_semaphore_consumer s4 then s4\<lparr>m_semaphore_consumer := False\<rparr> else s4)
      in (s5, c1 @ c2 @ c3 @ c4 @ c5))"

definition GetProducerCount :: "SyncShared \<Rightarrow> u32" where
  "GetProducerCount s = m_producer_count s"

definition GetConsumerCount :: "SyncShared \<Rightarrow> u32" where
  "GetConsumerCount s = m_consumer_count s"

definition SetMutexTimeOut :: "u32 \<Rightarrow> SyncShared \<Rightarrow> SyncShared" where
  "SetMutexTimeOut ms s = s\<lparr>m_timeout_mutex := ms\<rparr>"

definition SendSyncUnlock :: "sys_call list" where
  "SendSyncUnlock = [SetEvent EventUnlock]"

section \<open>Producing and consuming\<close>

record sync_os =
  w_sem :: u32        \<comment> \<open>result of the wait for the semaphore\<close>
  w_mutex :: u32      \<comment> \<open>result of the wait for the mutex\<close>
  rel_ok :: bool      \<comment> \<open>result of the \<open>ReleaseSemaphore\<close> after the callback\<close>
  rel_error :: u32    \<comment> \<open>\<open>GetLastError\<close> when that failed\<close>

definition WaitForExistSignal :: "sync_handle \<Rightarrow> u32 \<Rightarrow> u32 \<Rightarrow> sys_call" where
  "WaitForExistSignal h ms result = WaitMultiple [h, EventExit, EventUnlock] ms result"

text \<open>
  The inner \<open>switch\<close>, on the result of the mutex wait; \<open>own\<close> is the semaphore already taken, \<open>other\<close> the
  one that the success of the callback releases. The \<open>WAIT_TIMEOUT\<close> case has no \<open>break\<close> and runs into
  \<open>default\<close>.
\<close>

definition mutex_switch :: "sync_handle \<Rightarrow> sync_handle \<Rightarrow> ('q \<Rightarrow> (bool \<times> 'q) cpp) \<Rightarrow> sync_os \<Rightarrow> 'q
    \<Rightarrow> (int \<times> 'q \<times> sys_call list) cpp" where
  "mutex_switch own other callback os q =
     (if w_mutex os = WAIT_OBJECT_0 then
        cbind (callback q) (\<lambda>(accepted, q').
          if accepted then
            let ret = (if \<not> rel_ok os then
                         (if rel_error os = ERROR_TOO_MANY_POSTS then 0
                          else SyncFailedCode_int Ret_ReleaseSemaphoreFailed)
                       else 0)
            in Inr (ret, q', [ReleaseSemaphore other (rel_ok os), ReleaseMutex MutexQueue])
          else Inr (SyncFailedCode_int Ret_UserFuncFailed, q',
                 [ReleaseSemaphore own (rel_ok os), ReleaseMutex MutexQueue]))
      else if w_mutex os = WAIT_OBJECT_0 + 1 then Inr (SyncFailedCode_int Ret_RecvDeactivaed, q, [])
      else if w_mutex os = WAIT_OBJECT_0 + 2 then Inr (SyncFailedCode_int Ret_RecvUnlock, q, [])
      else
        let ret = (if w_mutex os = WAIT_TIMEOUT then SyncFailedCode_int Ret_MutexTimeout else 0);
            ret' = SyncFailedCode_int Ret_WaitForObjectFailed
        in Inr (ret', q, []))"

definition sync_access :: "sync_handle \<Rightarrow> sync_handle \<Rightarrow> ('q \<Rightarrow> (bool \<times> 'q) cpp) \<Rightarrow> u32 \<Rightarrow> SyncShared \<Rightarrow> sync_os \<Rightarrow> 'q
    \<Rightarrow> (int \<times> 'q \<times> sys_call list) cpp" where
  "sync_access own other callback ms s os q =
     (let c1 = WaitForExistSignal own ms (w_sem os) in
      if w_sem os = WAIT_OBJECT_0 then
        cbind (mutex_switch own other callback os q) (\<lambda>(ret, q', cs).
          Inr (ret, q', c1 # WaitForExistSignal MutexQueue (m_timeout_mutex s) (w_mutex os) # cs))
      else if w_sem os = WAIT_OBJECT_0 + 1 then Inr (SyncFailedCode_int Ret_RecvDeactivaed, q, [c1])
      else if w_sem os = WAIT_OBJECT_0 + 2 then Inr (SyncFailedCode_int Ret_RecvUnlock, q, [c1])
      else if w_sem os = WAIT_TIMEOUT then Inr (SyncFailedCode_int Ret_SemaphoreTimeout, q, [c1])
      else Inr (SyncFailedCode_int Ret_WaitForObjectFailed, q, [c1]))"

definition SyncProducer :: "('q \<Rightarrow> (bool \<times> 'q) cpp) \<Rightarrow> u32 \<Rightarrow> SyncShared \<Rightarrow> sync_os \<Rightarrow> 'q
    \<Rightarrow> (int \<times> 'q \<times> sys_call list) cpp" where
  "SyncProducer = sync_access SemProducer SemConsumer"

definition SyncConsumer :: "('q \<Rightarrow> (bool \<times> 'q) cpp) \<Rightarrow> u32 \<Rightarrow> SyncShared \<Rightarrow> sync_os \<Rightarrow> 'q
    \<Rightarrow> (int \<times> 'q \<times> sys_call list) cpp" where
  "SyncConsumer = sync_access SemConsumer SemProducer"

section \<open>Clearing\<close>

record reset_os =
  clear_mutex :: u32
  release_results :: "nat \<Rightarrow> bool"
  wait_results :: "nat \<Rightarrow> u32"

text \<open>The two loops of \<open>ResetSemaphore\<close>, from turn \<open>ii\<close> with \<open>n\<close> turns to go; each leaves at the first failure.\<close>

primrec release_loop :: "(nat \<Rightarrow> bool) \<Rightarrow> nat \<Rightarrow> nat \<Rightarrow> sys_call list" where
  "release_loop rs ii 0 = []"
| "release_loop rs ii (Suc n) =
     ReleaseSemaphore SemProducer (rs ii) # (if rs ii = False then [] else release_loop rs (ii + 1) n)"

primrec drain_loop :: "(nat \<Rightarrow> u32) \<Rightarrow> nat \<Rightarrow> nat \<Rightarrow> sys_call list" where
  "drain_loop ws ii 0 = []"
| "drain_loop ws ii (Suc n) =
     WaitSingle SemConsumer 0 (ws ii) # (if WAIT_OBJECT_0 \<noteq> ws ii then [] else drain_loop ws (ii + 1) n)"

definition ResetSemaphore :: "SyncShared \<Rightarrow> reset_os \<Rightarrow> sys_call list" where
  "ResetSemaphore s os =
     release_loop (release_results os) 0 (unat (m_producer_count s))
       @ drain_loop (wait_results os) 0 (unat (m_consumer_count s))"

definition SyncClear :: "SyncShared \<Rightarrow> reset_os \<Rightarrow> QueueShared \<Rightarrow> shm \<Rightarrow> (int \<times> shm \<times> sys_call list) cpp" where
  "SyncClear s os q m =
     (let c1 = WaitForExistSignal MutexQueue (m_timeout_mutex s) (clear_mutex os) in
      if clear_mutex os = WAIT_OBJECT_0 then
        (if \<not> m_queue s then Inl NullPointer
         else cbind (QS_Clear q m) (\<lambda>(_, m').
             Inr (0, m', c1 # ResetSemaphore s os @ [ReleaseMutex MutexQueue])))
      else if clear_mutex os = WAIT_OBJECT_0 + 1 then Inr (SyncFailedCode_int Ret_RecvDeactivaed, m, [c1])
      else if clear_mutex os = WAIT_OBJECT_0 + 2 then Inr (SyncFailedCode_int Ret_RecvUnlock, m, [c1])
      else Inr (SyncFailedCode_int Ret_WaitForObjectFailed, m, [c1]))"


section \<open>Replaying the calls on a semaphore\<close>

text \<open>
  What Windows documents of a semaphore with maximum \<open>n\<close> and count \<open>c\<close>: a successful wait takes one
  and needs one, a wait with timeout 0 fails only on a count of 0, and a release succeeds exactly
  below the maximum. \<open>None\<close> is an outcome that a semaphore
  in this state does not have.
\<close>

definition takes :: "sync_handle \<Rightarrow> u32 \<Rightarrow> nat \<Rightarrow> nat option" where
  "takes h result c = (if result = WAIT_OBJECT_0 then (if 0 < c then Some (c - 1) else None) else Some c)"

fun sem_step :: "sync_handle \<Rightarrow> nat \<Rightarrow> sys_call \<Rightarrow> nat \<Rightarrow> nat option" where
  "sem_step h n (WaitMultiple (h' # hs) ms result) c = (if h = h' then takes h result c else Some c)"
| "sem_step h n (WaitSingle h' ms result) c =
     (if h = h' then (if ms = 0 \<and> result \<noteq> WAIT_OBJECT_0 \<and> 0 < c then None else takes h result c) else Some c)"
| "sem_step h n (ReleaseSemaphore h' ok) c =
     (if h = h' then (if ok then (if c < n then Some (c + 1) else None) else (if c < n then None else Some c)) else Some c)"
| "sem_step h n _ c = Some c"

primrec sem_run :: "sync_handle \<Rightarrow> nat \<Rightarrow> sys_call list \<Rightarrow> nat \<Rightarrow> nat option" where
  "sem_run h n [] c = Some c"
| "sem_run h n (x # xs) c = (case sem_step h n x c of None \<Rightarrow> None | Some c' \<Rightarrow> sem_run h n xs c')"

lemma sem_run_append:
  "sem_run h n (xs @ ys) c = (case sem_run h n xs c of None \<Rightarrow> None | Some c' \<Rightarrow> sem_run h n ys c')"
  by (induction xs arbitrary: c) (auto split: option.splits)

lemma sem_step_le: "sem_step h n x c = Some c' \<Longrightarrow> c \<le> n \<Longrightarrow> c' \<le> n"
  by (induction h n x c rule: sem_step.induct) (auto simp: takes_def split: if_splits)

lemma sem_run_le: "sem_run h n xs c = Some c' \<Longrightarrow> c \<le> n \<Longrightarrow> c' \<le> n"
  by (induction xs arbitrary: c) (auto split: option.splits dest: sem_step_le)

text \<open>After enough turns the release loop has filled the producer semaphore, the drain loop emptied the consumer's.\<close>

lemma release_loop_fills:
  "sem_run SemProducer n (release_loop rs ii k) c = Some c' \<Longrightarrow> c \<le> n \<Longrightarrow> n \<le> c + k \<Longrightarrow> c' = n"
  by (induction k arbitrary: ii c) (auto split: if_splits)

lemma drain_loop_empties:
  "sem_run SemConsumer n (drain_loop ws ii k) c = Some c' \<Longrightarrow> c \<le> k \<Longrightarrow> c' = 0"
proof (induction k arbitrary: ii c)
  case 0
  then show ?case by simp
next
  case (Suc k)
  show ?case
  proof (cases "ws ii = WAIT_OBJECT_0")
    case True
    with Suc.prems(1) have "sem_run SemConsumer n (drain_loop ws (ii + 1) k) (c - 1) = Some c'"
      by (auto simp: takes_def split: if_splits)
    with Suc.IH [of "ii + 1" "c - 1"] Suc.prems(2) show ?thesis by simp
  next
    case False
    with Suc.prems(1) show ?thesis
      by (auto simp: takes_def split: if_splits)
  qed
qed

lemma release_loop_consumer: "sem_run SemConsumer n (release_loop rs ii k) c = Some c"
  by (induction k arbitrary: ii) auto

lemma drain_loop_producer: "sem_run SemProducer n (drain_loop ws ii k) c = Some c"
  by (induction k arbitrary: ii) auto

section \<open>What an access does\<close>

lemmas wait_consts = WAIT_OBJECT_0_def WAIT_TIMEOUT_def WAIT_ABANDONED_0_def ERROR_TOO_MANY_POSTS_def

text \<open>The callback runs exactly when both waits succeed; otherwise the user state is untouched.\<close>

lemma sync_access_no_entry:
  assumes "\<not> (w_sem os = WAIT_OBJECT_0 \<and> w_mutex os = WAIT_OBJECT_0)"
  shows "\<exists>ret cs. sync_access own other callback ms s os q = Inr (ret, q, cs) \<and> ret \<in> {6, 7, 8, 10}
    \<and> (\<forall>h. ReleaseMutex h \<notin> set cs) \<and> (\<forall>h b. ReleaseSemaphore h b \<notin> set cs)"
  using assms by (auto simp: sync_access_def mutex_switch_def WaitForExistSignal_def Let_def)

lemma sync_access_entry:
  assumes "w_sem os = WAIT_OBJECT_0" and "w_mutex os = WAIT_OBJECT_0" and "callback q = Inr (accepted, q')"
  shows "sync_access own other callback ms s os q = Inr
    (if accepted then (if rel_ok os \<or> rel_error os = ERROR_TOO_MANY_POSTS then 0 else SyncFailedCode_int Ret_ReleaseSemaphoreFailed)
     else SyncFailedCode_int Ret_UserFuncFailed, q',
     [WaitForExistSignal own ms WAIT_OBJECT_0, WaitForExistSignal MutexQueue (m_timeout_mutex s) WAIT_OBJECT_0,
      ReleaseSemaphore (if accepted then other else own) (rel_ok os), ReleaseMutex MutexQueue])"
  using assms by (simp add: sync_access_def mutex_switch_def Let_def)

lemma sync_access_error:
  assumes "w_sem os = WAIT_OBJECT_0" and "w_mutex os = WAIT_OBJECT_0" and "callback q = Inl e"
  shows "sync_access own other callback ms s os q = Inl e"
  using assms by (simp add: sync_access_def mutex_switch_def)

text \<open>
  The effect of an access on its two semaphores: none when the semaphore was not taken, one moved
  from \<open>own\<close> to \<open>other\<close> on success, none when the callback refused, and one lost when the semaphore
  was taken and the mutex was not.
\<close>

definition sem_lost :: "sync_os \<Rightarrow> nat" where
  "sem_lost os = (if w_sem os = WAIT_OBJECT_0 \<and> w_mutex os \<noteq> WAIT_OBJECT_0 then 1 else 0)"

lemma sync_access_balance:
  assumes acc: "sync_access own other callback ms s os q = Inr (ret, q', cs)" and h: "own \<noteq> other"
    "own \<noteq> MutexQueue" "other \<noteq> MutexQueue"
    and own: "sem_run own n cs a = Some a'" and other: "sem_run other n cs b = Some b'" and le: "a + b \<le> n"
  shows "a' + b' + sem_lost os = a + b"
proof (cases "w_sem os = WAIT_OBJECT_0")
  case False
  then show ?thesis
    using acc own other by (auto simp: sync_access_def WaitForExistSignal_def takes_def sem_lost_def Let_def split: if_splits)
next
  case sem: True
  show ?thesis
  proof (cases "w_mutex os = WAIT_OBJECT_0")
    case False
    then show ?thesis
      using acc own other h sem
      by (auto simp: sync_access_def mutex_switch_def WaitForExistSignal_def takes_def sem_lost_def Let_def split: if_splits)
  next
    case True
    with acc sem obtain accepted where cb: "callback q = Inr (accepted, q')"
      using sync_access_error [OF sem True, of callback q] sync_access_entry [OF sem True, of callback q]
      by (cases "callback q") (auto split: if_splits)
    from sync_access_entry [where callback = callback, OF sem True cb, of own other ms s] acc
    have "cs = [WaitForExistSignal own ms WAIT_OBJECT_0, WaitForExistSignal MutexQueue (m_timeout_mutex s) WAIT_OBJECT_0,
        ReleaseSemaphore (if accepted then other else own) (rel_ok os), ReleaseMutex MutexQueue]"
      by simp
    then show ?thesis
      using own other h sem True le
      by (cases "rel_ok os"; cases accepted)
         (auto simp: WaitForExistSignal_def takes_def sem_lost_def split: if_splits)
  qed
qed

section \<open>Many accesses\<close>

text \<open>
  Any sequence of accesses of producers and consumers to one pair of semaphores of maximum \<open>n\<close>:
  \<open>p\<close> and \<open>c\<close> are the counts, \<open>l\<close> how often a semaphore was taken and the mutex was not, \<open>q\<close> what the
  callbacks work on.
\<close>

inductive sync_reach :: "nat \<Rightarrow> ('q \<Rightarrow> (bool \<times> 'q) cpp) \<Rightarrow> ('q \<Rightarrow> (bool \<times> 'q) cpp) \<Rightarrow> 'q \<Rightarrow> nat \<Rightarrow> nat \<Rightarrow> nat \<Rightarrow> 'q \<Rightarrow> bool"
  for n produce consume q0 where
  start: "sync_reach n produce consume q0 n 0 0 q0"
| produced: "sync_reach n produce consume q0 p c l q \<Longrightarrow> SyncProducer produce ms s os q = Inr (ret, q', cs) \<Longrightarrow>
    sem_run SemProducer n cs p = Some p' \<Longrightarrow> sem_run SemConsumer n cs c = Some c' \<Longrightarrow>
    sync_reach n produce consume q0 p' c' (l + sem_lost os) q'"
| consumed: "sync_reach n produce consume q0 p c l q \<Longrightarrow> SyncConsumer consume ms s os q = Inr (ret, q', cs) \<Longrightarrow>
    sem_run SemProducer n cs p = Some p' \<Longrightarrow> sem_run SemConsumer n cs c = Some c' \<Longrightarrow>
    sync_reach n produce consume q0 p' c' (l + sem_lost os) q'"

lemma sync_reach_conserved: "sync_reach n produce consume q0 p c l q \<Longrightarrow> p + c + l = n"
proof (induction rule: sync_reach.induct)
  case start
  then show ?case by simp
next
  case (produced p c l q ms s os ret q' cs p' c')
  then have "p' + c' + sem_lost os = p + c"
    unfolding SyncProducer_def by (intro sync_access_balance [where n = n]) auto
  with produced.IH show ?case by simp
next
  case (consumed p c l q ms s os ret q' cs p' c')
  then have "c' + p' + sem_lost os = c + p"
    unfolding SyncConsumer_def by (intro sync_access_balance [where n = n]) auto
  with consumed.IH show ?case by simp
qed

section \<open>Activation\<close>

lemma rd4_user: "rd_n (le_bytes 4 a @ le_bytes 4 b @ r) 0 4 = Inr (le_bytes 4 a)"
  "rd_n (le_bytes 4 a @ le_bytes 4 b @ r) 4 4 = Inr (le_bytes 4 b)"
  using rd_n_append_mid [of 0 "[]" 4 "le_bytes 4 a" "le_bytes 4 b @ r"]
    rd_n_append_mid [of 4 "le_bytes 4 a" 4 "le_bytes 4 b" r] by simp_all

definition user_info :: "u32 \<Rightarrow> u32 \<Rightarrow> u8 list" where
  "user_info pc cc = le_bytes 4 (unat pc) @ le_bytes 4 (unat cc) @ replicate 24 0"

lemma GetInformation_mapped:
  assumes "mapped a q" "shm_inv a m" "length buffer = 32"
  shows "GetInformation buffer q m = Inr (0, shm_user a m)"
  using assms by (auto simp: GetInformation_def mapped_not_None deref_mapped shm_inv_def shm_user_def wr_def)

lemma SetInformation_mapped:
  assumes "mapped a q" "shm_inv a m" "length buffer = 32"
  shows "\<exists>m'. SetInformation buffer q m = Inr (0, m') \<and> shm_inv a m' \<and> shm_user a m' = buffer
    \<and> shm_contents a m' = shm_contents a m \<and> shm_capacity a m' = shm_capacity a m"
proof -
  obtain x where x: "m a = Some x" "ring_inv (so_info x) (so_buffer x)" "length (m_user_space x) = 32"
    using assms(2) by (auto simp: shm_inv_def)
  have "rd_n buffer 0 32 = Inr buffer"
    using assms(3) by (simp add: rd_n_def)
  then show ?thesis
    using assms(1,3) x by (simp add: SetInformation_def mapped_not_None deref_mapped store_mapped shm_inv_def shm_user_def
        shm_contents_def shm_capacity_def)
qed

lemma WriteSharedMemoryInfo_ok:
  assumes "mapped a q" "shm_inv a m"
  shows "\<exists>m'. WriteSharedMemoryInfo param q m = Inr (0, m') \<and> shm_inv a m'
    \<and> shm_user a m' = user_info (producer_count param) (consumer_count param)
    \<and> shm_contents a m' = shm_contents a m \<and> shm_capacity a m' = shm_capacity a m"
proof -
  let ?p = "le_bytes 4 (unat (producer_count param))" and ?c = "le_bytes 4 (unat (consumer_count param))"
  have w1: "wr (replicate 32 0) 0 ?p = Inr (?p @ replicate 28 0)"
    by (simp add: wr_def)
  have w2: "wr (?p @ replicate 28 0) 4 ?c = Inr (?p @ ?c @ replicate 24 0)"
    by (simp add: wr_def)
  show ?thesis
    using SetInformation_mapped [OF assms, of "?p @ ?c @ replicate 24 0"]
    by (auto simp: WriteSharedMemoryInfo_def w1 w2 user_info_def)
qed

lemma ReadSharedMemoryInfo_user:
  assumes "mapped a q" "shm_inv a m" "shm_user a m = user_info pc cc"
  shows "ReadSharedMemoryInfo param q m = (if pc = 0 \<or> cc = 0 then Inr (5, param)
    else Inr (0, param\<lparr>producer_count := pc, consumer_count := cc\<rparr>))"
proof -
  have info: "GetInformation (replicate 32 0) q m = Inr (0, user_info pc cc)"
    using GetInformation_mapped [OF assms(1,2), of "replicate 32 0"] assms(3) by simp
  have val: "word_of_nat (le_val (le_bytes 4 (unat w))) = w" for w :: u32
    unfolding le_bytes_inj_u32 by simp
  show ?thesis
    unfolding ReadSharedMemoryInfo_def info cbind.simps prod.case user_info_def rd4_user val Let_def
    by auto
qed

lemma ReadSharedMemoryInfo_zero:
  assumes "mapped a q" "shm_inv a m" "shm_user a m = replicate 32 0"
  shows "ReadSharedMemoryInfo param q m = Inr (5, param)"
proof -
  have z: "le_bytes 4 0 = replicate 4 0"
    by code_simp
  have "replicate 32 (0 :: u8) = replicate 4 0 @ replicate 4 0 @ replicate 24 0"
    by (simp flip: replicate_add)
  then have "shm_user a m = user_info 0 0"
    by (simp only: assms(3) user_info_def unat_0 z)
  from ReadSharedMemoryInfo_user [OF assms(1,2) this] show ?thesis by simp
qed

definition all_ok :: "create_os \<Rightarrow> bool" where
  "all_ok os \<longleftrightarrow> sem_producer_ok os \<and> sem_consumer_ok os \<and> mutex_ok os \<and> exit_ok os \<and> unlock_ok os"

lemma Sync_Activate_ok:
  assumes "mapped a (ap_queue ap)" "shm_inv a m" "all_ok os"
    and "ReadSharedMemoryInfo ap (ap_queue ap) m = Inr (ret, ap')"
    and "ret \<noteq> 0 \<Longrightarrow> WriteSharedMemoryInfo ap' (ap_queue ap) m = Inr (0, m')" and "ret = 0 \<Longrightarrow> m' = m"
  shows "\<exists>s' cs. Sync_Activate os ap s m = Inr (0, s', m', cs) \<and> m_queue s'
    \<and> m_producer_count s' = producer_count ap' \<and> m_consumer_count s' = consumer_count ap'
    \<and> CreateSemaphoreA (producer_count ap') (producer_count ap') (object_name (QS_GetName (ap_queue ap)) ''-SamaphoreProducer'') \<in> set cs
    \<and> CreateSemaphoreA 0 (consumer_count ap') (object_name (QS_GetName (ap_queue ap)) ''-SemaphoreConsumer'') \<in> set cs"
proof -
  have q: "HasQueueInfo (ap_queue ap)"
    using assms(1) by (simp add: HasQueueInfo_def mapped_def)
  have w: "\<exists>r. (if ret \<noteq> 0 then WriteSharedMemoryInfo ap' (ap_queue ap) m else Inr (0, m)) = Inr (r, m')"
    using assms(5,6) by (cases "ret = 0") auto
  then obtain r where w: "(if ret \<noteq> 0 then WriteSharedMemoryInfo ap' (ap_queue ap) m else Inr (0, m)) = Inr (r, m')" ..
  have os: "sem_producer_ok os = True" "sem_consumer_ok os = True" "mutex_ok os = True" "exit_ok os = True" "unlock_ok os = True"
    using assms(3) by (simp_all add: all_ok_def)
  define c1 where "c1 = CreateSemaphoreA (producer_count ap') (producer_count ap') (object_name (QS_GetName (ap_queue ap)) ''-SamaphoreProducer'')"
  define c2 where "c2 = CreateSemaphoreA 0 (consumer_count ap') (object_name (QS_GetName (ap_queue ap)) ''-SemaphoreConsumer'')"
  show ?thesis
    unfolding Sync_Activate_def Let_def assms(4) cbind.simps prod.case w os c1_def [symmetric] c2_def [symmetric]
    using q by (simp only: not_True_eq_False if_False) (rule exI, rule exI, rule conjI, rule refl, simp)
qed

text \<open>The names of the kernel objects of a queue.\<close>

lemma object_name_char:
  assumes "CHR 0x00 \<notin> set name"
  shows "object_name name suffix = take 127 (name @ suffix)"
proof -
  have "takeWhile (\<lambda>c. c \<noteq> CHR 0x00) name = name"
    unfolding takeWhile_eq_all_conv using assms by blast
  then show ?thesis
    by (simp only: object_name_def)
qed

end
