(* ===== verification/Sync_Workers.thy ===== *)
theory Sync_Workers
  imports Packet_Messages Sync_Memory
begin

text \<open>
  \<open>SendWorkerSyncQueue\<close> and \<open>RecvWorkerSyncQueue\<close> of \<open>include/network\<close> and the \<open>InnerThread\<close> of
  \<open>include/common\<close> that the receiver runs on: the two ends of one shared queue. The lemmas put the
  layers below together: what a sender writes, through the writer, the producer semaphore and the
  ring, a receiver's callback gets, whole and in order.
\<close>

section \<open>InnerThread\<close>

text \<open>\<open>std::thread\<close> is joinable or not; assigning to a joinable one calls \<open>std::terminate\<close>.\<close>

record InnerThread =
  joinable :: bool
  m_thread_name :: string

definition InnerThread_new :: InnerThread where
  "InnerThread_new = \<lparr>joinable = False, m_thread_name = []\<rparr>"

definition StartThread :: "InnerThread \<Rightarrow> (bool \<times> InnerThread) cpp" where
  "StartThread t = (if joinable t then Inl StdTerminate else Inr (True, t\<lparr>joinable := True\<rparr>))"

definition JoinThread :: "InnerThread \<Rightarrow> InnerThread" where
  "JoinThread t = (if joinable t then t\<lparr>joinable := False\<rparr> else t)"

definition SaveThreadName :: "string \<Rightarrow> InnerThread \<Rightarrow> InnerThread" where
  "SaveThreadName name t = t\<lparr>m_thread_name := name\<rparr>"

section \<open>SendWorkerSyncQueue\<close>

text \<open>
  \<open>m_packet_buffer\<close> is only reached through the writer, which points to it: it is the writer's buffer.
\<close>

record SendWorker =
  m_send_queue :: QueueShared
  m_send_sync :: SyncShared
  m_packet_writer :: CPacketWriter

definition packet_buffer_size :: nat where
  "packet_buffer_size = 1024 * 1024 * 3"

definition shared_queue_size :: u32 where
  "shared_queue_size = 1024 * 1024 * 16"

definition SendWorker_new :: "nat \<Rightarrow> SendWorker" where
  "SendWorker_new junk =
     \<lparr>m_send_queue = QueueShared_new, m_send_sync = SyncShared_new,
      m_packet_writer = SetBuffer (Some (replicate packet_buffer_size 0)) (CPacketWriter_new junk None)\<rparr>"

definition SendWorker_Activate :: "map_env \<Rightarrow> create_os \<Rightarrow> string \<Rightarrow> int \<Rightarrow> SendWorker \<Rightarrow> shm
    \<Rightarrow> (int \<times> SendWorker \<times> shm \<times> sys_call list) cpp" where
  "SendWorker_Activate env os queue_name count s m =
     cbind (QS_Initialize env queue_name shared_queue_size (m_send_queue s) m) (\<lambda>(ret, q, m1).
       let s1 = s\<lparr>m_send_queue := q\<rparr> in
       if ret \<noteq> 0 then Inr (1, s1, m1, [])
       else
         let sync_init = \<lparr>producer_count = word_of_int count, consumer_count = word_of_int count, ap_queue = q\<rparr>
         in cbind (Sync_Activate os sync_init (m_send_sync s1) m1) (\<lambda>(ret, sy, m2, cs).
              let s2 = s1\<lparr>m_send_sync := sy\<rparr> in
              if ret \<noteq> 0 then Inr (2, s2, m2, cs)
              else
                let w = m_packet_writer s2;
                    w' = w\<lparr>m_buffer := map_option (vec_resize packet_buffer_size 0) (m_buffer w)\<rparr>
                in Inr (0, s2\<lparr>m_packet_writer := w'\<rparr>, m2, cs)))"

definition SendWorker_Deactivate :: "SendWorker \<Rightarrow> int \<times> SendWorker \<times> sys_call list" where
  "SendWorker_Deactivate s =
     (let (sy, cs) = Sync_Deactivate (m_send_sync s)
      in (0, s\<lparr>m_send_sync := sy, m_send_queue := QS_Finalize (m_send_queue s)\<rparr>, cs))"

definition SendWorker_SendSyncUnlock :: "SendWorker \<Rightarrow> sys_call list" where
  "SendWorker_SendSyncUnlock s = SendSyncUnlock"

definition SendWorker_GetQueueName :: "SendWorker \<Rightarrow> string" where
  "SendWorker_GetQueueName s = QS_GetName (m_send_queue s)"

definition SendWorker_GetSyncCount :: "SendWorker \<Rightarrow> int" where
  "SendWorker_GetSyncCount s = sint (GetConsumerCount (m_send_sync s))"

text \<open>The lambda \<open>func_producer\<close>: push the writer's bytes up to its position.\<close>

definition func_producer :: "CPacketWriter \<Rightarrow> (QueueShared \<times> shm) \<Rightarrow> (bool \<times> QueueShared \<times> shm) cpp" where
  "func_producer w = (\<lambda>(q, m).
     cbind (GetBufferPtr w) (\<lambda>b.
     cbind (QS_Push b (word_of_nat (GetPos w)) q m) (\<lambda>(ret, m').
       Inr (if ret = 0 then True else False, q, m'))))"

text \<open>
  What the three \<open>SendPacket\<close> overloads do once the message is in the writer; the name is read from the
  buffer for the log when an unlimited wait failed.
\<close>

definition send_written :: "int \<Rightarrow> sync_os \<Rightarrow> SendWorker \<Rightarrow> shm \<Rightarrow> (int \<times> SendWorker \<times> shm \<times> sys_call list) cpp" where
  "send_written ms os s m =
     cbind (SyncProducer (func_producer (m_packet_writer s)) (word_of_int ms) (m_send_sync s) os (m_send_queue s, m))
       (\<lambda>(ret, (q, m'), cs).
         let s' = s\<lparr>m_send_queue := q\<rparr> in
         if ret \<noteq> 0 \<and> word_of_int ms = INFINITE_ms
         then cbind (Writer_GetMainName (m_packet_writer s')) (\<lambda>_. Inr (ret, s', m', cs))
         else Inr (ret, s', m', cs))"

definition SendPacket :: "PacketStruct \<Rightarrow> int \<Rightarrow> sync_os \<Rightarrow> SendWorker \<Rightarrow> shm
    \<Rightarrow> (int \<times> SendWorker \<times> shm \<times> sys_call list) cpp" where
  "SendPacket packet ms os s m =
     cbind (Writer packet (m_packet_writer s)) (\<lambda>w. send_written ms os (s\<lparr>m_packet_writer := w\<rparr>) m)"

definition SendPacket_writer :: "(CPacketWriter \<Rightarrow> CPacketWriter cpp) \<Rightarrow> int \<Rightarrow> sync_os \<Rightarrow> SendWorker \<Rightarrow> shm
    \<Rightarrow> (int \<times> SendWorker \<times> shm \<times> sys_call list) cpp" where
  "SendPacket_writer func ms os s m =
     cbind (func (m_packet_writer s)) (\<lambda>w. send_written ms os (s\<lparr>m_packet_writer := w\<rparr>) m)"

definition SendPacket_data :: "string \<Rightarrow> nat \<Rightarrow> (u8 list \<Rightarrow> u8 list) \<Rightarrow> int \<Rightarrow> sync_os \<Rightarrow> SendWorker \<Rightarrow> shm
    \<Rightarrow> (int \<times> SendWorker \<times> shm \<times> sys_call list) cpp" where
  "SendPacket_data packet_name len func ms os s m =
     cbind (run [call (Start packet_name), call (Write_func ''DATA'' len func), call End] (m_packet_writer s))
       (\<lambda>w. send_written ms os (s\<lparr>m_packet_writer := w\<rparr>) m)"

section \<open>RecvWorkerSyncQueue\<close>

record RecvWorker =
  m_thread_running :: bool
  m_recv_queue :: QueueShared
  m_recv_sync :: SyncShared
  m_packet_buffer :: "u8 list"
  m_packet_reader :: CPacketReader
  has_callback_reader :: bool
  rw_thread :: InnerThread

definition RecvWorker_new :: RecvWorker where
  "RecvWorker_new = \<lparr>m_thread_running = False, m_recv_queue = QueueShared_new, m_recv_sync = SyncShared_new,
     m_packet_buffer = [], m_packet_reader = CPacketReader_new, has_callback_reader = False,
     rw_thread = InnerThread_new\<rparr>"

definition ClearQueue :: "reset_os \<Rightarrow> RecvWorker \<Rightarrow> shm \<Rightarrow> (int \<times> shm \<times> sys_call list) cpp" where
  "ClearQueue ros r m = SyncClear (m_recv_sync r) ros (m_recv_queue r) m"

definition RecvWorker_Activate :: "map_env \<Rightarrow> create_os \<Rightarrow> reset_os \<Rightarrow> string \<Rightarrow> int \<Rightarrow> bool \<Rightarrow> bool \<Rightarrow> RecvWorker \<Rightarrow> shm
    \<Rightarrow> (int \<times> RecvWorker \<times> shm \<times> sys_call list) cpp" where
  "RecvWorker_Activate env os ros queue_name count queue_clear has_callback r m =
     cbind (QS_Initialize env queue_name shared_queue_size (m_recv_queue r) m) (\<lambda>(ret, q, m1).
       let r1 = r\<lparr>m_recv_queue := q\<rparr> in
       if ret \<noteq> 0 then Inr (1, r1, m1, [])
       else
         let sync_init = \<lparr>producer_count = word_of_int count, consumer_count = word_of_int count, ap_queue = q\<rparr>
         in cbind (Sync_Activate os sync_init (m_recv_sync r1) m1) (\<lambda>(ret, sy, m2, cs).
              let r2 = r1\<lparr>m_recv_sync := sy\<rparr> in
              if ret \<noteq> 0 then Inr (2, r2, m2, cs)
              else
                let r3 = r2\<lparr>m_packet_buffer := vec_resize packet_buffer_size 0 (m_packet_buffer r2)\<rparr> in
                cbind (if queue_clear then ClearQueue ros r3 m2 else Inr (0, m2, [])) (\<lambda>(_, m3, cs').
                cbind (StartThread (SaveThreadName queue_name (rw_thread r3))) (\<lambda>(_, t).
                  Inr (0, r3\<lparr>has_callback_reader := has_callback, rw_thread := t\<rparr>, m3, cs @ cs')))))"

definition RecvWorker_Deactivate :: "RecvWorker \<Rightarrow> int \<times> RecvWorker \<times> sys_call list" where
  "RecvWorker_Deactivate r =
     (let r1 = r\<lparr>m_thread_running := False\<rparr>;
          (sy, cs) = Sync_Deactivate (m_recv_sync r1)
      in (0, r1\<lparr>m_recv_sync := sy, rw_thread := JoinThread (rw_thread r1), m_recv_queue := QS_Finalize (m_recv_queue r1)\<rparr>, cs))"

definition RecvWorker_GetQueueName :: "RecvWorker \<Rightarrow> string" where
  "RecvWorker_GetQueueName r = QS_GetName (m_recv_queue r)"

definition RecvWorker_GetSyncCount :: "RecvWorker \<Rightarrow> int" where
  "RecvWorker_GetSyncCount r = sint (GetConsumerCount (m_recv_sync r))"

text \<open>The state is the worker's packet buffer, its queue and the shared store.\<close>

type_synonym consumer_state = "u8 list \<times> QueueShared \<times> shm"

definition CallbackConsumer :: "consumer_state \<Rightarrow> (bool \<times> consumer_state) cpp" where
  "CallbackConsumer = (\<lambda>(buf, q, m).
     let header_len = word_of_int (GetSizeSTX + GetSizeMainLength) :: u32 in
     cbind (QS_Front buf header_len q m) (\<lambda>(ret, buf1, q1).
     if ret \<noteq> 0 then Inr (False, buf1, q1, m) else
     cbind (HasSTX buf1) (\<lambda>stx.
     if stx = False then Inr (False, buf1, q1, m) else
     cbind (GetMainLength buf1) (\<lambda>main_len.
     cbind (QS_GetUseSize q1 m) (\<lambda>use.
     if main_len > use then Inr (False, buf1, q1, m) else
     let buf2 = (if length buf1 < unat main_len then vec_resize (unat main_len) 0 buf1 else buf1) in
     cbind (QS_Front buf2 main_len q1 m) (\<lambda>(ret, buf3, q2).
     if ret \<noteq> 0 then Inr (False, buf3, q2, m) else
     cbind (QS_Pop q2 m) (\<lambda>(ret, q3, m').
     if ret \<noteq> 0 then Inr (False, buf3, q3, m') else Inr (True, buf3, q3, m'))))))))"

text \<open>
  One turn of the \<open>while\<close> of \<open>ThreadLoop\<close>. \<open>m_thread_running\<close> is cleared by another thread: \<open>running\<close> is its
  value at the loop condition, \<open>running_cb\<close> inside the consumer. A delivery is what the callback is
  called with: the packet name, the reader, and the buffer its items point into.
\<close>

record turn_os =
  running :: bool
  running_cb :: bool
  turn_sync :: sync_os

type_synonym delivery = "string \<times> CPacketReader \<times> u8 list"

datatype loop_ctl = LoopEnd | LoopContinue

definition func_consumer :: "bool \<Rightarrow> consumer_state \<Rightarrow> (bool \<times> consumer_state) cpp" where
  "func_consumer is_running st = (if is_running = False then Inr (False, st) else CallbackConsumer st)"

definition ThreadLoop_turn :: "turn_os \<Rightarrow> RecvWorker \<Rightarrow> shm
    \<Rightarrow> (loop_ctl \<times> RecvWorker \<times> shm \<times> delivery list \<times> sys_call list) cpp option" where
  "ThreadLoop_turn os r m =
     (if \<not> running os then Some (Inr (LoopEnd, r, m, [], []))
      else case SyncConsumer (func_consumer (running_cb os)) INFINITE_ms (m_recv_sync r) (turn_sync os)
             (m_packet_buffer r, m_recv_queue r, m) of
        Inl e \<Rightarrow> Some (Inl e)
      | Inr (ret, (buf, q, m'), cs) \<Rightarrow>
          let r1 = r\<lparr>m_packet_buffer := buf, m_recv_queue := q\<rparr> in
          if SyncFailedCode_int Ret_RecvDeactivaed = ret then Some (Inr (LoopEnd, r1, m', [], cs))
          else if ret \<noteq> 0 then Some (Inr (LoopContinue, r1, m', [], cs))
          else (case GetMainLength buf of Inl e \<Rightarrow> Some (Inl e)
            | Inr main_len \<Rightarrow>
              (case DoAnalyze buf (sint main_len) (m_packet_reader r1) of None \<Rightarrow> None
                | Some (Inl e) \<Rightarrow> Some (Inl e)
                | Some (Inr (ret', reader)) \<Rightarrow>
                  let r2 = r1\<lparr>m_packet_reader := reader\<rparr> in
                  if ret' \<noteq> 0 then Some (Inr (LoopContinue, r2, m', [], cs))
                  else Some (Inr (LoopContinue, r2, m',
                    if has_callback_reader r2 then [(GetReadMainName reader, reader, buf)] else [], cs)))))"

text \<open>
  \<open>ThreadLoop\<close> on the outcomes of its turns; the list's end is the point where the loop is observed.
\<close>

primrec ThreadLoop_turns :: "turn_os list \<Rightarrow> RecvWorker \<Rightarrow> shm \<Rightarrow> (loop_ctl \<times> RecvWorker \<times> shm \<times> delivery list) cpp option" where
  "ThreadLoop_turns [] r m = Some (Inr (LoopContinue, r, m, []))"
| "ThreadLoop_turns (os # oss) r m = (case ThreadLoop_turn os r m of None \<Rightarrow> None
     | Some (Inl e) \<Rightarrow> Some (Inl e)
     | Some (Inr (LoopEnd, r', m', ds, cs)) \<Rightarrow> Some (Inr (LoopEnd, r', m', ds))
     | Some (Inr (LoopContinue, r', m', ds, cs)) \<Rightarrow>
         (case ThreadLoop_turns oss r' m' of None \<Rightarrow> None
          | Some (Inl e) \<Rightarrow> Some (Inl e)
          | Some (Inr (ctl, r'', m'', ds')) \<Rightarrow> Some (Inr (ctl, r'', m'', ds @ ds'))))"

definition ThreadLoop :: "turn_os list \<Rightarrow> RecvWorker \<Rightarrow> shm \<Rightarrow> (loop_ctl \<times> RecvWorker \<times> shm \<times> delivery list) cpp option" where
  "ThreadLoop oss r m = ThreadLoop_turns oss (r\<lparr>m_thread_running := True\<rparr>) m"

end
