(* ===== verification/Sync_Channel.thy ===== *)
theory Sync_Channel
  imports Sync_Workers
begin

text \<open>
  The channel that a sender and a receiver on the same shared object form: what one access of either
  side does to the bytes in the queue, and that in any history of accesses, whatever the waits
  return, the receiver's callback gets the messages that were sent, complete and in order.
\<close>

section \<open>The producer's access\<close>

lemma func_producer_ok:
  assumes "mapped a q" "shm_inv a m" "m_buffer w = Some b" "m_pos w \<le> length b"
    and "length (shm_contents a m) + m_pos w \<le> shm_capacity a m"
  shows "\<exists>m'. func_producer w (q, m) = Inr (True, q, m') \<and> shm_inv a m'
    \<and> shm_contents a m' = shm_contents a m @ take (m_pos w) b \<and> shm_capacity a m' = shm_capacity a m
    \<and> shm_user a m' = shm_user a m"
proof -
  have u: "unat (word_of_nat (m_pos w) :: u32) = m_pos w"
    using assms(5) shm_capacity_u32 [of a m] by (intro unat_u32_of_nat) simp
  show ?thesis
    using QS_Push_ok [OF assms(1,2), of "word_of_nat (m_pos w)" b] assms u
    by (auto simp: func_producer_def GetBufferPtr_def GetPos_def)
qed

lemma func_producer_full:
  assumes "mapped a q" "shm_inv a m" "m_buffer w = Some b" "m_pos w < 2 ^ 32"
    and "shm_capacity a m < length (shm_contents a m) + m_pos w"
  shows "func_producer w (q, m) = Inr (False, q, m)"
proof -
  have u: "unat (word_of_nat (m_pos w) :: u32) = m_pos w"
    using assms(4) by (intro unat_u32_of_nat) simp
  show ?thesis
    using QS_Push_full [OF assms(1,2), of "word_of_nat (m_pos w)" b] assms u
    by (simp add: func_producer_def GetBufferPtr_def GetPos_def)
qed

text \<open>A sender on object \<open>a\<close> with a packet buffer of at least the size the constructor gives it.\<close>

definition sender_ok :: "nat \<Rightarrow> SendWorker \<Rightarrow> bool" where
  "sender_ok a s \<longleftrightarrow> mapped a (m_send_queue s)
     \<and> (\<exists>b. m_buffer (m_packet_writer s) = Some b \<and> packet_buffer_size \<le> length b)"

definition sendable :: "PacketStruct \<times> u8 list \<Rightarrow> bool" where
  "sendable = (\<lambda>(p, data). msg_typed p \<and> frame_data p = Inr data \<and> msg_len data p \<le> packet_buffer_size)"

text \<open>
  A message of any length below \<open>2 ^ 31\<close> can be read; a sender can write it when its end mark fits the packet buffer, which it
  does for every message that is not longer than the buffer.
\<close>

definition receivable :: "PacketStruct \<times> u8 list \<Rightarrow> bool" where
  "receivable = (\<lambda>(p, data). msg_typed p \<and> frame_data p = Inr data \<and> msg_len data p < 2 ^ 31)"

definition writable :: "SendWorker \<Rightarrow> PacketStruct \<times> u8 list \<Rightarrow> bool" where
  "writable s = (\<lambda>(p, data). case m_buffer (m_packet_writer s) of None \<Rightarrow> False | Some b \<Rightarrow> end_fits (start_size b) data p)"

lemma sendable_receivable: "sendable x \<Longrightarrow> receivable x"
  by (auto simp: sendable_def receivable_def packet_buffer_size_def)

lemma sendable_writable: "sender_ok a s \<Longrightarrow> sendable x \<Longrightarrow> writable s x"
  by (auto simp: sender_ok_def sendable_def writable_def start_size_def intro!: end_fits_short)

text \<open>What sending a message comes to: sent, refused for lack of room, or not admitted by the waits.\<close>

definition admitted :: "sync_os \<Rightarrow> bool" where
  "admitted os \<longleftrightarrow> w_sem os = WAIT_OBJECT_0 \<and> w_mutex os = WAIT_OBJECT_0"

definition pushed_ret :: "int \<Rightarrow> bool" where
  "pushed_ret ret \<longleftrightarrow> ret = 0 \<or> ret = SyncFailedCode_int Ret_ReleaseSemaphoreFailed"

lemma Writer_GetMainName_packet:
  "Writer_GetMainName (wstate (msg_bytes data p) rest) = Inr (PacketTypeStr p)"
  using GetMainName_ok [OF PacketTypeStr_ok, of "m_stx @ le_bytes 4 (packet_len (PacketTypeStr p) (msg_blocks data p))"
      p "blocks_bytes (msg_blocks data p) @ m_etx @ rest"]
  by (simp add: Writer_GetMainName_def msg_bytes_def packet_bytes_def)

lemma SendPacket_cases:
  assumes s: "sender_ok a s" and m: "shm_inv a m" and p: "receivable (p, data)" "writable s (p, data)"
  shows "\<exists>ret s' m' cs. SendPacket p ms os s m = Inr (ret, s', m', cs) \<and> sender_ok a s' \<and> shm_inv a m'
    \<and> shm_capacity a m' = shm_capacity a m \<and> shm_user a m' = shm_user a m
    \<and> (if admitted os \<and> length (shm_contents a m) + msg_len data p \<le> shm_capacity a m
       then pushed_ret ret \<and> shm_contents a m' = shm_contents a m @ msg_bytes data p
         \<and> (ret = 0 \<longleftrightarrow> rel_ok os \<or> rel_error os = ERROR_TOO_MANY_POSTS)
       else \<not> pushed_ret ret \<and> m' = m)"
proof -
  obtain b where q: "mapped a (m_send_queue s)" and b: "m_buffer (m_packet_writer s) = Some b" "packet_buffer_size \<le> length b"
    using s by (auto simp: sender_ok_def)
  have p': "msg_typed p" "frame_data p = Inr data" "msg_len data p < 2 ^ 31" "end_fits (start_size b) data p"
    using p b(1) by (simp_all add: receivable_def writable_def)
  then obtain rest where w: "Writer p (m_packet_writer s) = Inr (wstate (msg_bytes data p) rest)"
    and len: "start_size b \<le> msg_len data p + length rest"
    using Writer_end_fits [OF b(1) p'(2,4,3)] by blast
  let ?w = "wstate (msg_bytes data p) rest"
  have pos: "m_pos ?w = msg_len data p"
    by (simp add: msg_bytes_def msg_len_def)
  define s1 where "s1 = s\<lparr>m_packet_writer := ?w\<rparr>"
  have s1: "sender_ok a s1" "m_packet_writer s1 = ?w" "mapped a (m_send_queue s1)"
  proof -
    have "packet_buffer_size \<le> length (msg_bytes data p @ rest)"
      using len b(2) by (simp add: start_size_def msg_bytes_def msg_len_def)
    then show "sender_ok a s1" "m_packet_writer s1 = ?w" "mapped a (m_send_queue s1)"
      using q by (simp_all add: sender_ok_def s1_def)
  qed
  have send: "SendPacket p ms os s m = send_written ms os s1 m"
    by (simp add: SendPacket_def w s1_def)
  have fin: "\<exists>m' cs. send_written ms os s1 m = Inr (ret, s1, m', cs) \<and> m' = m2"
    if acc: "SyncProducer (func_producer ?w) (word_of_int ms) (m_send_sync s1) os (m_send_queue s1, m)
      = Inr (ret, (m_send_queue s1, m2), cs)" for ret m2 cs
    using acc by (simp add: send_written_def s1(2) Writer_GetMainName_packet)
  show ?thesis
  proof (cases "admitted os")
    case False
    then obtain ret cs where "SyncProducer (func_producer ?w) (word_of_int ms) (m_send_sync s1) os (m_send_queue s1, m)
        = Inr (ret, (m_send_queue s1, m), cs)" "ret \<in> {6, 7, 8, 10}"
      using sync_access_no_entry [of os SemProducer SemConsumer "func_producer ?w" "word_of_int ms" "m_send_sync s1"
          "(m_send_queue s1, m)"]
      unfolding admitted_def SyncProducer_def by (auto split: if_splits)
    then show ?thesis
      using fin s1 m False send by (auto simp: pushed_ret_def)
  next
    case True
    then have ws: "w_sem os = WAIT_OBJECT_0" "w_mutex os = WAIT_OBJECT_0"
      by (simp_all add: admitted_def)
    show ?thesis
    proof (cases "length (shm_contents a m) + msg_len data p \<le> shm_capacity a m")
      case fits: True
      obtain m' where fp: "func_producer ?w (m_send_queue s1, m) = Inr (True, m_send_queue s1, m')"
        and m': "shm_inv a m'" "shm_contents a m' = shm_contents a m @ msg_bytes data p"
          "shm_capacity a m' = shm_capacity a m" "shm_user a m' = shm_user a m"
        using func_producer_ok [OF s1(3) m, of ?w "msg_bytes data p @ rest"] fits pos by auto
      show ?thesis
        using fin [unfolded SyncProducer_def, OF sync_access_entry [OF ws, of "func_producer ?w", OF fp]]
          s1 m' True fits send by (auto simp: pushed_ret_def)
    next
      case False
      have lt: "m_pos ?w < 2 ^ 32"
        using pos p'(3) by simp
      have fp: "func_producer ?w (m_send_queue s1, m) = Inr (False, m_send_queue s1, m)"
        using False pos by (intro func_producer_full [OF s1(3) m _ lt]) simp_all
      show ?thesis
        using fin [unfolded SyncProducer_def, OF sync_access_entry [OF ws, of "func_producer ?w", OF fp]]
          s1 m False send by (auto simp: pushed_ret_def)
    qed
  qed
qed

section \<open>The consumer's access\<close>

definition receiver_ok :: "nat \<Rightarrow> RecvWorker \<Rightarrow> bool" where
  "receiver_ok a r \<longleftrightarrow> mapped a (m_recv_queue r) \<and> 8 \<le> length (m_packet_buffer r)"

text \<open>\<open>CallbackConsumer\<close> on any bytes: it does not fail, and it removes bytes only when it reports success.\<close>

lemma mapped_pop_len [simp]: "mapped a (q\<lparr>m_pop_data_len := n\<rparr>) = mapped a q"
  by (simp add: mapped_def)

lemma QS_GetUseSize_mapped:
  assumes "mapped a q" "shm_inv a m"
  shows "\<exists>use. QS_GetUseSize q m = Inr use \<and> unat use = length (shm_contents a m)"
proof -
  obtain x where "m a = Some x"
    using assms(2) by (auto simp: shm_inv_def)
  then show ?thesis
    using assms shm_contents_length [OF assms(2)] by (simp add: QS_GetUseSize_def mapped_not_None deref_mapped)
qed

lemma header_len: "word_of_int (GetSizeSTX + GetSizeMainLength) = (8 :: u32)"
  by (simp add: size_consts)

lemma CallbackConsumer_packet:
  assumes q: "mapped a q" and m: "shm_inv a m" and buf: "8 \<le> length buf"
    and c: "shm_contents a m = packet_bytes name bs @ rest"
  shows "\<exists>q' m' junk. CallbackConsumer (buf, q, m) = Inr (True, packet_bytes name bs @ junk, q', m') \<and> mapped a q'
    \<and> shm_inv a m' \<and> shm_contents a m' = rest \<and> shm_capacity a m' = shm_capacity a m \<and> shm_user a m' = shm_user a m"
proof -
  let ?n = "packet_len name bs" and ?c = "shm_contents a m"
  have lc: "length ?c < 2 ^ 32"
    using shm_contents_le [OF m] shm_capacity_u32 [of a m] by simp
  have n: "?n \<le> length ?c" "13 \<le> ?n" "?n < 2 ^ 32"
    using c lc by (simp_all add: packet_len_def)
  have u: "unat (word_of_nat ?n :: u32) = ?n"
    using n(3) by (intro unat_u32_of_nat) simp
  define tl1 where "tl1 = drop 8 buf"
  define buf1 where "buf1 = m_stx @ le_bytes 4 ?n @ tl1"
  have t8: "take 8 ?c = m_stx @ le_bytes 4 ?n"
    by (simp add: c packet_bytes_def)
  have f1: "QS_Front buf 8 q m = Inr (0, buf1, q\<lparr>m_pop_data_len := 8\<rparr>)"
    using QS_Front_ok [OF q m, of 8 buf] buf n(1,2) by (simp add: t8 buf1_def tl1_def)
  have stx: "HasSTX buf1 = Inr True"
    by (simp add: buf1_def HasSTX_ok)
  have ml: "GetMainLength buf1 = Inr (word_of_nat ?n)"
    using n(3) by (simp add: buf1_def GetMainLength_ok)
  let ?q1 = "q\<lparr>m_pop_data_len := 8\<rparr>"
  obtain use where use: "QS_GetUseSize ?q1 m = Inr use" "unat use = length ?c"
    using QS_GetUseSize_mapped [of a ?q1 m] q m by auto
  have nuse: "\<not> word_of_nat ?n > use"
    using use(2) n(1) u by (simp add: word_less_nat_alt)
  define buf2 where "buf2 = (if length buf1 < ?n then vec_resize ?n 0 buf1 else buf1)"
  have b2: "?n \<le> length buf2"
    by (simp add: buf2_def)
  let ?q2 = "?q1\<lparr>m_pop_data_len := word_of_nat ?n\<rparr>"
  have f2: "QS_Front buf2 (word_of_nat ?n) ?q1 m = Inr (0, packet_bytes name bs @ drop ?n buf2, ?q2)"
    using QS_Front_ok [of a ?q1 m "word_of_nat ?n" buf2] q m n(1) b2 u by (simp add: c)
  have pos: "0 < m_pop_data_len ?q2" "unat (m_pop_data_len ?q2) \<le> length ?c"
    using u n(1,2) by (simp_all add: word_less_nat_alt)
  obtain m' where pop: "QS_Pop ?q2 m = Inr (0, ?q2\<lparr>m_pop_data_len := 0\<rparr>, m')" "shm_inv a m'"
      "shm_contents a m' = drop ?n ?c" "shm_capacity a m' = shm_capacity a m" "shm_user a m' = shm_user a m"
    using QS_Pop_ok [of a ?q2 m] q m pos u by auto
  have "CallbackConsumer (buf, q, m) = Inr (True, packet_bytes name bs @ drop ?n buf2, ?q2\<lparr>m_pop_data_len := 0\<rparr>, m')"
    by (simp only: CallbackConsumer_def header_len Let_def prod.case f1 cbind.simps stx ml use(1) nuse if_False u
        buf2_def [symmetric] f2 pop(1) simp_thms not_True_eq_False)
  then show ?thesis
    using pop q by (auto simp: c)
qed


text \<open>On any bytes whatsoever \<open>CallbackConsumer\<close> ends without an error, and takes bytes only when it succeeds.\<close>

lemma CallbackConsumer_safe:
  assumes q: "mapped a q" and m: "shm_inv a m" and buf: "8 \<le> length buf"
  shows "\<exists>ok buf' q' m'. CallbackConsumer (buf, q, m) = Inr (ok, buf', q', m') \<and> mapped a q' \<and> shm_inv a m'
    \<and> 8 \<le> length buf' \<and> shm_capacity a m' = shm_capacity a m \<and> shm_user a m' = shm_user a m
    \<and> (if ok then \<exists>n. 0 < n \<and> n \<le> length (shm_contents a m) \<and> shm_contents a m' = drop n (shm_contents a m)
       else m' = m)"
proof (cases "length (shm_contents a m) < 8")
  case True
  then show ?thesis
    using QS_Front_short [OF q m, of 8 buf] q m buf
    by (simp add: CallbackConsumer_def header_len Let_def del: of_int_add) blast
next
  case False
  let ?c = "shm_contents a m" and ?q1 = "q\<lparr>m_pop_data_len := 8\<rparr>"
  define buf1 where "buf1 = take 8 ?c @ drop 8 buf"
  have f1: "QS_Front buf 8 q m = Inr (0, buf1, ?q1)"
    using QS_Front_ok [OF q m, of 8 buf] buf False by (simp add: buf1_def)
  have l1: "length buf1 = length buf"
    using buf False by (simp add: buf1_def)
  obtain stx where stx: "HasSTX buf1 = Inr stx"
    using HasSTX_total [of buf1] l1 buf by auto
  obtain ml where ml: "GetMainLength buf1 = Inr ml"
    using l1 buf by (simp add: GetMainLength_def rd_n_def size_consts)
  obtain use where use: "QS_GetUseSize ?q1 m = Inr use" "unat use = length ?c"
    using QS_GetUseSize_mapped [of a ?q1 m] q m by auto
  define buf2 where "buf2 = (if length buf1 < unat ml then vec_resize (unat ml) 0 buf1 else buf1)"
  have start: "CallbackConsumer (buf, q, m) =
    (if stx = False then Inr (False, buf1, ?q1, m) else if ml > use then Inr (False, buf1, ?q1, m) else
     cbind (QS_Front buf2 ml ?q1 m) (\<lambda>(ret, buf3, q2).
       if ret \<noteq> 0 then Inr (False, buf3, q2, m) else
       cbind (QS_Pop q2 m) (\<lambda>(ret, q3, m'). if ret \<noteq> 0 then Inr (False, buf3, q3, m') else Inr (True, buf3, q3, m'))))"
    by (simp only: CallbackConsumer_def header_len Let_def prod.case f1 cbind.simps stx ml use(1)
        buf2_def [symmetric] simp_thms not_True_eq_False if_False)
  show ?thesis
  proof (cases "stx = False \<or> ml > use")
    case True
    then have "CallbackConsumer (buf, q, m) = Inr (False, buf1, ?q1, m)"
      by (simp only: start) auto
    then show ?thesis
      using q m l1 buf by simp blast
  next
    case go: False
    let ?q2 = "?q1\<lparr>m_pop_data_len := ml\<rparr>"
    have le: "unat ml \<le> length ?c" "unat ml \<le> length buf2" "8 \<le> length buf2"
      using go use(2) l1 buf by (simp_all add: buf2_def word_less_nat_alt)
    define buf3 where "buf3 = take (unat ml) ?c @ drop (unat ml) buf2"
    have f2: "QS_Front buf2 ml ?q1 m = Inr (0, buf3, ?q2)"
      using QS_Front_ok [of a ?q1 m ml buf2] q m le by (simp add: buf3_def)
    have l3: "8 \<le> length buf3"
      using le by (simp add: buf3_def)
    show ?thesis
    proof (cases "ml = 0")
      case True
      then have "QS_Pop ?q2 m = Inr (6, ?q2, m)"
        by (simp add: QS_Pop_def)
      then have "CallbackConsumer (buf, q, m) = Inr (False, buf3, ?q2, m)"
        using go by (simp only: start f2) simp
      then show ?thesis
        using q m l3 by simp blast
    next
      case False
      then have pos: "0 < m_pop_data_len ?q2"
        by (simp add: word_gt_0)
      obtain m' where "QS_Pop ?q2 m = Inr (0, ?q2\<lparr>m_pop_data_len := 0\<rparr>, m')" "shm_inv a m'"
        "shm_contents a m' = drop (unat ml) ?c" "shm_capacity a m' = shm_capacity a m" "shm_user a m' = shm_user a m"
        using QS_Pop_ok [of a ?q2 m] q m pos le by auto
      moreover from this(1) have "CallbackConsumer (buf, q, m) = Inr (True, buf3, ?q2\<lparr>m_pop_data_len := 0\<rparr>, m')"
        using go by (simp only: start f2) simp
      moreover have "0 < unat ml"
        using False by (simp add: unat_gt_0)
      ultimately show ?thesis
        using q l3 le(1) by auto
    qed
  qed
qed

text \<open>Bytes at the head of the queue that are not a start mark stop it: nothing is ever removed.\<close>

lemma CallbackConsumer_garbage:
  assumes q: "mapped a q" and m: "shm_inv a m" and buf: "8 \<le> length buf"
    and head: "take 4 (shm_contents a m) \<noteq> m_stx"
  shows "\<exists>buf' q'. CallbackConsumer (buf, q, m) = Inr (False, buf', q', m) \<and> mapped a q' \<and> 8 \<le> length buf'"
proof (cases "length (shm_contents a m) < 8")
  case True
  then show ?thesis
    using QS_Front_short [OF q m, of 8 buf] q m buf by (simp add: CallbackConsumer_def header_len Let_def del: of_int_add)
next
  case False
  let ?c = "shm_contents a m" and ?q1 = "q\<lparr>m_pop_data_len := 8\<rparr>"
  define buf1 where "buf1 = take 8 ?c @ drop 8 buf"
  have f1: "QS_Front buf 8 q m = Inr (0, buf1, ?q1)"
    using QS_Front_ok [OF q m, of 8 buf] buf False by (simp add: buf1_def)
  have "take 4 buf1 \<noteq> m_stx"
    using head False by (simp add: buf1_def)
  then have stx: "HasSTX buf1 = Inr False"
    using HasSTX_iff [of buf1] False buf by (simp add: buf1_def)
  have "CallbackConsumer (buf, q, m) = Inr (False, buf1, ?q1, m)"
    by (simp only: CallbackConsumer_def header_len Let_def prod.case f1 cbind.simps stx simp_thms not_True_eq_False
        if_False if_True)
  then show ?thesis
    using q False buf by (simp add: buf1_def)
qed


section \<open>One turn of the receiver\<close>

text \<open>What the callback gets stands for message \<open>p\<close>: its name, and a reader the message can be read from.\<close>

definition delivers :: "PacketStruct \<times> u8 list \<Rightarrow> delivery \<Rightarrow> bool" where
  "delivers = (\<lambda>(p, data) (name, reader, buf). name = PacketTypeStr p
     \<and> (\<exists>q p'. CreateFactory name = Some q \<and> Reader buf reader q = Inr p' \<and> same_message buf p p'))"

definition wire :: "(PacketStruct \<times> u8 list) list \<Rightarrow> u8 list" where
  "wire ps = concat (map (\<lambda>(p, data). msg_bytes data p) ps)"

lemma wire_simps [simp]:
  "wire [] = []" "wire (x # ps) = msg_bytes (snd x) (fst x) @ wire ps" "wire (ps @ qs) = wire ps @ wire qs"
  by (simp_all add: wire_def case_prod_unfold)

lemma length_msg_bytes: "length (msg_bytes data p) = msg_len data p"
  by (simp add: msg_bytes_def msg_len_def)

lemma DoAnalyze_msg:
  assumes p: "receivable (p, data)"
  shows "\<exists>reader. DoAnalyze (msg_bytes data p @ junk) (int (msg_len data p)) r0 = Some (Inr (0, reader))
    \<and> delivers (p, data) (GetReadMainName reader, reader, msg_bytes data p @ junk)"
proof -
  let ?n = "PacketTypeStr p" and ?bs = "msg_blocks data p" and ?m = "msg_bytes data p @ junk"
  have lt: "msg_len data p < 2 ^ 31"
    using p by (simp add: receivable_def)
  let ?r = "r0\<lparr>m_main_name := ?n, m_block_items := items_at (int (blocks_pos ?n)) ?bs\<rparr>"
  have an: "DoAnalyze ?m (int (msg_len data p)) r0 = Some (Inr (0, ?r))"
    using DoAnalyze_packet [OF PacketTypeStr_ok msg_block_names_ok, of p data p junk r0] lt
    by (simp add: msg_bytes_def msg_len_def)
  have "items_of ((m_stx @ le_bytes 4 (packet_len ?n ?bs) @ str_bytes ?n @ [GetStartBlockDelimiter])
      @ blocks_bytes ?bs @ m_etx @ junk) (items_at (int (blocks_pos ?n)) ?bs) ?bs"
    by (rule items_of_packet) (simp add: blocks_pos_def)
  then have "items_of ?m (m_block_items ?r) ?bs"
    by (simp add: msg_bytes_def packet_bytes_def)
  from Reader_items [OF this] p obtain q p' where
    "CreateFactory ?n = Some q" "Reader ?m ?r q = Inr p'" "same_message ?m p p'"
    by (auto simp: receivable_def)
  with an show ?thesis
    by (auto simp: delivers_def GetReadMainName_def)
qed

definition turn_admitted :: "turn_os \<Rightarrow> bool" where
  "turn_admitted os \<longleftrightarrow> running_cb os \<and> admitted (turn_sync os)"

definition slot_released :: "sync_os \<Rightarrow> bool" where
  "slot_released os \<longleftrightarrow> rel_ok os \<or> rel_error os = ERROR_TOO_MANY_POSTS"

lemma turn_no_effect:
  assumes "r' = r\<lparr>m_packet_buffer := buf, m_recv_queue := q\<rparr>" "mapped a q" "8 \<le> length buf"
  shows "receiver_ok a r'" and "has_callback_reader r' = has_callback_reader r"
  using assms by (simp_all add: receiver_ok_def)

text \<open>
  A turn on a queue that holds messages: admitted, it takes the first one and delivers it (unless the
  release of the producer semaphore fails, when the message is dropped); not admitted, it changes
  neither the queue nor anything the callback sees.
\<close>

lemma ThreadLoop_turn_msg:
  assumes r: "receiver_ok a r" "has_callback_reader r" and m: "shm_inv a m" and c: "shm_contents a m = wire (x # ps)"
    and x: "receivable x" and run: "running os" "turn_admitted os"
  shows "\<exists>r' m' ds cs. ThreadLoop_turn os r m = Some (Inr (LoopContinue, r', m', ds, cs)) \<and> receiver_ok a r'
    \<and> has_callback_reader r' \<and> shm_inv a m' \<and> shm_capacity a m' = shm_capacity a m \<and> shm_user a m' = shm_user a m
    \<and> shm_contents a m' = wire ps
    \<and> (if slot_released (turn_sync os) then \<exists>d. ds = [d] \<and> delivers x d else ds = [])"
proof -
  obtain p data where xp: "x = (p, data)"
    by (cases x)
  let ?n = "PacketTypeStr p" and ?bs = "msg_blocks data p"
  have q: "mapped a (m_recv_queue r)" and buf: "8 \<le> length (m_packet_buffer r)"
    using r(1) by (simp_all add: receiver_ok_def)
  have "shm_contents a m = packet_bytes ?n ?bs @ wire ps"
    using c by (simp add: xp msg_bytes_def)
  from CallbackConsumer_packet [OF q m buf this] obtain q' m' junk where
    cb: "CallbackConsumer (m_packet_buffer r, m_recv_queue r, m) = Inr (True, msg_bytes data p @ junk, q', m')"
    and q': "mapped a q'" and m': "shm_inv a m'" "shm_contents a m' = wire ps" "shm_capacity a m' = shm_capacity a m"
      "shm_user a m' = shm_user a m"
    by (auto simp: msg_bytes_def)
  let ?os = "turn_sync os"
  have ws: "w_sem ?os = WAIT_OBJECT_0" "w_mutex ?os = WAIT_OBJECT_0"
    using run(2) by (simp_all add: turn_admitted_def admitted_def)
  have fc: "func_consumer (running_cb os) (m_packet_buffer r, m_recv_queue r, m) = Inr (True, msg_bytes data p @ junk, q', m')"
    using run(2) cb by (simp add: func_consumer_def turn_admitted_def)
  define r1 where "r1 = r\<lparr>m_packet_buffer := msg_bytes data p @ junk, m_recv_queue := q'\<rparr>"
  have "13 \<le> msg_len data p"
    by (simp add: msg_len_def packet_len_def)
  then have r1: "receiver_ok a r1" "has_callback_reader r1"
    using q' r(2) by (simp_all add: receiver_ok_def r1_def length_msg_bytes)
  define ret where "ret = (if slot_released ?os then 0 else SyncFailedCode_int Ret_ReleaseSemaphoreFailed)"
  obtain cs where sc: "SyncConsumer (func_consumer (running_cb os)) INFINITE_ms (m_recv_sync r) ?os
      (m_packet_buffer r, m_recv_queue r, m) = Inr (ret, (msg_bytes data p @ junk, q', m'), cs)"
    unfolding SyncConsumer_def using sync_access_entry [OF ws, of "func_consumer (running_cb os)", OF fc]
    by (simp add: ret_def slot_released_def)
  show ?thesis
  proof (cases "slot_released ?os")
    case False
    then have "ThreadLoop_turn os r m = Some (Inr (LoopContinue, r1, m', [], cs))"
      using run(1) sc by (simp add: ThreadLoop_turn_def ret_def r1_def)
    then show ?thesis
      using r1 m' False by simp
  next
    case True
    have len: "msg_len data p < 2 ^ 31"
      using x by (simp add: xp receivable_def)
    then have ml: "GetMainLength (msg_bytes data p @ junk) = Inr (word_of_nat (msg_len data p))"
      using GetMainLength_ok [of "msg_len data p"] by (simp add: msg_bytes_def packet_bytes_def msg_len_def)
    have "sint (word_of_nat (msg_len data p) :: u32) = int (msg_len data p)"
      using len by (subst sint_u32_small) (simp_all add: unat_u32_of_nat)
    moreover obtain reader where
      "DoAnalyze (msg_bytes data p @ junk) (int (msg_len data p)) (m_packet_reader r) = Some (Inr (0, reader))"
      "delivers (p, data) (GetReadMainName reader, reader, msg_bytes data p @ junk)"
      using DoAnalyze_msg [of p data junk "m_packet_reader r"] x xp by auto
    ultimately have "ThreadLoop_turn os r m = Some (Inr (LoopContinue, r1\<lparr>m_packet_reader := reader\<rparr>, m',
        [(GetReadMainName reader, reader, msg_bytes data p @ junk)], cs))"
      using run(1) sc ml True r(2) by (simp add: ThreadLoop_turn_def ret_def r1_def)
    moreover have "receiver_ok a (r1\<lparr>m_packet_reader := reader\<rparr>)"
      using r1 by (simp add: receiver_ok_def)
    ultimately show ?thesis
      using r1 m' True \<open>delivers _ _\<close> xp by auto
  qed
qed

lemma ThreadLoop_turn_stuck:
  assumes r: "receiver_ok a r" and m: "shm_inv a m" and idle: "\<not> running os \<or> \<not> turn_admitted os \<or> take 4 (shm_contents a m) \<noteq> m_stx"
  shows "\<exists>ctl r' cs. ThreadLoop_turn os r m = Some (Inr (ctl, r', m, [], cs)) \<and> receiver_ok a r'
    \<and> has_callback_reader r' = has_callback_reader r"
proof (cases "running os")
  case False
  with r show ?thesis
    by (simp add: ThreadLoop_turn_def)
next
  case run: True
  have q: "mapped a (m_recv_queue r)" and buf: "8 \<le> length (m_packet_buffer r)"
    using r by (simp_all add: receiver_ok_def)
  let ?st = "(m_packet_buffer r, m_recv_queue r, m)" and ?os = "turn_sync os"
  have "\<exists>ret buf' q' cs. SyncConsumer (func_consumer (running_cb os)) INFINITE_ms (m_recv_sync r) ?os ?st
      = Inr (ret, (buf', q', m), cs) \<and> ret \<noteq> 0 \<and> mapped a q' \<and> 8 \<le> length buf'"
  proof (cases "admitted ?os")
    case False
    then show ?thesis
      using sync_access_no_entry [of ?os SemConsumer SemProducer "func_consumer (running_cb os)" INFINITE_ms "m_recv_sync r" ?st]
        q buf unfolding SyncConsumer_def admitted_def by fastforce
  next
    case True
    then have ws: "w_sem ?os = WAIT_OBJECT_0" "w_mutex ?os = WAIT_OBJECT_0"
      by (simp_all add: admitted_def)
    have "\<exists>buf' q'. func_consumer (running_cb os) ?st = Inr (False, buf', q', m) \<and> mapped a q' \<and> 8 \<le> length buf'"
    proof (cases "running_cb os")
      case False
      then show ?thesis using q buf by (simp add: func_consumer_def)
    next
      case True
      with idle run \<open>admitted ?os\<close> have "take 4 (shm_contents a m) \<noteq> m_stx"
        by (simp add: turn_admitted_def)
      from CallbackConsumer_garbage [OF q m buf this] True show ?thesis
        by (simp add: func_consumer_def)
    qed
    then obtain buf' q' where fc: "func_consumer (running_cb os) ?st = Inr (False, buf', q', m)" "mapped a q'" "8 \<le> length buf'"
      by blast
    show ?thesis
      unfolding SyncConsumer_def using sync_access_entry [OF ws, of "func_consumer (running_cb os)", OF fc(1)] fc(2,3)
      by simp
  qed
  then obtain ret buf' q' cs where sc: "SyncConsumer (func_consumer (running_cb os)) INFINITE_ms (m_recv_sync r) ?os ?st
      = Inr (ret, (buf', q', m), cs)" and "ret \<noteq> 0" "mapped a q'" "8 \<le> length buf'"
    by blast
  then show ?thesis
    using run by (cases "ret = 6") (simp_all add: ThreadLoop_turn_def receiver_ok_def Let_def)
qed

lemma ThreadLoop_turn_idle:
  assumes "receiver_ok a r" "shm_inv a m" "\<not> running os \<or> \<not> turn_admitted os \<or> shm_contents a m = []"
  shows "\<exists>ctl r' cs. ThreadLoop_turn os r m = Some (Inr (ctl, r', m, [], cs)) \<and> receiver_ok a r'
    \<and> has_callback_reader r' = has_callback_reader r"
  using assms(3) by (intro ThreadLoop_turn_stuck [OF assms(1,2)]) (auto simp: m_stx_def)

text \<open>Bytes that are not the start of a packet stay at the head of the queue, whatever the later turns.\<close>

lemma ThreadLoop_turns_stuck:
  assumes "receiver_ok a r" "shm_inv a m" "take 4 (shm_contents a m) \<noteq> m_stx"
  shows "\<exists>ctl r'. ThreadLoop_turns oss r m = Some (Inr (ctl, r', m, [])) \<and> receiver_ok a r'"
  using assms(1)
proof (induction oss arbitrary: r)
  case Nil
  then show ?case by simp
next
  case (Cons os oss)
  obtain ctl r' cs where t: "ThreadLoop_turn os r m = Some (Inr (ctl, r', m, [], cs))" "receiver_ok a r'"
    using ThreadLoop_turn_stuck [OF Cons.prems assms(2), of os] assms(3) by blast
  show ?case
    using Cons.IH [OF t(2)] t by (cases ctl) auto
qed

section \<open>Histories of the channel\<close>

text \<open>
  Every state a sender and a receiver reach from an empty queue. A sender sends well-formed messages
  that it can write, with any timeout; the waits of both sides return anything. A
  message counts as sent when \<open>SendPacket\<close> pushed it. The one outcome left out is a failure of the
  receiver's \<open>ReleaseSemaphore\<close> other than "too many posts".
\<close>

inductive channel_reach :: "nat \<Rightarrow> SendWorker \<Rightarrow> RecvWorker \<Rightarrow> shm \<Rightarrow> SendWorker \<Rightarrow> RecvWorker \<Rightarrow> shm
    \<Rightarrow> (PacketStruct \<times> u8 list) list \<Rightarrow> delivery list \<Rightarrow> bool"
  for a s0 r0 m0 where
  channel_start: "channel_reach a s0 r0 m0 s0 r0 m0 [] []"
| channel_send: "channel_reach a s0 r0 m0 s r m sent got \<Longrightarrow> receivable x \<Longrightarrow> writable s x \<Longrightarrow>
    SendPacket (fst x) ms os s m = Inr (ret, s', m', cs) \<Longrightarrow>
    channel_reach a s0 r0 m0 s' r m' (if pushed_ret ret then sent @ [x] else sent) got"
| channel_turn: "channel_reach a s0 r0 m0 s r m sent got \<Longrightarrow> slot_released (turn_sync os) \<Longrightarrow>
    ThreadLoop_turn os r m = Some (Inr (ctl, r', m', ds, cs)) \<Longrightarrow>
    channel_reach a s0 r0 m0 s r' m' sent (got @ ds)"

definition channel_inv :: "nat \<Rightarrow> SendWorker \<Rightarrow> RecvWorker \<Rightarrow> shm \<Rightarrow> (PacketStruct \<times> u8 list) list \<Rightarrow> delivery list \<Rightarrow> bool" where
  "channel_inv a s r m sent got \<longleftrightarrow> sender_ok a s \<and> receiver_ok a r \<and> has_callback_reader r \<and> shm_inv a m
     \<and> (\<forall>x \<in> set sent. receivable x)
     \<and> (\<exists>taken pending. sent = taken @ pending \<and> list_all2 delivers taken got \<and> shm_contents a m = wire pending)"

lemma channel_inv_send:
  assumes inv: "channel_inv a s r m sent got" and x: "receivable x" "writable s x"
    and send: "SendPacket (fst x) ms os s m = Inr (ret, s', m', cs)"
  shows "channel_inv a s' r m' (if pushed_ret ret then sent @ [x] else sent) got"
proof -
  obtain taken pending where tp: "sent = taken @ pending" "list_all2 delivers taken got" "shm_contents a m = wire pending"
    and ok: "sender_ok a s" "receiver_ok a r" "has_callback_reader r" "shm_inv a m" "\<forall>x \<in> set sent. receivable x"
    using inv by (auto simp: channel_inv_def)
  from SendPacket_cases [OF ok(1,4), of "fst x" "snd x" ms os] x send
  have "sender_ok a s'" "shm_inv a m'"
    "if pushed_ret ret then shm_contents a m' = wire (pending @ [x]) else m' = m"
    using tp(3) by (auto split: if_splits)
  then show ?thesis
    using ok tp x by (auto simp: channel_inv_def intro: exI [of _ taken])
qed

lemma channel_inv_turn:
  assumes inv: "channel_inv a s r m sent got" and rel: "slot_released (turn_sync os)"
  shows "\<exists>ctl r' m' ds cs. ThreadLoop_turn os r m = Some (Inr (ctl, r', m', ds, cs)) \<and> channel_inv a s r' m' sent (got @ ds)"
proof -
  obtain taken pending where tp: "sent = taken @ pending" "list_all2 delivers taken got" "shm_contents a m = wire pending"
    and ok: "sender_ok a s" "receiver_ok a r" "has_callback_reader r" "shm_inv a m" "\<forall>x \<in> set sent. receivable x"
    using inv by (auto simp: channel_inv_def)
  show ?thesis
  proof (cases "running os \<and> turn_admitted os \<and> pending \<noteq> []")
    case False
    then have "\<not> running os \<or> \<not> turn_admitted os \<or> shm_contents a m = []"
      using tp(3) by auto
    from ThreadLoop_turn_idle [OF ok(2,4) this] obtain ctl r' cs where
      turn: "ThreadLoop_turn os r m = Some (Inr (ctl, r', m, [], cs))" "receiver_ok a r'" "has_callback_reader r'"
      using ok(3) by auto
    have "channel_inv a s r' m sent (got @ [])"
      unfolding channel_inv_def append_Nil2 using ok tp turn by blast
    with turn(1) show ?thesis by blast
  next
    case True
    then obtain x ps where pend: "pending = x # ps"
      by (cases pending) auto
    then have x: "receivable x"
      using ok(5) tp(1) by simp
    from True have g: "running os" "turn_admitted os"
      by simp_all
    from ThreadLoop_turn_msg [OF ok(2,3,4) tp(3) [unfolded pend] x g] rel obtain r' m' d cs where
      turn: "ThreadLoop_turn os r m = Some (Inr (LoopContinue, r', m', [d], cs))" "receiver_ok a r'" "has_callback_reader r'"
      "shm_inv a m'" "shm_contents a m' = wire ps" "delivers x d"
      by auto
    have "list_all2 delivers (taken @ [x]) (got @ [d])"
      using tp(2) turn(6) by (simp add: list_all2_appendI)
    moreover have "sent = (taken @ [x]) @ ps"
      using tp(1) pend by simp
    ultimately have "channel_inv a s r' m' sent (got @ [d])"
      using ok turn unfolding channel_inv_def by blast
    then show ?thesis
      using turn(1) by blast
  qed
qed

lemma channel_reach_inv:
  assumes "channel_reach a s0 r0 m0 s r m sent got" and "sender_ok a s0" "receiver_ok a r0" "has_callback_reader r0"
    "shm_inv a m0" "shm_contents a m0 = []"
  shows "channel_inv a s r m sent got"
  using assms(1)
proof (induction rule: channel_reach.induct)
  case channel_start
  then show ?case using assms(2-6) by (simp add: channel_inv_def)
next
  case (channel_send s r m sent got x ms os ret s' m' cs)
  then show ?case by (intro channel_inv_send)
next
  case (channel_turn s r m sent got os ctl r' m' ds cs)
  then show ?case using channel_inv_turn [of a s r m sent got os] by auto
qed

text \<open>Enough admitted turns deliver everything that is in the queue.\<close>

definition good_turn :: "turn_os \<Rightarrow> bool" where
  "good_turn os \<longleftrightarrow> running os \<and> turn_admitted os \<and> slot_released (turn_sync os)"

lemma ThreadLoop_turns_deliver:
  assumes "receiver_ok a r" "has_callback_reader r" "shm_inv a m" "shm_contents a m = wire ps" "\<forall>x \<in> set ps. receivable x"
    and "list_all good_turn oss" "length oss = length ps"
  shows "\<exists>r' m' ds. ThreadLoop_turns oss r m = Some (Inr (LoopContinue, r', m', ds)) \<and> list_all2 delivers ps ds
    \<and> shm_contents a m' = []"
  using assms
proof (induction ps arbitrary: oss r m)
  case Nil
  then show ?case by simp
next
  case (Cons x ps)
  then obtain os oss' where oss: "oss = os # oss'" "good_turn os" "list_all good_turn oss'" "length oss' = length ps"
    by (cases oss) auto
  have g: "running os" "turn_admitted os" "slot_released (turn_sync os)"
    using oss(2) by (simp_all add: good_turn_def)
  have x: "receivable x"
    using Cons.prems by simp
  from ThreadLoop_turn_msg [OF Cons.prems(1-4) x g(1,2)] g(3) obtain r' m' d cs where
    turn: "ThreadLoop_turn os r m = Some (Inr (LoopContinue, r', m', [d], cs))" "receiver_ok a r'" "has_callback_reader r'"
    "shm_inv a m'" "shm_contents a m' = wire ps" "delivers x d"
    by auto
  from Cons.IH [OF turn(2-5) _ oss(3,4)] Cons.prems obtain r'' m'' ds where
    "ThreadLoop_turns oss' r' m' = Some (Inr (LoopContinue, r'', m'', ds))" "list_all2 delivers ps ds" "shm_contents a m'' = []"
    by auto
  with turn show ?case
    by (auto simp: oss(1))
qed

end
