(* ===== verification/Queue_Local.thy ===== *)
theory Queue_Local
  imports Queue_Ring
begin

text \<open>
  \<open>QueueLocalMemory\<close> of \<open>include/common/QueueLocalMemory.cpp\<close>: a byte queue in memory of the process.
  A null \<open>m_queue_buffer\<close> is \<open>None\<close>; \<open>junk\<close> is what \<open>new uint8_t[n]\<close> leaves in the new memory.
\<close>

section \<open>Code\<close>

datatype LocalFailedCode =
    CREATE_MAMORY | L_DID_NOT_INITIALIZE | L_NOT_ENOUGH_FREE_SPACE | L_READ_BUFFER_SIZE_IS_BIG
  | L_POP_DATA_EMPTY | L_RANGE_IS_NOT_RIGHT

fun LocalFailedCode_int :: "LocalFailedCode \<Rightarrow> int" where
  "LocalFailedCode_int CREATE_MAMORY = 1"
| "LocalFailedCode_int L_DID_NOT_INITIALIZE = 2"
| "LocalFailedCode_int L_NOT_ENOUGH_FREE_SPACE = 3"
| "LocalFailedCode_int L_READ_BUFFER_SIZE_IS_BIG = 4"
| "LocalFailedCode_int L_POP_DATA_EMPTY = 5"
| "LocalFailedCode_int L_RANGE_IS_NOT_RIGHT = 6"

record QueueLocal =
  ql_name :: string
  ql_info :: QueueInfo
  ql_buffer :: "u8 list option"
  ql_pop_data_len :: u32

definition QueueLocal_new :: QueueLocal where
  "QueueLocal_new = \<lparr>ql_name = [], ql_info = QueueInfo_new, ql_buffer = None, ql_pop_data_len = 0\<rparr>"

definition CreateLocalMemory :: "(nat \<Rightarrow> u8) \<Rightarrow> int \<Rightarrow> QueueLocal \<Rightarrow> (bool \<times> QueueLocal) cpp" where
  "CreateLocalMemory junk len q =
     (if len = 0 then Inr (False, q)
      else if len < 0 then Inl StdBadAlloc
      else Inr (True, q\<lparr>ql_buffer := Some (map junk [0..<nat len])\<rparr>))"

definition QL_Finalize :: "QueueLocal \<Rightarrow> QueueLocal" where
  "QL_Finalize q = (case ql_buffer q of None \<Rightarrow> q | Some _ \<Rightarrow> q\<lparr>ql_buffer := None\<rparr>)"

definition QL_Initialize :: "(nat \<Rightarrow> u8) \<Rightarrow> string \<Rightarrow> u32 \<Rightarrow> QueueLocal \<Rightarrow> (int \<times> QueueLocal) cpp" where
  "QL_Initialize junk name len q =
     (let q1 = (QL_Finalize q)\<lparr>ql_name := name\<rparr> in
      cbind (CreateLocalMemory junk (sint len) q1) (\<lambda>(created, q2).
        if \<not> created then Inr (LocalFailedCode_int CREATE_MAMORY, q2)
        else Inr (0, q2\<lparr>ql_info := (ql_info q2)\<lparr>queue_size := len\<rparr>\<rparr>)))"

definition QL_GetName :: "QueueLocal \<Rightarrow> string" where
  "QL_GetName q = ql_name q"

definition QL_GetUseSize :: "QueueLocal \<Rightarrow> u32" where
  "QL_GetUseSize q = (if ql_buffer q = None then 0 else use_size (ql_info q))"

definition QL_GetQueueSize :: "QueueLocal \<Rightarrow> u32" where
  "QL_GetQueueSize q = (if ql_buffer q = None then 0 else queue_size (ql_info q))"

definition QL_GetFreeSize :: "QueueLocal \<Rightarrow> u32" where
  "QL_GetFreeSize q = (if ql_buffer q = None then 0 else (queue_size (ql_info q) - 1) - use_size (ql_info q))"

definition QL_Clear :: "QueueLocal \<Rightarrow> (int \<times> QueueLocal) cpp" where
  "QL_Clear q = (case ql_buffer q of None \<Rightarrow> Inr (LocalFailedCode_int L_DID_NOT_INITIALIZE, q)
     | Some buf \<Rightarrow>
        cbind (wr buf 0 (replicate (unat (QL_GetQueueSize q)) 0)) (\<lambda>buf'.
          Inr (0, q\<lparr>ql_buffer := Some buf', ql_info := (ql_info q)\<lparr>head := 0, tail := 0, use_size := 0\<rparr>\<rparr>)))"

definition QL_Push :: "u8 list \<Rightarrow> u32 \<Rightarrow> QueueLocal \<Rightarrow> (int \<times> QueueLocal) cpp" where
  "QL_Push buffer buffer_len q = (case ql_buffer q of None \<Rightarrow> Inr (LocalFailedCode_int L_DID_NOT_INITIALIZE, q)
     | Some buf \<Rightarrow>
        if buffer_len > QL_GetFreeSize q then Inr (LocalFailedCode_int L_NOT_ENOUGH_FREE_SPACE, q)
        else cbind (ring_push (ql_info q) buf buffer buffer_len) (\<lambda>(info', buf').
          Inr (0, q\<lparr>ql_info := info', ql_buffer := Some buf'\<rparr>)))"

definition QL_Front :: "u8 list \<Rightarrow> u32 \<Rightarrow> QueueLocal \<Rightarrow> (int \<times> u8 list \<times> QueueLocal) cpp" where
  "QL_Front buffer buffer_len q = (case ql_buffer q of
       None \<Rightarrow> Inr (LocalFailedCode_int L_DID_NOT_INITIALIZE, buffer, q)
     | Some buf \<Rightarrow>
        if use_size (ql_info q) < buffer_len then Inr (LocalFailedCode_int L_READ_BUFFER_SIZE_IS_BIG, buffer, q)
        else cbind (ring_front (ql_info q) buf buffer buffer_len) (\<lambda>buffer'.
          Inr (0, buffer', q\<lparr>ql_pop_data_len := buffer_len\<rparr>)))"

text \<open>\<open>Pop\<close> does not look at the buffer pointer.\<close>

definition QL_Pop :: "QueueLocal \<Rightarrow> (int \<times> QueueLocal) cpp" where
  "QL_Pop q =
     (if ql_pop_data_len q = 0 then Inr (LocalFailedCode_int L_POP_DATA_EMPTY, q)
      else Inr (0, q\<lparr>ql_info := ring_pop (QL_GetQueueSize q) (ql_info q) (ql_pop_data_len q), ql_pop_data_len := 0\<rparr>))"

definition QL_SetData :: "u32 \<Rightarrow> u8 list \<Rightarrow> u32 \<Rightarrow> QueueLocal \<Rightarrow> (int \<times> QueueLocal) cpp" where
  "QL_SetData pos buffer buffer_len q = (case ql_buffer q of
       None \<Rightarrow> Inr (LocalFailedCode_int L_DID_NOT_INITIALIZE, q)
     | Some buf \<Rightarrow>
        if pos < 0 \<or> pos + buffer_len \<ge> QL_GetQueueSize q then Inr (LocalFailedCode_int L_RANGE_IS_NOT_RIGHT, q)
        else cbind (rd_n buffer 0 (unat buffer_len)) (\<lambda>d.
             cbind (wr buf (unat pos) d) (\<lambda>buf'. Inr (0, q\<lparr>ql_buffer := Some buf'\<rparr>))))"

definition QL_GetData :: "u32 \<Rightarrow> u8 list \<Rightarrow> u32 \<Rightarrow> QueueLocal \<Rightarrow> (int \<times> u8 list) cpp" where
  "QL_GetData pos buffer buffer_len q = (case ql_buffer q of
       None \<Rightarrow> Inr (LocalFailedCode_int L_DID_NOT_INITIALIZE, buffer)
     | Some buf \<Rightarrow>
        if pos < 0 \<or> pos \<ge> QL_GetQueueSize q then Inr (LocalFailedCode_int L_RANGE_IS_NOT_RIGHT, buffer)
        else if QL_GetQueueSize q - pos < buffer_len then Inr (LocalFailedCode_int L_RANGE_IS_NOT_RIGHT, buffer)
        else cbind (rd_n buf (int (unat pos)) (unat buffer_len)) (\<lambda>d.
             cbind (wr buffer 0 d) (\<lambda>buffer'. Inr (0, buffer'))))"

section \<open>Invariant and contents\<close>

definition ql_inv :: "QueueLocal \<Rightarrow> bool" where
  "ql_inv q \<longleftrightarrow> (case ql_buffer q of None \<Rightarrow> False | Some buf \<Rightarrow> ring_inv (ql_info q) buf)"

definition ql_contents :: "QueueLocal \<Rightarrow> u8 list" where
  "ql_contents q = (case ql_buffer q of None \<Rightarrow> [] | Some buf \<Rightarrow> ring_contents (ql_info q) buf)"

definition ql_capacity :: "QueueLocal \<Rightarrow> nat" where
  "ql_capacity q = unat (queue_size (ql_info q)) - 1"

definition ql_push :: "u8 list \<Rightarrow> QueueLocal \<Rightarrow> (int \<times> QueueLocal) cpp" where
  "ql_push d q = QL_Push d (word_of_nat (length d)) q"

definition ql_front :: "nat \<Rightarrow> QueueLocal \<Rightarrow> (int \<times> u8 list \<times> QueueLocal) cpp" where
  "ql_front n q = QL_Front (replicate n 0) (word_of_nat n) q"

lemma ql_inv_Some: "ql_inv q \<longleftrightarrow> (\<exists>buf. ql_buffer q = Some buf \<and> ring_inv (ql_info q) buf)"
  by (auto simp: ql_inv_def split: option.splits)

lemma length_ql_contents: "ql_inv q \<Longrightarrow> length (ql_contents q) = unat (use_size (ql_info q))"
  by (auto simp: ql_inv_Some ql_contents_def length_ring_contents)

lemma ql_free: "ql_inv q \<Longrightarrow> unat (QL_GetFreeSize q) = ql_capacity q - length (ql_contents q)"
  by (auto simp: ql_inv_Some QL_GetFreeSize_def ql_capacity_def ql_contents_def length_ring_contents ring_free)

lemma QL_Initialize_fresh:
  assumes "0 < unat len" and "unat len < 2 ^ 31" and "ql_info q = QueueInfo_new"
  shows "\<exists>q'. QL_Initialize junk name len q = Inr (0, q') \<and> ql_inv q' \<and> ql_contents q' = []
    \<and> ql_capacity q' = unat len - 1 \<and> ql_name q' = name"
  using assms
  by (simp add: QL_Initialize_def CreateLocalMemory_def ql_inv_def ring_inv_def sint_u32_small uint_0_iff unat_gt_0
      QueueInfo_new_def ql_contents_def ring_contents_def ql_capacity_def Let_def QL_Finalize_def split: option.splits)

lemma QL_Push_ok:
  assumes "ql_inv q" and "length (ql_contents q) + unat len \<le> ql_capacity q" and "unat len \<le> length data"
  shows "\<exists>q'. QL_Push data len q = Inr (0, q') \<and> ql_inv q' \<and> ql_contents q' = ql_contents q @ take (unat len) data
    \<and> ql_capacity q' = ql_capacity q"
proof -
  obtain buf where buf: "ql_buffer q = Some buf" and inv: "ring_inv (ql_info q) buf"
    using assms(1) by (auto simp: ql_inv_Some)
  have "\<not> len > QL_GetFreeSize q"
    using assms(2) ql_free [OF assms(1)] by (simp add: word_less_nat_alt not_less)
  moreover have "unat (use_size (ql_info q)) + unat len < length buf"
    using assms(2) length_ql_contents [OF assms(1)] inv by (auto simp: ql_capacity_def ring_inv_def)
  then obtain info' buf' where "ring_push (ql_info q) buf data len = Inr (info', buf')" "ring_inv info' buf'"
    "ring_contents info' buf' = ring_contents (ql_info q) buf @ take (unat len) data"
    "queue_size info' = queue_size (ql_info q)"
    using ring_push_ok [OF inv _ assms(3)] by blast
  ultimately show ?thesis
    using buf by (auto simp: QL_Push_def ql_inv_def ql_contents_def ql_capacity_def)
qed

lemma QL_Push_full:
  assumes "ql_inv q" and "ql_capacity q < length (ql_contents q) + unat len"
  shows "QL_Push data len q = Inr (LocalFailedCode_int L_NOT_ENOUGH_FREE_SPACE, q)"
proof -
  have "length (ql_contents q) \<le> ql_capacity q"
    using assms(1) length_ql_contents [OF assms(1)] by (auto simp: ql_inv_Some ring_inv_def ql_capacity_def)
  then have "len > QL_GetFreeSize q"
    using assms(2) ql_free [OF assms(1)] by (simp add: word_less_nat_alt)
  then show ?thesis
    using assms(1) by (auto simp: QL_Push_def ql_inv_Some)
qed

lemma QL_Front_ok:
  assumes "ql_inv q" and "unat len \<le> length (ql_contents q)" and "unat len \<le> length dst"
  shows "QL_Front dst len q =
    Inr (0, take (unat len) (ql_contents q) @ drop (unat len) dst, q\<lparr>ql_pop_data_len := len\<rparr>)"
proof -
  obtain buf where buf: "ql_buffer q = Some buf" and inv: "ring_inv (ql_info q) buf"
    using assms(1) by (auto simp: ql_inv_Some)
  have le: "unat len \<le> unat (use_size (ql_info q))"
    using assms(2) length_ql_contents [OF assms(1)] by simp
  with ring_front_ok [OF inv le assms(3)] buf show ?thesis
    by (simp add: QL_Front_def ql_contents_def word_less_nat_alt)
qed

lemma QL_Front_short:
  assumes "ql_inv q" and "length (ql_contents q) < unat len"
  shows "QL_Front dst len q = Inr (LocalFailedCode_int L_READ_BUFFER_SIZE_IS_BIG, dst, q)"
  using assms(2) length_ql_contents [OF assms(1)] assms(1)
  by (auto simp: QL_Front_def ql_inv_Some word_less_nat_alt)

lemma QL_Pop_ok:
  assumes "ql_inv q" and "0 < ql_pop_data_len q" and "unat (ql_pop_data_len q) \<le> length (ql_contents q)"
  shows "\<exists>q'. QL_Pop q = Inr (0, q') \<and> ql_inv q' \<and> ql_contents q' = drop (unat (ql_pop_data_len q)) (ql_contents q)
    \<and> ql_capacity q' = ql_capacity q \<and> ql_pop_data_len q' = 0"
proof -
  obtain buf where buf: "ql_buffer q = Some buf" and inv: "ring_inv (ql_info q) buf"
    using assms(1) by (auto simp: ql_inv_Some)
  have le: "unat (ql_pop_data_len q) \<le> unat (use_size (ql_info q))"
    using assms(3) length_ql_contents [OF assms(1)] by simp
  have "QL_GetQueueSize q = queue_size (ql_info q)"
    using buf by (simp add: QL_GetQueueSize_def)
  then show ?thesis
    using assms(2) buf ring_pop_ok [OF inv le] by (auto simp: QL_Pop_def ql_inv_def ql_contents_def ql_capacity_def)
qed

lemma QL_Clear_ok:
  assumes "ql_inv q"
  shows "\<exists>q'. QL_Clear q = Inr (0, q') \<and> ql_inv q' \<and> ql_contents q' = [] \<and> ql_capacity q' = ql_capacity q"
proof -
  obtain buf where buf: "ql_buffer q = Some buf" and inv: "ring_inv (ql_info q) buf"
    using assms(1) by (auto simp: ql_inv_Some)
  then show ?thesis
    by (auto simp: QL_Clear_def QL_GetQueueSize_def wr_def ql_inv_def ring_inv_def ql_contents_def
        ring_contents_def ql_capacity_def)
qed

text \<open>A null buffer is an error of every operation but \<open>Pop\<close>.\<close>

lemma QL_null:
  assumes "ql_buffer q = None"
  shows "QL_Push data len q = Inr (2, q)" and "QL_Front dst len q = Inr (2, dst, q)" and "QL_Clear q = Inr (2, q)"
    and "QL_SetData pos data len q = Inr (2, q)" and "QL_GetData pos dst len q = Inr (2, dst)"
    and "QL_GetUseSize q = 0" and "QL_GetQueueSize q = 0" and "QL_GetFreeSize q = 0"
  using assms by (simp_all add: QL_Push_def QL_Front_def QL_Clear_def QL_SetData_def QL_GetData_def
      QL_GetUseSize_def QL_GetQueueSize_def QL_GetFreeSize_def)

interpretation local_queue: byte_queue ql_inv ql_contents ql_capacity ql_push ql_front QL_Pop
proof
  fix q and d :: "u8 list"
  assume q: "ql_inv q" and fits: "length (ql_contents q) + length d \<le> ql_capacity q"
  have "length d < 2 ^ 32"
    using fits unat_u32_lt [of "queue_size (ql_info q)"] by (simp add: ql_capacity_def)
  then have u: "unat (word_of_nat (length d) :: u32) = length d"
    by (intro unat_u32_of_nat) simp
  then show "\<exists>q'. ql_push d q = Inr (0, q') \<and> ql_inv q' \<and> ql_contents q' = ql_contents q @ d \<and> ql_capacity q' = ql_capacity q"
    using QL_Push_ok [OF q, of "word_of_nat (length d)" d] fits by (simp add: ql_push_def)
next
  fix q and d :: "u8 list"
  assume q: "ql_inv q" and full: "ql_capacity q < length (ql_contents q) + length d" and d: "length d < 2 ^ 32"
  have u: "unat (word_of_nat (length d) :: u32) = length d"
    using d by (intro unat_u32_of_nat) simp
  then show "\<exists>c. ql_push d q = Inr (c, q) \<and> c \<noteq> 0"
    using QL_Push_full [OF q, of "word_of_nat (length d)"] full by (simp add: ql_push_def)
next
  fix q and n :: nat
  assume q: "ql_inv q" and n: "0 < n" "n \<le> length (ql_contents q)"
  have lt: "n < 2 ^ 32"
    using n(2) length_ql_contents [OF q] unat_u32_lt [of "use_size (ql_info q)"] by simp
  then have u: "unat (word_of_nat n :: u32) = n"
    by (intro unat_u32_of_nat) simp
  let ?q = "q\<lparr>ql_pop_data_len := word_of_nat n\<rparr>"
  have inv: "ql_inv ?q" and c: "ql_contents ?q = ql_contents q" and cap: "ql_capacity ?q = ql_capacity q"
    using q by (simp_all add: ql_inv_def ql_contents_def ql_capacity_def split: option.splits)
  have pos: "0 < ql_pop_data_len ?q" "unat (ql_pop_data_len ?q) \<le> length (ql_contents ?q)"
    using u n c by (simp_all add: word_less_nat_alt)
  show "\<exists>q' q''. ql_front n q = Inr (0, take n (ql_contents q), q') \<and> ql_inv q' \<and> ql_contents q' = ql_contents q
      \<and> ql_capacity q' = ql_capacity q \<and> QL_Pop q' = Inr (0, q'') \<and> ql_inv q''
      \<and> ql_contents q'' = drop n (ql_contents q) \<and> ql_capacity q'' = ql_capacity q"
    using QL_Front_ok [OF q, of "word_of_nat n" "replicate n 0"] QL_Pop_ok [OF inv pos] inv c cap u n
    by (auto simp: ql_front_def)
next
  fix q and n :: nat
  assume q: "ql_inv q" and n: "length (ql_contents q) < n" "n < 2 ^ 32"
  have "unat (word_of_nat n :: u32) = n"
    using n(2) by (intro unat_u32_of_nat) simp
  then show "\<exists>c bs. ql_front n q = Inr (c, bs, q) \<and> c \<noteq> 0"
    using QL_Front_short [OF q, of "word_of_nat n"] n by (simp add: ql_front_def)
qed

section \<open>Random access\<close>

lemma QL_SetData_cases:
  assumes "ql_inv q" and "unat len \<le> length data"
  shows "if unat (pos + len) \<ge> unat (queue_size (ql_info q)) then QL_SetData pos data len q = Inr (6, q)
    else if unat pos + unat len < 2 ^ 32
      then (\<exists>buf. ql_buffer q = Some buf \<and> QL_SetData pos data len q = Inr (0, q\<lparr>ql_buffer :=
              Some (take (unat pos) buf @ take (unat len) data @ drop (unat pos + unat len) buf)\<rparr>))
      else QL_SetData pos data len q = Inl OutOfBounds"
proof -
  obtain buf where buf: "ql_buffer q = Some buf" and inv: "ring_inv (ql_info q) buf"
    using assms(1) by (auto simp: ql_inv_Some)
  have n: "length buf = unat (queue_size (ql_info q))" "length buf < 2 ^ 32"
    using inv ring_inv_words(3) [OF inv] by (simp_all add: ring_inv_def)
  have rd: "rd_n data 0 (unat len) = Inr (take (unat len) data)"
    using rd_n_nat [of 0 "unat len" data] assms(2) by simp
  have l: "length (take (unat len) data) = unat len"
    using assms(2) by simp
  have eq: "QL_SetData pos data len q = (if unat (pos + len) \<ge> unat (queue_size (ql_info q)) then Inr (6, q)
      else cbind (wr buf (unat pos) (take (unat len) data)) (\<lambda>buf'. Inr (0, q\<lparr>ql_buffer := Some buf'\<rparr>)))"
    using buf rd by (simp add: QL_SetData_def QL_GetQueueSize_def word_le_nat_alt)
  have "wr buf (unat pos) (take (unat len) data) = (if unat pos + unat len \<le> length buf
      then Inr (take (unat pos) buf @ take (unat len) data @ drop (unat pos + unat len) buf) else Inl OutOfBounds)"
    by (simp only: wr_def l)
  moreover have "unat pos + unat len < 2 ^ 32 \<Longrightarrow> unat (pos + len) = unat pos + unat len"
    by (rule unat_add_no_wrap)
  ultimately show ?thesis
    using n buf by (auto simp: eq)
qed

lemma QL_GetData_cases:
  assumes "ql_inv q" and "unat len \<le> length dst" and "ql_buffer q = Some buf"
  shows "QL_GetData pos dst len q = (if unat pos < length buf \<and> unat pos + unat len \<le> length buf
     then Inr (0, take (unat len) (drop (unat pos) buf) @ drop (unat len) dst) else Inr (6, dst))"
proof -
  have inv: "ring_inv (ql_info q) buf"
    using assms(1,3) by (auto simp: ql_inv_Some)
  have n: "length buf = unat (queue_size (ql_info q))"
    using inv by (simp add: ring_inv_def)
  show ?thesis
  proof (cases "unat pos < length buf")
    case False
    then show ?thesis
      using assms(3) n by (simp add: QL_GetData_def QL_GetQueueSize_def word_le_nat_alt)
  next
    case True
    then have d: "unat (queue_size (ql_info q) - pos) = length buf - unat pos"
      using n by (simp add: unat_diff_le word_le_nat_alt)
    show ?thesis
    proof (cases "unat pos + unat len \<le> length buf")
      case False
      then have "queue_size (ql_info q) - pos < len"
        using d True by (simp add: word_less_nat_alt)
      then show ?thesis
        using False True assms(3) n by (simp add: QL_GetData_def QL_GetQueueSize_def word_le_nat_alt)
    next
      case fits: True
      then have ge: "\<not> queue_size (ql_info q) - pos < len"
        using d True by (simp add: word_less_nat_alt)
      have "length (take (unat len) (drop (unat pos) buf)) = unat len"
        using fits by simp
      then have "wr dst 0 (take (unat len) (drop (unat pos) buf)) = Inr (take (unat len) (drop (unat pos) buf) @ drop (unat len) dst)"
        using assms(2) wr_len [of _ "unat len" 0 dst] by simp
      then show ?thesis
        using fits True ge rd_n_nat [OF fits] assms(3) n
        by (simp add: QL_GetData_def QL_GetQueueSize_def word_le_nat_alt not_le del: of_nat_unat)
    qed
  qed
qed

section \<open>Reinitialisation\<close>

text \<open>
  \<open>Initialize\<close> replaces the buffer and \<open>queue_size\<close> and leaves the positions and \<open>use_size\<close> of the queue
  it replaces.
\<close>

lemma QL_Initialize_keeps:
  assumes "0 < unat len" and "unat len < 2 ^ 31"
  shows "\<exists>q'. QL_Initialize junk name len q = Inr (0, q')
    \<and> ql_info q' = (ql_info q)\<lparr>queue_size := len\<rparr> \<and> ql_buffer q' = Some (map junk [0..<unat len])"
  using assms by (simp add: QL_Initialize_def CreateLocalMemory_def sint_u32_small uint_0_iff unat_gt_0 Let_def QL_Finalize_def
      split: option.splits)

end
