(* ===== verification/Cmd_Line.thy ===== *)
theory Cmd_Line
  imports Std_Convert
begin

text \<open>
  \<open>CmdLineParser\<close> of \<open>include/common/CmdLineParser.cpp\<close>: arguments of the form \<open>-KEY:value\<close> or \<open>/KEY:value\<close>
  are kept in a map from upper-case keys to values.
\<close>

section \<open>Code\<close>

record CmdLineParser =
  m_mapItem :: "string \<rightharpoonup> string"

definition CmdLineParser_new :: CmdLineParser where
  "CmdLineParser_new = \<lparr>m_mapItem = Map.empty\<rparr>"

definition FindItem :: "string \<Rightarrow> string \<Rightarrow> CmdLineParser \<Rightarrow> bool \<times> string" where
  "FindItem key val c = (case m_mapItem c key of None \<Rightarrow> (False, val) | Some v \<Rightarrow> (True, v))"

text \<open>\<open>find(':')\<close>, \<open>None\<close> for \<open>npos\<close>.\<close>

fun char_find :: "char \<Rightarrow> string \<Rightarrow> nat option" where
  "char_find ch [] = None"
| "char_find ch (c # cs) = (if c = ch then Some 0 else map_option Suc (char_find ch cs))"

definition ParamDivision :: "string \<Rightarrow> string \<Rightarrow> string \<Rightarrow> bool \<times> string \<times> string" where
  "ParamDivision param key val = (case char_find (CHR '':'') param of
       None \<Rightarrow> (True, param, val)
     | Some pos \<Rightarrow> (True, take pos param, take (length param - (pos + 1)) (drop (pos + 1) param)))"

text \<open>\<open>toupper\<close> in the C locale.\<close>

definition to_upper :: "char \<Rightarrow> char" where
  "to_upper c = (let n = (of_char c :: nat) in if 97 \<le> n \<and> n \<le> 122 then char_of (n - 32) else c)"

text \<open>The body of the loop, for one argument.\<close>

definition parse_param :: "string \<Rightarrow> CmdLineParser \<Rightarrow> CmdLineParser" where
  "parse_param arg c =
     (let pszParam = (case arg of [] \<Rightarrow> [] | ch # rest \<Rightarrow> if ch = CHR ''-'' \<or> ch = CHR ''/'' then rest else arg);
          (ok, key, data) = ParamDivision pszParam [] []
      in if ok then c\<lparr>m_mapItem := (m_mapItem c)(map to_upper key \<mapsto> data)\<rparr> else c)"

primrec parse_params :: "string list \<Rightarrow> CmdLineParser \<Rightarrow> CmdLineParser" where
  "parse_params [] c = c"
| "parse_params (arg # args) c = parse_params args (parse_param arg c)"

definition ParseCommandLine :: "int \<Rightarrow> string list option \<Rightarrow> CmdLineParser \<Rightarrow> CmdLineParser cpp" where
  "ParseCommandLine argc argv c = (case argv of None \<Rightarrow> Inr c
     | Some args \<Rightarrow> if 1 < argc \<and> int (length args) < argc then Inl OutOfBounds
                    else Inr (parse_params (drop 1 (take (nat argc) args)) c))"

definition HasKey :: "string \<Rightarrow> CmdLineParser \<Rightarrow> bool" where
  "HasKey key c = (let (found, v) = FindItem key [] c in if found = False then False else True)"

definition ReadCmdLineValue_conv :: "(string \<Rightarrow> 'a cpp) \<Rightarrow> string \<Rightarrow> 'a \<Rightarrow> CmdLineParser \<Rightarrow> (bool \<times> 'a) cpp" where
  "ReadCmdLineValue_conv conv key val c =
     (let (found, str_value) = FindItem key [] c in
      if found = False then Inr (False, val) else cbind (conv str_value) (\<lambda>v. Inr (True, v)))"

definition ReadCmdLineValue_int :: "string \<Rightarrow> int \<Rightarrow> CmdLineParser \<Rightarrow> (bool \<times> int) cpp" where
  "ReadCmdLineValue_int = ReadCmdLineValue_conv stoi"

definition ReadCmdLineValue_double :: "(string \<Rightarrow> 'f cpp) \<Rightarrow> string \<Rightarrow> 'f \<Rightarrow> CmdLineParser \<Rightarrow> (bool \<times> 'f) cpp" where
  "ReadCmdLineValue_double stod = ReadCmdLineValue_conv stod"

definition ReadCmdLineValue_float :: "(string \<Rightarrow> 'f cpp) \<Rightarrow> string \<Rightarrow> 'f \<Rightarrow> CmdLineParser \<Rightarrow> (bool \<times> 'f) cpp" where
  "ReadCmdLineValue_float stof = ReadCmdLineValue_conv stof"

definition ReadCmdLineValue_string :: "string \<Rightarrow> string \<Rightarrow> CmdLineParser \<Rightarrow> bool \<times> string" where
  "ReadCmdLineValue_string key val c =
     (let (found, v) = FindItem key val c in if found = False then (False, v) else (True, v))"

section \<open>Properties\<close>

text \<open>An argument as a user writes it.\<close>

definition cmd_arg :: "char \<Rightarrow> string \<Rightarrow> string \<Rightarrow> string" where
  "cmd_arg flag key val = flag # key @ CHR '':'' # val"

lemma char_find_append: "ch \<notin> set xs \<Longrightarrow> char_find ch (xs @ ch # ys) = Some (length xs)"
  by (induction xs) auto

lemma parse_cmd_arg:
  assumes "flag = CHR ''-'' \<or> flag = CHR ''/''" and "CHR '':'' \<notin> set key"
  shows "parse_param (cmd_arg flag key val) c = c\<lparr>m_mapItem := (m_mapItem c)(map to_upper key \<mapsto> val)\<rparr>"
  using assms by (auto simp: parse_param_def cmd_arg_def ParamDivision_def char_find_append)

lemma parse_params_append: "parse_params (xs @ ys) c = parse_params ys (parse_params xs c)"
  by (induction xs arbitrary: c) auto

text \<open>The map after any arguments: the last argument for a key decides.\<close>

lemma parse_cmd_args:
  assumes "\<forall>(key, val) \<in> set kvs. CHR '':'' \<notin> set key"
  shows "m_mapItem (parse_params (map (\<lambda>(key, val). cmd_arg (CHR ''-'') key val) kvs) c) =
    m_mapItem c ++ map_of (rev (map (\<lambda>(key, val). (map to_upper key, val)) kvs))"
  using assms
proof (induction kvs arbitrary: c)
  case Nil
  then show ?case by simp
next
  case (Cons kv kvs)
  then show ?case
    by (cases kv) (auto simp: parse_cmd_arg fun_eq_iff map_add_def split: option.splits)
qed

lemma to_upper_idem: "to_upper (to_upper c) = to_upper c"
proof (cases "97 \<le> (of_char c :: nat) \<and> (of_char c :: nat) \<le> 122")
  case True
  then have "(of_char c - 32 :: nat) < 256"
    by linarith
  then have "(of_char (char_of (of_char c - 32 :: nat)) :: nat) = of_char c - 32"
    by simp
  with True show ?thesis
    by (auto simp: to_upper_def Let_def)
next
  case False
  then show ?thesis by (auto simp: to_upper_def Let_def)
qed

text \<open>Keys are stored in upper case, so a key with a lower-case letter is never found.\<close>

lemma parse_params_upper:
  assumes "\<forall>k \<in> dom (m_mapItem c). map to_upper k = k"
  shows "\<forall>k \<in> dom (m_mapItem (parse_params args c)). map to_upper k = k"
  using assms
proof (induction args arbitrary: c)
  case Nil
  then show ?case by simp
next
  case (Cons arg args)
  have "\<forall>k \<in> dom (m_mapItem (parse_param arg c)). map to_upper k = k"
    using Cons.prems by (auto simp: parse_param_def ParamDivision_def to_upper_idem o_def Let_def split: option.splits if_splits)
  from Cons.IH [OF this] show ?case by simp
qed

end
