(* ===== verification/Decoder_Types.thy ===== *)
theory Decoder_Types
  imports Packet_Messages
begin

text \<open>The enumerations and structures of \<open>src/decoder/DecoderDefine.h\<close>.\<close>

datatype VCODEC_ID = VCODEC_ID_NONE | VCODEC_ID_H264

fun VCODEC_ID_int :: "VCODEC_ID \<Rightarrow> int" where
  "VCODEC_ID_int VCODEC_ID_NONE = 0"
| "VCODEC_ID_int VCODEC_ID_H264 = 1"

datatype VIDEO_PIXEL_FORMAT = VPIX_FMT_NONE | VPIX_FMT_YUY2 | VPIX_FMT_YV12 | VPIX_FMT_BGR24 | VPIX_FMT_RGB24

fun VPIX_int :: "VIDEO_PIXEL_FORMAT \<Rightarrow> int" where
  "VPIX_int VPIX_FMT_NONE = 0"
| "VPIX_int VPIX_FMT_YUY2 = 1"
| "VPIX_int VPIX_FMT_YV12 = 2"
| "VPIX_int VPIX_FMT_BGR24 = 3"
| "VPIX_int VPIX_FMT_RGB24 = 4"

datatype DECODE_RESULT =
    DECODE_SUCCESS | DECODE_FAILED | DECODE_NEED_MORE_FRAME | DECODE_CONVERT_INIT_FAILED | DECODE_CONVERT_FAILED

fun DECODE_RESULT_int :: "DECODE_RESULT \<Rightarrow> int" where
  "DECODE_RESULT_int DECODE_SUCCESS = 0"
| "DECODE_RESULT_int DECODE_FAILED = 1"
| "DECODE_RESULT_int DECODE_NEED_MORE_FRAME = 2"
| "DECODE_RESULT_int DECODE_CONVERT_INIT_FAILED = 3"
| "DECODE_RESULT_int DECODE_CONVERT_FAILED = 4"

definition DECODE_FPS_AUTO :: int where "DECODE_FPS_AUTO = 0"
definition DECODE_DEFAULT_FPS :: int where "DECODE_DEFAULT_FPS = 30"

definition FT_ORIGINAL :: nat where "FT_ORIGINAL = 0"
definition FT_DISPLAY :: nat where "FT_DISPLAY = 1"
definition FT_RECODE :: nat where "FT_RECODE = 2"
definition FT_NUM :: nat where "FT_NUM = 3"

record FrameBuffer =
  fb_data :: byte_ptr
  fb_data_size :: int

definition FrameBuffer_new :: FrameBuffer where
  "FrameBuffer_new = \<lparr>fb_data = None, fb_data_size = 0\<rparr>"

record FrameInfo =
  fi_pixel_format :: int
  fi_width :: int
  fi_height :: int
  fi_decode :: bool

definition FrameInfo_new :: FrameInfo where
  "FrameInfo_new = \<lparr>fi_pixel_format = VPIX_int VPIX_FMT_NONE, fi_width = 0, fi_height = 0, fi_decode = False\<rparr>"

record DecoderInfo =
  di_type :: int
  di_vcodec_id :: int
  di_frame_info :: "FrameInfo list"
  queue_accumulate_time :: int
  di_fps :: int

definition DecoderInfo_new :: DecoderInfo where
  "DecoderInfo_new = \<lparr>di_type = 1, di_vcodec_id = VCODEC_ID_int VCODEC_ID_H264,
     di_frame_info = replicate FT_NUM FrameInfo_new, queue_accumulate_time = 1000, di_fps = DECODE_FPS_AUTO\<rparr>"

record DecoderVideoDest =
  dd_index :: int
  dd_fps :: int
  dd_frame :: "FrameBuffer list"
  dd_frame_info :: "FrameInfo list"

definition DecoderVideoDest_new :: DecoderVideoDest where
  "DecoderVideoDest_new = \<lparr>dd_index = 0, dd_fps = 0, dd_frame = replicate FT_NUM FrameBuffer_new,
     dd_frame_info = replicate FT_NUM FrameInfo_new\<rparr>"

text \<open>Indexing a C++ array with an \<open>int\<close>.\<close>

definition arr_get :: "'a list \<Rightarrow> int \<Rightarrow> 'a cpp" where
  "arr_get xs i = (if 0 \<le> i \<and> i < int (length xs) then Inr (xs ! nat i) else Inl OutOfBounds)"

definition arr_set :: "'a list \<Rightarrow> int \<Rightarrow> 'a \<Rightarrow> 'a list cpp" where
  "arr_set xs i v = (if 0 \<le> i \<and> i < int (length xs) then Inr (xs[nat i := v]) else Inl OutOfBounds)"

lemma arr_get_ok: "0 \<le> i \<Longrightarrow> i < int (length xs) \<Longrightarrow> arr_get xs i = Inr (xs ! nat i)"
  by (simp add: arr_get_def)

end
