(* ===== verification/Send_Manager.thy ===== *)
theory Send_Manager
  imports Sync_Channel Cmd_Line Decoder_Types
begin

text \<open>
  \<open>SendWorkerManager\<close> of \<open>include/network/SendWorkerManager.cpp\<close>: the send workers of the camera process,
  one per client queue, and the broadcasts of frames and states to them. The recursive mutex guards
  each access to the list; \<open>InsertSendWork\<close> holds it for the check and for the append, not in between. The
  model has one operation at a time, so it does not show two inserts of one name at once. The outcomes of the
  waits of worker \<open>i\<close> are \<open>os i\<close>.
\<close>

section \<open>Code\<close>

record SendWorkInfo =
  frame_type :: int
  stream_index :: int
  wi_video_streaming :: bool
  send_worker :: SendWorker

type_synonym SendWorkers = "SendWorkInfo list"

definition SendWorkInfo_new :: "nat \<Rightarrow> SendWorkInfo" where
  "SendWorkInfo_new junk = \<lparr>frame_type = -1, stream_index = -1, wi_video_streaming = False, send_worker = SendWorker_new junk\<rparr>"

definition item_name :: "SendWorkInfo \<Rightarrow> string" where
  "item_name item = SendWorker_GetQueueName (send_worker item)"

fun IsExistSendWork :: "string \<Rightarrow> SendWorkers \<Rightarrow> bool" where
  "IsExistSendWork queue_name [] = False"
| "IsExistSendWork queue_name (item # items) =
     (if queue_name = item_name item then True else IsExistSendWork queue_name items)"

text \<open>A worker whose activation fails is destroyed, which deactivates it.\<close>

definition InsertSendWork :: "map_env \<Rightarrow> create_os \<Rightarrow> nat \<Rightarrow> string \<Rightarrow> int \<Rightarrow> SendWorkers \<Rightarrow> shm
    \<Rightarrow> (int \<times> SendWorkers \<times> shm) cpp" where
  "InsertSendWork env cos junk queue_name count items m =
     (if IsExistSendWork queue_name items then Inr (1, items, m)
      else
        let info = SendWorkInfo_new junk in
        cbind (SendWorker_Activate env cos queue_name count (send_worker info) m) (\<lambda>(ret, w, m', cs).
          if ret \<noteq> 0 then Inr (2, items, m')
          else Inr (0, items @ [info\<lparr>send_worker := w\<rparr>], m')))"

fun SetFrameInfo_loop :: "string \<Rightarrow> int \<Rightarrow> int \<Rightarrow> bool \<Rightarrow> SendWorkers \<Rightarrow> SendWorkers" where
  "SetFrameInfo_loop queue_name ft si vs [] = []"
| "SetFrameInfo_loop queue_name ft si vs (item # items) =
     (if queue_name = item_name item
      then item\<lparr>frame_type := ft, stream_index := si, wi_video_streaming := vs\<rparr> # items
      else item # SetFrameInfo_loop queue_name ft si vs items)"

definition SetFrameInfo :: "string \<Rightarrow> int \<Rightarrow> int \<Rightarrow> bool \<Rightarrow> SendWorkers \<Rightarrow> int \<times> SendWorkers" where
  "SetFrameInfo queue_name ft si vs items = (0, SetFrameInfo_loop queue_name ft si vs items)"

fun DeleteSendWork :: "string \<Rightarrow> SendWorkers \<Rightarrow> SendWorkers" where
  "DeleteSendWork queue_name [] = []"
| "DeleteSendWork queue_name (item # items) =
     (if queue_name = item_name item then items else item # DeleteSendWork queue_name items)"

text \<open>\<open>UnlockSendWork\<close>: the calls made, by worker.\<close>

definition UnlockSendWork :: "SendWorkers \<Rightarrow> (string \<times> sys_call list) list" where
  "UnlockSendWork items = map (\<lambda>item. (item_name item, SendWorker_SendSyncUnlock (send_worker item))) items"

definition UnlockSendWork_stream :: "int \<Rightarrow> SendWorkers \<Rightarrow> (string \<times> sys_call list) list" where
  "UnlockSendWork_stream si items =
     map (\<lambda>item. (item_name item, SendWorker_SendSyncUnlock (send_worker item))) (filter (\<lambda>item. stream_index item = si) items)"

definition ClearSendWork :: "SendWorkers \<Rightarrow> (string \<times> sys_call list) list \<times> SendWorkers" where
  "ClearSendWork items = (UnlockSendWork items, [])"

definition SendManager_Activate :: int where
  "SendManager_Activate = 0"

definition SendManager_Deactivate :: "SendWorkers \<Rightarrow> int \<times> SendWorkers" where
  "SendManager_Deactivate items = (let (cs, items') = ClearSendWork items in (0, items'))"

text \<open>
  The broadcast loops: \<open>sends item\<close> is the message for the worker, none when the loop skips it. The
  result of \<open>SendPacket\<close> is ignored; the list of what was returned is kept for the statements.
\<close>

fun broadcast :: "(SendWorkInfo \<Rightarrow> PacketStruct option cpp) \<Rightarrow> int \<Rightarrow> (nat \<Rightarrow> sync_os) \<Rightarrow> nat \<Rightarrow> SendWorkers \<Rightarrow> shm
    \<Rightarrow> (int option list \<times> SendWorkers \<times> shm) cpp" where
  "broadcast sends ms os i [] m = Inr ([], [], m)"
| "broadcast sends ms os i (item # items) m =
     cbind (sends item) (\<lambda>msg.
     cbind (case msg of None \<Rightarrow> Inr (None, send_worker item, m)
            | Some p \<Rightarrow> cbind (SendPacket p ms (os i) (send_worker item) m) (\<lambda>(ret, w, m', cs). Inr (Some ret, w, m')))
       (\<lambda>(ret, w, m').
         cbind (broadcast sends ms os (i + 1) items m') (\<lambda>(rets, items', m'').
           Inr (ret # rets, item\<lparr>send_worker := w\<rparr> # items', m''))))"

definition SendStreamStatus :: "int \<Rightarrow> int \<Rightarrow> (nat \<Rightarrow> sync_os) \<Rightarrow> SendWorkers \<Rightarrow> shm
    \<Rightarrow> (int option list \<times> SendWorkers \<times> shm) cpp" where
  "SendStreamStatus si status os items m =
     (case Packet_StreamStatus_Casting (CreateFactory_type PACKEK_TYPE_STREAM_STATUS) of
        None \<Rightarrow> Inl NullPointer
      | Some packet_status \<Rightarrow>
          broadcast (\<lambda>item. Inr (Some (PStreamStatus (packet_status\<lparr>st_stream_index := si, st_status := status\<rparr>)))) 10 os 0 items m)"

definition frame_for :: "Packet_Frame \<Rightarrow> DecoderVideoDest \<Rightarrow> int \<Rightarrow> SendWorkInfo \<Rightarrow> PacketStruct option cpp" where
  "frame_for packet_frame data si item =
     (if wi_video_streaming item = False then Inr None
      else if stream_index item \<noteq> si then Inr None
      else if -1 = frame_type item then Inr None
      else cbind (arr_get (dd_frame_info data) (frame_type item)) (\<lambda>info.
           cbind (arr_get (dd_frame data) (frame_type item)) (\<lambda>fb.
             Inr (Some (PFrame (packet_frame\<lparr>fr_frame_type := frame_type item, frame_pixel_format := fi_pixel_format info,
               frame_width := fi_width info, frame_height := fi_height info,
               frame_buffer := fb_data fb, frame_buffer_len := fb_data_size fb\<rparr>))))))"

definition SendFrame :: "string \<Rightarrow> int \<Rightarrow> DecoderVideoDest \<Rightarrow> (nat \<Rightarrow> sync_os) \<Rightarrow> SendWorkers \<Rightarrow> shm
    \<Rightarrow> (int option list \<times> SendWorkers \<times> shm) cpp" where
  "SendFrame guid si data os items m =
     (case Packet_Frame_Casting (CreateFactory_type PACKEK_TYPE_FRAME) of
        None \<Rightarrow> Inl NullPointer
      | Some pf \<Rightarrow>
          cbind (arr_get (dd_frame_info data) (int FT_ORIGINAL)) (\<lambda>orig.
            broadcast (frame_for (pf\<lparr>camera_guid := guid, fr_stream_index := si, order_num := dd_index data,
              vcodec_id := VCODEC_ID_int VCODEC_ID_H264, stream_width := fi_width orig, stream_height := fi_height orig\<rparr>) data si)
              10 os 0 items m))"

definition CMD_KEY_PROCESS_NAME :: string where "CMD_KEY_PROCESS_NAME = ''PROCESS_NAME''"
definition CMD_KEY_CAMERA_ID :: string where "CMD_KEY_CAMERA_ID = ''CAMERA_ID''"
definition CMD_KEY_CAMERA_GUID :: string where "CMD_KEY_CAMERA_GUID = ''CAMERA_GUID''"
definition CMD_KEY_RTSP :: string where "CMD_KEY_RTSP = ''RTSP''"
definition APP_VERSION :: string where "APP_VERSION = ''1.0.0.1''"

text \<open>The first worker with the queue's name is sent the process information; \<open>pid\<close> is \<open>GetCurrentProcessId\<close>.\<close>

fun SendProcessInfo :: "CmdLineParser \<Rightarrow> int \<Rightarrow> string \<Rightarrow> sync_os \<Rightarrow> SendWorkers \<Rightarrow> shm
    \<Rightarrow> (bool \<times> SendWorkers \<times> shm) cpp" where
  "SendProcessInfo cmd pid queue_name os [] m = Inr (False, [], m)"
| "SendProcessInfo cmd pid queue_name os (item # items) m =
     (if queue_name = item_name item then
        let (found, name) = ReadCmdLineValue_string CMD_KEY_PROCESS_NAME ''PROCESS_CAMERA'' cmd in
        (case Packet_ProcessInfo_Casting (CreateFactory_type PACKEK_TYPE_PROCESS_INFO) of None \<Rightarrow> Inl NullPointer
         | Some info \<Rightarrow>
            cbind (SendPacket (PProcessInfo (info\<lparr>process_name := name, process_id := pid, packet_version := APP_VERSION\<rparr>))
                     100 os (send_worker item) m) (\<lambda>(ret, w, m', cs).
              Inr (ret = 0, item\<lparr>send_worker := w\<rparr> # items, m')))
      else cbind (SendProcessInfo cmd pid queue_name os items m) (\<lambda>(sent, items', m'). Inr (sent, item # items', m')))"

section \<open>The queue names\<close>

definition names :: "SendWorkers \<Rightarrow> string list" where
  "names items = map item_name items"

lemma names_simps [simp]: "names [] = []" "names (x # xs) = item_name x # names xs" "names (xs @ ys) = names xs @ names ys"
  by (simp_all add: names_def)

lemma IsExistSendWork_iff: "IsExistSendWork n items \<longleftrightarrow> n \<in> set (names items)"
  by (induction n items rule: IsExistSendWork.induct) auto

lemma SetFrameInfo_names: "names (snd (SetFrameInfo n ft si vs items)) = names items"
proof -
  have "names (SetFrameInfo_loop n ft si vs items) = names items"
    by (induction n ft si vs items rule: SetFrameInfo_loop.induct) (auto simp: item_name_def)
  then show ?thesis by (simp add: SetFrameInfo_def)
qed

lemma DeleteSendWork_names: "names (DeleteSendWork n items) = remove1 n (names items)"
  by (induction n items rule: DeleteSendWork.induct) auto

text \<open>A worker keeps its queue name whatever it sends.\<close>

lemma func_producer_queue: "func_producer w (q, m) = Inr (ok, q', m') \<Longrightarrow> q' = q"
  by (auto simp: func_producer_def cbind_Inr_iff)

lemma sync_access_keeps:
  assumes "sync_access own other cb ms s os q = Inr (ret, q', cs)"
    and "\<And>ok q1. cb q = Inr (ok, q1) \<Longrightarrow> I q1" and "I q"
  shows "I q'"
  using assms by (auto simp: sync_access_def mutex_switch_def Let_def cbind_Inr_iff split: if_splits)

lemma SendPacket_queue:
  assumes "SendPacket p ms os s m = Inr (ret, s', m', cs)"
  shows "m_send_queue s' = m_send_queue s"
proof -
  obtain w q cs' ret' where
    sp: "SyncProducer (func_producer w) (word_of_int ms) (m_send_sync s) os (m_send_queue s, m) = Inr (ret', (q, m'), cs')"
    and s': "m_send_queue s' = q"
    using assms by (auto simp: SendPacket_def send_written_def Let_def cbind_Inr_iff split: if_splits)
  have "fst (q, m') = m_send_queue s"
    by (rule sync_access_keeps [OF sp [unfolded SyncProducer_def], where I = "\<lambda>x. fst x = m_send_queue s"])
       (auto dest: func_producer_queue)
  with s' show ?thesis by simp
qed

lemma item_name_send:
  "SendPacket p ms os (send_worker item) m = Inr (ret, w, m', cs) \<Longrightarrow> item_name (item\<lparr>send_worker := w\<rparr>) = item_name item"
  by (drule SendPacket_queue) (simp add: item_name_def SendWorker_GetQueueName_def)

lemma broadcast_names: "broadcast sends ms os i items m = Inr (rets, items', m') \<Longrightarrow> names items' = names items"
proof (induction items arbitrary: i m rets items' m')
  case Nil
  then show ?case by simp
next
  case (Cons item items)
  then show ?case
    by (auto simp: cbind_Inr_iff item_name_send split: option.splits)
qed

lemma SendProcessInfo_names:
  "SendProcessInfo cmd pid n os items m = Inr (sent, items', m') \<Longrightarrow> names items' = names items"
proof (induction items arbitrary: sent items')
  case Nil
  then show ?case by simp
next
  case (Cons item items)
  then show ?case
    by (auto simp: cbind_Inr_iff item_name_send Let_def case_prod_unfold split: option.splits if_splits)
qed

lemma SendWorker_Activate_name:
  assumes "SendWorker_Activate env cos n count w m = Inr (0, w', m', cs)"
  shows "SendWorker_GetQueueName w' = n"
proof -
  obtain q m1 where init: "QS_Initialize env n shared_queue_size (m_send_queue w) m = Inr (0, q, m1)"
    and q: "m_send_queue w' = q"
    using assms by (auto simp: SendWorker_Activate_def Let_def cbind_Inr_iff split: if_splits)
  from init have "m_queue_info q \<noteq> None \<and> qs_name q = n"
    by (auto simp: QS_Initialize_def OpenSharedMemory_def CreateSharedMemory_def GetSharedPoint_def Let_def cbind_Inr_iff
        split: if_splits sum.splits option.splits prod.splits)
  with q show ?thesis
    by (auto simp: SendWorker_GetQueueName_def QS_GetName_def)
qed

lemma InsertSendWork_names:
  assumes "InsertSendWork env cos junk n count items m = Inr (ret, items', m')"
  shows "names items' = (if ret = 0 then names items @ [n] else names items)" and "ret = 0 \<Longrightarrow> n \<notin> set (names items)"
  using assms SendWorker_Activate_name
  by (auto simp: InsertSendWork_def Let_def cbind_Inr_iff IsExistSendWork_iff item_name_def split: if_splits)

text \<open>Inserting a worker for a new queue whose memory exists and holds no counts yet.\<close>

lemma InsertSendWork_ok:
  assumes "OpenFileMappingA env n = Inl h" "MapViewOfFile env h = Inl a" "shm_inv a m" "shm_user a m = replicate 32 0"
    and "all_ok cos" "n \<notin> set (names items)"
  shows "\<exists>w m'. InsertSendWork env cos junk n count items m = Inr (0, items @ [(SendWorkInfo_new junk)\<lparr>send_worker := w\<rparr>], m')
    \<and> SendWorker_GetQueueName w = n"
proof -
  let ?w0 = "send_worker (SendWorkInfo_new junk)"
  obtain q where q: "QS_Initialize env n shared_queue_size (m_send_queue ?w0) m = Inr (0, q, m)" "mapped a q" "QS_GetName q = n"
    using QS_Initialize_open [OF assms(1,2)] by blast
  let ?ap = "\<lparr>producer_count = word_of_int count, consumer_count = word_of_int count, ap_queue = q\<rparr> :: ActivateParam"
  have mq: "mapped a (ap_queue ?ap)" using q(2) by simp
  obtain m1 where w: "WriteSharedMemoryInfo ?ap (ap_queue ?ap) m = Inr (0, m1)"
    using WriteSharedMemoryInfo_ok [OF mq assms(3)] by blast
  obtain sy cs where sy: "Sync_Activate cos ?ap (m_send_sync ?w0) m = Inr (0, sy, m1, cs)"
    using Sync_Activate_ok [OF mq assms(3,5) ReadSharedMemoryInfo_zero [OF mq assms(3,4)], of m1 "m_send_sync ?w0"] w by auto
  obtain w where w: "SendWorker_Activate env cos n count ?w0 m = Inr (0, w, m1, cs)"
    using q(1) sy by (simp add: SendWorker_Activate_def Let_def)
  then have "InsertSendWork env cos junk n count items m = Inr (0, items @ [(SendWorkInfo_new junk)\<lparr>send_worker := w\<rparr>], m1)"
    using assms(6) by (simp add: InsertSendWork_def IsExistSendWork_iff Let_def)
  then show ?thesis
    using SendWorker_Activate_name [OF w] by blast
qed

section \<open>Any sequence of operations\<close>

inductive manager_step :: "SendWorkers \<Rightarrow> SendWorkers \<Rightarrow> bool" where
  m_insert: "InsertSendWork env cos junk n count items m = Inr (ret, items', m') \<Longrightarrow> manager_step items items'"
| m_frame_info: "SetFrameInfo n ft si vs items = (ret, items') \<Longrightarrow> manager_step items items'"
| m_delete: "manager_step items (DeleteSendWork n items)"
| m_clear: "ClearSendWork items = (cs, items') \<Longrightarrow> manager_step items items'"
| m_status: "SendStreamStatus si status os items m = Inr (rets, items', m') \<Longrightarrow> manager_step items items'"
| m_frame: "SendFrame guid si data os items m = Inr (rets, items', m') \<Longrightarrow> manager_step items items'"
| m_info: "SendProcessInfo cmd pid n os1 items m = Inr (sent, items', m') \<Longrightarrow> manager_step items items'"

lemma manager_step_distinct:
  assumes "manager_step items items'" "distinct (names items)"
  shows "distinct (names items')"
  using assms
proof (induction rule: manager_step.induct)
  case (m_insert env cos junk n count items m ret items' m')
  then show ?case
    using InsertSendWork_names [OF m_insert(1)] by auto
next
  case (m_frame_info n ft si vs items ret items')
  then show ?case using SetFrameInfo_names [of n ft si vs items] by simp
next
  case (m_delete items n)
  then show ?case by (simp add: DeleteSendWork_names)
next
  case (m_clear items cs items')
  then show ?case by (simp add: ClearSendWork_def)
next
  case (m_status si status os items m rets items' m')
  then show ?case
    using broadcast_names by (fastforce simp: SendStreamStatus_def split: option.splits)
next
  case (m_frame guid si data os items m rets items' m')
  then show ?case
    using broadcast_names by (fastforce simp: SendFrame_def cbind_Inr_iff split: option.splits)
next
  case (m_info cmd pid n os1 items m sent items' m')
  then show ?case
    using SendProcessInfo_names by metis
qed

lemma manager_reach_distinct: "manager_step\<^sup>*\<^sup>* [] items \<Longrightarrow> distinct (names items)"
  by (induction rule: rtranclp_induct) (auto intro: manager_step_distinct)

section \<open>Broadcasts\<close>

definition workers_ok :: "(SendWorkInfo \<Rightarrow> nat) \<Rightarrow> SendWorkers \<Rightarrow> bool" where
  "workers_ok obj_of items \<longleftrightarrow> (\<forall>item \<in> set items. sender_ok (obj_of item) (send_worker item))"

text \<open>\<open>SendFrame\<close> indexes the decoder's arrays with the frame type a client asked for.\<close>

lemma frame_for_out_of_bounds:
  assumes "wi_video_streaming item" "stream_index item = si" "frame_type item \<noteq> -1"
    and "frame_type item < 0 \<or> int (length (dd_frame_info data)) \<le> frame_type item"
  shows "frame_for pf data si item = Inl OutOfBounds"
  using assms by (auto simp: frame_for_def arr_get_def)

text \<open>A broadcast works through its workers in order, and ends at the first one whose message fails.\<close>

lemma broadcast_append:
  "broadcast sends ms os i (xs @ ys) m =
     cbind (broadcast sends ms os i xs m) (\<lambda>(rets, xs', m').
     cbind (broadcast sends ms os (i + length xs) ys m') (\<lambda>(rets', ys', m'').
       Inr (rets @ rets', xs' @ ys', m'')))"
proof (induction xs arbitrary: i m)
  case Nil
  then show ?case by (simp split: sum.splits)
next
  case (Cons x xs)
  let ?one = "\<lambda>msg. case msg of None \<Rightarrow> Inr (None, send_worker x, m)
      | Some p \<Rightarrow> cbind (SendPacket p ms (os i) (send_worker x) m) (\<lambda>(ret, w, m', cs). Inr (Some ret, w, m'))"
  have "cbind (broadcast sends ms os (Suc i) (xs @ ys) m1) (\<lambda>(rets, items', m''). Inr (ret # rets, x\<lparr>send_worker := w\<rparr> # items', m'')) =
      cbind (cbind (broadcast sends ms os (Suc i) xs m1) (\<lambda>(rets, items', m''). Inr (ret # rets, x\<lparr>send_worker := w\<rparr> # items', m'')))
        (\<lambda>(rets, xs', m'). cbind (broadcast sends ms os (Suc i + length xs) ys m') (\<lambda>(rets', ys', m''). Inr (rets @ rets', xs' @ ys', m'')))" for ret w m1
    by (simp add: Cons.IH cbind_assoc case_prod_beta) (simp add: split_def)
  then show ?case
    by (cases "sends x"; cases "?one (projr (sends x))") auto
qed

lemma SendFrame_bad:
  assumes "SendFrame guid si data os pre m = Inr x" and "wi_video_streaming item" "stream_index item = si" "frame_type item \<noteq> -1"
    and "frame_type item < 0 \<or> int (length (dd_frame_info data)) \<le> frame_type item"
  shows "SendFrame guid si data os (pre @ item # rest) m = Inl OutOfBounds"
  using assms(1) frame_for_out_of_bounds [OF assms(2-5)]
  by (cases x) (auto simp: SendFrame_def broadcast_append cbind_Inr_iff split: option.splits)

text \<open>Workers that do not want the stream's video are passed over.\<close>

lemma SendFrame_none:
  assumes "\<forall>item \<in> set items. \<not> wi_video_streaming item \<or> stream_index item \<noteq> si \<or> frame_type item = -1"
    and "dd_frame_info data \<noteq> []"
  shows "SendFrame guid si data os items m = Inr (replicate (length items) None, items, m)"
proof -
  have "broadcast (frame_for pf data si) 10 os i items m = Inr (replicate (length items) None, items, m)" for pf i
    using assms(1)
  proof (induction items arbitrary: i)
    case Nil
    then show ?case by simp
  next
    case (Cons item items)
    then have "frame_for pf data si item = Inr None"
      by (auto simp: frame_for_def)
    with Cons show ?case by simp
  qed
  then show ?thesis
    using assms(2) by (simp add: SendFrame_def CreateFactory_type_def arr_get_def FT_ORIGINAL_def)
qed

end
