(* ===== verification/Util_Strings.thy ===== *)
theory Util_Strings
  imports Std_Convert
begin

text \<open>
  The string functions of \<open>include/common/Util.cpp\<close>. Those that have a \<open>std::string\<close> and a \<open>std::wstring\<close>
  overload with the same body are defined once, on lists of any characters, and named for each.
  \<open>replace_all\<close> and \<open>split_string\<close> need not return: \<open>None\<close> is "does not return".
\<close>

section \<open>Searching in strings\<close>

text \<open>\<open>std::string::find(pattern, offset)\<close> and \<open>rfind(c)\<close>; \<open>None\<close> is \<open>npos\<close>.\<close>

definition matches_at :: "'a list \<Rightarrow> 'a list \<Rightarrow> nat \<Rightarrow> bool" where
  "matches_at s pat i \<longleftrightarrow> i + length pat \<le> length s \<and> take (length pat) (drop i s) = pat"

definition str_find :: "'a list \<Rightarrow> 'a list \<Rightarrow> nat \<Rightarrow> nat option" where
  "str_find s pat offset = List.find (matches_at s pat) [offset..<length s + 1]"

fun str_rfind :: "'a list \<Rightarrow> 'a \<Rightarrow> nat option" where
  "str_rfind [] c = None"
| "str_rfind (x # xs) c = (case str_rfind xs c of Some i \<Rightarrow> Some (Suc i) | None \<Rightarrow> if x = c then Some 0 else None)"

lemma drop_length_append: "drop (length xs) (xs @ ys) = ys"
  by simp

lemma find_upt_Some:
  assumes "List.find P [a..<b] = Some i"
  shows "a \<le> i" "i < b" "P i" "\<And>j. a \<le> j \<Longrightarrow> j < i \<Longrightarrow> \<not> P j"
proof -
  from assms obtain k where k: "k < b - a" "P (a + k)" "i = a + k" "\<forall>j<k. \<not> P (a + j)"
    by (auto simp: find_Some_iff)
  show "a \<le> i" "i < b" "P i" using k by auto
  fix j assume "a \<le> j" "j < i"
  then have "j - a < k" using k(3) by simp
  with k(4) \<open>a \<le> j\<close> show "\<not> P j"
    by (metis le_add_diff_inverse)
qed

lemma str_find_Some:
  assumes "str_find s pat offset = Some i"
  shows "offset \<le> i" "matches_at s pat i" "\<And>j. offset \<le> j \<Longrightarrow> j < i \<Longrightarrow> \<not> matches_at s pat j"
  using find_upt_Some [OF assms [unfolded str_find_def]] by auto

lemma str_find_None: "str_find s pat offset = None \<Longrightarrow> offset \<le> j \<Longrightarrow> \<not> matches_at s pat j"
  by (auto simp: str_find_def find_None_iff matches_at_def)

lemma str_find_empty: "offset \<le> length s \<Longrightarrow> str_find s [] offset = Some offset"
proof -
  assume "offset \<le> length s"
  then have "[offset..<length s + 1] = offset # [Suc offset..<length s + 1]" and "matches_at s [] offset"
    by (auto simp: matches_at_def intro: upt_conv_Cons)
  then show ?thesis
    by (simp only: str_find_def List.find.simps if_True)
qed

lemma str_rfind_None: "c \<notin> set s \<Longrightarrow> str_rfind s c = None"
  by (induction s) auto

lemma str_rfind_last:
  assumes "c \<notin> set ys"
  shows "str_rfind (xs @ c # ys) c = Some (length xs)"
  by (induction xs) (auto simp: str_rfind_None [OF assms])

section \<open>Paths\<close>

definition backslash :: char where
  "backslash = CHR 0x5C"

definition GetExtractFileName_of :: "'a \<Rightarrow> 'a list \<Rightarrow> 'a list" where
  "GetExtractFileName_of sep path = (case str_rfind path sep of None \<Rightarrow> []
     | Some pos \<Rightarrow> take (length path - (pos + 1)) (drop (pos + 1) path))"

definition GetExtractPath_of :: "'a \<Rightarrow> 'a list \<Rightarrow> 'a list" where
  "GetExtractPath_of sep path = (case str_rfind path sep of None \<Rightarrow> [] | Some pos \<Rightarrow> take pos path)"

type_synonym wstring = "16 word list"

definition GetExtractFileName :: "string \<Rightarrow> string" where
  "GetExtractFileName = GetExtractFileName_of backslash"

definition GetExtractFileName_w :: "wstring \<Rightarrow> wstring" where
  "GetExtractFileName_w = GetExtractFileName_of 0x5C"

definition GetExtractPath :: "string \<Rightarrow> string" where
  "GetExtractPath = GetExtractPath_of backslash"

definition GetExtractPath_w :: "wstring \<Rightarrow> wstring" where
  "GetExtractPath_w = GetExtractPath_of 0x5C"

text \<open>\<open>GetProcessPath\<close>: \<open>module\<close> is the string \<open>GetModuleFileName\<close> left in the buffer.\<close>

definition GetProcessPath :: "string \<Rightarrow> string \<Rightarrow> int \<times> string" where
  "GetProcessPath module dest = (case str_rfind module backslash of None \<Rightarrow> (1, dest) | Some pos \<Rightarrow> (0, take pos module))"

definition GetProcessPath_w :: "wstring \<Rightarrow> wstring \<Rightarrow> int \<times> wstring" where
  "GetProcessPath_w module dest = (case str_rfind module 0x5C of None \<Rightarrow> (1, dest) | Some pos \<Rightarrow> (0, take pos module))"

lemma extract_parts:
  assumes "sep \<notin> set name"
  shows "GetExtractFileName_of sep (dir @ sep # name) = name" and "GetExtractPath_of sep (dir @ sep # name) = dir"
  using str_rfind_last [OF assms, of dir] by (simp_all add: GetExtractFileName_of_def GetExtractPath_of_def)

section \<open>Replacing\<close>

partial_function (option) replace_loop :: "'a list \<Rightarrow> 'a list \<Rightarrow> 'a list \<Rightarrow> nat \<Rightarrow> 'a list option" where
  "replace_loop pat rep result offset = (case str_find result pat offset of
       None \<Rightarrow> Some result
     | Some pos \<Rightarrow> replace_loop pat rep (take pos result @ rep @ drop (pos + length pat) result) (pos + length rep))"

definition replace_all :: "string \<Rightarrow> string \<Rightarrow> string \<Rightarrow> string option" where
  "replace_all message pat rep = replace_loop pat rep message 0"

definition replace_all_w :: "wstring \<Rightarrow> wstring \<Rightarrow> wstring \<Rightarrow> wstring option" where
  "replace_all_w message pat rep = replace_loop pat rep message 0"

text \<open>What replacing means: every occurrence from the left, none overlapping.\<close>

function subst_all :: "'a list \<Rightarrow> 'a list \<Rightarrow> 'a list \<Rightarrow> 'a list" where
  "subst_all pat rep s = (case s of [] \<Rightarrow> []
     | c # cs \<Rightarrow> if pat \<noteq> [] \<and> take (length pat) s = pat then rep @ subst_all pat rep (drop (length pat) s)
                 else c # subst_all pat rep cs)"
  by pat_completeness auto
termination
  by (relation "measure (\<lambda>(pat, rep, s). length s)") auto

declare subst_all.simps [simp del]

lemma subst_all_Nil [simp]: "subst_all pat rep [] = []"
  by (simp add: subst_all.simps)

lemma subst_all_hit:
  "pat \<noteq> [] \<Longrightarrow> subst_all pat rep (pat @ s) = rep @ subst_all pat rep s"
  by (cases pat; subst subst_all.simps) auto

lemma subst_all_no_match:
  assumes "\<And>j. j < k \<Longrightarrow> \<not> matches_at s pat j" and "k \<le> length s"
  shows "subst_all pat rep s = take k s @ subst_all pat rep (drop k s)"
  using assms
proof (induction k arbitrary: s)
  case 0
  then show ?case by simp
next
  case (Suc k)
  then obtain c cs where s: "s = c # cs"
    by (cases s) auto
  have no: "\<not> (pat \<noteq> [] \<and> take (length pat) s = pat)"
  proof
    assume m: "pat \<noteq> [] \<and> take (length pat) s = pat"
    then have "length pat \<le> length s"
      by (metis length_take min.cobounded2 min.commute)
    with m Suc.prems(1) [of 0] show False by (simp add: matches_at_def)
  qed
  have "\<not> matches_at cs pat j" if "j < k" for j
    using Suc.prems(1) [of "Suc j"] that by (simp add: s matches_at_def)
  with Suc.IH [of cs] Suc.prems(2) have "subst_all pat rep cs = take k cs @ subst_all pat rep (drop k cs)"
    by (simp add: s)
  moreover have "subst_all pat rep s = c # subst_all pat rep cs"
    using no by (subst subst_all.simps) (auto simp: s)
  ultimately show ?case by (simp add: s)
qed

lemma subst_all_absent:
  assumes "\<And>j. \<not> matches_at s pat j"
  shows "subst_all pat rep s = s"
  using subst_all_no_match [of "length s" s pat rep] assms by simp

lemma matches_at_shift: "matches_at (xs @ s) pat (length xs + j) \<longleftrightarrow> matches_at s pat j"
  by (auto simp: matches_at_def)

lemma replace_loop_subst:
  assumes "pat \<noteq> []"
  shows "replace_loop pat rep (out @ s) (length out) = Some (out @ subst_all pat rep s)"
proof (induction "length s" arbitrary: out s rule: less_induct)
  case less
  show ?case
  proof (cases "str_find (out @ s) pat (length out)")
    case None
    then have "\<not> matches_at s pat j" for j
      using str_find_None [OF None, of "length out + j"] by (simp add: matches_at_shift)
    with None show ?thesis
      by (simp add: replace_loop.simps [of pat rep "out @ s"] subst_all_absent)
  next
    case (Some pos)
    note f = str_find_Some [OF Some]
    define k where "k = pos - length out"
    have pos: "pos = length out + k"
      using f(1) by (simp add: k_def)
    have m: "matches_at s pat k"
      using f(2) by (simp add: pos matches_at_shift)
    then have s: "drop k s = pat @ drop (k + length pat) s" and k: "k + length pat \<le> length s"
      by (auto simp: matches_at_def) (metis append_take_drop_id drop_drop add.commute)
    have none: "\<not> matches_at s pat j" if "j < k" for j
      using f(3) [of "length out + j"] that by (simp add: pos matches_at_shift)
    have "replace_loop pat rep (out @ s) (length out) =
      replace_loop pat rep ((out @ take k s @ rep) @ drop (k + length pat) s) (length (out @ take k s @ rep))"
      using Some k by (simp add: replace_loop.simps [of pat rep "out @ s"] pos add.assoc)
    also have "\<dots> = Some ((out @ take k s @ rep) @ subst_all pat rep (drop (k + length pat) s))"
      using assms k by (intro less.hyps) (cases pat, auto)
    also have "(out @ take k s @ rep) @ subst_all pat rep (drop (k + length pat) s) = out @ subst_all pat rep s"
      using subst_all_no_match [of k s pat rep, OF none] k subst_all_hit [OF assms, of rep "drop (k + length pat) s"]
      by (simp add: s)
    finally show ?thesis .
  qed
qed

lemma replace_loop_empty:
  assumes "offset \<le> length result"
  shows "replace_loop [] rep result offset = None"
proof -
  have "replace_loop pat rep result offset = Some y \<Longrightarrow> \<not> (pat = [] \<and> offset \<le> length result)" for pat rep result offset and y :: "'a list"
  proof (erule replace_loop.raw_induct [where P = "\<lambda>pat rep result offset y. \<not> (pat = [] \<and> offset \<le> length result)", rotated])
    fix rec pat rep result offset and y :: "'a list"
    assume IH: "\<And>pat rep result offset y. rec pat rep result offset = Some y \<Longrightarrow> \<not> (pat = [] \<and> offset \<le> length result)"
      and body: "(case str_find result pat offset of None \<Rightarrow> Some result
          | Some pos \<Rightarrow> rec pat rep (take pos result @ rep @ drop (pos + length pat) result) (pos + length rep)) = Some y"
    show "\<not> (pat = [] \<and> offset \<le> length result)"
    proof
      assume e: "pat = [] \<and> offset \<le> length result"
      then have "str_find result pat offset = Some offset"
        by (simp add: str_find_empty)
      with body e have "rec [] rep (take offset result @ rep @ drop offset result) (offset + length rep) = Some y"
        by simp
      from IH [OF this] e show False by simp
    qed
  qed
  with assms show ?thesis
    by (cases "replace_loop [] rep result offset") auto
qed

section \<open>Splitting\<close>

partial_function (option) split_loop :: "'a list \<Rightarrow> 'a list \<Rightarrow> nat \<Rightarrow> nat \<Rightarrow> 'a list list \<Rightarrow> 'a list list option" where
  "split_loop str sep prev_pos pos out = (case str_find str sep pos of
       None \<Rightarrow> Some (out @ [drop prev_pos str])
     | Some p \<Rightarrow> split_loop str sep (p + length sep) (p + length sep) (out @ [take (p - prev_pos) (drop prev_pos str)]))"

definition split_string :: "string \<Rightarrow> string \<Rightarrow> string list \<Rightarrow> (int \<times> string list) option" where
  "split_string str sep out = map_option (\<lambda>v. (0, v)) (split_loop str sep 0 0 out)"

definition split_string_w :: "wstring \<Rightarrow> wstring \<Rightarrow> wstring list \<Rightarrow> (int \<times> wstring list) option" where
  "split_string_w str sep out = map_option (\<lambda>v. (0, v)) (split_loop str sep 0 0 out)"

text \<open>
  The overloads with a delimiter character read with \<open>std::getline\<close>: a delimiter at the end of the
  string starts no further token.
\<close>

fun getline_tokens :: "'a \<Rightarrow> 'a list \<Rightarrow> 'a list \<Rightarrow> 'a list list" where
  "getline_tokens d token [] = (if token = [] then [] else [token])"
| "getline_tokens d token (c # cs) = (if c = d then token # getline_tokens d [] cs else getline_tokens d (token @ [c]) cs)"

definition split_string_char :: "string \<Rightarrow> char \<Rightarrow> string list \<Rightarrow> int \<times> string list" where
  "split_string_char str delimiter out = (0, out @ getline_tokens delimiter [] str)"

definition split_string_char_w :: "wstring \<Rightarrow> 16 word \<Rightarrow> wstring list \<Rightarrow> int \<times> wstring list" where
  "split_string_char_w str delimiter out = (0, out @ getline_tokens delimiter [] str)"

fun join :: "'a list \<Rightarrow> 'a list list \<Rightarrow> 'a list" where
  "join sep [] = []"
| "join sep [x] = x"
| "join sep (x # y # ys) = x @ sep @ join sep (y # ys)"

lemma join_Cons: "ys \<noteq> [] \<Longrightarrow> join sep (x # ys) = x @ sep @ join sep ys"
  by (cases ys) auto

text \<open>The pieces are what the separator delimits: joined they are the string, and no separator is in them.\<close>

lemma split_loop_pieces:
  assumes "sep \<noteq> []"
  shows "\<exists>ps. split_loop str sep k k out = Some (out @ ps) \<and> ps \<noteq> [] \<and> join sep ps = drop k str
    \<and> (\<forall>p \<in> set ps. \<forall>j. \<not> matches_at p sep j)"
proof (induction "length str - k" arbitrary: k out rule: less_induct)
  case less
  show ?case
  proof (cases "str_find str sep k")
    case None
    then have "\<not> matches_at (drop k str) sep j" for j
      using str_find_None [OF None, of "k + j"] assms by (cases sep) (auto simp: matches_at_def add.commute)
    with None show ?thesis
      by (intro exI [of _ "[drop k str]"]) (simp add: split_loop.simps [of str sep k])
  next
    case (Some p)
    note f = str_find_Some [OF Some]
    from f(2) have p: "p + length sep \<le> length str" "take (length sep) (drop p str) = sep"
      by (simp_all add: matches_at_def)
    let ?piece = "take (p - k) (drop k str)"
    have none: "\<not> matches_at ?piece sep j" for j
    proof
      assume m: "matches_at ?piece sep j"
      then have j: "k + j < p" "j + length sep \<le> p - k"
        using assms by (cases sep, auto simp: matches_at_def)+
      have "length sep \<le> p - (k + j)"
        using j by simp
      with m have "take (length sep) (drop (k + j) str) = sep"
        by (simp add: matches_at_def drop_take min_absorb1 add.commute)
      with j p f(3) [of "k + j"] show False by (simp add: matches_at_def)
    qed
    have "split_loop str sep k k out = split_loop str sep (p + length sep) (p + length sep) (out @ [?piece])"
      using Some by (simp add: split_loop.simps [of str sep k])
    moreover have "length str - (p + length sep) < length str - k"
      using p assms f(1) by (cases sep) auto
    from less.hyps [OF this, of "out @ [?piece]"] obtain ps where
      ps: "split_loop str sep (p + length sep) (p + length sep) (out @ [?piece]) = Some ((out @ [?piece]) @ ps)" "ps \<noteq> []"
      "join sep ps = drop (p + length sep) str" "\<forall>p \<in> set ps. \<forall>j. \<not> matches_at p sep j"
      by blast
    moreover have "join sep (?piece # ps) = drop k str"
    proof -
      have "drop k str = ?piece @ drop p str"
        using f(1) by (metis append_take_drop_id drop_drop le_add_diff_inverse2)
      also have "drop p str = sep @ drop (p + length sep) str"
        using p(2) by (metis append_take_drop_id drop_drop add.commute)
      finally show ?thesis
        using ps(2,3) by (simp add: join_Cons)
    qed
    ultimately show ?thesis
      using none by (intro exI [of _ "?piece # ps"]) simp
  qed
qed

lemma split_loop_empty:
  assumes "pos \<le> length str"
  shows "split_loop str [] prev pos out = None"
proof -
  have "split_loop str sep prev pos out = Some y \<Longrightarrow> \<not> (sep = [] \<and> pos \<le> length str)" for str sep prev pos out and y :: "'a list list"
  proof (erule split_loop.raw_induct [where P = "\<lambda>str sep prev pos out y. \<not> (sep = [] \<and> pos \<le> length str)", rotated])
    fix rec str sep prev pos out and y :: "'a list list"
    assume IH: "\<And>str sep prev pos out y. rec str sep prev pos out = Some y \<Longrightarrow> \<not> (sep = [] \<and> pos \<le> length str)"
      and body: "(case str_find str sep pos of None \<Rightarrow> Some (out @ [drop prev str])
        | Some p \<Rightarrow> rec str sep (p + length sep) (p + length sep) (out @ [take (p - prev) (drop prev str)])) = Some y"
    show "\<not> (sep = [] \<and> pos \<le> length str)"
    proof
      assume e: "sep = [] \<and> pos \<le> length str"
      then have "str_find str sep pos = Some pos"
        by (simp add: str_find_empty)
      with body e have "rec str [] pos pos (out @ [take (pos - prev) (drop prev str)]) = Some y"
        by simp
      from IH [OF this] e show False by simp
    qed
  qed
  with assms show ?thesis
    by (cases "split_loop str [] prev pos out") auto
qed

text \<open>\<open>getline\<close> tokens joined are the string without a delimiter at its end.\<close>

lemma getline_tokens_no_delim: "d \<notin> set token \<Longrightarrow> t \<in> set (getline_tokens d token s) \<Longrightarrow> d \<notin> set t"
  by (induction d token s rule: getline_tokens.induct) (auto split: if_splits)

section \<open>Directories\<close>

text \<open>\<open>CreateDirectoryD\<close>: the paths it passes to \<open>CreateDirectory\<close>, in order.\<close>

primrec create_paths :: "'a \<Rightarrow> 'a list \<Rightarrow> 'a list list \<Rightarrow> 'a list list" where
  "create_paths sep add_path [] = []"
| "create_paths sep add_path (t # ts) =
     (let add_path' = add_path @ t @ [sep] in add_path' # create_paths sep add_path' ts)"

definition CreateDirectoryD :: "string \<Rightarrow> string list" where
  "CreateDirectoryD path =
     (let vec_split = snd (split_string_char path backslash []) in
      if length vec_split < 2 then [] else create_paths backslash (hd vec_split @ [backslash]) (tl vec_split))"

definition CreateDirectoryD_w :: "wstring \<Rightarrow> wstring list" where
  "CreateDirectoryD_w path =
     (let vec_split = snd (split_string_char_w path 0x5C []) in
      if length vec_split < 2 then [] else create_paths 0x5C (hd vec_split @ [0x5C]) (tl vec_split))"

lemma getline_tokens_plain:
  "d \<notin> set x \<Longrightarrow> getline_tokens d token (x @ d # s) = (token @ x) # getline_tokens d [] s"
  by (induction x arbitrary: token) auto

lemma getline_tokens_end: "d \<notin> set x \<Longrightarrow> getline_tokens d token x = (if token @ x = [] then [] else [token @ x])"
  by (induction x arbitrary: token) auto

lemma getline_tokens_join:
  assumes "ts \<noteq> []" and "\<forall>t \<in> set ts. d \<notin> set t" and "last ts \<noteq> []"
  shows "getline_tokens d [] (join [d] ts) = ts"
  using assms
proof (induction ts)
  case Nil
  then show ?case by simp
next
  case (Cons x ts)
  then show ?case
    by (cases ts) (simp_all add: getline_tokens_end getline_tokens_plain)
qed

text \<open>Each path it creates extends the one before by one name, so parents come first.\<close>

lemma create_paths_nth:
  "i < length ts \<Longrightarrow> create_paths sep add_path ts ! i = add_path @ concat (map (\<lambda>t. t @ [sep]) (take (Suc i) ts))"
proof (induction ts arbitrary: add_path i)
  case Nil
  then show ?case by simp
next
  case (Cons t ts)
  then show ?case by (cases i) (simp_all add: Let_def)
qed

lemma length_create_paths: "length (create_paths sep add_path ts) = length ts"
  by (induction ts arbitrary: add_path) (simp_all add: Let_def)

section \<open>Times and conversions\<close>

record timeval =
  tv_sec :: int
  tv_usec :: int

definition DiffTime :: "timeval \<Rightarrow> timeval \<Rightarrow> int" where
  "DiffTime start stop = c_int ((tv_sec stop - tv_sec start) + c_div (tv_usec stop - tv_usec start) 1000000)"

text \<open>\<open>convert_vector\<close> copies the bytes of the characters; the code page conversions of Windows are parameters.\<close>

definition convert_vector :: "string \<Rightarrow> u8 list" where
  "convert_vector src = str_bytes src"

definition convert_vector_w :: "wstring \<Rightarrow> u8 list" where
  "convert_vector_w src = concat (map (\<lambda>c. le_bytes 2 (unat c)) src)"

definition convert_multi :: "string \<Rightarrow> string" where
  "convert_multi src = (if src = [] then [] else src)"

definition convert_multi_w :: "(wstring \<Rightarrow> string) \<Rightarrow> wstring \<Rightarrow> string" where
  "convert_multi_w convert_unicode_to_multi src = (if src = [] then [] else convert_unicode_to_multi src)"

definition convert_unicode :: "(string \<Rightarrow> wstring) \<Rightarrow> string \<Rightarrow> wstring" where
  "convert_unicode convert_muti_to_unicode src = (if src = [] then [] else convert_muti_to_unicode src)"

definition convert_unicode_w :: "wstring \<Rightarrow> wstring" where
  "convert_unicode_w src = (if src = [] then [] else src)"

definition convert_string_ww :: "wstring \<Rightarrow> wstring \<Rightarrow> wstring" where
  "convert_string_ww src dst = (if src = [] then dst else convert_unicode_w src)"

definition convert_string_wm :: "(wstring \<Rightarrow> string) \<Rightarrow> wstring \<Rightarrow> string \<Rightarrow> string" where
  "convert_string_wm conv src dst = (if src = [] then dst else convert_multi_w conv src)"

definition convert_string_mm :: "string \<Rightarrow> string \<Rightarrow> string" where
  "convert_string_mm src dst = (if src = [] then dst else convert_multi src)"

definition convert_string_mw :: "(string \<Rightarrow> wstring) \<Rightarrow> string \<Rightarrow> wstring \<Rightarrow> wstring" where
  "convert_string_mw conv src dst = (if src = [] then dst else convert_unicode conv src)"

end
