(* ===== verification/Timer_Ex.thy ===== *)
theory Timer_Ex
  imports Cam_Prelude
begin

text \<open>
  The timers of \<open>include/common/TimerEx.cpp\<close>: the table of 64 timers shared by all of the process,
  its multimedia implementation (\<open>CTimerWinmm\<close>, the one this Windows program compiles), and the
  singleton the API functions go through. The mutex makes each operation atomic. What
  \<open>timeSetEvent\<close> returns is the argument \<open>hTimer\<close>; the calls into the system are listed in order.
  A stored function is a value of the type \<open>'f\<close>; calling it is part of the result of \<open>Timer_CallBack\<close>.
\<close>

section \<open>Code\<close>

record 'f ParamTimer =
  timer_os_id :: nat
  timer_ms :: int
  timer_ptr :: int
  timer_used :: bool
  timer_func :: "'f option"

definition ParamTimer_new :: "'f ParamTimer" where
  "ParamTimer_new = \<lparr>timer_os_id = 0, timer_ms = 0, timer_ptr = 0, timer_used = False, timer_func = None\<rparr>"

definition m_timers_init :: "'f ParamTimer list" where
  "m_timers_init = replicate 64 ParamTimer_new"

datatype timer_call =
    TimeBeginPeriod int
  | TimeSetEvent int int "int"   \<comment> \<open>delay, resolution, user value; periodic\<close>
  | TimeKillEvent nat
  | TimeEndPeriod int

text \<open>The call a timer event makes: the function with the id and the pointer, or none.\<close>

definition Timer_CallBack :: "int \<Rightarrow> 'f ParamTimer list \<Rightarrow> ('f \<times> int \<times> int) option cpp" where
  "Timer_CallBack tid ts =
     (if 0 \<le> tid \<and> tid < int (length ts)
      then let output = ts ! nat tid in
        Inr (if timer_used output
             then (case timer_func output of None \<Rightarrow> None | Some f \<Rightarrow> Some (f, tid, timer_ptr output))
             else None)
      else Inl OutOfBounds)"

fun CreateTimerId_loop :: "'f ParamTimer list \<Rightarrow> int \<Rightarrow> int" where
  "CreateTimerId_loop [] index = index"
| "CreateTimerId_loop (item # items) index =
     (if timer_used item = False then index else CreateTimerId_loop items (index + 1))"

definition CreateTimerId :: "'f ParamTimer list \<Rightarrow> int" where
  "CreateTimerId ts = CreateTimerId_loop ts 0"

definition Winmm_Initialize :: int where
  "Winmm_Initialize = 0"

text \<open>Result: the returned value, the id written, the table and the calls.\<close>

definition Winmm_CreateTimer :: "nat \<Rightarrow> 'f ParamTimer \<Rightarrow> 'f ParamTimer list
    \<Rightarrow> (int \<times> int \<times> 'f ParamTimer list \<times> timer_call list) cpp" where
  "Winmm_CreateTimer hTimer param ts =
     (let tid = CreateTimerId ts;
          cs = [TimeBeginPeriod 1, TimeSetEvent (timer_ms param) 1 tid] in
      if hTimer = 0 then Inr (1, tid, ts, cs)
      else if nat tid < length ts
      then Inr (0, tid, ts[nat tid := \<lparr>timer_os_id = hTimer, timer_ms = timer_ms param, timer_ptr = timer_ptr param,
                                       timer_used = True, timer_func = timer_func param\<rparr>], cs)
      else Inl OutOfBounds)"

text \<open>A negative id is a \<open>size_t\<close> past every table.\<close>

definition Winmm_DeleteTimer :: "int \<Rightarrow> 'f ParamTimer list \<Rightarrow> int \<times> 'f ParamTimer list \<times> timer_call list" where
  "Winmm_DeleteTimer tid ts =
     (let index = (if tid < 0 then nat (tid + 2 ^ 64) else nat tid) in
      if length ts \<le> index then (1, ts, [])
      else let item = ts ! index in
        (0, ts[index := item\<lparr>timer_used := False, timer_ptr := 0\<rparr>], [TimeKillEvent (timer_os_id item), TimeEndPeriod 1]))"

fun DeleteTimerAll_loop :: "nat \<Rightarrow> nat \<Rightarrow> 'f ParamTimer list \<Rightarrow> 'f ParamTimer list \<times> timer_call list" where
  "DeleteTimerAll_loop 0 index ts = (ts, [])"
| "DeleteTimerAll_loop (Suc n) index ts =
     (let (ts', cs) = (if timer_used (ts ! index)
                       then (let (r, ts', cs) = Winmm_DeleteTimer (int index) ts in (ts', cs))
                       else (ts, []));
          (ts'', cs') = DeleteTimerAll_loop n (index + 1) ts' in
      (ts'', cs @ cs'))"

definition DeleteTimerAll :: "'f ParamTimer list \<Rightarrow> int \<times> 'f ParamTimer list \<times> timer_call list" where
  "DeleteTimerAll ts = (let (ts', cs) = DeleteTimerAll_loop (length ts) 0 ts in (0, ts', cs))"

definition Winmm_Finalize :: "'f ParamTimer list \<Rightarrow> int \<times> 'f ParamTimer list \<times> timer_call list" where
  "Winmm_Finalize ts = (let (r, ts', cs) = DeleteTimerAll ts in (0, ts', cs))"

text \<open>
  The singleton: \<open>has_impl\<close> says that \<open>m_impl\<close> holds the multimedia implementation. \<open>m_type\<close> has no
  value before the first \<open>Initialize\<close>.
\<close>

datatype ActiveType = TIMER_NONE | WINDOWS_MMTIMER | LINUX_SIGNAL

record TimerInstance =
  has_impl :: bool
  timer_type :: "ActiveType option"

definition TimerInstance_new :: TimerInstance where
  "TimerInstance_new = \<lparr>has_impl = False, timer_type = None\<rparr>"

definition TimerInstance_Initialize :: "ActiveType \<Rightarrow> TimerInstance \<Rightarrow> (int \<times> TimerInstance) cpp" where
  "TimerInstance_Initialize ty inst =
     (cbind (if \<not> has_impl inst
             then let inst' = (case ty of
                        WINDOWS_MMTIMER \<Rightarrow> inst\<lparr>has_impl := True\<rparr>
                      | LINUX_SIGNAL \<Rightarrow> inst
                      | TIMER_NONE \<Rightarrow> inst)\<lparr>timer_type := Some ty\<rparr> in
                  if has_impl inst' then Inr (Winmm_Initialize, inst') else Inl NullPointer
             else Inr (0, inst))
       (\<lambda>(ret, inst'). if \<not> has_impl inst' then Inr (100, inst') else Inr (ret, inst')))"

definition TimerInstance_Finalize :: "TimerInstance \<Rightarrow> 'f ParamTimer list
    \<Rightarrow> (int \<times> 'f ParamTimer list \<times> timer_call list) cpp" where
  "TimerInstance_Finalize inst ts = (if has_impl inst then Inr (Winmm_Finalize ts) else Inl NullPointer)"

definition TimerInstance_CreateTimer :: "TimerInstance \<Rightarrow> nat \<Rightarrow> 'f ParamTimer \<Rightarrow> 'f ParamTimer list
    \<Rightarrow> (int \<times> int \<times> 'f ParamTimer list \<times> timer_call list) cpp" where
  "TimerInstance_CreateTimer inst hTimer param ts =
     (if has_impl inst then Winmm_CreateTimer hTimer param ts else Inl NullPointer)"

definition TimerInstance_DeleteTimer :: "TimerInstance \<Rightarrow> int \<Rightarrow> 'f ParamTimer list
    \<Rightarrow> (int \<times> 'f ParamTimer list \<times> timer_call list) cpp" where
  "TimerInstance_DeleteTimer inst tid ts =
     (if has_impl inst then Inr (Winmm_DeleteTimer tid ts) else Inl NullPointer)"

definition InitializeTimer :: "TimerInstance \<Rightarrow> (int \<times> TimerInstance) cpp" where
  "InitializeTimer inst = TimerInstance_Initialize WINDOWS_MMTIMER inst"

definition FinalizeTimer :: "TimerInstance \<Rightarrow> 'f ParamTimer list \<Rightarrow> (int \<times> 'f ParamTimer list \<times> timer_call list) cpp" where
  "FinalizeTimer inst ts = TimerInstance_Finalize inst ts"

definition CreateTimer :: "TimerInstance \<Rightarrow> nat \<Rightarrow> int \<Rightarrow> 'f option \<Rightarrow> int \<Rightarrow> 'f ParamTimer list
    \<Rightarrow> (int \<times> int \<times> 'f ParamTimer list \<times> timer_call list) cpp" where
  "CreateTimer inst hTimer ms f ptr ts =
     TimerInstance_CreateTimer inst hTimer (ParamTimer_new\<lparr>timer_ms := ms, timer_func := f, timer_ptr := ptr\<rparr>) ts"

definition DeleteTimer :: "TimerInstance \<Rightarrow> int \<Rightarrow> 'f ParamTimer list \<Rightarrow> (int \<times> 'f ParamTimer list \<times> timer_call list) cpp" where
  "DeleteTimer inst tid ts = TimerInstance_DeleteTimer inst tid ts"

section \<open>Lemmas\<close>

text \<open>The id chosen is the least free entry, or the length of the table when all are used.\<close>

lemma CreateTimerId_loop_eq: "CreateTimerId_loop ts i = i + int (length (takeWhile timer_used ts))"
  by (induction ts arbitrary: i) auto

lemma CreateTimerId_eq: "CreateTimerId ts = int (length (takeWhile timer_used ts))"
  by (simp add: CreateTimerId_def CreateTimerId_loop_eq)

lemma CreateTimerId_free:
  assumes "\<not> list_all timer_used ts"
  shows "nat (CreateTimerId ts) < length ts" "\<not> timer_used (ts ! nat (CreateTimerId ts))"
    "\<forall>j < nat (CreateTimerId ts). timer_used (ts ! j)"
proof -
  have "length (takeWhile timer_used ts) \<noteq> length ts"
    using assms by (metis list_all_iff set_takeWhileD takeWhile_eq_take take_all_iff order_refl)
  then have l: "length (takeWhile timer_used ts) < length ts"
    using length_takeWhile_le [of timer_used ts] by linarith
  then show "nat (CreateTimerId ts) < length ts" by (simp add: CreateTimerId_eq)
  show "\<not> timer_used (ts ! nat (CreateTimerId ts))"
    using nth_length_takeWhile [OF l] by (simp add: CreateTimerId_eq)
  show "\<forall>j < nat (CreateTimerId ts). timer_used (ts ! j)"
    by (simp add: CreateTimerId_eq) (metis nth_mem set_takeWhileD takeWhile_nth)
qed

lemma CreateTimerId_full: "list_all timer_used ts \<Longrightarrow> CreateTimerId ts = int (length ts)"
  by (simp add: CreateTimerId_eq list_all_iff takeWhile_eq_all_conv [THEN iffD2])

definition timers_used :: "'f ParamTimer list \<Rightarrow> nat set" where
  "timers_used ts = {i. i < length ts \<and> timer_used (ts ! i)}"

lemma Winmm_CreateTimer_ok:
  assumes "\<not> list_all timer_used ts" "hTimer \<noteq> 0"
  shows "\<exists>i ts'. Winmm_CreateTimer hTimer param ts = Inr (0, int i, ts', [TimeBeginPeriod 1, TimeSetEvent (timer_ms param) 1 (int i)])
    \<and> i < length ts \<and> i \<notin> timers_used ts \<and> timers_used ts' = insert i (timers_used ts) \<and> length ts' = length ts
    \<and> (\<forall>j. j \<noteq> i \<longrightarrow> ts' ! j = ts ! j)
    \<and> Timer_CallBack (int i) ts' = Inr (map_option (\<lambda>f. (f, int i, timer_ptr param)) (timer_func param))"
proof -
  let ?i = "nat (CreateTimerId ts)"
  have i: "?i < length ts" "\<not> timer_used (ts ! ?i)" "int ?i = CreateTimerId ts" "0 \<le> CreateTimerId ts"
    using CreateTimerId_free [OF assms(1)] by (simp_all add: CreateTimerId_eq)
  then show ?thesis
    using assms(2)
    by (intro exI [of _ ?i])
      (auto simp: Winmm_CreateTimer_def Let_def timers_used_def Timer_CallBack_def nth_list_update split: option.splits)
qed

text \<open>The table is left when every entry is in use: the entry past the end is written.\<close>

lemma Winmm_CreateTimer_full:
  "list_all timer_used ts \<Longrightarrow> hTimer \<noteq> 0 \<Longrightarrow> Winmm_CreateTimer hTimer param ts = Inl OutOfBounds"
  by (simp add: Winmm_CreateTimer_def CreateTimerId_full)

lemma Winmm_DeleteTimer_ok:
  assumes "i < length ts"
  shows "\<exists>ts'. Winmm_DeleteTimer (int i) ts = (0, ts', [TimeKillEvent (timer_os_id (ts ! i)), TimeEndPeriod 1])
    \<and> timers_used ts' = timers_used ts - {i} \<and> length ts' = length ts \<and> (\<forall>j. j \<noteq> i \<longrightarrow> ts' ! j = ts ! j)"
  using assms by (auto simp: Winmm_DeleteTimer_def timers_used_def nth_list_update Let_def split: if_splits)

lemma DeleteTimerAll_loop_used:
  "index + n = length ts \<Longrightarrow> timers_used (fst (DeleteTimerAll_loop n index ts)) = timers_used ts \<inter> {..<index}
    \<and> length (fst (DeleteTimerAll_loop n index ts)) = length ts
    \<and> length (snd (DeleteTimerAll_loop n index ts)) = 2 * card (timers_used ts \<inter> {index..})"
proof (induction n arbitrary: index ts)
  case 0
  have "timers_used ts \<inter> {index..} = {}" using 0 by (auto simp: timers_used_def)
  then show ?case using 0 by (auto simp: timers_used_def)
next
  case (Suc n)
  have fin: "finite (timers_used ts \<inter> {Suc index..})" by (simp add: timers_used_def)
  show ?case
  proof (cases "timer_used (ts ! index)")
    case True
    obtain ts' where d: "Winmm_DeleteTimer (int index) ts = (0, ts', [TimeKillEvent (timer_os_id (ts ! index)), TimeEndPeriod 1])"
        "timers_used ts' = timers_used ts - {index}" "length ts' = length ts"
      using Winmm_DeleteTimer_ok [of index ts] Suc.prems by auto
    have s: "timers_used ts \<inter> {index..} = insert index (timers_used ts \<inter> {Suc index..})"
      using True Suc.prems by (auto simp: timers_used_def order_le_less)
    have s': "(timers_used ts - {index}) \<inter> {Suc index..} = timers_used ts \<inter> {Suc index..}" by auto
    let ?r = "DeleteTimerAll_loop n (Suc index) ts'"
    have e: "DeleteTimerAll_loop (Suc n) index ts = (fst ?r, [TimeKillEvent (timer_os_id (ts ! index)), TimeEndPeriod 1] @ snd ?r)"
      using True d(1) by (simp split: prod.splits)
    have c: "card (timers_used ts \<inter> {index..}) = Suc (card (timers_used ts \<inter> {Suc index..}))"
      using s fin by simp
    have r: "timers_used (fst ?r) = (timers_used ts - {index}) \<inter> {..<Suc index}" "length (fst ?r) = length ts"
      "length (snd ?r) = 2 * card (timers_used ts \<inter> {Suc index..})"
      using Suc.IH [of "Suc index" ts'] Suc.prems d(2,3) s' by simp_all
    have "timers_used (fst ?r) = timers_used ts \<inter> {..<index}"
      unfolding r by auto
    then show ?thesis
      unfolding e c using r by simp
  next
    case False
    have s: "timers_used ts \<inter> {index..} = timers_used ts \<inter> {Suc index..}"
      using False by (auto simp: timers_used_def Suc_le_eq order_le_less)
    let ?r = "DeleteTimerAll_loop n (Suc index) ts"
    have e: "DeleteTimerAll_loop (Suc n) index ts = ?r"
      using False by (simp split: prod.splits)
    have i: "index \<notin> timers_used ts"
      using False by (simp add: timers_used_def)
    have r: "timers_used (fst ?r) = timers_used ts \<inter> {..<Suc index}" "length (fst ?r) = length ts"
      "length (snd ?r) = 2 * card (timers_used ts \<inter> {Suc index..})"
      using Suc.IH [of "Suc index" ts] Suc.prems by simp_all
    have "timers_used (fst ?r) = timers_used ts \<inter> {..<index}"
      unfolding r using i by (auto simp: less_Suc_eq)
    then show ?thesis
      unfolding e s using r by simp
  qed
qed

lemma DeleteTimerAll_none: "timers_used (fst (snd (DeleteTimerAll ts))) = {}"
  using DeleteTimerAll_loop_used [of 0 "length ts" ts] by (auto simp: DeleteTimerAll_def split: prod.splits)

text \<open>Every API function but \<open>InitializeTimer\<close> needs the implementation; \<open>InitializeTimer\<close> always creates it.\<close>

lemma InitializeTimer_ok: "\<exists>inst'. InitializeTimer inst = Inr (0, inst') \<and> has_impl inst'"
  by (simp add: InitializeTimer_def TimerInstance_Initialize_def Winmm_Initialize_def)

lemma InitializeTimer_again: "has_impl inst \<Longrightarrow> InitializeTimer inst = Inr (0, inst)"
  by (simp add: InitializeTimer_def TimerInstance_Initialize_def)

lemma TimerInstance_Initialize_never_100: "TimerInstance_Initialize ty inst \<noteq> Inr (100, inst')"
  by (auto simp: TimerInstance_Initialize_def Winmm_Initialize_def Let_def split: ActiveType.splits if_splits)

end
