(* ===== verification/Timer_Locker.thy ===== *)
theory Timer_Locker
  imports Timer_Ex
begin

text \<open>
  \<open>Locker\<close> of \<open>include/common/Locker.cpp\<close>, a counted event on a condition variable, and
  \<open>CTimerLockerManager\<close> of \<open>include/common/TimerLockerManager.cpp\<close>, which keeps for each period one
  list of named lockers and one system timer that wakes them. A \<open>CTimerLocker\<close> extends \<open>Locker\<close> as the
  class does. The manager's mutex makes each operation atomic. A callback is a value of type \<open>'c\<close>; the
  ones a timer event calls are listed in order. The field \<open>m_fps\<close> of a list, which nothing reads, is left out.
\<close>

section \<open>Locker\<close>

record Locker =
  m_lock_count :: int
  m_lock_max_count :: int

definition Locker_new :: Locker where
  "Locker_new = \<lparr>m_lock_count = 0, m_lock_max_count = 1\<rparr>"

definition WaitProc :: "'a Locker_scheme \<Rightarrow> bool \<times> 'a Locker_scheme" where
  "WaitProc l = (if m_lock_count l > 0 then (True, l\<lparr>m_lock_count := m_lock_count l - 1\<rparr>) else (False, l))"

text \<open>
  The waiting loop of the condition variable: the predicate is tested, and again after each of the
  listed changes that other threads make to the locker. \<open>Wait\<close> has no value while it blocks; the
  timed \<open>Wait\<close> returns the last test.
\<close>

fun wait_loop :: "('a Locker_scheme \<Rightarrow> 'a Locker_scheme) list \<Rightarrow> 'a Locker_scheme \<Rightarrow> bool \<times> 'a Locker_scheme" where
  "wait_loop [] l = WaitProc l"
| "wait_loop (e # es) l = (let (ok, l') = WaitProc l in if ok then (True, l') else wait_loop es (e l'))"

definition Wait :: "('a Locker_scheme \<Rightarrow> 'a Locker_scheme) list \<Rightarrow> 'a Locker_scheme \<Rightarrow> (bool \<times> 'a Locker_scheme) option" where
  "Wait es l = (let (ok, l') = wait_loop es l in if ok then Some (True, l') else None)"

definition Wait_ms :: "('a Locker_scheme \<Rightarrow> 'a Locker_scheme) list \<Rightarrow> 'a Locker_scheme \<Rightarrow> bool \<times> 'a Locker_scheme" where
  "Wait_ms es l = wait_loop es l"

definition WakeUp :: "'a Locker_scheme \<Rightarrow> 'a Locker_scheme" where
  "WakeUp l = l\<lparr>m_lock_count := m_lock_max_count l\<rparr>"

definition SetWakeUpCount :: "int \<Rightarrow> 'a Locker_scheme \<Rightarrow> 'a Locker_scheme" where
  "SetWakeUpCount count l = l\<lparr>m_lock_max_count := count\<rparr>"

definition GetLockCount :: "'a Locker_scheme \<Rightarrow> int" where
  "GetLockCount l = m_lock_max_count l"

section \<open>Timer lockers\<close>

record 'c CTimerLocker = Locker +
  tl_name :: string
  tl_period :: int
  tl_period_count :: int
  tl_callback :: "'c option"

definition CTimerLocker_new :: "string \<Rightarrow> int \<Rightarrow> 'c option \<Rightarrow> 'c CTimerLocker" where
  "CTimerLocker_new name period callback =
     \<lparr>m_lock_count = 0, m_lock_max_count = 1, tl_name = name, tl_period = period, tl_period_count = 0,
      tl_callback = callback\<rparr>"

definition SetCallback :: "'c option \<Rightarrow> 'c CTimerLocker \<Rightarrow> 'c CTimerLocker" where
  "SetCallback callback l = l\<lparr>tl_callback := callback\<rparr>"

definition TL_GetName :: "'c CTimerLocker \<Rightarrow> string" where
  "TL_GetName l = tl_name l"

definition GetPeriod :: "'c CTimerLocker \<Rightarrow> int" where
  "GetPeriod l = tl_period l"

definition GetFps :: "'c CTimerLocker \<Rightarrow> int cpp" where
  "GetFps l = (if tl_period l = 0 then Inl DivideByZero else Inr (c_div 1000 (tl_period l)))"

text \<open>The closure a list gives its timer calls \<open>CallbackTimer\<close> with the pointer as the period.\<close>

datatype timer_closure = CallbackTimer_closure | Other_closure nat

type_synonym timer_table = "timer_closure ParamTimer list"

record 'c CTimerLockerList =
  list_period :: int
  list_timer_id :: int
  list_lockers :: "'c CTimerLocker list"

definition LockerList_new :: "int \<Rightarrow> 'c CTimerLockerList" where
  "LockerList_new ms = \<lparr>list_period = ms, list_timer_id = -1, list_lockers = []\<rparr>"

definition LockerList_Initialize :: "TimerInstance \<Rightarrow> nat \<Rightarrow> 'c CTimerLockerList \<Rightarrow> timer_table
    \<Rightarrow> (int \<times> 'c CTimerLockerList \<times> timer_table \<times> timer_call list) cpp" where
  "LockerList_Initialize inst hTimer l ts =
     cbind (CreateTimer inst hTimer (list_period l) (Some CallbackTimer_closure) (list_period l) ts)
       (\<lambda>(r, tid, ts', cs). Inr (r, l\<lparr>list_timer_id := tid\<rparr>, ts', cs))"

definition LockerList_Finalize :: "TimerInstance \<Rightarrow> 'c CTimerLockerList \<Rightarrow> timer_table
    \<Rightarrow> ('c CTimerLockerList \<times> timer_table \<times> timer_call list) cpp" where
  "LockerList_Finalize inst l ts =
     cbind (DeleteTimer inst (list_timer_id l) ts) (\<lambda>(r, ts', cs). Inr (l\<lparr>list_lockers := []\<rparr>, ts', cs))"

definition HasTimer :: "'c CTimerLockerList \<Rightarrow> bool" where
  "HasTimer l = (if -1 = list_timer_id l then False else True)"

definition AddItem :: "'c CTimerLocker \<Rightarrow> 'c CTimerLockerList \<Rightarrow> int \<times> 'c CTimerLockerList" where
  "AddItem item l = (0, l\<lparr>list_lockers := list_lockers l @ [item]\<rparr>)"

text \<open>\<open>DeleteItem\<close> also gives the locker that was woken and destroyed.\<close>

fun DeleteItem_loop :: "string \<Rightarrow> 'c CTimerLocker list \<Rightarrow> 'c CTimerLocker option \<times> 'c CTimerLocker list" where
  "DeleteItem_loop name [] = (None, [])"
| "DeleteItem_loop name (p # ps) =
     (if tl_name p = name then (Some (WakeUp p), ps)
      else let (d, ps') = DeleteItem_loop name ps in (d, p # ps'))"

definition DeleteItem :: "string \<Rightarrow> 'c CTimerLockerList \<Rightarrow> bool \<times> 'c CTimerLocker option \<times> 'c CTimerLockerList" where
  "DeleteItem name l =
     (let (d, ps) = DeleteItem_loop name (list_lockers l) in (d \<noteq> None, d, l\<lparr>list_lockers := ps\<rparr>))"

fun GetItem_loop :: "string \<Rightarrow> 'c CTimerLocker list \<Rightarrow> 'c CTimerLocker option" where
  "GetItem_loop name [] = None"
| "GetItem_loop name (p # ps) = (if tl_name p = name then Some p else GetItem_loop name ps)"

definition GetItem :: "string \<Rightarrow> 'c CTimerLockerList \<Rightarrow> 'c CTimerLocker option" where
  "GetItem name l = GetItem_loop name (list_lockers l)"

definition IsEmpty :: "'c CTimerLockerList \<Rightarrow> bool" where
  "IsEmpty l \<longleftrightarrow> list_lockers l = []"

text \<open>The loop body of \<open>SendEvent\<close>: was the locker woken, and the locker after it.\<close>

definition tick_item :: "int \<Rightarrow> 'c CTimerLocker \<Rightarrow> bool \<times> 'c CTimerLocker" where
  "tick_item period p =
     (let p1 = p\<lparr>tl_period_count := c_int (tl_period_count p + period)\<rparr> in
      if tl_period_count p1 \<ge> tl_period p1 then (True, (WakeUp p1)\<lparr>tl_period_count := 0\<rparr>) else (False, p1))"

fun SendEvent_loop :: "int \<Rightarrow> 'c CTimerLocker list \<Rightarrow> 'c CTimerLocker list \<times> 'c list" where
  "SendEvent_loop period [] = ([], [])"
| "SendEvent_loop period (p # ps) =
     (let (woken, p') = tick_item period p;
          calls = (if woken then (case tl_callback p' of None \<Rightarrow> [] | Some f \<Rightarrow> [f]) else []);
          (ps', calls') = SendEvent_loop period ps in
      (p' # ps', calls @ calls'))"

definition SendEvent :: "'c CTimerLockerList \<Rightarrow> 'c CTimerLockerList \<times> 'c list" where
  "SendEvent l =
     (if list_lockers l = [] then (l, [])
      else let (ps, calls) = SendEvent_loop (list_period l) (list_lockers l) in (l\<lparr>list_lockers := ps\<rparr>, calls))"

section \<open>Manager\<close>

text \<open>The \<open>std::map\<close> from periods to lists, in ascending order of keys.\<close>

type_synonym 'c map_timers = "(int \<times> 'c CTimerLockerList) list"

record 'c LockerManager =
  m_timer_min_resolution :: int
  m_map_timers :: "'c map_timers"

fun map_put :: "'k::linorder \<Rightarrow> 'v \<Rightarrow> ('k \<times> 'v) list \<Rightarrow> ('k \<times> 'v) list" where
  "map_put k v [] = [(k, v)]"
| "map_put k v ((k', v') # m) =
     (if k < k' then (k, v) # (k', v') # m else if k = k' then (k, v) # m else (k', v') # map_put k v m)"

definition LockerManager_new :: "TimerInstance \<Rightarrow> ('c LockerManager \<times> TimerInstance) cpp" where
  "LockerManager_new inst =
     cbind (InitializeTimer inst) (\<lambda>(r, inst'). Inr (\<lparr>m_timer_min_resolution = 10, m_map_timers = []\<rparr>, inst'))"

fun destroy_lists :: "TimerInstance \<Rightarrow> 'c map_timers \<Rightarrow> timer_table \<Rightarrow> (timer_table \<times> timer_call list) cpp" where
  "destroy_lists inst [] ts = Inr (ts, [])"
| "destroy_lists inst ((k, l) # m) ts =
     cbind (LockerList_Finalize inst l ts) (\<lambda>(l', ts', cs).
       cbind (destroy_lists inst m ts') (\<lambda>(ts'', cs'). Inr (ts'', cs @ cs')))"

definition LockerManager_destroy :: "TimerInstance \<Rightarrow> 'c LockerManager \<Rightarrow> timer_table \<Rightarrow> (timer_table \<times> timer_call list) cpp" where
  "LockerManager_destroy inst mgr ts = destroy_lists inst (m_map_timers mgr) ts"

definition SetTimerMinResolution :: "int \<Rightarrow> 'c LockerManager \<Rightarrow> 'c LockerManager" where
  "SetTimerMinResolution ms mgr = mgr\<lparr>m_timer_min_resolution := ms\<rparr>"

definition GetTimerMinResolution :: "'c LockerManager \<Rightarrow> int" where
  "GetTimerMinResolution mgr = m_timer_min_resolution mgr"

definition CallbackTimer :: "int \<Rightarrow> int \<Rightarrow> 'c LockerManager \<Rightarrow> 'c LockerManager \<times> 'c list" where
  "CallbackTimer tid ms mgr =
     (case map_of (m_map_timers mgr) ms of
        None \<Rightarrow> (mgr, [])
      | Some l \<Rightarrow> let (l', calls) = SendEvent l in (mgr\<lparr>m_map_timers := map_put ms l' (m_map_timers mgr)\<rparr>, calls))"

text \<open>What a timer event of the system does.\<close>

definition timer_event :: "int \<Rightarrow> timer_table \<Rightarrow> 'c LockerManager \<Rightarrow> ('c LockerManager \<times> 'c list) cpp" where
  "timer_event tid ts mgr =
     cbind (Timer_CallBack tid ts) (\<lambda>call.
       case call of
         Some (CallbackTimer_closure, i, ptr) \<Rightarrow> Inr (CallbackTimer i ptr mgr)
       | _ \<Rightarrow> Inr (mgr, []))"

text \<open>The list returned is named by its key. A list that gets no timer is destroyed.\<close>

definition GetList :: "TimerInstance \<Rightarrow> nat \<Rightarrow> int \<Rightarrow> 'c LockerManager \<Rightarrow> timer_table
    \<Rightarrow> (int option \<times> 'c LockerManager \<times> timer_table \<times> timer_call list) cpp" where
  "GetList inst hTimer ms mgr ts =
     (case map_of (m_map_timers mgr) ms of
        None \<Rightarrow>
          cbind (LockerList_Initialize inst hTimer (LockerList_new ms) ts) (\<lambda>(r, l, ts', cs).
            if r \<noteq> 0
            then cbind (LockerList_Finalize inst l ts') (\<lambda>(l', ts'', cs'). Inr (None, mgr, ts'', cs @ cs'))
            else Inr (Some ms, mgr\<lparr>m_map_timers := map_put ms l (m_map_timers mgr)\<rparr>, ts', cs))
      | Some l \<Rightarrow> Inr (Some ms, mgr, ts, []))"

text \<open>The loop of \<open>GetDivisor\<close> from \<open>ii\<close>, over the \<open>n\<close> numbers up to \<open>ms\<close>.\<close>

fun divisor_loop :: "nat \<Rightarrow> int \<Rightarrow> int \<Rightarrow> int \<Rightarrow> int cpp" where
  "divisor_loop 0 ii ms ret = Inr ret"
| "divisor_loop (Suc n) ii ms ret =
     (if ii = 0 then Inl DivideByZero
      else if 0 = c_mod ms ii then Inr ii
      else divisor_loop n (ii + 1) ms ret)"

definition GetDivisor :: "int \<Rightarrow> 'c LockerManager \<Rightarrow> int cpp" where
  "GetDivisor ms mgr =
     (let r = GetTimerMinResolution mgr in divisor_loop (nat (ms - r + 1)) r ms r)"

text \<open>\<open>Finalize\<close> of an emptied list, and then its destructor, which calls it again.\<close>

fun DeleteTimerLocker_loop :: "TimerInstance \<Rightarrow> string \<Rightarrow> 'c map_timers \<Rightarrow> timer_table
    \<Rightarrow> (bool \<times> 'c map_timers \<times> timer_table \<times> timer_call list) cpp" where
  "DeleteTimerLocker_loop inst name [] ts = Inr (False, [], ts, [])"
| "DeleteTimerLocker_loop inst name ((k, l) # m) ts =
     (let (found, d, l') = DeleteItem name l in
      if found
      then if IsEmpty l'
           then cbind (LockerList_Finalize inst l' ts) (\<lambda>(l'', ts', cs).
                  cbind (LockerList_Finalize inst l'' ts') (\<lambda>(l''', ts'', cs'). Inr (True, m, ts'', cs @ cs')))
           else Inr (True, (k, l') # m, ts, [])
      else cbind (DeleteTimerLocker_loop inst name m ts) (\<lambda>(r, m', ts', cs). Inr (r, (k, l) # m', ts', cs)))"

definition DeleteTimerLocker :: "TimerInstance \<Rightarrow> string \<Rightarrow> 'c LockerManager \<Rightarrow> timer_table
    \<Rightarrow> (bool \<times> 'c LockerManager \<times> timer_table \<times> timer_call list) cpp" where
  "DeleteTimerLocker inst name mgr ts =
     cbind (DeleteTimerLocker_loop inst name (m_map_timers mgr) ts)
       (\<lambda>(r, m, ts', cs). Inr (r, mgr\<lparr>m_map_timers := m\<rparr>, ts', cs))"

text \<open>The same by the pointer \<open>GetTimerLockerByTime\<close> returned.\<close>

definition DeleteTimerLocker_ptr :: "TimerInstance \<Rightarrow> 'c CTimerLocker option \<Rightarrow> 'c LockerManager \<Rightarrow> timer_table
    \<Rightarrow> (bool \<times> 'c LockerManager \<times> timer_table \<times> timer_call list) cpp" where
  "DeleteTimerLocker_ptr inst p mgr ts =
     (case p of None \<Rightarrow> Inl NullPointer | Some l \<Rightarrow> DeleteTimerLocker inst (TL_GetName l) mgr ts)"

definition GetTimerLockerByTime :: "TimerInstance \<Rightarrow> nat \<Rightarrow> string \<Rightarrow> int \<Rightarrow> 'c option \<Rightarrow> 'c LockerManager \<Rightarrow> timer_table
    \<Rightarrow> ('c CTimerLocker option \<times> 'c LockerManager \<times> timer_table \<times> timer_call list) cpp" where
  "GetTimerLockerByTime inst hTimer name ms0 callback mgr ts =
     (let ms = (if ms0 < GetTimerMinResolution mgr then GetTimerMinResolution mgr else ms0) in
      cbind (DeleteTimerLocker inst name mgr ts) (\<lambda>(r, mgr1, ts1, cs1).
        cbind (GetDivisor ms mgr1) (\<lambda>d.
          cbind (GetList inst hTimer d mgr1 ts1) (\<lambda>(k, mgr2, ts2, cs2).
            case k of
              None \<Rightarrow> Inr (None, mgr2, ts2, cs1 @ cs2)
            | Some key \<Rightarrow>
                let l = the (map_of (m_map_timers mgr2) key) in
                if HasTimer l = False then Inr (None, mgr2, ts2, cs1 @ cs2)
                else let item = CTimerLocker_new name ms callback in
                  Inr (Some item,
                       mgr2\<lparr>m_map_timers := map_put key (snd (AddItem item l)) (m_map_timers mgr2)\<rparr>, ts2, cs1 @ cs2)))))"

definition GetTimerLockerByFps :: "TimerInstance \<Rightarrow> nat \<Rightarrow> string \<Rightarrow> int \<Rightarrow> 'c option \<Rightarrow> 'c LockerManager \<Rightarrow> timer_table
    \<Rightarrow> ('c CTimerLocker option \<times> 'c LockerManager \<times> timer_table \<times> timer_call list) cpp" where
  "GetTimerLockerByFps inst hTimer name fps callback mgr ts =
     (if 0 = fps then Inr (None, mgr, ts, [])
      else GetTimerLockerByTime inst hTimer name (c_div 1000 fps) callback mgr ts)"

section \<open>Lockers: counts and periods\<close>

text \<open>Successive calls of \<open>WaitProc\<close>: one \<open>WakeUp\<close> lets as many waits through as the count set.\<close>

fun waits_through :: "nat \<Rightarrow> 'a Locker_scheme \<Rightarrow> bool" where
  "waits_through 0 l = True"
| "waits_through (Suc n) l = (let (ok, l') = WaitProc l in ok \<and> waits_through n l')"

lemma waits_through_iff: "waits_through n l \<longleftrightarrow> int n \<le> max 0 (m_lock_count l)"
  by (induction n arbitrary: l) (auto simp: WaitProc_def)

lemma WakeUp_lets_through: "waits_through n (WakeUp l) \<longleftrightarrow> int n \<le> max 0 (GetLockCount l)"
  by (simp add: waits_through_iff WakeUp_def GetLockCount_def)

lemma wait_loop_blocked: "m_lock_count l \<le> 0 \<Longrightarrow> Wait [] l = None"
  by (simp add: Wait_def WaitProc_def)

lemma Wait_after_WakeUp:
  "0 < m_lock_max_count l \<Longrightarrow> \<exists>l'. Wait (WakeUp # es) l = Some (True, l')"
  by (cases es) (auto simp: Wait_def WaitProc_def WakeUp_def Let_def)

text \<open>A locker of a list with period \<open>d\<close>.\<close>

definition locker_ok :: "int \<Rightarrow> 'c CTimerLocker \<Rightarrow> bool" where
  "locker_ok d p \<longleftrightarrow> 0 < d \<and> d dvd tl_period p \<and> d dvd tl_period_count p \<and> 0 \<le> tl_period_count p
     \<and> tl_period_count p < tl_period p \<and> int32_range (tl_period p)"

lemma locker_ok_new:
  "0 < d \<Longrightarrow> d dvd ms \<Longrightarrow> 0 < ms \<Longrightarrow> int32_range ms \<Longrightarrow> locker_ok d (CTimerLocker_new name ms callback)"
  by (simp add: locker_ok_def CTimerLocker_new_def)

text \<open>A tick counts in steps of \<open>d\<close>, modulo the period, and wakes exactly when the count returns to zero.\<close>

lemma tick_item_ok:
  assumes "locker_ok d p"
  shows "fst (tick_item d p) \<longleftrightarrow> tl_period_count p + d = tl_period p"
    "tl_period_count (snd (tick_item d p)) = (tl_period_count p + d) mod tl_period p"
    "tl_period (snd (tick_item d p)) = tl_period p"
    "tl_name (snd (tick_item d p)) = tl_name p"
    "tl_callback (snd (tick_item d p)) = tl_callback p"
    "locker_ok d (snd (tick_item d p))"
proof -
  obtain a b where ab: "tl_period p = d * a" "tl_period_count p = d * b"
    using assms unfolding locker_ok_def dvd_def by blast
  have d: "0 < d" and ba: "b < a" and b0: "0 \<le> b"
    using assms unfolding locker_ok_def ab by (auto simp: zero_le_mult_iff)
  have "d * (b + 1) \<le> d * a" using d ba by (intro mult_left_mono) auto
  then have le: "tl_period_count p + d \<le> tl_period p" by (simp add: ab algebra_simps)
  have "int32_range (tl_period_count p + d)"
    using assms le d by (auto simp: int32_range_def locker_ok_def)
  then have c: "c_int (tl_period_count p + d) = tl_period_count p + d" by (rule c_int_id)
  have pos: "0 \<le> tl_period_count p" and dv: "d dvd tl_period_count p" using assms by (auto simp: locker_ok_def)
  show "fst (tick_item d p) \<longleftrightarrow> tl_period_count p + d = tl_period p"
    using le by (auto simp: tick_item_def c Let_def)
  show "tl_period_count (snd (tick_item d p)) = (tl_period_count p + d) mod tl_period p"
    using le pos d by (auto simp: tick_item_def c Let_def WakeUp_def)
  show "tl_period (snd (tick_item d p)) = tl_period p" "tl_name (snd (tick_item d p)) = tl_name p"
    "tl_callback (snd (tick_item d p)) = tl_callback p"
    by (simp_all add: tick_item_def Let_def WakeUp_def)
  show "locker_ok d (snd (tick_item d p))"
    using assms le pos d dv by (auto simp: tick_item_def c Let_def WakeUp_def locker_ok_def)
qed

text \<open>The number of times a locker is woken in \<open>n\<close> ticks.\<close>

fun wakes :: "nat \<Rightarrow> int \<Rightarrow> 'c CTimerLocker \<Rightarrow> nat" where
  "wakes 0 d p = 0"
| "wakes (Suc n) d p = (if fst (tick_item d p) then 1 else 0) + wakes n d (snd (tick_item d p))"

lemma wakes_eq:
  assumes "locker_ok d p"
  shows "int (wakes n d p) = (tl_period_count p + int n * d) div tl_period p"
  using assms
proof (induction n arbitrary: p)
  case 0
  then show ?case by (simp add: locker_ok_def)
next
  case (Suc n)
  let ?q = "snd (tick_item d p)" and ?P = "tl_period p" and ?c = "tl_period_count p"
  have P: "0 < ?P" using Suc.prems by (simp add: locker_ok_def)
  have le: "?c + d \<le> ?P"
  proof -
    obtain a b where ab: "?P = d * a" "?c = d * b"
      using Suc.prems unfolding locker_ok_def dvd_def by blast
    have "b < a" "0 < d" using Suc.prems unfolding locker_ok_def ab by auto
    then have "d * (b + 1) \<le> d * a" by (intro mult_left_mono) auto
    then show ?thesis by (simp add: ab algebra_simps)
  qed
  have c0: "0 \<le> ?c" "0 < d" using Suc.prems by (auto simp: locker_ok_def)
  have ih: "int (wakes n d ?q) = ((?c + d) mod ?P + int n * d) div ?P"
    using Suc.IH [of ?q] tick_item_ok [OF Suc.prems] by simp
  have "(?c + int (Suc n) * d) div ?P = (?c + d + int n * d) div ?P"
    by (simp add: algebra_simps)
  also have "\<dots> = (?c + d) div ?P + ((?c + d) mod ?P + int n * d) div ?P"
  proof -
    have "?c + d + int n * d = ((?c + d) mod ?P + int n * d) + ((?c + d) div ?P) * ?P"
      by simp
    then show ?thesis using P by (metis add.commute div_mult_self1 less_irrefl)
  qed
  also have "(?c + d) div ?P = (if ?c + d = ?P then 1 else 0)"
    using le c0 P by (auto simp: div_pos_pos_trivial)
  finally show ?case
    using ih tick_item_ok(1) [OF Suc.prems] by simp
qed

lemma SendEvent_loop_eq:
  "SendEvent_loop d ps = (map (snd \<circ> tick_item d) ps,
     concat (map (\<lambda>p. if fst (tick_item d p) then (case tl_callback p of None \<Rightarrow> [] | Some f \<Rightarrow> [f]) else []) ps))"
  by (induction ps) (auto simp: tick_item_def Let_def WakeUp_def split: prod.splits if_splits)

text \<open>The divisor found divides the time, and is at least the resolution.\<close>

lemma divisor_loop_ok:
  assumes "0 < ii" "ii \<le> ms" "int n = ms - ii + 1"
  shows "\<exists>d. divisor_loop n ii ms ret = Inr d \<and> ii \<le> d \<and> d \<le> ms \<and> d dvd ms \<and> (\<forall>e. ii \<le> e \<longrightarrow> e < d \<longrightarrow> \<not> e dvd ms)"
  using assms
proof (induction n arbitrary: ii)
  case 0
  then show ?case by simp
next
  case (Suc n)
  have m: "c_mod ms ii = ms mod ii" using Suc.prems by (simp add: c_mod_nonneg)
  show ?case
  proof (cases "ii dvd ms")
    case True
    then show ?thesis using Suc.prems m by (auto simp: dvd_eq_mod_eq_0)
  next
    case False
    then have "ii \<noteq> ms" by auto
    then obtain d where d: "divisor_loop n (ii + 1) ms ret = Inr d" "ii + 1 \<le> d" "d \<le> ms" "d dvd ms"
      "\<forall>e. ii + 1 \<le> e \<longrightarrow> e < d \<longrightarrow> \<not> e dvd ms"
      using Suc.IH [of "ii + 1"] Suc.prems by auto
    have "\<forall>e. ii \<le> e \<longrightarrow> e < d \<longrightarrow> \<not> e dvd ms"
      using d(5) False by (metis add.commute zless_add1_eq not_less le_less)
    then show ?thesis using d False Suc.prems m by (auto simp: dvd_eq_mod_eq_0)
  qed
qed

lemma GetDivisor_ok:
  assumes "0 < m_timer_min_resolution mgr" "m_timer_min_resolution mgr \<le> ms"
  shows "\<exists>d. GetDivisor ms mgr = Inr d \<and> m_timer_min_resolution mgr \<le> d \<and> d \<le> ms \<and> d dvd ms
    \<and> (\<forall>e. m_timer_min_resolution mgr \<le> e \<longrightarrow> e < d \<longrightarrow> \<not> e dvd ms)"
  using divisor_loop_ok [OF assms] assms(2) by (simp add: GetDivisor_def GetTimerMinResolution_def Let_def)

section \<open>The invariant of the manager\<close>

text \<open>
  Every list of the map has its key as period, an entry of its own in the timer table whose event comes
  back with that key, lockers with names of their own, and at least one.
\<close>

definition list_names :: "'c CTimerLockerList \<Rightarrow> string set" where
  "list_names l = tl_name ` set (list_lockers l)"

definition slot_ok :: "timer_table \<Rightarrow> int \<Rightarrow> 'c CTimerLockerList \<Rightarrow> bool" where
  "slot_ok ts k l \<longleftrightarrow> (\<exists>i < length ts. list_timer_id l = int i \<and> timer_used (ts ! i)
     \<and> timer_func (ts ! i) = Some CallbackTimer_closure \<and> timer_ptr (ts ! i) = k)"

definition list_ok :: "int \<Rightarrow> 'c CTimerLockerList \<Rightarrow> bool" where
  "list_ok k l \<longleftrightarrow> list_period l = k \<and> 0 < k \<and> distinct (map tl_name (list_lockers l)) \<and> list_all (locker_ok k) (list_lockers l)"

definition list_before :: "int \<times> 'c CTimerLockerList \<Rightarrow> int \<times> 'c CTimerLockerList \<Rightarrow> bool" where
  "list_before x y \<longleftrightarrow> fst x < fst y \<and> list_timer_id (snd x) \<noteq> list_timer_id (snd y)
     \<and> list_names (snd x) \<inter> list_names (snd y) = {}"

definition timers_inv :: "timer_table \<Rightarrow> 'c map_timers \<Rightarrow> bool" where
  "timers_inv ts m \<longleftrightarrow> sorted_wrt list_before m
     \<and> list_all (\<lambda>(k, l). list_ok k l \<and> slot_ok ts k l \<and> list_lockers l \<noteq> []) m"

definition manager_inv :: "TimerInstance \<Rightarrow> timer_table \<Rightarrow> 'c LockerManager \<Rightarrow> bool" where
  "manager_inv inst ts mgr \<longleftrightarrow> has_impl inst \<and> 0 < m_timer_min_resolution mgr
     \<and> int32_range (m_timer_min_resolution mgr) \<and> timers_inv ts (m_map_timers mgr)"

definition map_names :: "'c map_timers \<Rightarrow> string set" where
  "map_names m = (\<Union>x \<in> set m. list_names (snd x))"

lemma timers_inv_Cons:
  "timers_inv ts ((k, l) # m) \<longleftrightarrow> list_all (list_before (k, l)) m \<and> list_ok k l \<and> slot_ok ts k l
     \<and> list_lockers l \<noteq> [] \<and> timers_inv ts m"
  by (auto simp: timers_inv_def list_all_iff)

lemma timers_inv_Nil [simp]: "timers_inv ts []"
  by (simp add: timers_inv_def)

text \<open>The invariant only reads the entries of the lists.\<close>

lemma timers_inv_other:
  assumes "timers_inv ts m" "length ts' = length ts"
    "\<And>x i. x \<in> set m \<Longrightarrow> list_timer_id (snd x) = int i \<Longrightarrow> i < length ts \<Longrightarrow> ts' ! i = ts ! i"
  shows "timers_inv ts' m"
  using assms by (fastforce simp: timers_inv_def list_all_iff slot_ok_def)

lemma DeleteItem_loop_eq:
  "DeleteItem_loop name ps = (map_option WakeUp (find (\<lambda>p. tl_name p = name) ps),
     takeWhile (\<lambda>p. tl_name p \<noteq> name) ps @ tl (dropWhile (\<lambda>p. tl_name p \<noteq> name) ps))"
  by (induction ps) (auto split: prod.splits)

lemma DeleteItem_loop_distinct:
  "distinct (map tl_name ps) \<Longrightarrow> snd (DeleteItem_loop name ps) = filter (\<lambda>p. tl_name p \<noteq> name) ps"
proof (induction ps)
  case (Cons p ps)
  then have "tl_name p \<notin> tl_name ` set ps" by simp
  then have "\<forall>q \<in> set ps. tl_name q \<noteq> tl_name p" by (metis imageI)
  then have "filter (\<lambda>q. tl_name q \<noteq> tl_name p) ps = ps" by (simp add: filter_id_conv)
  then show ?case using Cons by (auto simp: split_beta)
qed simp

lemma DeleteItem_loop_found: "fst (DeleteItem_loop name ps) \<noteq> None \<longleftrightarrow> name \<in> tl_name ` set ps"
  by (induction ps) (auto simp: split_beta)

lemma DeleteItem_ok:
  assumes "list_ok k l"
  shows "fst (DeleteItem name l) \<longleftrightarrow> name \<in> list_names l"
    "list_names (snd (snd (DeleteItem name l))) = list_names l - {name}"
    "list_ok k (snd (snd (DeleteItem name l)))"
    "list_timer_id (snd (snd (DeleteItem name l))) = list_timer_id l"
proof -
  have d: "distinct (map tl_name (list_lockers l))" using assms by (simp add: list_ok_def)
  show "fst (DeleteItem name l) \<longleftrightarrow> name \<in> list_names l"
    using DeleteItem_loop_found [of name "list_lockers l"] by (simp add: DeleteItem_def split_beta list_names_def)
  show "list_names (snd (snd (DeleteItem name l))) = list_names l - {name}"
    using DeleteItem_loop_distinct [OF d, of name] by (auto simp: DeleteItem_def split_beta list_names_def)
  show "list_ok k (snd (snd (DeleteItem name l)))"
    using assms DeleteItem_loop_distinct [OF d, of name]
    by (auto simp: DeleteItem_def split_beta list_ok_def list_all_iff distinct_map_filter)
  show "list_timer_id (snd (snd (DeleteItem name l))) = list_timer_id l"
    by (simp add: DeleteItem_def split_beta)
qed

lemma LockerList_Finalize_ok:
  assumes "has_impl inst" "slot_ok ts k l"
  shows "\<exists>ts' cs. LockerList_Finalize inst l ts = Inr (l\<lparr>list_lockers := []\<rparr>, ts', cs) \<and> length ts' = length ts
    \<and> (\<forall>j. list_timer_id l \<noteq> int j \<longrightarrow> ts' ! j = ts ! j)
    \<and> cs = [TimeKillEvent (timer_os_id (ts ! nat (list_timer_id l))), TimeEndPeriod 1]"
proof -
  obtain i where i: "i < length ts" "list_timer_id l = int i" using assms(2) by (auto simp: slot_ok_def)
  then show ?thesis
    using assms(1) Winmm_DeleteTimer_ok [OF i(1)]
    by (auto simp: LockerList_Finalize_def DeleteTimer_def TimerInstance_DeleteTimer_def)
qed

text \<open>The second \<open>Finalize\<close>, from the destructor, finds the entry still there and kills the event again.\<close>

lemma LockerList_Finalize_again:
  assumes "has_impl inst" "list_timer_id l = int i" "i < length ts"
  shows "\<exists>ts' cs. LockerList_Finalize inst l ts = Inr (l\<lparr>list_lockers := []\<rparr>, ts', cs) \<and> length ts' = length ts
    \<and> (\<forall>j. list_timer_id l \<noteq> int j \<longrightarrow> ts' ! j = ts ! j)"
  using assms Winmm_DeleteTimer_ok [OF assms(3)]
  by (auto simp: LockerList_Finalize_def DeleteTimer_def TimerInstance_DeleteTimer_def)

lemma DeleteTimerLocker_loop_ok:
  assumes "has_impl inst" "timers_inv ts m"
  shows "\<exists>m' ts' cs. DeleteTimerLocker_loop inst name m ts = Inr (name \<in> map_names m, m', ts', cs)
    \<and> timers_inv ts' m' \<and> length ts' = length ts \<and> map_names m' = map_names m - {name}
    \<and> (\<forall>j. (\<forall>x \<in> set m. list_timer_id (snd x) \<noteq> int j) \<longrightarrow> ts' ! j = ts ! j)
    \<and> (\<forall>x' \<in> set m'. \<exists>x \<in> set m. fst x' = fst x \<and> list_timer_id (snd x') = list_timer_id (snd x)
         \<and> list_names (snd x') \<subseteq> list_names (snd x))"
  using assms(2)
proof (induction m arbitrary: ts)
  case Nil
  then show ?case by (simp add: map_names_def)
next
  case (Cons a m)
  obtain k l where a: "a = (k, l)" by (cases a)
  obtain found d l' where di: "DeleteItem name l = (found, d, l')" by (cases "DeleteItem name l")
  have hd: "list_all (list_before (k, l)) m" "list_ok k l" "slot_ok ts k l" "list_lockers l \<noteq> []" "timers_inv ts m"
    using Cons.prems by (auto simp: a timers_inv_Cons)
  note ok = DeleteItem_ok [OF hd(2), of name, unfolded di, simplified]
  have apart: "\<And>x. x \<in> set m \<Longrightarrow> list_timer_id (snd x) \<noteq> list_timer_id l"
    "\<And>x. x \<in> set m \<Longrightarrow> list_names (snd x) \<inter> list_names l = {}"
    using hd(1) by (auto simp: list_all_iff list_before_def)
  show ?case
  proof (cases found)
    case False
    obtain m' ts' cs where r: "DeleteTimerLocker_loop inst name m ts = Inr (name \<in> map_names m, m', ts', cs)"
      "timers_inv ts' m'" "length ts' = length ts" "map_names m' = map_names m - {name}"
      "\<forall>j. (\<forall>x \<in> set m. list_timer_id (snd x) \<noteq> int j) \<longrightarrow> ts' ! j = ts ! j"
      "\<forall>x' \<in> set m'. \<exists>x \<in> set m. fst x' = fst x \<and> list_timer_id (snd x') = list_timer_id (snd x)
         \<and> list_names (snd x') \<subseteq> list_names (snd x)"
      using Cons.IH [OF hd(5)] by blast
    have nn: "name \<notin> list_names l" using ok(1) False by simp
    have "\<And>i. list_timer_id l = int i \<Longrightarrow> ts' ! i = ts ! i"
      using r(5) apart(1) by metis
    then have "slot_ok ts' k l"
      using hd(3) r(3) by (auto simp: slot_ok_def)
    moreover have "list_all (list_before (k, l)) m'"
      using hd(1) r(6) by (fastforce simp: list_all_iff list_before_def)
    ultimately have "timers_inv ts' ((k, l) # m')"
      using hd r(2) by (simp add: timers_inv_Cons)
    then show ?thesis
      using r nn False by (auto simp: a di map_names_def)
  next
    case True
    have nin: "name \<in> list_names l" "name \<notin> map_names m"
      using ok(1) True apart(2) by (auto simp: map_names_def)
    show ?thesis
    proof (cases "IsEmpty l'")
      case False
      have "timers_inv ts ((k, l') # m)"
        using hd ok False by (auto simp: timers_inv_Cons IsEmpty_def slot_ok_def list_all_iff list_before_def)
      then show ?thesis
        using ok nin True False by (auto simp: a di map_names_def)
    next
      case e: True
      have s': "slot_ok ts k l'" using hd(3) ok(4) by (simp add: slot_ok_def)
      obtain ts1 cs1 where f1: "LockerList_Finalize inst l' ts = Inr (l'\<lparr>list_lockers := []\<rparr>, ts1, cs1)" "length ts1 = length ts"
        "\<forall>j. list_timer_id l' \<noteq> int j \<longrightarrow> ts1 ! j = ts ! j"
        using LockerList_Finalize_ok [OF assms(1) s'] by blast
      obtain i where i: "list_timer_id l' = int i" "i < length ts" using s' by (auto simp: slot_ok_def)
      have i2: "list_timer_id (l'\<lparr>list_lockers := []\<rparr>) = int i" "i < length ts1" using i f1(2) by simp_all
      obtain l2 ts2 cs2 where f2: "LockerList_Finalize inst (l'\<lparr>list_lockers := []\<rparr>) ts1 = Inr (l2, ts2, cs2)"
        "length ts2 = length ts1" "\<forall>j. int i \<noteq> int j \<longrightarrow> ts2 ! j = ts1 ! j"
        using LockerList_Finalize_again [OF assms(1) i2] i2(1) by metis
      have "list_names l - {name} = {}" using e ok(2) by (auto simp: IsEmpty_def list_names_def)
      then have nm: "list_names l = {name}" using nin(1) by auto
      have keep: "\<forall>j. j \<noteq> i \<longrightarrow> ts2 ! j = ts ! j" using f1(3) f2(3) i(1) by simp
      have "timers_inv ts2 m"
      proof (rule timers_inv_other [OF hd(5)])
        show "length ts2 = length ts" using f1(2) f2(2) by simp
        fix x j assume "x \<in> set m" "list_timer_id (snd x) = int j"
        then show "ts2 ! j = ts ! j" using keep apart(1) [of x] i(1) ok(4) by auto
      qed
      then show ?thesis
        using f1 f2 True e nin nm keep i ok(4) by (auto simp: a di map_names_def)
    qed
  qed
qed

lemma DeleteTimerLocker_ok:
  assumes "manager_inv inst ts mgr"
  shows "\<exists>m' ts' cs. DeleteTimerLocker inst name mgr ts = Inr (name \<in> map_names (m_map_timers mgr), mgr\<lparr>m_map_timers := m'\<rparr>, ts', cs)
    \<and> manager_inv inst ts' (mgr\<lparr>m_map_timers := m'\<rparr>) \<and> length ts' = length ts
    \<and> map_names m' = map_names (m_map_timers mgr) - {name} \<and> (list_all timer_used ts' \<longrightarrow> list_all timer_used ts)"
proof -
  obtain m' ts' cs where
    r: "DeleteTimerLocker_loop inst name (m_map_timers mgr) ts = Inr (name \<in> map_names (m_map_timers mgr), m', ts', cs)"
    "timers_inv ts' m'" "length ts' = length ts" "map_names m' = map_names (m_map_timers mgr) - {name}"
    and keep: "\<forall>j. (\<forall>x \<in> set (m_map_timers mgr). list_timer_id (snd x) \<noteq> int j) \<longrightarrow> ts' ! j = ts ! j"
    using DeleteTimerLocker_loop_ok [of inst ts "m_map_timers mgr" name] assms unfolding manager_inv_def by blast
  have "timer_used (ts ! j)" if "list_all timer_used ts'" "j < length ts" for j
  proof (rule ccontr)
    assume n: "\<not> timer_used (ts ! j)"
    have "\<forall>x \<in> set (m_map_timers mgr). list_timer_id (snd x) \<noteq> int j"
      using assms n by (auto simp: manager_inv_def timers_inv_def list_all_iff slot_ok_def)
    then show False using keep that r(3) n by (auto simp: list_all_length)
  qed
  then show ?thesis
    using assms r by (auto simp: DeleteTimerLocker_def manager_inv_def list_all_length)
qed

text \<open>Replacing or adding one list.\<close>

lemma set_map_put: "set (map_put k v m) \<subseteq> insert (k, v) (set m)"
  by (induction k v m rule: map_put.induct) auto

lemma map_put_mem: "(k, v) \<in> set (map_put k v m)"
  by (induction k v m rule: map_put.induct) auto

lemma map_put_other: "x \<in> set m \<Longrightarrow> fst x \<noteq> k \<Longrightarrow> x \<in> set (map_put k v m)"
  by (induction k v m rule: map_put.induct) auto

lemma map_of_map_put: "map_of (map_put k v m) = (map_of m)(k \<mapsto> v)"
  by (induction k v m rule: map_put.induct) auto

lemma map_put_sorted:
  assumes "sorted_wrt list_before m"
    "\<And>x. x \<in> set m \<Longrightarrow> fst x \<noteq> k \<Longrightarrow> list_timer_id v \<noteq> list_timer_id (snd x) \<and> list_names v \<inter> list_names (snd x) = {}"
  shows "sorted_wrt list_before (map_put k v m)
    \<and> (\<forall>x \<in> set (map_put k v m). x = (k, v) \<or> x \<in> set m \<and> fst x \<noteq> k)"
  using assms
proof (induction k v m rule: map_put.induct)
  case (1 k v)
  then show ?case by simp
next
  case (2 k v k' v' m)
  consider "k < k'" | "k = k'" | "k' < k" by linarith
  then show ?case
  proof cases
    case 1
    then show ?thesis using 2(2,3) by (fastforce simp: list_before_def)
  next
    case eq: 2
    then show ?thesis using 2(2,3) by (fastforce simp: list_before_def)
  next
    case 3
    then have ih: "sorted_wrt list_before (map_put k v m)"
      "\<forall>x \<in> set (map_put k v m). x = (k, v) \<or> x \<in> set m \<and> fst x \<noteq> k"
      using 2(1) 2(2) 2(3) by auto
    have "list_before (k', v') (k, v)"
      using 3 2(3) [of "(k', v')"] by (auto simp: list_before_def)
    then have "\<forall>x \<in> set (map_put k v m). list_before (k', v') x"
      using ih(2) 2(2) by auto
    then show ?thesis using 3 ih by auto
  qed
qed

lemma timers_inv_put:
  assumes "timers_inv ts m" "list_ok k v" "slot_ok ts k v" "list_lockers v \<noteq> []"
    "\<And>x. x \<in> set m \<Longrightarrow> fst x \<noteq> k \<Longrightarrow> list_timer_id v \<noteq> list_timer_id (snd x) \<and> list_names v \<inter> list_names (snd x) = {}"
  shows "timers_inv ts (map_put k v m)"
  using map_put_sorted [of m k v] assms by (auto simp: timers_inv_def list_all_iff)

lemma timers_inv_apart:
  assumes "timers_inv ts m" "x \<in> set m" "y \<in> set m" "fst x \<noteq> fst y"
  shows "list_timer_id (snd x) \<noteq> list_timer_id (snd y) \<and> list_names (snd x) \<inter> list_names (snd y) = {}"
  using assms
proof (induction m)
  case (Cons a m)
  have ax: "\<And>z. z \<in> set m \<Longrightarrow> list_before a z" "timers_inv ts m"
    using Cons.prems(1) by (auto simp: timers_inv_def)
  consider "x = a" "y = a" | "x = a" "y \<in> set m" | "x \<in> set m" "y = a" | "x \<in> set m" "y \<in> set m"
    using Cons.prems by auto
  then show ?case
  proof cases
    case 1
    then show ?thesis using Cons.prems by simp
  next
    case 2
    then show ?thesis using ax(1) [of y] by (simp add: list_before_def)
  next
    case 3
    then show ?thesis using ax(1) [of x] by (auto simp: list_before_def)
  next
    case 4
    then show ?thesis using Cons.IH ax(2) Cons.prems(4) by blast
  qed
qed simp

text \<open>Timer events keep the invariant and the names.\<close>

lemma SendEvent_ok:
  assumes "list_ok k l"
  shows "list_ok k (fst (SendEvent l))" "list_names (fst (SendEvent l)) = list_names l"
    "list_timer_id (fst (SendEvent l)) = list_timer_id l" "list_lockers (fst (SendEvent l)) = map (snd \<circ> tick_item k) (list_lockers l)"
proof -
  have k: "list_period l = k" using assms by (simp add: list_ok_def)
  show ls: "list_lockers (fst (SendEvent l)) = map (snd \<circ> tick_item k) (list_lockers l)"
    using k by (simp add: SendEvent_def SendEvent_loop_eq)
  have nm: "tl_name (snd (tick_item k p)) = tl_name p" for p :: "'a CTimerLocker"
    by (simp add: tick_item_def Let_def WakeUp_def)
  show "list_names (fst (SendEvent l)) = list_names l"
    by (simp add: list_names_def ls image_image nm)
  show "list_timer_id (fst (SendEvent l)) = list_timer_id l"
    by (simp add: SendEvent_def SendEvent_loop_eq)
  have "list_period (fst (SendEvent l)) = k" using k by (simp add: SendEvent_def SendEvent_loop_eq)
  moreover have "map tl_name (list_lockers (fst (SendEvent l))) = map tl_name (list_lockers l)"
    by (simp add: ls nm)
  moreover have "list_all (locker_ok k) (list_lockers (fst (SendEvent l)))"
    using assms tick_item_ok(6) by (auto simp: list_ok_def ls list_all_iff)
  ultimately show "list_ok k (fst (SendEvent l))"
    using assms by (simp add: list_ok_def)
qed

lemma CallbackTimer_inv:
  assumes "manager_inv inst ts mgr"
  shows "manager_inv inst ts (fst (CallbackTimer tid ms mgr))"
proof (cases "map_of (m_map_timers mgr) ms")
  case None
  then show ?thesis using assms by (simp add: CallbackTimer_def)
next
  case (Some l)
  have mem: "(ms, l) \<in> set (m_map_timers mgr)" using Some by (rule map_of_SomeD)
  have inv: "timers_inv ts (m_map_timers mgr)" using assms by (simp add: manager_inv_def)
  have l: "list_ok ms l" "slot_ok ts ms l" "list_lockers l \<noteq> []"
    using inv mem by (auto simp: timers_inv_def list_all_iff)
  note e = SendEvent_ok [OF l(1)]
  have "timers_inv ts (map_put ms (fst (SendEvent l)) (m_map_timers mgr))"
  proof (rule timers_inv_put [OF inv e(1)])
    show "slot_ok ts ms (fst (SendEvent l))" using l(2) e(3) by (simp add: slot_ok_def)
    show "list_lockers (fst (SendEvent l)) \<noteq> []" using l(3) e(4) by simp
    fix x assume "x \<in> set (m_map_timers mgr)" "fst x \<noteq> ms"
    then show "list_timer_id (fst (SendEvent l)) \<noteq> list_timer_id (snd x) \<and> list_names (fst (SendEvent l)) \<inter> list_names (snd x) = {}"
      using timers_inv_apart [OF inv mem, of x] e(2,3) by simp
  qed
  then show ?thesis
    using assms Some by (simp add: CallbackTimer_def manager_inv_def split_beta)
qed

lemma timer_event_inv:
  assumes "manager_inv inst ts mgr" "timer_event tid ts mgr = Inr (mgr', calls)"
  shows "manager_inv inst ts mgr'"
proof -
  from assms(2) obtain call where c: "Timer_CallBack tid ts = Inr call"
    "(case call of Some (CallbackTimer_closure, i, ptr) \<Rightarrow> Inr (CallbackTimer i ptr mgr) | _ \<Rightarrow> Inr (mgr, [])) = (Inr (mgr', calls) :: _ cpp)"
    by (auto simp: timer_event_def cbind_Inr_iff)
  show ?thesis
  proof (cases call)
    case None
    then show ?thesis using c assms(1) by simp
  next
    case (Some t)
    then show ?thesis
      using c assms(1) CallbackTimer_inv [OF assms(1)] by (cases t; cases "fst t") (auto, metis fst_conv)
  qed
qed

text \<open>The event of a list's timer comes to that list.\<close>

lemma timer_event_list:
  assumes "manager_inv inst ts mgr" "(k, l) \<in> set (m_map_timers mgr)"
  shows "timer_event (list_timer_id l) ts mgr = Inr (CallbackTimer (list_timer_id l) k mgr)"
proof -
  have "slot_ok ts k l" using assms by (auto simp: manager_inv_def timers_inv_def list_all_iff)
  then show ?thesis by (auto simp: slot_ok_def timer_event_def Timer_CallBack_def)
qed

text \<open>Getting a list: an old one, a new one with a free entry of the table, or none when the system gives no timer.\<close>

lemma GetList_old: "map_of (m_map_timers mgr) d = Some l \<Longrightarrow> GetList inst hTimer d mgr ts = Inr (Some d, mgr, ts, [])"
  by (simp add: GetList_def)

lemma GetList_new:
  assumes "has_impl inst" "map_of (m_map_timers mgr) d = None" "timers_inv ts (m_map_timers mgr)"
    "\<not> list_all timer_used ts" "hTimer \<noteq> 0"
  shows "\<exists>l ts' cs. GetList inst hTimer d mgr ts = Inr (Some d, mgr\<lparr>m_map_timers := map_put d l (m_map_timers mgr)\<rparr>, ts', cs)
    \<and> length ts' = length ts \<and> list_period l = d \<and> list_lockers l = [] \<and> slot_ok ts' d l
    \<and> timers_inv ts' (m_map_timers mgr) \<and> (\<forall>x \<in> set (m_map_timers mgr). list_timer_id (snd x) \<noteq> list_timer_id l)
    \<and> cs = [TimeBeginPeriod 1, TimeSetEvent d 1 (list_timer_id l)]"
proof -
  let ?param = "ParamTimer_new\<lparr>timer_ms := d, timer_func := Some CallbackTimer_closure, timer_ptr := d\<rparr>"
  obtain n where i: "n < length ts" "\<not> timer_used (ts ! n)" "CreateTimerId ts = int n"
    using CreateTimerId_free [OF assms(4)] by (auto simp: CreateTimerId_eq)
  define e where "e = \<lparr>timer_os_id = hTimer, timer_ms = d, timer_ptr = d, timer_used = True,
    timer_func = Some CallbackTimer_closure\<rparr>"
  define l :: "'a CTimerLockerList" where "l = (LockerList_new d)\<lparr>list_timer_id := int n\<rparr>"
  have g: "GetList inst hTimer d mgr ts = Inr (Some d, mgr\<lparr>m_map_timers := map_put d l (m_map_timers mgr)\<rparr>, ts[n := e],
      [TimeBeginPeriod 1, TimeSetEvent d 1 (list_timer_id l)])"
    using assms i unfolding GetList_def l_def e_def
    by (simp add: LockerList_Initialize_def CreateTimer_def TimerInstance_CreateTimer_def Winmm_CreateTimer_def
        LockerList_new_def Let_def)
  have u: "\<forall>x \<in> set (m_map_timers mgr). list_timer_id (snd x) \<noteq> int n"
  proof
    fix x assume "x \<in> set (m_map_timers mgr)"
    then have "slot_ok ts (fst x) (snd x)" using assms(3) by (auto simp: timers_inv_def list_all_iff)
    then show "list_timer_id (snd x) \<noteq> int n" using i(2) unfolding slot_ok_def by (metis of_nat_eq_iff)
  qed
  have "timers_inv (ts[n := e]) (m_map_timers mgr)"
    by (rule timers_inv_other [OF assms(3)]) (use u in \<open>auto simp: nth_list_update\<close>)
  moreover have "slot_ok (ts[n := e]) d l"
    using i(1) by (auto simp: slot_ok_def l_def e_def intro!: exI [of _ n])
  moreover have "list_timer_id l = int n" "list_period l = d" "list_lockers l = []"
    by (simp_all add: l_def LockerList_new_def)
  ultimately show ?thesis using g u by (intro exI [of _ l] exI conjI) (assumption | simp)+
qed

lemma GetList_none:
  assumes "has_impl inst" "map_of (m_map_timers mgr) d = None" "timers_inv ts (m_map_timers mgr)" "hTimer = 0"
  shows "\<exists>ts' cs. GetList inst hTimer d mgr ts = Inr (None, mgr, ts', cs) \<and> length ts' = length ts
    \<and> timers_inv ts' (m_map_timers mgr)"
proof -
  let ?i = "length (takeWhile timer_used ts)"
  have u: "\<forall>x \<in> set (m_map_timers mgr). list_timer_id (snd x) \<noteq> int ?i"
  proof
    fix x assume "x \<in> set (m_map_timers mgr)"
    then have "slot_ok ts (fst x) (snd x)" using assms(3) by (auto simp: timers_inv_def list_all_iff)
    then show "list_timer_id (snd x) \<noteq> int ?i"
      using nth_length_takeWhile [of timer_used ts] by (auto simp: slot_ok_def)
  qed
  obtain ts' where t: "fst (snd (Winmm_DeleteTimer (int ?i) ts)) = ts'"
    "length ts' = length ts" "\<forall>j. j \<noteq> ?i \<longrightarrow> ts' ! j = ts ! j"
  proof (cases "?i < length ts")
    case True
    then show ?thesis using that Winmm_DeleteTimer_ok [OF True] by auto
  next
    case False
    then show ?thesis using that [of ts] by (simp add: Winmm_DeleteTimer_def)
  qed
  have "timers_inv ts' (m_map_timers mgr)"
    by (rule timers_inv_other [OF assms(3) t(2)]) (use u t(3) in auto)
  then show ?thesis
    using assms t
    by (auto simp: GetList_def LockerList_Initialize_def CreateTimer_def TimerInstance_CreateTimer_def Winmm_CreateTimer_def
        LockerList_new_def LockerList_Finalize_def DeleteTimer_def TimerInstance_DeleteTimer_def CreateTimerId_eq split_beta Let_def)
qed

text \<open>A locker named \<open>name\<close> is added to the list \<open>v\<close> of key \<open>k\<close>.\<close>

lemma timers_inv_add:
  assumes "timers_inv ts m" "slot_ok ts k v" "list_period v = k" "list_all (locker_ok k) (list_lockers v)" "0 < k"
    "distinct (map tl_name (list_lockers v))" "locker_ok k item" "tl_name item \<notin> map_names m" "tl_name item \<notin> list_names v"
    "\<And>x. x \<in> set m \<Longrightarrow> fst x \<noteq> k \<Longrightarrow> list_timer_id v \<noteq> list_timer_id (snd x) \<and> list_names v \<inter> list_names (snd x) = {}"
  shows "timers_inv ts (map_put k (snd (AddItem item v)) m)"
proof (rule timers_inv_put [OF assms(1)])
  show "list_ok k (snd (AddItem item v))"
    using assms by (auto simp: AddItem_def list_ok_def list_names_def)
  show "slot_ok ts k (snd (AddItem item v))" using assms(2) by (simp add: AddItem_def slot_ok_def)
  show "list_lockers (snd (AddItem item v)) \<noteq> []" by (simp add: AddItem_def)
  fix x assume x: "x \<in> set m" "fst x \<noteq> k"
  then show "list_timer_id (snd (AddItem item v)) \<noteq> list_timer_id (snd x)
      \<and> list_names (snd (AddItem item v)) \<inter> list_names (snd x) = {}"
    using assms(8) assms(10) [OF x] by (auto simp: AddItem_def list_names_def map_names_def)
qed

lemma map_put_put: "map_put k v (map_put k w m) = map_put k v m"
  by (induction k w m rule: map_put.induct) auto

lemma map_names_put:
  "map_names (map_put k v m) \<union> (case map_of m k of None \<Rightarrow> {} | Some l \<Rightarrow> list_names l) = map_names m \<union> list_names v"
proof (induction k v m rule: map_put.induct)
  case (2 k v k' v' m)
  have "k < k' \<Longrightarrow> (case map_of m k of None \<Rightarrow> {} | Some l \<Rightarrow> list_names l) \<subseteq> map_names m"
    by (auto simp: map_names_def split: option.splits dest!: map_of_SomeD)
  then show ?case using 2 by (auto simp: map_names_def)
qed (simp add: map_names_def)

lemma map_names_add:
  assumes "map_of m k = None \<and> list_names v = {} \<or> map_of m k = Some v"
  shows "map_names (map_put k (snd (AddItem item v)) m) = insert (tl_name item) (map_names m)"
proof -
  have a: "list_names (snd (AddItem item v)) = insert (tl_name item) (list_names v)"
    by (auto simp: AddItem_def list_names_def)
  have b: "list_names (snd (AddItem item v)) \<subseteq> map_names (map_put k (snd (AddItem item v)) m)"
    using UN_upper [OF map_put_mem [of k "snd (AddItem item v)" m], of "\<lambda>x. list_names (snd x)"]
    by (simp add: map_names_def)
  have c: "map_of m k = Some v \<Longrightarrow> list_names v \<subseteq> map_names m"
    by (force simp: map_names_def dest!: map_of_SomeD)
  show ?thesis
    using map_names_put [of k "snd (AddItem item v)" m] assms a b c by (auto split: option.splits)
qed

text \<open>The step that adds the locker, on a list \<open>v\<close> old or new.\<close>

lemma add_locker_inv:
  fixes callback :: "'c option" and m :: "'c map_timers"
  assumes inv: "timers_inv ts m" and d: "0 < d" "d dvd ms" "0 < ms" "int32_range ms" and n: "name \<notin> map_names m"
    and v: "map_of m d = Some v \<or> map_of m d = None \<and> list_lockers v = [] \<and> list_period v = d \<and> slot_ok ts d v
      \<and> (\<forall>x \<in> set m. list_timer_id (snd x) \<noteq> list_timer_id v)"
  defines "m' \<equiv> map_put d (snd (AddItem (CTimerLocker_new name ms callback) v)) m"
  shows "timers_inv ts m'" "map_names m' = insert name (map_names m)"
proof -
  let ?item = "CTimerLocker_new name ms callback"
  have nm: "tl_name ?item = name" by (simp add: CTimerLocker_new_def)
  show "map_names m' = insert name (map_names m)"
    using map_names_add [of m d v ?item] v nm by (auto simp: m'_def list_names_def)
  have vv: "slot_ok ts d v" "list_period v = d" "list_all (locker_ok d) (list_lockers v)" "distinct (map tl_name (list_lockers v))"
    using v inv by (auto simp: timers_inv_def list_all_iff list_ok_def dest!: map_of_SomeD)
  have nn: "tl_name ?item \<notin> list_names v"
    using v n nm by (auto simp: list_names_def map_names_def dest!: map_of_SomeD)
  have ap: "list_timer_id v \<noteq> list_timer_id (snd x) \<and> list_names v \<inter> list_names (snd x) = {}"
    if "x \<in> set m" "fst x \<noteq> d" for x
    using v
  proof (elim disjE conjE)
    assume "map_of m d = Some v"
    then show ?thesis using timers_inv_apart [OF inv, of "(d, v)" x] that map_of_SomeD by fastforce
  next
    assume "list_lockers v = []" "\<forall>x \<in> set m. list_timer_id (snd x) \<noteq> list_timer_id v"
    then show ?thesis using that by (auto simp: list_names_def)
  qed
  show "timers_inv ts m'"
    unfolding m'_def
    by (rule timers_inv_add [OF inv vv(1,2,3) d(1) vv(4) locker_ok_new [OF d] _ nn ap]) (use n nm in simp_all)
qed

lemma GetTimerLockerByTime_ok:
  assumes inv: "manager_inv inst ts mgr" and ms: "int32_range ms0"
    and r: "GetTimerLockerByTime inst hTimer name ms0 callback mgr ts = Inr (item, mgr', ts', cs)"
  shows "manager_inv inst ts' mgr'
    \<and> map_names (m_map_timers mgr') = (map_names (m_map_timers mgr) - {name}) \<union> (if item = None then {} else {name})
    \<and> (item = None \<or> item = Some (CTimerLocker_new name (max ms0 (m_timer_min_resolution mgr)) callback))
    \<and> (hTimer \<noteq> 0 \<longrightarrow> item \<noteq> None)"
proof -
  let ?res = "m_timer_min_resolution mgr" and ?ms = "max ms0 (m_timer_min_resolution mgr)"
  have res: "has_impl inst" "0 < ?res" "int32_range ?res" using inv by (auto simp: manager_inv_def)
  have ms': "0 < ?ms" "?res \<le> ?ms" "int32_range ?ms" "(if ms0 < ?res then ?res else ms0) = ?ms"
    using ms res by (auto simp: max_def)
  obtain m1 ts1 cs1 where del: "DeleteTimerLocker inst name mgr ts =
      Inr (name \<in> map_names (m_map_timers mgr), mgr\<lparr>m_map_timers := m1\<rparr>, ts1, cs1)"
    "manager_inv inst ts1 (mgr\<lparr>m_map_timers := m1\<rparr>)" "map_names m1 = map_names (m_map_timers mgr) - {name}"
    using DeleteTimerLocker_ok [OF inv] by blast
  let ?mgr1 = "mgr\<lparr>m_map_timers := m1\<rparr>"
  have inv1: "timers_inv ts1 m1" using del(2) by (simp add: manager_inv_def)
  obtain d where d: "GetDivisor ?ms ?mgr1 = Inr d" "?res \<le> d" "d dvd ?ms"
    using GetDivisor_ok [of ?mgr1 ?ms] res ms' by auto
  have dpos: "0 < d" using d res by simp
  have n: "name \<notin> map_names m1" using del(3) by simp
  have r': "cbind (GetList inst hTimer d ?mgr1 ts1) (\<lambda>(k, mgr2, ts2, cs2).
      case k of None \<Rightarrow> Inr (None, mgr2, ts2, cs1 @ cs2)
      | Some key \<Rightarrow> let l = the (map_of (m_map_timers mgr2) key) in
          if HasTimer l = False then Inr (None, mgr2, ts2, cs1 @ cs2)
          else let item = CTimerLocker_new name ?ms callback in
            Inr (Some item, mgr2\<lparr>m_map_timers := map_put key (snd (AddItem item l)) (m_map_timers mgr2)\<rparr>, ts2, cs1 @ cs2))
      = Inr (item, mgr', ts', cs)"
    using r unfolding GetTimerLockerByTime_def GetTimerMinResolution_def ms'(4) Let_def by (simp add: del(1) d(1))
  have mi: "manager_inv inst tsx (mgr\<lparr>m_map_timers := m\<rparr>) \<longleftrightarrow> timers_inv tsx m" for tsx m
    using res by (simp add: manager_inv_def)
  show ?thesis
  proof (cases "map_of m1 d")
    case (Some v)
    have "slot_ok ts1 d v" using inv1 Some by (auto simp: timers_inv_def list_all_iff dest!: map_of_SomeD)
    then have h: "HasTimer v" by (auto simp: HasTimer_def slot_ok_def)
    note a = add_locker_inv [OF inv1 dpos d(3) ms'(1,3) n disjI1 [OF Some], of callback]
    have e: "item = Some (CTimerLocker_new name ?ms callback)" "ts' = ts1"
      "mgr' = mgr\<lparr>m_map_timers := map_put d (snd (AddItem (CTimerLocker_new name ?ms callback) v)) m1\<rparr>"
      using r' GetList_old [of ?mgr1 d v inst hTimer ts1] Some h by (simp_all add: Let_def)
    show ?thesis
      unfolding e mi del(3) [symmetric] using a(1,2)
      by (intro conjI impI; simp)
  next
    case None
    show ?thesis
    proof (cases "hTimer = 0")
      case True
      then obtain ts2 cs2 where g: "GetList inst hTimer d ?mgr1 ts1 = Inr (None, ?mgr1, ts2, cs2)" "timers_inv ts2 m1"
        using GetList_none [OF res(1), of ?mgr1 d ts1 hTimer] None inv1 by auto
      have e: "item = None" "ts' = ts2" "mgr' = ?mgr1"
        using r' g(1) by simp_all
      show ?thesis
        unfolding e mi del(3) [symmetric] using g(2) True by simp
    next
      case h0: False
      have "\<not> list_all timer_used ts1"
      proof
        assume "list_all timer_used ts1"
        then have "GetList inst hTimer d ?mgr1 ts1 = Inl OutOfBounds"
          using None h0 res
          by (simp add: Winmm_CreateTimer_full GetList_def LockerList_Initialize_def CreateTimer_def TimerInstance_CreateTimer_def)
        then show False using r' by simp
      qed
      then obtain l ts2 cs2 where g: "GetList inst hTimer d ?mgr1 ts1 = Inr (Some d, mgr\<lparr>m_map_timers := map_put d l m1\<rparr>, ts2, cs2)"
        "list_period l = d" "list_lockers l = []" "slot_ok ts2 d l" "timers_inv ts2 m1"
        "\<forall>x \<in> set m1. list_timer_id (snd x) \<noteq> list_timer_id l"
        using GetList_new [OF res(1), of ?mgr1 d ts1 hTimer] None inv1 h0 by auto
      have h: "HasTimer l" using g(4) by (auto simp: HasTimer_def slot_ok_def)
      note a = add_locker_inv [OF g(5) dpos d(3) ms'(1,3) n, of l callback]
      have e: "item = Some (CTimerLocker_new name ?ms callback)" "ts' = ts2"
        "mgr' = mgr\<lparr>m_map_timers := map_put d (snd (AddItem (CTimerLocker_new name ?ms callback) l)) m1\<rparr>"
        using r' g(1) h by (simp_all add: Let_def map_of_map_put map_put_put)
      show ?thesis
        unfolding e mi del(3) [symmetric]
        using a None g by simp
    qed
  qed
qed

end
