(* ===== verification/H264_Sink.thy ===== *)
theory H264_Sink
  imports Decoder_Types Util_Strings
begin

text \<open>
  \<open>H264Sink\<close> of \<open>src/live555/rtsp_H264Sink.cpp\<close>, which puts the RTP packets of a frame together, and the
  fixed-capacity buffer \<open>array_ex\<close> it uses. The live555 library is not code of this program: the
  parameter sets of the SDP, the marker bit of a packet and its bytes are arguments. The branch for
  \<open>ParseMode_ForStupidRtspSever\<close> is unreachable (the mode is a local constant) and in \<open>Sink_Modes\<close>; the logging is left out.
\<close>

section \<open>Code\<close>

text \<open>\<open>array_ex<T, N>\<close>: \<open>N\<close> is the length of the array.\<close>

record array_ex =
  ax_data :: "u8 list"
  ax_len :: nat

definition array_append :: "u8 list \<Rightarrow> nat \<Rightarrow> array_ex \<Rightarrow> (nat \<times> array_ex) cpp" where
  "array_append buffer n a =
     (if ax_len a + n > length (ax_data a) then Inr (0, a)
      else cbind (rd_n buffer 0 n) (\<lambda>bs. cbind (wr (ax_data a) (ax_len a) bs) (\<lambda>d.
        Inr (ax_len a + n, a\<lparr>ax_data := d, ax_len := ax_len a + n\<rparr>))))"

definition array_len :: "array_ex \<Rightarrow> nat" where
  "array_len a = ax_len a"

definition array_clear :: "array_ex \<Rightarrow> array_ex" where
  "array_clear a = a\<lparr>ax_len := 0\<rparr>"

definition g_rtp_packet_buffer_size :: nat where
  "g_rtp_packet_buffer_size = 425984"

definition g_H264StartCode :: "u8 list" where
  "g_H264StartCode = [0, 0, 0, 1]"

text \<open>The frame handed to the session's callback, with the bytes its buffer points to.\<close>

record SessionVideoFrame =
  vf_codec_id :: int
  vf_buf_size :: int
  vf_buffer :: "u8 list"
  vf_key_frame :: bool
  vf_timestamp :: timeval

record H264Sink =
  has_frame_callback :: bool    \<comment> \<open>the session has a \<open>callback_video_frame_received\<close>\<close>
  m_header_buffer :: array_ex
  m_rtp_packet_buffer :: array_ex
  m_received_buffer :: array_ex

text \<open>One parameter set after the other; \<open>None\<close>: live555 gave none.\<close>

fun sprop_loop :: "u8 list list \<Rightarrow> array_ex \<Rightarrow> array_ex cpp" where
  "sprop_loop [] h = Inr h"
| "sprop_loop (r # rs) h =
     (if length r = 0 then sprop_loop rs h
      else cbind (rd r 0) (\<lambda>b.
        let nal_unit_type = b AND 0x1F in
        if nal_unit_type = 7 then
          cbind (array_append g_H264StartCode (length g_H264StartCode) h) (\<lambda>(_, h1).
          cbind (array_append r (length r) h1) (\<lambda>(_, h2). sprop_loop rs h2))
        else if nal_unit_type = 8 then
          cbind (array_append g_H264StartCode (length g_H264StartCode) h) (\<lambda>(_, h1).
          cbind (array_append r (length r) h1) (\<lambda>(_, h2). sprop_loop rs h2))
        else sprop_loop rs h))"

definition setSpropRecords :: "u8 list list option \<Rightarrow> H264Sink \<Rightarrow> (bool \<times> H264Sink) cpp" where
  "setSpropRecords sprops s =
     cbind (case sprops of None \<Rightarrow> Inr s
            | Some rs \<Rightarrow> cbind (sprop_loop rs (array_clear (m_header_buffer s))) (\<lambda>h. Inr (s\<lparr>m_header_buffer := h\<rparr>)))
       (\<lambda>s'. Inr (if array_len (m_header_buffer s') > 0 then True else False, s'))"

definition isKeyFrame :: "H264Sink \<Rightarrow> bool cpp" where
  "isKeyFrame s =
     cbind (rd (ax_data (m_rtp_packet_buffer s)) 0) (\<lambda>nNALHeader.
       let nal_unit_type = nNALHeader AND 0x1F in Inr (if nal_unit_type = 5 then True else False))"

definition appendPacket :: "u8 list \<Rightarrow> nat \<Rightarrow> H264Sink \<Rightarrow> H264Sink cpp" where
  "appendPacket data n s = cbind (array_append data n (m_received_buffer s)) (\<lambda>(_, a). Inr (s\<lparr>m_received_buffer := a\<rparr>))"

definition appendH264HeaderPacket :: "H264Sink \<Rightarrow> H264Sink cpp" where
  "appendH264HeaderPacket s = appendPacket (ax_data (m_header_buffer s)) (array_len (m_header_buffer s)) s"

definition appendH264BodyPacket :: "nat \<Rightarrow> H264Sink \<Rightarrow> H264Sink cpp" where
  "appendH264BodyPacket recv_packet_size s =
     cbind (appendPacket g_H264StartCode (length g_H264StartCode) s) (\<lambda>s1.
       appendPacket (ax_data (m_rtp_packet_buffer s1)) recv_packet_size s1)"

text \<open>\<open>marker\<close> is the marker bit of the source's current packet, \<open>None\<close> when there is no source.\<close>

definition afterGettingFrame :: "nat \<Rightarrow> bool option \<Rightarrow> timeval \<Rightarrow> H264Sink \<Rightarrow> (SessionVideoFrame list \<times> H264Sink) cpp" where
  "afterGettingFrame recv_packet_size marker presentationTime s =
     cbind (isKeyFrame s) (\<lambda>key_frame.
       case marker of
         None \<Rightarrow> Inr ([], s)
       | Some is_packet_finished \<Rightarrow>
           cbind (if is_packet_finished then appendH264HeaderPacket s else Inr s) (\<lambda>s1.
           cbind (appendH264BodyPacket recv_packet_size s1) (\<lambda>s2.
             if is_packet_finished then
               Inr (if has_frame_callback s2
                    then [\<lparr>vf_codec_id = VCODEC_ID_int VCODEC_ID_H264,
                           vf_buf_size = c_int (int (array_len (m_received_buffer s2))),
                           vf_buffer = take (array_len (m_received_buffer s2)) (ax_data (m_received_buffer s2)),
                           vf_key_frame = key_frame, vf_timestamp = presentationTime\<rparr>]
                    else [],
                    s2\<lparr>m_received_buffer := array_clear (m_received_buffer s2)\<rparr>)
             else Inr ([], s2))))"

text \<open>
  A packet arrives: live555 writes its bytes into the packet buffer and calls back. A history of packets
  with their marker bits.
\<close>

definition receive_packet :: "timeval \<Rightarrow> u8 list \<times> bool \<Rightarrow> H264Sink \<Rightarrow> (SessionVideoFrame list \<times> H264Sink) cpp" where
  "receive_packet t p s =
     (let a = m_rtp_packet_buffer s;
          s' = s\<lparr>m_rtp_packet_buffer := a\<lparr>ax_data := fst p @ drop (length (fst p)) (ax_data a)\<rparr>\<rparr> in
      afterGettingFrame (length (fst p)) (Some (snd p)) t s')"

primrec receive_all :: "timeval \<Rightarrow> (u8 list \<times> bool) list \<Rightarrow> H264Sink \<Rightarrow> (SessionVideoFrame list \<times> H264Sink) cpp" where
  "receive_all t [] s = Inr ([], s)"
| "receive_all t (p # ps) s =
     cbind (receive_packet t p s) (\<lambda>(fs, s'). cbind (receive_all t ps s') (\<lambda>(fs', s''). Inr (fs @ fs', s'')))"

section \<open>Buffers\<close>

definition array_contents :: "array_ex \<Rightarrow> u8 list" where
  "array_contents a = take (ax_len a) (ax_data a)"

definition array_inv :: "nat \<Rightarrow> array_ex \<Rightarrow> bool" where
  "array_inv cap a \<longleftrightarrow> length (ax_data a) = cap \<and> ax_len a \<le> cap"

text \<open>What an append does to the contents: all or nothing.\<close>

definition put :: "nat \<Rightarrow> 'a list \<Rightarrow> 'a list \<Rightarrow> 'a list" where
  "put cap xs ys = (if length xs + length ys > cap then xs else xs @ ys)"

lemma put_fits: "length xs + length ys \<le> cap \<Longrightarrow> put cap xs ys = xs @ ys"
  by (simp add: put_def)

lemma length_put: "length xs \<le> cap \<Longrightarrow> length (put cap xs ys) \<le> cap"
  by (simp add: put_def)

lemma length_array_contents: "array_inv cap a \<Longrightarrow> length (array_contents a) = ax_len a"
  by (simp add: array_contents_def array_inv_def)

lemma array_append_ok:
  assumes "array_inv cap a" "n \<le> length buffer"
  shows "\<exists>r a'. array_append buffer n a = Inr (r, a') \<and> array_inv cap a'
    \<and> array_contents a' = put cap (array_contents a) (take n buffer)"
proof (cases "ax_len a + n > cap")
  case True
  then show ?thesis
    using assms by (simp add: array_append_def array_inv_def put_def length_array_contents [OF assms(1)])
next
  case False
  then show ?thesis
    using assms
    by (auto simp: array_append_def array_inv_def put_def rd_n_def wr_def array_contents_def min_def)
qed

lemma array_clear_ok: "array_inv cap a \<Longrightarrow> array_inv cap (array_clear a) \<and> array_contents (array_clear a) = []"
  by (simp add: array_clear_def array_inv_def array_contents_def)

section \<open>Frames\<close>

definition received_capacity :: nat where
  "received_capacity = g_rtp_packet_buffer_size + 32"

definition sink_inv :: "H264Sink \<Rightarrow> bool" where
  "sink_inv s \<longleftrightarrow> array_inv 1024 (m_header_buffer s) \<and> array_inv received_capacity (m_received_buffer s)
     \<and> length (ax_data (m_rtp_packet_buffer s)) = g_rtp_packet_buffer_size"

text \<open>The header is the start code and the bytes of each parameter set, those that fit.\<close>

fun sprop_header :: "u8 list list \<Rightarrow> u8 list \<Rightarrow> u8 list" where
  "sprop_header [] acc = acc"
| "sprop_header (r # rs) acc =
     (if r \<noteq> [] \<and> (hd r AND 0x1F = 7 \<or> hd r AND 0x1F = 8)
      then sprop_header rs (put 1024 (put 1024 acc g_H264StartCode) r) else sprop_header rs acc)"

lemma sprop_loop_ok:
  "array_inv 1024 h \<Longrightarrow> \<exists>h'. sprop_loop rs h = Inr h' \<and> array_inv 1024 h' \<and> array_contents h' = sprop_header rs (array_contents h)"
proof (induction rs arbitrary: h)
  case Nil
  then show ?case by simp
next
  case (Cons r rs)
  show ?case
  proof (cases "r = []")
    case True
    then show ?thesis using Cons by simp
  next
    case False
    then have rd: "rd r 0 = Inr (hd r)" by (simp add: rd_def hd_conv_nth)
    obtain x h1 where h1: "array_append g_H264StartCode (length g_H264StartCode) h = Inr (x, h1)" "array_inv 1024 h1"
      "array_contents h1 = put 1024 (array_contents h) g_H264StartCode"
      using array_append_ok [OF Cons.prems, of "length g_H264StartCode" g_H264StartCode] by auto
    obtain y h2 where h2: "array_append r (length r) h1 = Inr (y, h2)" "array_inv 1024 h2"
      "array_contents h2 = put 1024 (array_contents h1) r"
      using array_append_ok [OF h1(2), of "length r" r] by auto
    show ?thesis
      using False rd h1 h2 Cons.IH [OF h2(2)] Cons.IH [OF Cons.prems] by (simp add: Let_def)
  qed
qed

lemma setSpropRecords_ok:
  assumes "sink_inv s"
  shows "\<exists>s'. setSpropRecords (Some rs) s = Inr (sprop_header rs [] \<noteq> [], s') \<and> sink_inv s'
    \<and> array_contents (m_header_buffer s') = sprop_header rs []"
proof -
  have c: "array_inv 1024 (array_clear (m_header_buffer s))" "array_contents (array_clear (m_header_buffer s)) = []"
    using assms array_clear_ok by (auto simp: sink_inv_def)
  obtain h where h: "sprop_loop rs (array_clear (m_header_buffer s)) = Inr h" "array_inv 1024 h" "array_contents h = sprop_header rs []"
    using sprop_loop_ok [OF c(1), of rs] c(2) by auto
  have "array_len h > 0 \<longleftrightarrow> sprop_header rs [] \<noteq> []"
    using length_array_contents [OF h(2)] unfolding h(3) array_len_def by (metis length_greater_0_conv)
  then show ?thesis
    using h assms by (simp add: setSpropRecords_def sink_inv_def)
qed

lemma appendPacket_ok:
  assumes "sink_inv s" "n \<le> length data"
  shows "\<exists>s'. appendPacket data n s = Inr s' \<and> sink_inv s' \<and> m_header_buffer s' = m_header_buffer s
    \<and> m_rtp_packet_buffer s' = m_rtp_packet_buffer s \<and> has_frame_callback s' = has_frame_callback s
    \<and> array_contents (m_received_buffer s') = put received_capacity (array_contents (m_received_buffer s)) (take n data)"
proof -
  have inv: "array_inv received_capacity (m_received_buffer s)" using assms(1) by (simp add: sink_inv_def)
  obtain r a' where a: "array_append data n (m_received_buffer s) = Inr (r, a')" "array_inv received_capacity a'"
    "array_contents a' = put received_capacity (array_contents (m_received_buffer s)) (take n data)"
    using array_append_ok [OF inv assms(2)] by blast
  then show ?thesis
    using assms(1) by (simp add: appendPacket_def sink_inv_def)
qed

text \<open>
  The specification of one packet: \<open>acc\<close> is what was received before it. With the marker, the parameter
  sets come before this last packet, and the frame is done.
\<close>

definition spec_bytes :: "u8 list \<Rightarrow> u8 list \<times> bool \<Rightarrow> u8 list \<Rightarrow> u8 list" where
  "spec_bytes header p acc =
     (let a1 = (if snd p then put received_capacity acc header else acc)
      in put received_capacity (put received_capacity a1 g_H264StartCode) (fst p))"

definition frame_of :: "timeval \<Rightarrow> bool \<Rightarrow> u8 list \<Rightarrow> SessionVideoFrame" where
  "frame_of t key bs = \<lparr>vf_codec_id = 1, vf_buf_size = int (length bs), vf_buffer = bs, vf_key_frame = key, vf_timestamp = t\<rparr>"

definition packet_ok :: "u8 list \<times> bool \<Rightarrow> bool" where
  "packet_ok p \<longleftrightarrow> fst p \<noteq> [] \<and> length (fst p) \<le> g_rtp_packet_buffer_size"

definition idr :: "u8 list \<Rightarrow> bool" where
  "idr bs \<longleftrightarrow> hd bs AND 0x1F = 5"

lemma receive_packet_ok:
  assumes s: "sink_inv s" "has_frame_callback s" and p: "packet_ok p"
  shows "\<exists>s'. receive_packet t p s = Inr (if snd p
      then [frame_of t (idr (fst p)) (spec_bytes (array_contents (m_header_buffer s)) p (array_contents (m_received_buffer s)))] else [], s')
    \<and> sink_inv s' \<and> has_frame_callback s' \<and> array_contents (m_header_buffer s') = array_contents (m_header_buffer s)
    \<and> array_contents (m_received_buffer s') =
        (if snd p then [] else spec_bytes (array_contents (m_header_buffer s)) p (array_contents (m_received_buffer s)))"
proof -
  let ?n = "length (fst p)" and ?h = "array_contents (m_header_buffer s)"
  define s0 where "s0 = s\<lparr>m_rtp_packet_buffer := (m_rtp_packet_buffer s)\<lparr>ax_data := fst p @ drop ?n (ax_data (m_rtp_packet_buffer s))\<rparr>\<rparr>"
  have s0: "sink_inv s0" "has_frame_callback s0" "m_header_buffer s0 = m_header_buffer s" "m_received_buffer s0 = m_received_buffer s"
    using s p by (simp_all add: s0_def sink_inv_def packet_ok_def)
  have pkt: "ax_data (m_rtp_packet_buffer s0) = fst p @ drop ?n (ax_data (m_rtp_packet_buffer s))"
    by (simp add: s0_def)
  have key: "isKeyFrame s0 = Inr (idr (fst p))"
    using p by (cases "fst p") (simp_all add: isKeyFrame_def pkt packet_ok_def rd_def idr_def)
  have hl: "array_len (m_header_buffer s0) \<le> length (ax_data (m_header_buffer s0))"
    "take (array_len (m_header_buffer s0)) (ax_data (m_header_buffer s0)) = ?h"
    using s s0 by (simp_all add: sink_inv_def array_inv_def array_len_def array_contents_def)
  have "\<exists>s1. (if snd p then appendH264HeaderPacket s0 else Inr s0) = Inr s1 \<and> sink_inv s1 \<and> has_frame_callback s1
      \<and> m_header_buffer s1 = m_header_buffer s \<and> m_rtp_packet_buffer s1 = m_rtp_packet_buffer s0
      \<and> array_contents (m_received_buffer s1) =
          (if snd p then put received_capacity (array_contents (m_received_buffer s)) ?h else array_contents (m_received_buffer s))"
    using appendPacket_ok [OF s0(1) hl(1)] hl(2) s0 by (auto simp: appendH264HeaderPacket_def)
  then obtain s1 where s1: "(if snd p then appendH264HeaderPacket s0 else Inr s0) = Inr s1" "sink_inv s1" "has_frame_callback s1"
    "m_header_buffer s1 = m_header_buffer s" "m_rtp_packet_buffer s1 = m_rtp_packet_buffer s0"
    "array_contents (m_received_buffer s1) =
       (if snd p then put received_capacity (array_contents (m_received_buffer s)) ?h else array_contents (m_received_buffer s))"
    by blast
  obtain s2 where s2: "appendPacket g_H264StartCode (length g_H264StartCode) s1 = Inr s2" "sink_inv s2" "has_frame_callback s2"
    "m_header_buffer s2 = m_header_buffer s" "m_rtp_packet_buffer s2 = m_rtp_packet_buffer s0"
    "array_contents (m_received_buffer s2) = put received_capacity (array_contents (m_received_buffer s1)) g_H264StartCode"
    using appendPacket_ok [OF s1(2), of "length g_H264StartCode" g_H264StartCode] s1 by auto
  obtain s3 where s3: "appendPacket (ax_data (m_rtp_packet_buffer s2)) ?n s2 = Inr s3" "sink_inv s3" "has_frame_callback s3"
    "m_header_buffer s3 = m_header_buffer s"
    "array_contents (m_received_buffer s3) = put received_capacity (array_contents (m_received_buffer s2)) (fst p)"
    using appendPacket_ok [OF s2(2), of ?n "ax_data (m_rtp_packet_buffer s2)"] s2 pkt by auto
  have body: "appendH264BodyPacket ?n s1 = Inr s3"
    using s2 s3 by (simp add: appendH264BodyPacket_def)
  have bytes: "array_contents (m_received_buffer s3) = spec_bytes ?h p (array_contents (m_received_buffer s))"
    using s1 s2 s3 by (simp add: spec_bytes_def Let_def)
  have len: "array_len (m_received_buffer s3) = length (array_contents (m_received_buffer s3))"
    "take (array_len (m_received_buffer s3)) (ax_data (m_received_buffer s3)) = array_contents (m_received_buffer s3)"
    "array_len (m_received_buffer s3) < 2 ^ 31"
    using s3(2) length_array_contents
    by (auto simp: sink_inv_def array_len_def array_contents_def array_inv_def received_capacity_def g_rtp_packet_buffer_size_def)
  have c: "c_int (int (array_len (m_received_buffer s3))) = int (length (spec_bytes ?h p (array_contents (m_received_buffer s))))"
    using len by (simp add: c_int_small bytes)
  have clear: "sink_inv (s3\<lparr>m_received_buffer := array_clear (m_received_buffer s3)\<rparr>)"
    "array_contents (array_clear (m_received_buffer s3)) = []"
    using s3(2) array_clear_ok by (auto simp: sink_inv_def)
  have "receive_packet t p s = afterGettingFrame ?n (Some (snd p)) t s0"
    by (simp add: receive_packet_def s0_def Let_def)
  also have "\<dots> = Inr (if snd p then [frame_of t (idr (fst p)) (spec_bytes ?h p (array_contents (m_received_buffer s)))] else [],
      if snd p then s3\<lparr>m_received_buffer := array_clear (m_received_buffer s3)\<rparr> else s3)"
    using s1(1) s3(3) body len(2) c by (auto simp: afterGettingFrame_def key frame_of_def bytes split: if_splits)
  finally show ?thesis
    using s3 clear bytes by auto
qed

text \<open>All packets of a frame: none is marked but the last.\<close>

primrec spec_frame :: "u8 list \<Rightarrow> u8 list list \<Rightarrow> u8 list \<Rightarrow> u8 list" where
  "spec_frame header [] acc = acc"
| "spec_frame header (p # ps) acc = spec_frame header ps (spec_bytes header (p, ps = []) acc)"

definition marked :: "u8 list list \<Rightarrow> (u8 list \<times> bool) list" where
  "marked ps = map (\<lambda>p. (p, False)) (butlast ps) @ [(last ps, True)]"

lemma receive_all_frame:
  assumes "sink_inv s" "has_frame_callback s" "ps \<noteq> []" "\<forall>p \<in> set ps. packet_ok (p, False)"
  shows "\<exists>s'. receive_all t (marked ps) s = Inr ([frame_of t (idr (last ps))
      (spec_frame (array_contents (m_header_buffer s)) ps (array_contents (m_received_buffer s)))], s')
    \<and> sink_inv s' \<and> has_frame_callback s' \<and> array_contents (m_received_buffer s') = []
    \<and> array_contents (m_header_buffer s') = array_contents (m_header_buffer s)"
  using assms
proof (induction ps arbitrary: s)
  case Nil
  then show ?case by simp
next
  case (Cons p ps)
  show ?case
  proof (cases "ps = []")
    case True
    have "packet_ok (p, True)" using Cons.prems(4) by (simp add: packet_ok_def)
    then show ?thesis
      using receive_packet_ok [OF Cons.prems(1,2), of "(p, True)" t] True by (auto simp: marked_def)
  next
    case False
    have "packet_ok (p, False)" using Cons.prems(4) by simp
    then obtain s1 where s1: "receive_packet t (p, False) s = Inr ([], s1)" "sink_inv s1" "has_frame_callback s1"
      "array_contents (m_header_buffer s1) = array_contents (m_header_buffer s)"
      "array_contents (m_received_buffer s1) = spec_bytes (array_contents (m_header_buffer s)) (p, False) (array_contents (m_received_buffer s))"
      using receive_packet_ok [OF Cons.prems(1,2), of "(p, False)" t] by auto
    have m: "marked (p # ps) = (p, False) # marked ps" using False by (simp add: marked_def)
    show ?thesis
      using Cons.IH [OF s1(2,3) False] Cons.prems(4) s1 False by (auto simp: m)
  qed
qed

text \<open>When all fits, the frame is the start codes and packets in order, the header before the last of them.\<close>

definition unit_bytes :: "u8 list \<Rightarrow> u8 list" where
  "unit_bytes p = g_H264StartCode @ p"

lemma spec_frame_fits:
  assumes "ps \<noteq> []" "length acc + length header + sum_list (map (length \<circ> unit_bytes) ps) \<le> received_capacity"
  shows "spec_frame header ps acc = acc @ concat (map unit_bytes (butlast ps)) @ header @ unit_bytes (last ps)"
  using assms
proof (induction ps arbitrary: acc)
  case Nil
  then show ?case by simp
next
  case (Cons p ps)
  show ?case
  proof (cases "ps = []")
    case True
    then show ?thesis
      using Cons.prems by (simp add: spec_bytes_def put_fits unit_bytes_def)
  next
    case False
    have b: "spec_bytes header (p, False) acc = acc @ unit_bytes p"
      using Cons.prems by (simp add: spec_bytes_def put_fits unit_bytes_def)
    have "spec_frame header ps (acc @ unit_bytes p) = (acc @ unit_bytes p) @ concat (map unit_bytes (butlast ps)) @ header @ unit_bytes (last ps)"
      using Cons.prems by (intro Cons.IH [OF False]) simp
    then show ?thesis using b False by simp
  qed
qed

text \<open>
  Without that, what the buffer takes is decided piece by piece: a piece for which there is no room is left out, and a
  smaller one after it may still go in.
\<close>

fun keep_fitting :: "nat \<Rightarrow> 'a list list \<Rightarrow> 'a list list" where
  "keep_fitting room [] = []"
| "keep_fitting room (x # xs) =
     (if length x \<le> room then x # keep_fitting (room - length x) xs else keep_fitting room xs)"

definition frame_pieces :: "u8 list \<Rightarrow> u8 list list \<Rightarrow> u8 list list" where
  "frame_pieces header ps = concat (map (\<lambda>p. [g_H264StartCode, p]) (butlast ps)) @ [header, g_H264StartCode, last ps]"

lemma foldl_put:
  "length acc \<le> cap \<Longrightarrow> foldl (put cap) acc xs = acc @ concat (keep_fitting (cap - length acc) xs)"
proof (induction xs arbitrary: acc)
  case (Cons x xs)
  then show ?case
  proof (cases "length x \<le> cap - length acc")
    case True
    then show ?thesis
      using Cons.IH [of "acc @ x"] Cons.prems by (simp add: put_fits)
  next
    case False
    moreover from this have "put cap acc x = acc"
      using Cons.prems by (auto simp: put_def)
    ultimately show ?thesis
      using Cons by simp
  qed
qed simp

lemma spec_frame_pieces:
  "ps \<noteq> [] \<Longrightarrow> spec_frame header ps acc = foldl (put received_capacity) acc (frame_pieces header ps)"
proof (induction ps arbitrary: acc)
  case (Cons p ps)
  then show ?case
    by (cases "ps = []") (simp_all add: frame_pieces_def spec_bytes_def)
qed simp

lemma length_keep_fitting: "length (concat (keep_fitting room xs)) \<le> room"
  by (induction room xs rule: keep_fitting.induct) auto

lemma length_frame_pieces:
  assumes "ps \<noteq> []"
  shows "concat (frame_pieces header ps) = concat (map unit_bytes (butlast ps)) @ header @ unit_bytes (last ps)"
    and "length (concat (frame_pieces header ps)) = length header + sum_list (map (length \<circ> unit_bytes) ps)"
proof -
  have c: "concat (concat (map (\<lambda>p. [g_H264StartCode, p]) qs)) = concat (map unit_bytes qs)" for qs
    by (induction qs) (simp_all add: unit_bytes_def)
  then show e: "concat (frame_pieces header ps) = concat (map unit_bytes (butlast ps)) @ header @ unit_bytes (last ps)"
    by (simp add: frame_pieces_def unit_bytes_def)
  have "map (length \<circ> unit_bytes) ps = map (length \<circ> unit_bytes) (butlast ps @ [last ps])"
    using assms by simp
  also have "sum_list \<dots> = length (concat (map unit_bytes (butlast ps))) + length (unit_bytes (last ps))"
    by (simp add: length_concat o_def)
  finally show "length (concat (frame_pieces header ps)) = length header + sum_list (map (length \<circ> unit_bytes) ps)"
    unfolding e by simp
qed

text \<open>The frame is complete exactly when all of it fits.\<close>

lemma spec_frame_complete_iff:
  assumes "ps \<noteq> []"
  shows "spec_frame header ps [] = concat (keep_fitting received_capacity (frame_pieces header ps))"
    and "spec_frame header ps [] = concat (map unit_bytes (butlast ps)) @ header @ unit_bytes (last ps)
      \<longleftrightarrow> length header + sum_list (map (length \<circ> unit_bytes) ps) \<le> received_capacity"
proof -
  show k: "spec_frame header ps [] = concat (keep_fitting received_capacity (frame_pieces header ps))"
    using spec_frame_pieces [OF assms] foldl_put [of "[]"] by simp
  show "spec_frame header ps [] = concat (map unit_bytes (butlast ps)) @ header @ unit_bytes (last ps)
      \<longleftrightarrow> length header + sum_list (map (length \<circ> unit_bytes) ps) \<le> received_capacity" (is "?l \<longleftrightarrow> ?r")
  proof
    assume ?l
    then have "length (concat (frame_pieces header ps)) \<le> received_capacity"
      using length_keep_fitting [of received_capacity "frame_pieces header ps"] k length_frame_pieces(1) [OF assms] by metis
    then show ?r by (simp only: length_frame_pieces(2) [OF assms])
  qed (use spec_frame_fits [OF assms, of "[]"] in simp)
qed

end
