(* ===== verification/Packet_Reference.thy ===== *)
theory Packet_Reference
  imports Packet_Parse
begin

text \<open>
  What the block loop of \<open>DoAnalyze\<close> does on a body of any bytes, compared with a reference parser that always
  ends: it reads a block as a piece of a list, follows the blocks in plain integers, and remembers the offsets it
  has seen. Its three results are the three things the loop does: it collects items, it reads past the end of the
  memory, or it comes back to an offset it has been at and goes on for ever.
\<close>

section \<open>The reference parser\<close>

datatype ref_result = Loops | Overruns | Items "BlockItem list"

primrec ref_cons :: "BlockItem \<Rightarrow> ref_result \<Rightarrow> ref_result" where
  "ref_cons it Loops = Loops"
| "ref_cons it Overruns = Overruns"
| "ref_cons it (Items its) = Items (it # its)"

text \<open>
  The block at offset \<open>p\<close>: a length in four bytes, a name of at least one byte up to the first colon after that
  byte. Nothing where the bytes end before the colon.
\<close>

definition block_at :: "u8 list \<Rightarrow> int \<Rightarrow> (nat \<times> u8 list) option" where
  "block_at m p = (let s = drop (nat p) m; c = char_byte (CHR '':'') in
     if 0 \<le> p \<and> c \<in> set (drop 5 s)
     then Some (le_val (take 4 s), s ! 4 # takeWhile (\<lambda>b. b \<noteq> c) (drop 5 s)) else None)"

definition block_item :: "int \<Rightarrow> nat \<Rightarrow> u8 list \<Rightarrow> BlockItem" where
  "block_item p n name = \<lparr>bi_name = bytes_str name, bi_data = p + 5 + int (length name),
     bi_length = c_int (int n - 5 - int (length name))\<rparr>"

lemma block_at_bound: "block_at m p = Some x \<Longrightarrow> 0 \<le> p \<and> p + 5 < int (length m)"
proof -
  assume "block_at m p = Some x"
  then have "0 \<le> p" and "drop 5 (drop (nat p) m) \<noteq> []"
    by (auto simp: block_at_def Let_def split: if_splits)
  then show ?thesis by auto
qed

function ref_blocks :: "u8 list \<Rightarrow> int \<Rightarrow> int \<Rightarrow> int list \<Rightarrow> ref_result" where
  "ref_blocks m e p seen =
     (if e \<le> p then Items [] else
      case block_at m p of None \<Rightarrow> Overruns
      | Some (n, name) \<Rightarrow>
          if p \<in> set seen then Loops
          else ref_cons (block_item p n name)
            (ref_blocks m e (if p + int n < 2 ^ 31 then p + int n else p + int n - 2 ^ 32) (p # seen)))"
  by pat_completeness auto
termination
proof (relation "measure (\<lambda>(m, e, p, seen). card ({0..<int (length m)} - set seen))")
  fix m e p seen x n and name :: "u8 list"
  assume "block_at m p = Some x" "(n, name) = x" and new: "p \<notin> set seen"
  then have "p \<in> {0..<int (length m)} - set seen"
    using block_at_bound [of m p x] by simp
  moreover have "{0..<int (length m)} - set (p # seen) = {0..<int (length m)} - set seen - {p}"
    by auto
  ultimately have "card ({0..<int (length m)} - set (p # seen)) < card ({0..<int (length m)} - set seen)"
    by (simp only: card_Diff1_less finite_Diff finite_atLeastLessThan_int)
  then show "((m, e, if p + int n < 2 ^ 31 then p + int n else p + int n - 2 ^ 32, p # seen), m, e, p, seen)
      \<in> measure (\<lambda>(m, e, p, seen). card ({0..<int (length m)} - set seen))"
    by (simp only: in_measure prod.case)
qed simp

declare ref_blocks.simps [simp del]

section \<open>One block\<close>

lemma set_drop_Suc: "k < length m \<Longrightarrow> m ! k = d \<or> d \<in> set (drop (Suc k) m) \<longleftrightarrow> d \<in> set (drop k m)"
  by (simp add: Cons_nth_drop_Suc [symmetric]) blast

text \<open>The scan for a delimiter, from any offset of any memory.\<close>

lemma scan_name_at:
  "scan_name m d acc (int k) =
     (if k < length m \<and> d \<in> set (drop (Suc k) m)
      then Inr (acc @ bytes_str (m ! k # takeWhile (\<lambda>b. b \<noteq> d) (drop (Suc k) m)),
                int (Suc k + length (takeWhile (\<lambda>b. b \<noteq> d) (drop (Suc k) m))))
      else Inl OutOfBounds)"
proof (induction "length m - k" arbitrary: k acc rule: less_induct)
  case less
  have nx: "int k + 1 = int (Suc k)" by simp
  consider "length m \<le> k" | "Suc k = length m" | "Suc k < length m" by linarith
  then show ?case
  proof cases
    case 3
    then have r: "rd m (int k) = Inr (m ! k)" "rd m (int (Suc k)) = Inr (m ! Suc k)"
      by (simp_all add: rd_def del: of_nat_Suc)
    have dr: "drop (Suc k) m = m ! Suc k # drop (Suc (Suc k)) m"
      using 3 by (simp add: Cons_nth_drop_Suc)
    show ?thesis
    proof (cases "m ! Suc k = d")
      case True
      then show ?thesis
        using 3 r by (subst scan_name.simps) (simp add: nx dr bytes_str_def del: of_nat_Suc)
    next
      case False
      have "scan_name m d acc (int k) = scan_name m d (acc @ [byte_char (m ! k)]) (int (Suc k))"
        using 3 r False by (subst scan_name.simps) (simp add: nx del: of_nat_Suc)
      also have "\<dots> = (if d \<in> set (drop (Suc (Suc k)) m)
          then Inr ((acc @ [byte_char (m ! k)]) @ bytes_str (m ! Suc k # takeWhile (\<lambda>b. b \<noteq> d) (drop (Suc (Suc k)) m)),
              int (Suc (Suc k) + length (takeWhile (\<lambda>b. b \<noteq> d) (drop (Suc (Suc k)) m))))
          else Inl OutOfBounds)"
        using 3 less.hyps [of "Suc k" "acc @ [byte_char (m ! k)]"] by simp
      finally show ?thesis
        using 3 False by (simp add: dr bytes_str_def)
    qed
  qed (subst scan_name.simps, simp add: rd_def)+
qed

lemma GetBlockLength_at:
  assumes "0 \<le> p" "nat p + 4 \<le> length m"
  shows "GetBlockLength m p = Inr (word_of_nat (le_val (take 4 (drop (nat p) m))))"
  using assms by (simp add: GetBlockLength_def size_consts rd_n_def)

lemma le_val_less: "le_val bs < 256 ^ length bs"
proof (induction bs)
  case (Cons b bs)
  have "unat b < 256"
    using unsigned_less [of b, where ?'a = nat] by simp
  with Cons.IH show ?case by simp
qed simp

lemma le_val_4: "le_val (take 4 s) < 2 ^ 32"
proof -
  have "(256 :: nat) ^ length (take 4 s) \<le> 256 ^ 4"
    by (intro power_increasing) simp_all
  then show ?thesis
    using le_val_less [of "take 4 s"] by simp
qed


lemma GetBlock_at:
  assumes "block_at m p = Some (n, name)"
  shows "GetBlockLength m p = Inr (word_of_nat n) \<and> n < 2 ^ 32
    \<and> GetBlock m p BlockItem_new = Inr (0, block_item p n name)"
proof -
  let ?k = "nat p + 4"
  let ?t = "takeWhile (\<lambda>b. b \<noteq> GetBlockDataDelimiter) (drop (Suc ?k) m)"
  have b: "0 \<le> p" "p + 5 < int (length m)"
    using block_at_bound [OF assms] by simp_all
  have c: "GetBlockDataDelimiter \<in> set (drop (Suc ?k) m)" and nm: "name = m ! ?k # ?t"
    and n: "n = le_val (take 4 (drop (nat p) m))"
    using assms b by (auto simp: block_at_def Let_def GetBlockDataDelimiter_def add.commute split: if_splits)
  have n32: "n < 2 ^ 32"
    using le_val_4 [of "drop (nat p) m"] n by simp
  have gl: "GetBlockLength m p = Inr (word_of_nat n)"
    using GetBlockLength_at [of p m] b n by simp
  have p4: "p + 4 = int ?k" using b by simp
  have "scan_name m GetBlockDataDelimiter [] (int ?k) = Inr (bytes_str name, int (?k + length name))"
    using b c by (subst scan_name_at) (simp add: nm)
  moreover have "int (unat (word_of_nat n :: u32)) = int n"
    using n32 by (simp add: unat_u32_of_nat)
  ultimately have "GetBlock m p BlockItem_new = Inr (0, block_item p n name)"
    using b by (simp add: GetBlock_def gl size_consts BlockItem_new_def p4 block_item_def del: of_nat_add of_nat_unat)
      (simp add: algebra_simps)
  with gl n32 show ?thesis by simp
qed

lemma GetBlock_at_None:
  assumes "block_at m p = None" "GetBlockLength m p = Inr l"
  shows "GetBlock m p BlockItem_new = Inl OutOfBounds"
proof -
  let ?k = "nat p + 4"
  have b: "0 \<le> p" "nat p + 4 \<le> length m"
    using assms(2) by (auto simp: GetBlockLength_def size_consts rd_n_def split: if_splits)
  then have "GetBlockDataDelimiter \<notin> set (drop (Suc ?k) m)"
    using assms(1) by (auto simp: block_at_def Let_def GetBlockDataDelimiter_def add.commute split: if_splits)
  moreover have p4: "p + 4 = int ?k" using b by simp
  ultimately show ?thesis
    using assms(2) scan_name_at [of m GetBlockDataDelimiter "[]" ?k]
    by (simp add: GetBlock_def size_consts BlockItem_new_def p4 del: of_nat_add)
qed

lemma GetBlockLength_Inl: "GetBlockLength m p = Inl x \<Longrightarrow> x = OutOfBounds"
  by (auto simp: GetBlockLength_def rd_n_def split: if_splits)

lemma c_int_next:
  assumes "0 \<le> p" "p < 2 ^ 31" "n < 2 ^ 32"
  shows "c_int (p + int n) = (if p + int n < 2 ^ 31 then p + int n else p + int n - 2 ^ 32)"
proof -
  have e: "p + int n - 2 ^ 32 + 2 ^ 31 = (p + int n + 2 ^ 31) - 2 ^ 32"
    by simp
  have "c_int (p + int n) = c_int (p + int n - 2 ^ 32)"
    unfolding c_int_def e minus_mod_self2 ..
  with assms show ?thesis by (auto simp: c_int_id int32_range_def)
qed


section \<open>The loop and the reference parser\<close>

text \<open>A loop that comes back to an offset does not return.\<close>

lemma cycle_reaches:
  assumes "(block_step m e)\<^sup>*\<^sup>* p q" "(block_step m e)\<^sup>+\<^sup>+ p p"
  shows "(block_step m e)\<^sup>+\<^sup>+ q q"
  using assms
proof (induction rule: rtranclp_induct)
  case (step q q')
  from tranclpD [OF step.IH [OF step.prems]] obtain q'' where "block_step m e q q''" "(block_step m e)\<^sup>*\<^sup>* q'' q"
    by blast
  with step.hyps(2) have "(block_step m e)\<^sup>*\<^sup>* q' q"
    using block_step_det by metis
  from this step.hyps(2) show ?case by (rule rtranclp_into_tranclp1)
qed

lemma analyze_blocks_cycle:
  assumes "(block_step m e)\<^sup>+\<^sup>+ p p"
  shows "analyze_blocks m e p items = None"
proof -
  have "\<exists>q'. block_step m e q q'" if "(block_step m e)\<^sup>*\<^sup>* p q" for q
    using cycle_reaches [OF that assms] by (blast dest: tranclpD)
  then show ?thesis
    using analyze_blocks_returns_iff [of m e p items] by blast
qed

lemma analyze_blocks_reference:
  assumes "\<forall>s \<in> set seen. (block_step m e)\<^sup>+\<^sup>+ s p" and "length m < 2 ^ 31"
  shows "analyze_blocks m e p items =
    (case ref_blocks m e p seen of Loops \<Rightarrow> None | Overruns \<Rightarrow> Some (Inl OutOfBounds)
     | Items its \<Rightarrow> Some (Inr (items @ its)))"
  using assms
proof (induction m e p seen arbitrary: items rule: ref_blocks.induct)
  case (1 m e p seen)
  show ?case
  proof (cases "e \<le> p \<or> block_at m p = None")
    case True
    then show ?thesis
      by (subst ref_blocks.simps, subst analyze_blocks.simps)
        (auto simp: GetBlock_at_None dest: GetBlockLength_Inl split: sum.splits option.splits)
  next
    case False
    then obtain n name where e: "\<not> e \<le> p" and at: "block_at m p = Some (n, name)" by auto
    let ?q = "if p + int n < 2 ^ 31 then p + int n else p + int n - 2 ^ 32"
    note code = GetBlock_at [OF at]
    have p: "0 \<le> p" "p < 2 ^ 31"
      using block_at_bound [OF at] "1.prems"(2) by simp_all
    have u: "int (unat (word_of_nat n :: u32)) = int n"
      using code by (simp add: unat_u32_of_nat)
    have q: "c_int (p + int (unat (word_of_nat n :: u32))) = ?q"
      unfolding u using c_int_next [OF p] code by blast
    have st: "block_step m e p ?q"
      using e code q by (simp add: block_step_def del: of_nat_unat)
    have go: "analyze_blocks m e p items = analyze_blocks m e ?q (items @ [block_item p n name])"
      using analyze_blocks_step [of p e m "word_of_nat n" 0 "block_item p n name" items] e code q by simp
    show ?thesis
    proof (cases "p \<in> set seen")
      case True
      then show ?thesis
        using "1.prems"(1) e at by (subst ref_blocks.simps) (simp add: analyze_blocks_cycle)
    next
      case new: False
      have "\<forall>s \<in> set (p # seen). (block_step m e)\<^sup>+\<^sup>+ s ?q"
        using "1.prems"(1) st by (auto intro: tranclp.trancl_into_trancl)
      from "1.IH" [OF e at refl new this "1.prems"(2)] show ?thesis
        unfolding go using e at new
        by (subst ref_blocks.simps) (simp split: ref_result.splits)
    qed
  qed
qed


section \<open>Whole packets\<close>

text \<open>
  A packet with its two marks, a name and any body. The length field is any 32-bit number, as a sender may write it.
\<close>

definition framed :: "nat \<Rightarrow> string \<Rightarrow> u8 list \<Rightarrow> u8 list" where
  "framed n name body =
     m_stx @ le_bytes 4 n @ str_bytes name @ [GetStartBlockDelimiter] @ body @ m_etx"

lemma length_framed [simp]: "length (framed n name body) = length name + 13 + length body"
  by (simp add: framed_def m_stx_def m_etx_def)

lemma DoAnalyze_framed:
  assumes "main_name_ok name" "n < 2 ^ 32" "length (framed n name body) < 2 ^ 31"
  shows "DoAnalyze (framed n name body @ post) (int (length (framed n name body))) r =
    (case analyze_blocks (framed n name body @ post) (c_int (int n - 4)) (9 + int (length name)) [] of None \<Rightarrow> None
     | Some (Inl e) \<Rightarrow> Some (Inl e)
     | Some (Inr its) \<Rightarrow> Some (Inr (0, r\<lparr>m_main_name := name, m_block_items := its\<rparr>)))"
proof -
  let ?m = "framed n name body @ post"
  let ?t = "str_bytes name @ [GetStartBlockDelimiter] @ body"
  have len: "length name + 13 + length body < 2 ^ 31"
    using assms(3) by simp
  have mem: "?m = m_stx @ le_bytes 4 n @ ?t @ m_etx @ post"
    "?m = (m_stx @ le_bytes 4 n) @ str_bytes name @ [GetStartBlockDelimiter] @ body @ m_etx @ post"
    "?m = (m_stx @ le_bytes 4 n @ ?t) @ m_etx @ post"
    by (simp_all add: framed_def)
  have stx: "HasSTX ?m = Inr True" using HasSTX_ok mem(1) by metis
  have etx: "HasETX ?m (int (length (framed n name body))) = Inr True"
    unfolding mem(3) by (rule HasETX_ok) (simp add: m_stx_def)
  have name: "GetMainName ?m = Inr name"
    unfolding mem(2) by (rule GetMainName_ok [OF assms(1)]) (simp add: m_stx_def)
  have main: "GetMainLength ?m = Inr (word_of_nat n)"
    unfolding mem(1) using assms(2) by (intro GetMainLength_ok)
  have ne: "name \<noteq> []" using assms(1) by (simp add: main_name_ok_def)
  have u: "int (unat (word_of_nat n :: u32)) = int n"
    using assms(2) by (simp add: unat_u32_of_nat)
  have start: "c_int (GetPosMainName + int (length name) + 1) = 9 + int (length name)"
    using len by (simp add: size_consts c_int_small)
  have fin: "c_int (GetPosSTX + int (unat (word_of_nat n :: u32)) - GetSizeETX) = c_int (int n - 4)"
    unfolding u by (simp add: size_consts)
  show ?thesis
    unfolding DoAnalyze_def Let_def stx etx name main sum.case start fin
    using ne by (cases r) (simp add: Reader_Clear_def split: option.splits sum.splits)
qed


text \<open>The end offset the code computes from the length field.\<close>

lemma c_int_end:
  assumes "n < 2 ^ 32"
  shows "c_int (int n - 4) = (if n < 2 ^ 31 + 4 then int n - 4 else int n - 4 - 2 ^ 32)"
proof -
  have e: "int n - 4 - 2 ^ 32 + 2 ^ 31 = (int n - 4 + 2 ^ 31) - 2 ^ 32"
    by simp
  have "c_int (int n - 4) = c_int (int n - 4 - 2 ^ 32)"
    unfolding c_int_def e minus_mod_self2 ..
  with assms show ?thesis by (auto simp: c_int_id int32_range_def)
qed

text \<open>A block of length zero: the loop stays at it, or leaves the memory looking for its colon.\<close>

lemma analyze_blocks_zero_at:
  assumes "p = int (length pre)" "p < e" "p < 2 ^ 31"
  shows "analyze_blocks (pre @ le_bytes 4 0 @ rest) e p items =
    (if GetBlockDataDelimiter \<in> set (tl rest) then None else Some (Inl OutOfBounds))"
proof -
  let ?m = "pre @ le_bytes 4 0 @ rest"
  have gl: "GetBlockLength ?m p = Inr 0"
    using GetBlockLength_ok [OF _ assms(1), of 0 rest] by simp
  have s: "drop (nat p) ?m = le_bytes 4 0 @ rest"
    using assms(1) by simp
  have "drop 5 (le_bytes 4 0 @ rest) = tl rest"
    by (simp add: drop_Suc)
  then have at: "block_at ?m p = (if GetBlockDataDelimiter \<in> set (tl rest)
      then Some (0, (le_bytes 4 0 @ rest) ! 4 # takeWhile (\<lambda>b. b \<noteq> GetBlockDataDelimiter) (tl rest)) else None)"
    using assms(1) unfolding block_at_def Let_def s by (simp add: GetBlockDataDelimiter_def le_val_le_bytes)
  show ?thesis
  proof (cases "GetBlockDataDelimiter \<in> set (tl rest)")
    case True
    then obtain name where "block_at ?m p = Some (0, name)"
      using at by simp
    from GetBlock_at [OF this] have "GetBlock ?m p BlockItem_new = Inr (0, block_item p 0 name)"
      by blast
    from analyze_blocks_zero [OF assms(2) gl this] True show ?thesis
      using assms by (simp add: int32_range_def)
  next
    case False
    then show ?thesis
      using assms(2) gl GetBlock_at_None [OF _ gl] at
      by (subst analyze_blocks.simps) simp
  qed
qed

lemma le_bytes_4: "le_bytes 4 x = [word_of_nat x, word_of_nat (x div 256), word_of_nat (x div 256 div 256), word_of_nat (x div 256 div 256 div 256)]"
proof -
  have "(4 :: nat) = Suc (Suc (Suc (Suc 0)))" by simp
  then show ?thesis by (simp only: le_bytes.simps)
qed

end
