(* ===== verification/Decoder_Impl.thy ===== *)
theory Decoder_Impl
  imports Decoder_Types Util_Strings
begin

text \<open>
  The decoders behind \<open>Decoder\<close>: \<open>DecoderImpl\<close> and its factory (\<open>src/decoder/DecoderFactory.cpp\<close>), the FFmpeg
  decoder (\<open>Decoder_FFmpeg.cpp\<close>, \<open>FFmpeg.cpp\<close>) and its converter (\<open>Converter_FFmpeg.cpp\<close>). FFmpeg is not code of
  this program: what its functions return is in the argument \<open>av\<close>, and an object of it is whether it is there.
  The version of the branches is the one the build selects, without \<open>__SUPPORT_FFMPEG_VER_3\<close>.
\<close>

section \<open>FFmpeg\<close>

datatype AVPixelFormat =
    AV_PIX_FMT_NONE | AV_PIX_FMT_YUYV422 | AV_PIX_FMT_YUV420P | AV_PIX_FMT_BGR24 | AV_PIX_FMT_RGB24 | AV_PIX_FMT_other nat

datatype AVCodecID = AV_CODEC_ID_NONE | AV_CODEC_ID_H264

text \<open>A size and format of a source and of a destination picture.\<close>

record sws_param =
  src_pixel_format :: AVPixelFormat
  src_width :: int
  src_height :: int
  dst_pixel_format :: AVPixelFormat
  dst_width :: int
  dst_height :: int

text \<open>What the functions return; \<open>av_picture\<close> is what \<open>sws_scale\<close> writes to the destination.\<close>

record av_env =
  av_frame_alloc :: bool
  avcodec_find_decoder :: "AVCodecID \<Rightarrow> bool"
  avcodec_open2 :: int
  avcodec_send_packet :: "u8 list \<Rightarrow> int"
  AVERROR_INVALIDDATA :: int
  avcodec_receive_frame :: int
  ctx_width :: int
  ctx_height :: int
  ctx_pix_fmt :: AVPixelFormat
  sws_getContext :: "sws_param \<Rightarrow> bool"
  av_image_get_buffer_size :: "AVPixelFormat \<Rightarrow> int \<Rightarrow> int \<Rightarrow> int"
  av_image_fill_arrays :: "AVPixelFormat \<Rightarrow> int \<Rightarrow> int \<Rightarrow> int"
  sws_scale :: "sws_param \<Rightarrow> int"
  av_picture :: "sws_param \<Rightarrow> u8 list"

definition GetAVCodecID :: "int \<Rightarrow> AVCodecID" where
  "GetAVCodecID codec = (if codec = VCODEC_ID_int VCODEC_ID_H264 then AV_CODEC_ID_H264 else AV_CODEC_ID_NONE)"

definition GetToAVPixelFormat :: "int \<Rightarrow> AVPixelFormat" where
  "GetToAVPixelFormat f =
     (if f = VPIX_int VPIX_FMT_YUY2 then AV_PIX_FMT_YUYV422
      else if f = VPIX_int VPIX_FMT_YV12 then AV_PIX_FMT_YUV420P
      else if f = VPIX_int VPIX_FMT_BGR24 then AV_PIX_FMT_BGR24
      else if f = VPIX_int VPIX_FMT_RGB24 then AV_PIX_FMT_RGB24
      else AV_PIX_FMT_NONE)"

definition GetFromAVPixelFormat :: "AVPixelFormat \<Rightarrow> int" where
  "GetFromAVPixelFormat f = (case f of
       AV_PIX_FMT_YUYV422 \<Rightarrow> VPIX_int VPIX_FMT_YUY2
     | AV_PIX_FMT_YUV420P \<Rightarrow> VPIX_int VPIX_FMT_YV12
     | AV_PIX_FMT_BGR24 \<Rightarrow> VPIX_int VPIX_FMT_BGR24
     | AV_PIX_FMT_RGB24 \<Rightarrow> VPIX_int VPIX_FMT_RGB24
     | _ \<Rightarrow> VPIX_int VPIX_FMT_NONE)"

definition GetImageBufferSize :: "av_env \<Rightarrow> AVPixelFormat \<Rightarrow> int \<Rightarrow> int \<Rightarrow> int" where
  "GetImageBufferSize av f width height = av_image_get_buffer_size av f width height"

section \<open>Converter\<close>

text \<open>\<open>dst_line_size\<close> is 0 for every call of the program and left out.\<close>

record ConvertParam =
  cp_sws :: sws_param
  cp_dst_buffer :: byte_ptr

record Converter =
  m_avframe_src :: bool
  m_avframe_dst :: bool
  m_sws_contexts :: "sws_param option"    \<comment> \<open>with the parameters it was made for\<close>
  m_param :: "sws_param option"           \<comment> \<open>\<open>None\<close>: its members are not initialised\<close>

definition Converter_new :: Converter where
  "Converter_new = \<lparr>m_avframe_src = False, m_avframe_dst = False, m_sws_contexts = None, m_param = None\<rparr>"

text \<open>With uninitialised members the comparison can go either way: \<open>junk\<close>.\<close>

definition IsEqualParam :: "bool \<Rightarrow> sws_param \<Rightarrow> Converter \<Rightarrow> bool" where
  "IsEqualParam junk param c = (case m_param c of None \<Rightarrow> junk | Some p \<Rightarrow>
     (if src_pixel_format param \<noteq> src_pixel_format p then False
      else if src_width param \<noteq> src_width p then False
      else if src_height param \<noteq> src_height p then False
      else if dst_pixel_format param \<noteq> dst_pixel_format p then False
      else if dst_width param \<noteq> dst_width p then False
      else if dst_height param \<noteq> dst_height p then False
      else True))"

definition Converter_Finalize :: "Converter \<Rightarrow> int \<times> Converter" where
  "Converter_Finalize c = (0, c\<lparr>m_avframe_src := False, m_avframe_dst := False, m_sws_contexts := None\<rparr>)"

definition Converter_Initialize :: "av_env \<Rightarrow> bool \<Rightarrow> sws_param \<Rightarrow> Converter \<Rightarrow> int \<times> Converter" where
  "Converter_Initialize av junk param c =
     (let c1 = (if False = IsEqualParam junk param c then snd (Converter_Finalize c) else c);
          c2 = c1\<lparr>m_param := Some param\<rparr> in
      if \<not> m_avframe_src c2 \<and> \<not> av_frame_alloc av then (1, c2)
      else let c3 = c2\<lparr>m_avframe_src := True\<rparr> in
      if \<not> m_avframe_dst c3 \<and> \<not> av_frame_alloc av then (1, c3)
      else let c4 = c3\<lparr>m_avframe_dst := True\<rparr> in
      if m_sws_contexts c4 = None
      then if sws_getContext av param then (0, c4\<lparr>m_sws_contexts := Some param\<rparr>) else (2, c4)
      else (0, c4))"

text \<open>
  \<open>sws_scale\<close> writes the picture of the context's size at the destination pointer. The result has the memory
  the pointer points into afterwards.
\<close>

definition ptr_write :: "byte_ptr \<Rightarrow> u8 list \<Rightarrow> byte_ptr cpp" where
  "ptr_write p bs = (case p of None \<Rightarrow> Inl NullPointer
     | Some (mem, off) \<Rightarrow> if off < 0 then Inl OutOfBounds else cbind (wr mem (nat off) bs) (\<lambda>mem'. Inr (Some (mem', off))))"

definition Convert :: "av_env \<Rightarrow> bool \<Rightarrow> ConvertParam \<Rightarrow> Converter \<Rightarrow> (int \<times> byte_ptr \<times> Converter) cpp" where
  "Convert av junk param c =
     (let (r, c1) = Converter_Initialize av junk (cp_sws param) c; d = cp_dst_buffer param in
      if r \<noteq> 0 then Inr (1, d, c1)
      else if av_image_fill_arrays av (dst_pixel_format (cp_sws param)) (dst_width (cp_sws param)) (dst_height (cp_sws param)) < 0
      then Inr (1, d, c1)
      else (case m_sws_contexts c1 of None \<Rightarrow> Inl NullPointer
        | Some ctx \<Rightarrow> if sws_scale av ctx \<le> 0 then Inr (2, d, c1)
            else cbind (ptr_write d (av_picture av ctx)) (\<lambda>d'. Inr (0, d', c1))))"

text \<open>A context that is there was made for the parameters that are set.\<close>

definition converter_inv :: "Converter \<Rightarrow> bool" where
  "converter_inv c \<longleftrightarrow> (case m_sws_contexts c of None \<Rightarrow> True | Some ctx \<Rightarrow> m_param c = Some ctx)"

lemma Converter_Initialize_ok:
  assumes "converter_inv c"
  shows "converter_inv (snd (Converter_Initialize av junk param c))"
    and "fst (Converter_Initialize av junk param c) = 0 \<Longrightarrow> m_sws_contexts (snd (Converter_Initialize av junk param c)) = Some param"
  using assms
  by (auto simp: Converter_Initialize_def Converter_Finalize_def IsEqualParam_def converter_inv_def Let_def
      split: option.splits if_splits)

section \<open>Implementations\<close>

record VideoSource =
  vs_frame :: FrameBuffer
  vs_key_frame :: bool
  vs_timestamp :: timeval

record DecoderImpl =
  m_info :: DecoderInfo
  m_avframe :: bool
  m_avcodec_context :: bool
  m_source_avpacket :: bool
  m_convert :: Converter

definition DecoderImpl_FFmpeg_new :: DecoderImpl where
  "DecoderImpl_FFmpeg_new = \<lparr>m_info = DecoderInfo_new, m_avframe = False, m_avcodec_context = False, m_source_avpacket = False,
     m_convert = Converter_new\<rparr>"

definition SetInfo :: "DecoderInfo \<Rightarrow> DecoderImpl \<Rightarrow> DecoderImpl" where
  "SetInfo param d = d\<lparr>m_info := param\<rparr>"

definition GetInfo :: "DecoderImpl \<Rightarrow> DecoderInfo" where
  "GetInfo d = m_info d"

definition Impl_GetFrameInfo :: "int \<Rightarrow> DecoderImpl \<Rightarrow> FrameInfo cpp" where
  "Impl_GetFrameInfo type d = arr_get (di_frame_info (m_info d)) type"

text \<open>An assignment through \<open>GetFrameInfoRef\<close>.\<close>

definition put_FrameInfo :: "int \<Rightarrow> FrameInfo \<Rightarrow> DecoderImpl \<Rightarrow> DecoderImpl cpp" where
  "put_FrameInfo type info d =
     cbind (arr_set (di_frame_info (m_info d)) type info) (\<lambda>fs. Inr (d\<lparr>m_info := (m_info d)\<lparr>di_frame_info := fs\<rparr>\<rparr>))"

text \<open>The factory: the registered creators, each with the object it makes.\<close>

type_synonym factory_map = "int \<rightharpoonup> DecoderImpl"

definition DECODER_LIB_TYPE_NONE :: int where "DECODER_LIB_TYPE_NONE = 0"
definition DECODER_LIB_TYPE_FFMPEG :: int where "DECODER_LIB_TYPE_FFMPEG = 1"

definition Factory_Register :: "int \<Rightarrow> DecoderImpl \<Rightarrow> factory_map \<Rightarrow> factory_map" where
  "Factory_Register type callback m = m(type \<mapsto> callback)"

definition Factory_Unregister :: "int \<Rightarrow> factory_map \<Rightarrow> factory_map" where
  "Factory_Unregister type m = m(type := None)"

definition Decoder_CreateFactory :: "int \<Rightarrow> factory_map \<Rightarrow> DecoderImpl option" where
  "Decoder_CreateFactory type m = (case m type of Some it \<Rightarrow> Some it | None \<Rightarrow> None)"

definition Factory_Initialize :: "factory_map \<Rightarrow> factory_map" where
  "Factory_Initialize m = Factory_Register DECODER_LIB_TYPE_FFMPEG DecoderImpl_FFmpeg_new m"

definition Impl_Activate :: "av_env \<Rightarrow> DecoderImpl \<Rightarrow> int \<times> DecoderImpl" where
  "Impl_Activate av d =
     (let d1 = d\<lparr>m_avframe := av_frame_alloc av\<rparr>; codec = GetAVCodecID (di_vcodec_id (GetInfo d1)) in
      if \<not> m_avframe d1 then (1, d1)
      else if codec = AV_CODEC_ID_NONE then (2, d1)
      else if \<not> avcodec_find_decoder av codec then (3, d1)
      else let d2 = d1\<lparr>m_avcodec_context := True\<rparr> in
      if avcodec_open2 av < 0 then (4, d2)
      else (0, d2\<lparr>m_source_avpacket := True\<rparr>))"

definition Impl_Deactivate :: "DecoderImpl \<Rightarrow> int \<times> DecoderImpl" where
  "Impl_Deactivate d = (0, d\<lparr>m_avframe := False, m_avcodec_context := False, m_source_avpacket := False\<rparr>)"

text \<open>The loop body of \<open>Decode\<close> for one type: the destination frame, the result so far and the converter after it.\<close>

definition convert_frame :: "av_env \<Rightarrow> bool \<Rightarrow> DecoderImpl \<Rightarrow> nat \<Rightarrow> int \<times> DecoderVideoDest \<times> Converter
    \<Rightarrow> (int \<times> DecoderVideoDest \<times> Converter) cpp" where
  "convert_frame av junk d ii = (\<lambda>(ret, dst, c).
     cbind (arr_get (dd_frame dst) (int ii)) (\<lambda>fb.
       if fb_data fb = None \<or> fb_data_size fb < 128 then Inr (ret, dst, c)
       else cbind (Impl_GetFrameInfo (int ii) d) (\<lambda>frame_info.
         if False = fi_decode frame_info then Inr (ret, dst, c)
         else if VPIX_int VPIX_FMT_NONE = fi_pixel_format frame_info then Inr (ret, dst, c)
         else
           let p = \<lparr>src_pixel_format = ctx_pix_fmt av, src_width = ctx_width av, src_height = ctx_height av,
                    dst_pixel_format = GetToAVPixelFormat (fi_pixel_format frame_info),
                    dst_width = fi_width frame_info, dst_height = fi_height frame_info\<rparr>;
               buffer_size = GetImageBufferSize av (dst_pixel_format p) (dst_width p) (dst_height p) in
           if fb_data_size fb < buffer_size then Inr (ret, dst, c)
           else cbind (Convert av junk \<lparr>cp_sws = p, cp_dst_buffer = fb_data fb\<rparr> c) (\<lambda>(r, data, c1).
             Inr (if r \<noteq> 0 then DECODE_RESULT_int DECODE_CONVERT_FAILED else ret,
                  dst\<lparr>dd_frame := (dd_frame dst)[ii := fb\<lparr>fb_data := data\<rparr>]\<rparr>, c1)))))"

primrec convert_frames :: "av_env \<Rightarrow> bool \<Rightarrow> DecoderImpl \<Rightarrow> nat list \<Rightarrow> int \<times> DecoderVideoDest \<times> Converter
    \<Rightarrow> (int \<times> DecoderVideoDest \<times> Converter) cpp" where
  "convert_frames av junk d [] s = Inr s"
| "convert_frames av junk d (ii # ks) s = cbind (convert_frame av junk d ii s) (convert_frames av junk d ks)"

definition Impl_Decode :: "av_env \<Rightarrow> bool \<Rightarrow> VideoSource \<Rightarrow> DecoderVideoDest \<Rightarrow> DecoderImpl
    \<Rightarrow> (int \<times> DecoderVideoDest \<times> DecoderImpl) cpp" where
  "Impl_Decode av junk src dst d =
     (if \<not> m_source_avpacket d then Inl NullPointer
      else cbind (ptr_bytes (fb_data (vs_frame src)) (fb_data_size (vs_frame src))) (\<lambda>bs.
        if avcodec_send_packet av bs \<noteq> 0
        then Inr (DECODE_RESULT_int (if AVERROR_INVALIDDATA av = avcodec_send_packet av bs then DECODE_NEED_MORE_FRAME else DECODE_FAILED), dst, d)
        else if avcodec_receive_frame av \<noteq> 0 then Inr (DECODE_RESULT_int DECODE_FAILED, dst, d)
        else if ctx_width av \<le> 0 \<or> ctx_width av \<le> 0 then Inr (DECODE_RESULT_int DECODE_NEED_MORE_FRAME, dst, d)
        else
          cbind (Impl_GetFrameInfo (int FT_ORIGINAL) d) (\<lambda>fi.
          cbind (put_FrameInfo (int FT_ORIGINAL) (fi\<lparr>fi_width := ctx_width av, fi_height := ctx_height av\<rparr>) d) (\<lambda>d1.
          cbind (convert_frames av junk d1 [0..<FT_NUM] (DECODE_RESULT_int DECODE_SUCCESS, dst, m_convert d1)) (\<lambda>(ret, dst', c).
            Inr (ret, dst', d1\<lparr>m_convert := c\<rparr>))))))"

section \<open>Conversions stay in their buffers\<close>

text \<open>Documented behaviour of FFmpeg: a picture written is as long as its buffer size, which is then not negative.\<close>

definition av_sized :: "av_env \<Rightarrow> bool" where
  "av_sized av \<longleftrightarrow> (\<forall>p. av_image_fill_arrays av (dst_pixel_format p) (dst_width p) (dst_height p) \<ge> 0 \<longrightarrow>
     int (length (av_picture av p)) = av_image_get_buffer_size av (dst_pixel_format p) (dst_width p) (dst_height p))"

text \<open>A frame buffer of the thread: null, or the start of a memory of its size.\<close>

definition buffer_ok :: "FrameBuffer \<Rightarrow> bool" where
  "buffer_ok fb \<longleftrightarrow> (case fb_data fb of None \<Rightarrow> True | Some (mem, off) \<Rightarrow> off = 0 \<and> fb_data_size fb = int (length mem))"

definition dest_ok :: "DecoderVideoDest \<Rightarrow> bool" where
  "dest_ok dst \<longleftrightarrow> length (dd_frame dst) = FT_NUM \<and> list_all buffer_ok (dd_frame dst)"

text \<open>Conversions change bytes only: neither the sizes nor which pointers are null.\<close>

definition same_frames :: "DecoderVideoDest \<Rightarrow> DecoderVideoDest \<Rightarrow> bool" where
  "same_frames dst' dst \<longleftrightarrow> map (\<lambda>fb. (fb_data_size fb, fb_data fb = None)) (dd_frame dst')
     = map (\<lambda>fb. (fb_data_size fb, fb_data fb = None)) (dd_frame dst)"

lemma Convert_ok:
  assumes "av_sized av" "converter_inv c" "buffer_ok fb" "fb_data fb \<noteq> None" "p = cp_sws param" "cp_dst_buffer param = fb_data fb"
    and "av_image_get_buffer_size av (dst_pixel_format p) (dst_width p) (dst_height p) \<le> fb_data_size fb"
  shows "\<exists>r data c'. Convert av junk param c = Inr (r, data, c') \<and> converter_inv c' \<and> buffer_ok (fb\<lparr>fb_data := data\<rparr>)
    \<and> (data = None \<longleftrightarrow> fb_data fb = None)"
proof -
  obtain r c1 where i: "Converter_Initialize av junk p c = (r, c1)" by fastforce
  have c1: "converter_inv c1" "r = 0 \<Longrightarrow> m_sws_contexts c1 = Some p"
    using Converter_Initialize_ok [OF assms(2), of av junk p] i by auto
  obtain mem off where m: "fb_data fb = Some (mem, off)" using assms(4) by auto
  then have b: "off = 0" "fb_data_size fb = int (length mem)" using assms(3) by (auto simp: buffer_ok_def)
  have w: "ptr_write (Some (mem, off)) (av_picture av p) =
      Inr (Some (av_picture av p @ drop (length (av_picture av p)) mem, 0))"
    if "\<not> av_image_fill_arrays av (dst_pixel_format p) (dst_width p) (dst_height p) < 0"
  proof -
    have "int (length (av_picture av p)) \<le> int (length mem)"
      using assms(1,7) that b by (simp add: av_sized_def)
    then show ?thesis using b by (simp add: ptr_write_def wr_def)
  qed
  have len: "length (av_picture av p @ drop (length (av_picture av p)) mem) = length mem"
    if "\<not> av_image_fill_arrays av (dst_pixel_format p) (dst_width p) (dst_height p) < 0"
  proof -
    have "int (length (av_picture av p)) \<le> int (length mem)"
      using assms(1,7) that b by (simp add: av_sized_def)
    then show ?thesis by simp
  qed
  show ?thesis
    using c1 i w len assms(3,5,6) m b by (auto simp: Convert_def buffer_ok_def Let_def)
qed

lemma convert_frame_ok:
  assumes "av_sized av" "converter_inv c" "dest_ok dst" "ii < FT_NUM" "length (di_frame_info (m_info d)) = FT_NUM"
  shows "\<exists>ret' dst' c'. convert_frame av junk d ii (ret, dst, c) = Inr (ret', dst', c') \<and> converter_inv c' \<and> dest_ok dst'
    \<and> dd_frame_info dst' = dd_frame_info dst \<and> same_frames dst' dst"
proof -
  have l: "ii < length (dd_frame dst)" "ii < length (di_frame_info (m_info d))"
    using assms by (simp_all add: dest_ok_def)
  let ?fb = "dd_frame dst ! ii" and ?fi = "di_frame_info (m_info d) ! ii"
  have fb: "buffer_ok ?fb" using assms(3) l by (auto simp: dest_ok_def list_all_iff)
  have g: "arr_get (dd_frame dst) (int ii) = Inr ?fb" "Impl_GetFrameInfo (int ii) d = Inr ?fi"
    using l by (simp_all add: arr_get_def Impl_GetFrameInfo_def)
  define p where "p = \<lparr>src_pixel_format = ctx_pix_fmt av, src_width = ctx_width av, src_height = ctx_height av,
    dst_pixel_format = GetToAVPixelFormat (fi_pixel_format ?fi), dst_width = fi_width ?fi, dst_height = fi_height ?fi\<rparr>"
  define P where "P = \<lparr>cp_sws = p, cp_dst_buffer = fb_data ?fb\<rparr>"
  show ?thesis
  proof (cases "fb_data ?fb = None \<or> fb_data_size ?fb < 128 \<or> \<not> fi_decode ?fi \<or> VPIX_int VPIX_FMT_NONE = fi_pixel_format ?fi
      \<or> fb_data_size ?fb < GetImageBufferSize av (dst_pixel_format p) (dst_width p) (dst_height p)")
    case True
    then show ?thesis using assms(2,3) g by (auto simp: convert_frame_def p_def Let_def same_frames_def)
  next
    case False
    obtain r data c' where cv: "Convert av junk P c = Inr (r, data, c')" "converter_inv c'" "buffer_ok (?fb\<lparr>fb_data := data\<rparr>)"
      "data = None \<longleftrightarrow> fb_data ?fb = None"
      using Convert_ok [OF assms(1,2) fb, of p P junk] False by (auto simp: P_def GetImageBufferSize_def not_less)
    have "dest_ok (dst\<lparr>dd_frame := (dd_frame dst)[ii := ?fb\<lparr>fb_data := data\<rparr>]\<rparr>)"
      using assms(3) cv(3) by (auto simp: dest_ok_def list_all_iff dest!: set_update_subset_insert [THEN subsetD])
    moreover have "same_frames (dst\<lparr>dd_frame := (dd_frame dst)[ii := ?fb\<lparr>fb_data := data\<rparr>]\<rparr>) dst"
      using cv(4) l by (simp add: same_frames_def map_update list_update_same_conv)
    ultimately show ?thesis
      using False cv g by (auto simp: convert_frame_def p_def P_def Let_def)
  qed
qed

lemma convert_frames_ok:
  assumes "av_sized av" "converter_inv c" "dest_ok dst" "list_all (\<lambda>i. i < FT_NUM) ks" "length (di_frame_info (m_info d)) = FT_NUM"
  shows "\<exists>ret' dst' c'. convert_frames av junk d ks (ret, dst, c) = Inr (ret', dst', c') \<and> converter_inv c' \<and> dest_ok dst'
    \<and> dd_frame_info dst' = dd_frame_info dst \<and> same_frames dst' dst"
  using assms(2-4)
proof (induction ks arbitrary: ret dst c)
  case Nil
  then show ?case by (simp add: same_frames_def)
next
  case (Cons i ks)
  have i: "i < FT_NUM" "list_all (\<lambda>i. i < FT_NUM) ks" using Cons.prems(3) by auto
  obtain r1 dst1 c1 where "convert_frame av junk d i (ret, dst, c) = Inr (r1, dst1, c1)" "converter_inv c1" "dest_ok dst1"
    "dd_frame_info dst1 = dd_frame_info dst" "same_frames dst1 dst"
    using convert_frame_ok [OF assms(1) Cons.prems(1,2) i(1) assms(5)] by blast
  then show ?case
    using Cons.IH [of c1 dst1 r1] i(2) by (auto simp: same_frames_def)
qed

definition impl_ok :: "DecoderImpl \<Rightarrow> bool" where
  "impl_ok d \<longleftrightarrow> m_source_avpacket d \<and> converter_inv (m_convert d) \<and> length (di_frame_info (m_info d)) = FT_NUM"

lemma Impl_Decode_ok:
  assumes "av_sized av" "impl_ok d" "dest_ok dst" "ptr_bytes (fb_data (vs_frame src)) (fb_data_size (vs_frame src)) = Inr bs"
  shows "\<exists>ret dst' d'. Impl_Decode av junk src dst d = Inr (ret, dst', d') \<and> impl_ok d' \<and> dest_ok dst'
    \<and> dd_frame_info dst' = dd_frame_info dst \<and> same_frames dst' dst"
proof -
  let ?fs = "di_frame_info (m_info d)"
  define d1 where "d1 = d\<lparr>m_info := (m_info d)\<lparr>di_frame_info := ?fs[0 := (?fs ! 0)\<lparr>fi_width := ctx_width av, fi_height := ctx_height av\<rparr>]\<rparr>\<rparr>"
  have l: "length ?fs = 3" using assms(2) by (simp add: impl_ok_def FT_NUM_def)
  have g: "Impl_GetFrameInfo (int FT_ORIGINAL) d = Inr (?fs ! 0)"
    "put_FrameInfo (int FT_ORIGINAL) ((?fs ! 0)\<lparr>fi_width := ctx_width av, fi_height := ctx_height av\<rparr>) d = Inr d1"
    using l by (simp_all add: Impl_GetFrameInfo_def put_FrameInfo_def arr_get_def arr_set_def FT_ORIGINAL_def d1_def)
  have d1: "m_convert d1 = m_convert d" "m_source_avpacket d1 = m_source_avpacket d" "length (di_frame_info (m_info d1)) = FT_NUM"
    using l by (simp_all add: d1_def FT_NUM_def)
  have c: "converter_inv (m_convert d1)" using assms(2) d1 by (simp add: impl_ok_def)
  have ks: "list_all (\<lambda>i. i < FT_NUM) [0..<FT_NUM]" by (simp add: list_all_iff)
  obtain ret' dst' c' where "convert_frames av junk d1 [0..<FT_NUM] (DECODE_RESULT_int DECODE_SUCCESS, dst, m_convert d1) = Inr (ret', dst', c')"
    "converter_inv c'" "dest_ok dst'" "dd_frame_info dst' = dd_frame_info dst" "same_frames dst' dst"
    using convert_frames_ok [OF assms(1) c assms(3) ks d1(3)] by blast
  then show ?thesis
    using assms(2-4) g d1 by (simp add: Impl_Decode_def impl_ok_def same_frames_def)
qed

text \<open>The height is never tested: the second test repeats the first.\<close>

lemma Impl_Activate_ok:
  assumes "fst (Impl_Activate av d) = 0" "converter_inv (m_convert d)" "length (di_frame_info (m_info d)) = FT_NUM"
  shows "impl_ok (snd (Impl_Activate av d))"
  using assms by (auto simp: Impl_Activate_def impl_ok_def Let_def split: if_splits)

end
