(* ===== verification/Thread_Join.thy ===== *)
theory Thread_Join
  imports Sync_Workers
begin

text \<open>
  The threads of the program are stopped in one way: \<open>Deactivate\<close> clears a running flag, which the thread
  sets itself when it begins, wakes the thread and joins it. This theory states that interface once, as
  a locale over the turns of a thread, and what follows for the join; the components with such a thread
  interpret it.
\<close>

text \<open>Where the thread of an \<open>InnerThread\<close> is: created but not yet in \<open>ThreadLoop\<close>, in its loop, or finished.\<close>

datatype thread_pc = NotStarted | Started | Looping | Ended

text \<open>
  \<open>turn e\<close> is one turn of the thread, with what its environment does in it; \<open>stop\<close> is what \<open>Deactivate\<close> does
  before it joins. A thread in its loop ends after as many turns in which it is woken (\<open>wakes e\<close>) as its \<open>rank\<close> allows;
  one that had not begun sets the flag again, and is \<open>lost\<close>.
\<close>

locale flagged_thread =
  fixes turn :: "'e \<Rightarrow> 's \<Rightarrow> 's"
    and stop :: "'s \<Rightarrow> 's"
    and pc :: "'s \<Rightarrow> thread_pc"
    and admissible wakes :: "'e \<Rightarrow> bool"
    and rank :: "'s \<Rightarrow> nat"
    and good stopping lost :: "'s \<Rightarrow> bool"
  assumes stop_looping: "good s \<Longrightarrow> pc s = Looping \<Longrightarrow> stopping (stop s)"
    and stopping_turn: "stopping s \<Longrightarrow> admissible e \<Longrightarrow> pc (turn e s) \<noteq> Ended \<Longrightarrow>
      stopping (turn e s) \<and> rank (turn e s) \<le> rank s \<and> (wakes e \<longrightarrow> rank (turn e s) < rank s)"
    and ended_turn: "pc s = Ended \<Longrightarrow> pc (turn e s) = Ended"
    and stop_pc: "pc (stop s) = pc s"
    and stop_early: "good s \<Longrightarrow> pc s = Started \<Longrightarrow> admissible e \<Longrightarrow> lost (turn e (stop s))"
    and lost_turn: "lost s \<Longrightarrow> admissible e \<Longrightarrow> lost (turn e s)"
    and lost_pc: "lost s \<Longrightarrow> pc s \<noteq> Ended"
begin

primrec run :: "'e list \<Rightarrow> 's \<Rightarrow> 's" where
  "run [] s = s"
| "run (e # es) s = run es (turn e s)"

lemma ended_run: "pc s = Ended \<Longrightarrow> pc (run es s) = Ended"
  by (induction es arbitrary: s) (simp_all add: ended_turn)

lemma lost_run: "lost s \<Longrightarrow> list_all admissible es \<Longrightarrow> lost (run es s)"
  by (induction es arbitrary: s) (simp_all add: lost_turn)

lemma stopping_run:
  "stopping s \<Longrightarrow> list_all admissible es \<Longrightarrow> rank s < length (filter wakes es) \<Longrightarrow> pc (run es s) = Ended"
proof (induction es arbitrary: s)
  case Nil
  then show ?case by simp
next
  case (Cons e es)
  show ?case
  proof (cases "pc (turn e s) = Ended")
    case True
    then show ?thesis by (simp add: ended_run)
  next
    case False
    then have t: "stopping (turn e s)" "rank (turn e s) \<le> rank s" "wakes e \<longrightarrow> rank (turn e s) < rank s"
      using stopping_turn [OF Cons.prems(1) _ False] Cons.prems(2) by auto
    then have "rank (turn e s) < length (filter wakes es)"
      using Cons.prems(3) by (auto split: if_splits)
    then show ?thesis using Cons.IH [OF t(1)] Cons.prems(2) by simp
  qed
qed

text \<open>The join returns for a thread in its loop that is woken often enough, and never for one that had not begun.\<close>

lemma join_returns:
  assumes "good s" "pc s = Looping" "list_all admissible es" "rank (stop s) < length (filter wakes es)"
  shows "pc (run es (stop s)) = Ended"
  using stopping_run [OF stop_looping [OF assms(1,2)] assms(3,4)] .

lemma join_blocks:
  assumes "good s" "pc s = Started" "list_all admissible es"
  shows "pc (run es (stop s)) \<noteq> Ended"
proof (cases es)
  case Nil
  then show ?thesis using assms(2) by (simp add: stop_pc)
next
  case (Cons e es')
  then have "lost (turn e (stop s))" using stop_early [OF assms(1,2)] assms(3) by simp
  then have "lost (run es' (turn e (stop s)))" using assms(3) Cons by (intro lost_run) simp_all
  then show ?thesis using Cons lost_pc by simp
qed

end

end
