(* ===== verification/Fps_Checker.thy ===== *)
theory Fps_Checker
  imports Complex_Main Cam_Prelude
begin

text \<open>
  \<open>FPSChecker\<close> of \<open>include/common/FPSChecker.cpp\<close>. A time point is its number of nanoseconds, 0 for
  \<open>chrono_tp()\<close>; the readings of the clock are arguments. A \<open>float\<close> or \<open>double\<close> is the rational number it stands for:
  an operation is the exact one followed by the rounding of its type, which is an argument (\<open>fl32\<close>, \<open>fl64\<close>).
  The period is taken to be positive, as in the program, so that no quotient is by zero.
\<close>

section \<open>Code\<close>

record fp =
  fl32 :: "rat \<Rightarrow> rat"
  fl64 :: "rat \<Rightarrow> rat"

text \<open>\<open>std::round\<close> rounds halves away from zero.\<close>

definition std_round :: "rat \<Rightarrow> int" where
  "std_round x = (if 0 \<le> x then \<lfloor>x + 1 / 2\<rfloor> else - \<lfloor>1 / 2 - x\<rfloor>)"

definition elapsed_ms :: "fp \<Rightarrow> int \<Rightarrow> int \<Rightarrow> rat" where
  "elapsed_ms fp from to = fl64 fp (of_int (to - from) / 1000000)"

record FPSChecker =
  fps_count :: int
  fps_period :: int
  m_analysis_fps :: rat
  m_fps_check :: int

definition FPSChecker_new :: FPSChecker where
  "FPSChecker_new = \<lparr>fps_count = 0, fps_period = 1000, m_analysis_fps = 0, m_fps_check = 0\<rparr>"

definition SetPeriod :: "int \<Rightarrow> FPSChecker \<Rightarrow> FPSChecker" where
  "SetPeriod ms c = c\<lparr>fps_period := ms\<rparr>"

definition GetAnalysisFps :: "FPSChecker \<Rightarrow> rat" where
  "GetAnalysisFps c = m_analysis_fps c"

definition GetAnaysisFpsRount :: "FPSChecker \<Rightarrow> int" where
  "GetAnaysisFpsRount c = c_int (std_round (m_analysis_fps c))"

text \<open>The call of the callback, if it is called: time, count and frames per second. \<open>t\<close> and \<open>t'\<close> are the two readings.\<close>

definition DoCheckCount :: "fp \<Rightarrow> int \<Rightarrow> int \<Rightarrow> FPSChecker \<Rightarrow> (rat \<times> int \<times> rat) option \<times> FPSChecker" where
  "DoCheckCount fp t t' c =
     (if 0 = m_fps_check c then (None, c\<lparr>m_fps_check := t\<rparr>)
      else
        let c1 = c\<lparr>fps_count := c_int (fps_count c + 1)\<rparr>; elapsed = elapsed_ms fp (m_fps_check c1) t in
        if elapsed \<ge> of_int (fps_period c1) then
          let fps = fl32 fp (fl32 fp (of_int (c_int (fps_count c1 * fps_period c1))) / fl32 fp elapsed) in
          (Some (elapsed, fps_count c1, fps), c1\<lparr>m_analysis_fps := fps, m_fps_check := t', fps_count := 0\<rparr>)
        else (None, c1))"

definition DoCheckFps :: "fp \<Rightarrow> int \<Rightarrow> int \<Rightarrow> FPSChecker \<Rightarrow> ((rat \<times> int \<times> rat) option \<times> FPSChecker) cpp" where
  "DoCheckFps fp t t' c =
     (if 0 = m_analysis_fps c then Inr (None, snd (DoCheckCount fp t t' c))
      else
        let c1 = c\<lparr>fps_count := c_int (fps_count c + 1)\<rparr>; elapsed = elapsed_ms fp (m_fps_check c1) t;
            step = c_int (std_round (fl32 fp (1000 / m_analysis_fps c1))) in
        if step = 0 then Inl DivideByZero
        else let check_count = c_div (fps_period c1) step in
          if 0 = check_count then Inr (None, c1)
          else if 0 = c_mod (fps_count c1) check_count then
            let fps0 = fl32 fp (fl32 fp (of_int (c_int (fps_count c1 * 1000))) / fl32 fp elapsed);
                fps = (if fps0 > 60 then 60 else fps0) in
            Inr (Some (elapsed, fps_count c1, fps), c1\<lparr>m_analysis_fps := fps, m_fps_check := t', fps_count := 0\<rparr>)
          else Inr (None, c1))"

section \<open>Counts\<close>

text \<open>Every call of \<open>DoCheckCount\<close> after the first is counted in exactly one report, or not yet.\<close>

primrec check_counts :: "fp \<Rightarrow> (int \<times> int) list \<Rightarrow> FPSChecker \<Rightarrow> int list \<times> FPSChecker" where
  "check_counts fp [] c = ([], c)"
| "check_counts fp (x # xs) c =
     (let (r, c1) = DoCheckCount fp (fst x) (snd x) c; (ns, c2) = check_counts fp xs c1 in
      ((case r of None \<Rightarrow> [] | Some (ms, n, fps) \<Rightarrow> [n]) @ ns, c2))"

lemma DoCheckCount_count:
  assumes "m_fps_check c \<noteq> 0" "t' \<noteq> 0" "0 \<le> fps_count c" "fps_count c + 1 < 2147483648"
  shows "m_fps_check (snd (DoCheckCount fp t t' c)) \<noteq> 0
    \<and> fps_count (snd (DoCheckCount fp t t' c)) + (case fst (DoCheckCount fp t t' c) of None \<Rightarrow> 0 | Some (ms, n, fps) \<Rightarrow> n)
      = fps_count c + 1 \<and> 0 \<le> fps_count (snd (DoCheckCount fp t t' c))
    \<and> (fst (DoCheckCount fp t t' c) \<noteq> None \<longrightarrow> fps_count (snd (DoCheckCount fp t t' c)) = 0)"
  using assms by (simp add: DoCheckCount_def Let_def c_int_small)

lemma check_counts_all:
  assumes "m_fps_check c \<noteq> 0" "\<forall>x \<in> set xs. snd x \<noteq> 0" "0 \<le> fps_count c" "fps_count c + int (length xs) < 2147483648"
  shows "sum_list (fst (check_counts fp xs c)) + fps_count (snd (check_counts fp xs c)) = fps_count c + int (length xs)"
  using assms
proof (induction xs arbitrary: c)
  case Nil
  then show ?case by simp
next
  case (Cons x xs)
  let ?c1 = "snd (DoCheckCount fp (fst x) (snd x) c)"
  have c1: "m_fps_check ?c1 \<noteq> 0" "0 \<le> fps_count ?c1"
    "fps_count ?c1 + (case fst (DoCheckCount fp (fst x) (snd x) c) of None \<Rightarrow> 0 | Some (ms, n, fps) \<Rightarrow> n) = fps_count c + 1"
    "fst (DoCheckCount fp (fst x) (snd x) c) \<noteq> None \<longrightarrow> fps_count ?c1 = 0"
    using DoCheckCount_count [of c "snd x" fp "fst x"] Cons.prems by auto
  have le: "fps_count ?c1 + int (length xs) < 2147483648"
    using c1 Cons.prems by (auto split: option.splits)
  have "sum_list (fst (check_counts fp xs ?c1)) + fps_count (snd (check_counts fp xs ?c1)) = fps_count ?c1 + int (length xs)"
    using Cons.IH [OF c1(1) _ c1(2) le] Cons.prems(2) by simp
  then show ?case
    using c1(3) by (auto simp: Let_def split_beta split: option.splits)
qed

text \<open>More than 2000 frames in a second make the step of \<open>DoCheckFps\<close> zero.\<close>

lemma DoCheckFps_zero_step:
  assumes "\<And>x. fl32 fp x = x" "2000 < m_analysis_fps c"
  shows "DoCheckFps fp t t' c = Inl DivideByZero"
proof -
  have p: "0 < m_analysis_fps c" using assms(2) by simp
  have q: "1000 / m_analysis_fps c < 1 / 2" "0 \<le> 1000 / m_analysis_fps c"
    using assms(2) p by (simp_all add: field_simps)
  then have "std_round (1000 / m_analysis_fps c) = 0"
    by (simp add: std_round_def floor_eq_iff)
  then show ?thesis
    using p by (simp add: DoCheckFps_def assms(1) Let_def c_int_small)
qed

end
