(* ===== verification/Decoder.thy ===== *)
theory Decoder
  imports Decoder_Impl Queue_Local Timer_Locker Thread_Join Fps_Checker
begin

text \<open>
  \<open>Decoder\<close> of \<open>src/decoder/Decoder.cpp\<close>: the frames received wait in two queues, their bytes in a
  \<open>QueueLocalMemory\<close> and what else is known of them in \<open>m_queue_src\<close>; the thread takes a frame from both, has it
  decoded by the \<open>DecoderImpl\<close> and calls the callback with the pictures. The locks make taking and pushing
  atomic. The readings of the clock, FFmpeg and the system's timer are arguments.
\<close>

section \<open>Code\<close>

record QueueVideoSrc =
  qv_video :: VideoSource
  qv_time :: int

record Decoder =
  dec_thread :: InnerThread
  dec_running :: bool
  m_impl :: "DecoderImpl option"
  m_queue_stream :: "QueueLocal option"
  m_queue_src :: "QueueVideoSrc list"
  dec_fps_checker :: FPSChecker
  has_callback_decompress :: bool
  m_adaptive_fps :: int

definition Decoder_new :: Decoder where
  "Decoder_new = \<lparr>dec_thread = SaveThreadName ''Decoder'' InnerThread_new, dec_running = False, m_impl = None,
     m_queue_stream = None, m_queue_src = [], dec_fps_checker = FPSChecker_new, has_callback_decompress = False,
     m_adaptive_fps = DECODE_DEFAULT_FPS\<rparr>"

definition GetDecoderInfo :: "Decoder \<Rightarrow> DecoderInfo cpp" where
  "GetDecoderInfo d = (case m_impl d of None \<Rightarrow> Inl NullPointer | Some impl \<Rightarrow> Inr (GetInfo impl))"

definition GetFrameInfo :: "int \<Rightarrow> Decoder \<Rightarrow> FrameInfo cpp" where
  "GetFrameInfo type d = (case m_impl d of None \<Rightarrow> Inl NullPointer | Some impl \<Rightarrow> Impl_GetFrameInfo type impl)"

definition IsFpsAuto :: "Decoder \<Rightarrow> bool cpp" where
  "IsFpsAuto d = cbind (GetDecoderInfo d) (\<lambda>info. Inr (if DECODE_FPS_AUTO = di_fps info then True else False))"

definition stream_queue_size :: u32 where
  "stream_queue_size = 1024 * 1024"

definition Decoder_Initialize :: "factory_map \<Rightarrow> (nat \<Rightarrow> u8) \<Rightarrow> DecoderInfo \<Rightarrow> bool \<Rightarrow> Decoder \<Rightarrow> (int \<times> Decoder) cpp" where
  "Decoder_Initialize factory junk param callback d =
     (let d1 = d\<lparr>m_impl := Decoder_CreateFactory (di_type param) factory\<rparr> in
      case m_impl d1 of
        None \<Rightarrow> Inr (1, d1)
      | Some impl \<Rightarrow>
          let d2 = d1\<lparr>m_impl := Some (SetInfo param impl)\<rparr> in
          cbind (IsFpsAuto d2) (\<lambda>auto.
          cbind (GetDecoderInfo d2) (\<lambda>info.
            let fps = (if auto then DECODE_DEFAULT_FPS else di_fps info);
                d3 = d2\<lparr>m_adaptive_fps := (if 0 = fps then DECODE_DEFAULT_FPS else fps)\<rparr> in
            cbind (QL_Initialize junk ''Stream_Queue'' stream_queue_size QueueLocal_new) (\<lambda>(r, q).
              Inr (0, d3\<lparr>m_queue_stream := Some q, has_callback_decompress := callback\<rparr>)))))"

definition Decoder_Finalize :: "Decoder \<Rightarrow> (int \<times> Decoder) cpp" where
  "Decoder_Finalize d = (case m_queue_stream d of
       None \<Rightarrow> Inl NullPointer
     | Some q \<Rightarrow> Inr (0, d\<lparr>m_queue_stream := Some (QL_Finalize q), m_queue_src := []\<rparr>))"

definition Decoder_Activate :: "av_env \<Rightarrow> Decoder \<Rightarrow> (int \<times> Decoder) cpp" where
  "Decoder_Activate av d = (case m_impl d of
       None \<Rightarrow> Inl NullPointer
     | Some impl \<Rightarrow>
         let (r, impl') = Impl_Activate av impl; d1 = d\<lparr>m_impl := Some impl'\<rparr> in
         if r \<noteq> 0 then Inr (1, d1)
         else cbind (StartThread (dec_thread d1)) (\<lambda>(b, t). Inr (0, d1\<lparr>dec_thread := t\<rparr>)))"

text \<open>\<open>Deactivate\<close> before and after the join.\<close>

definition Decoder_stop :: "Decoder \<Rightarrow> Decoder" where
  "Decoder_stop d = d\<lparr>dec_running := False\<rparr>"

definition Decoder_joined :: "Decoder \<Rightarrow> (int \<times> Decoder) cpp" where
  "Decoder_joined d =
     (let d1 = d\<lparr>dec_thread := JoinThread (dec_thread d)\<rparr> in
      case m_impl d1 of None \<Rightarrow> Inl NullPointer
      | Some impl \<Rightarrow> Inr (0, d1\<lparr>m_impl := Some (snd (Impl_Deactivate impl))\<rparr>))"

definition Decoder_SetFrameInfo :: "int \<Rightarrow> FrameInfo \<Rightarrow> Decoder \<Rightarrow> Decoder cpp" where
  "Decoder_SetFrameInfo type info d = (case m_impl d of
       None \<Rightarrow> Inl NullPointer
     | Some impl \<Rightarrow>
         if int FT_ORIGINAL = type then
           cbind (Impl_GetFrameInfo type impl) (\<lambda>fi.
           cbind (put_FrameInfo type (fi\<lparr>fi_pixel_format := fi_pixel_format info\<rparr>) impl) (\<lambda>impl'.
             Inr (d\<lparr>m_impl := Some impl'\<rparr>)))
         else cbind (put_FrameInfo type info impl) (\<lambda>impl'. Inr (d\<lparr>m_impl := Some impl'\<rparr>)))"

definition GetCalcBufferSize :: "int \<Rightarrow> int \<Rightarrow> int \<Rightarrow> int" where
  "GetCalcBufferSize f width height =
     (if f = VPIX_int VPIX_FMT_BGR24 \<or> f = VPIX_int VPIX_FMT_RGB24 then
        let line_size = c_int (c_div (c_int (c_int (width * 3) + 0 + 3)) 4 * 4) in c_int (line_size * height)
      else if f = VPIX_int VPIX_FMT_YUY2 then c_int (c_int (width * height) * 2)
      else if f = VPIX_int VPIX_FMT_YV12 then
        let temp = c_int (width * height) in c_int (temp + c_div temp 2)
      else 0)"

text \<open>An \<open>int\<close> as a \<open>size_t\<close>, and \<open>std::vector<byte>::resize\<close>.\<close>

definition size_t :: "int \<Rightarrow> nat" where
  "size_t x = nat (x mod 2 ^ 64)"

definition byte_resize :: "nat \<Rightarrow> u8 list \<Rightarrow> u8 list cpp" where
  "byte_resize n v = (if n \<ge> 2 ^ 63 then Inl StdLengthError else Inr (vec_resize n 0 v))"

text \<open>The bytes from a pointer on.\<close>

definition ptr_mem :: "byte_ptr \<Rightarrow> u8 list" where
  "ptr_mem p = (case p of None \<Rightarrow> [] | Some (bs, off) \<Rightarrow> drop (nat off) bs)"

text \<open>\<open>t\<close> is the time of the push, \<open>t1\<close> and \<open>t2\<close> are the readings of the frame counter.\<close>

definition QueuePush :: "fp \<Rightarrow> int \<Rightarrow> int \<Rightarrow> int \<Rightarrow> VideoSource \<Rightarrow> Decoder \<Rightarrow> (int \<times> Decoder) cpp" where
  "QueuePush fp t t1 t2 src d =
     (if fb_data_size (vs_frame src) \<le> 0 then Inr (1, d)
      else (case m_queue_stream d of
        None \<Rightarrow> Inl NullPointer
      | Some q \<Rightarrow>
          cbind (QL_Push (ptr_mem (fb_data (vs_frame src))) (word_of_int (fb_data_size (vs_frame src))) q) (\<lambda>(r, q').
            let d1 = d\<lparr>m_queue_stream := Some q'\<rparr> in
            if r \<noteq> 0 then Inr (2, d1)
            else
              let item = \<lparr>qv_video = src\<lparr>vs_frame := (vs_frame src)\<lparr>fb_data := None\<rparr>\<rparr>, qv_time = t\<rparr>;
                  d2 = d1\<lparr>m_queue_src := m_queue_src d1 @ [item]\<rparr>;
                  (call, c) = DoCheckCount fp t1 t2 (dec_fps_checker d2);
                  d3 = d2\<lparr>dec_fps_checker := c\<rparr> in
              (case call of
                 None \<Rightarrow> Inr (0, d3)
               | Some (ms, count, fps) \<Rightarrow>
                   cbind (IsFpsAuto d3) (\<lambda>auto. Inr (0, if auto then d3\<lparr>m_adaptive_fps := c_int (std_round fps)\<rparr> else d3))))))"

definition GetDecodingFps :: "int \<Rightarrow> Decoder \<Rightarrow> int cpp" where
  "GetDecodingFps cur_fps d =
     (if size_t (c_int (std_round (of_int cur_fps * 5 / 4))) < length (m_queue_src d) then Inr 100
      else
        cbind (IsFpsAuto d) (\<lambda>auto.
        cbind (GetDecoderInfo d) (\<lambda>info.
          let change_fps = (if auto then m_adaptive_fps d else di_fps info);
              change_fps1 = (if auto then
                 (let fps_diff = \<bar>c_int (m_adaptive_fps d - cur_fps)\<bar> in if fps_diff > 1 then m_adaptive_fps d else change_fps)
                 else change_fps) in
          Inr (if 0 = change_fps1 then cur_fps else change_fps1))))"

text \<open>The locals of \<open>ThreadLoop\<close> that live from one pass to the next.\<close>

record DecodeLocals =
  timer_fps :: "int CTimerLocker option"
  decoding_index :: int
  arr_buffer_src :: "u8 list"
  arr_buffer_dst :: "u8 list list"

primrec dst_buffer_loop :: "nat list \<Rightarrow> u8 list list \<Rightarrow> Decoder \<Rightarrow> DecoderVideoDest \<Rightarrow> DecoderVideoDest cpp" where
  "dst_buffer_loop [] arr d dst = Inr dst"
| "dst_buffer_loop (ii # ks) arr d dst =
     cbind (GetFrameInfo (int ii) d) (\<lambda>fi.
     cbind (arr_set (dd_frame_info dst) (int ii) fi) (\<lambda>infos.
     cbind (arr_get arr (int ii)) (\<lambda>b.
       let dst1 = dst\<lparr>dd_frame_info := infos\<rparr> in
       if b = [] then dst_buffer_loop ks arr d dst1
       else cbind (arr_set (dd_frame dst1) (int ii) \<lparr>fb_data = Some (b, 0), fb_data_size = c_int (int (length b))\<rparr>) (\<lambda>fs.
              dst_buffer_loop ks arr d (dst1\<lparr>dd_frame := fs\<rparr>)))))"

definition SetDstBufferInfo :: "DecoderVideoDest \<Rightarrow> u8 list list \<Rightarrow> Decoder \<Rightarrow> DecoderVideoDest cpp" where
  "SetDstBufferInfo dst arr d = dst_buffer_loop [0..<FT_NUM] arr d dst"

text \<open>The loop of \<open>SetAllocBuffer\<close> with its result so far.\<close>

primrec alloc_loop :: "nat list \<Rightarrow> Decoder \<Rightarrow> bool \<times> DecoderVideoDest \<times> u8 list list \<Rightarrow> (bool \<times> DecoderVideoDest \<times> u8 list list) cpp" where
  "alloc_loop [] d s = Inr s"
| "alloc_loop (ii # ks) d s =
     (let (ret, dst, arr) = s in
      cbind (GetFrameInfo (int ii) d) (\<lambda>fi.
        if VPIX_int VPIX_FMT_NONE = fi_pixel_format fi \<or> False = fi_decode fi \<or> 0 = fi_width fi \<or> 0 = fi_height fi
        then alloc_loop ks d s
        else
          cbind (arr_get (dd_frame dst) (int ii)) (\<lambda>fb.
          cbind (arr_get arr (int ii)) (\<lambda>b.
            let data_size = GetCalcBufferSize (fi_pixel_format fi) (fi_width fi) (fi_height fi);
                dst1 = dst\<lparr>dd_frame := (dd_frame dst)[ii := fb\<lparr>fb_data_size := data_size\<rparr>]\<rparr> in
            if length b < size_t data_size
            then cbind (byte_resize (size_t data_size) b) (\<lambda>b'. alloc_loop ks d (True, dst1, arr[ii := b']))
            else alloc_loop ks d (ret, dst1, arr)))))"

definition SetAllocBuffer :: "DecoderVideoDest \<Rightarrow> u8 list list \<Rightarrow> Decoder \<Rightarrow> (bool \<times> DecoderVideoDest \<times> u8 list list) cpp" where
  "SetAllocBuffer dst arr d = alloc_loop [0..<FT_NUM] d (False, dst, arr)"

text \<open>The block that holds the queue's lock: the frame taken, with its bytes.\<close>

definition TakeSource :: "fp \<Rightarrow> int \<Rightarrow> Decoder \<Rightarrow> DecodeLocals \<Rightarrow> (VideoSource option \<times> Decoder \<times> DecodeLocals) cpp" where
  "TakeSource fp cur_time d l = (case m_queue_src d of
       [] \<Rightarrow> Inr (None, d, l)
     | item # rest \<Rightarrow>
         cbind (GetDecoderInfo d) (\<lambda>info.
           if elapsed_ms fp (qv_time item) cur_time < of_int (queue_accumulate_time info) then Inr (None, d, l)
           else
             let data_size = fb_data_size (vs_frame (qv_video item)) in
             cbind (if length (arr_buffer_src l) < size_t data_size then byte_resize (size_t data_size) (arr_buffer_src l)
                    else Inr (arr_buffer_src l)) (\<lambda>arr.
               case m_queue_stream d of None \<Rightarrow> Inl NullPointer
               | Some q \<Rightarrow>
                   cbind (QL_Front arr (word_of_int data_size) q) (\<lambda>(r, arr', q1).
                   cbind (QL_Pop q1) (\<lambda>(r', q2).
                     let v = qv_video item in
                     Inr (Some (v\<lparr>vs_frame := (vs_frame v)\<lparr>fb_data := Some (arr', 0)\<rparr>\<rparr>),
                          d\<lparr>m_queue_stream := Some q2, m_queue_src := rest\<rparr>, l\<lparr>arr_buffer_src := arr'\<rparr>))))))"

text \<open>The decoder writes the pictures through the pointers of \<open>dst\<close> into the thread's buffers.\<close>

definition written_buffers :: "DecoderVideoDest \<Rightarrow> u8 list list \<Rightarrow> u8 list list" where
  "written_buffers dst arr =
     map (\<lambda>(fb, b). case fb_data fb of None \<Rightarrow> b | Some (bs, off) \<Rightarrow> bs) (zip (dd_frame dst) arr)"

definition Decode :: "av_env \<Rightarrow> bool \<Rightarrow> VideoSource \<Rightarrow> DecoderVideoDest \<Rightarrow> Decoder \<Rightarrow> (int \<times> DecoderVideoDest \<times> Decoder) cpp" where
  "Decode av junk src dst d = (case m_impl d of None \<Rightarrow> Inl NullPointer
     | Some impl \<Rightarrow> cbind (Impl_Decode av junk src dst impl) (\<lambda>(r, dst', impl'). Inr (r, dst', d\<lparr>m_impl := Some impl'\<rparr>)))"

text \<open>The singletons of the timers that the thread uses, and what a pass of the loop gets from outside.\<close>

record timer_env =
  te_inst :: TimerInstance
  te_timer :: nat
  te_mgr :: "int LockerManager"
  te_table :: timer_table

record pass_env =
  pe_now :: int
  pe_fp :: fp
  pe_av :: av_env
  pe_junk :: bool

definition Decoding_fps_timer :: "int \<Rightarrow> timer_env \<Rightarrow> (int CTimerLocker option \<times> timer_env) cpp" where
  "Decoding_fps_timer fps te =
     cbind (GetTimerLockerByFps (te_inst te) (te_timer te) ''Decoding_fps'' fps None (te_mgr te) (te_table te)) (\<lambda>(l, mgr, ts, cs).
       Inr (l, te\<lparr>te_mgr := mgr, te_table := ts\<rparr>))"

text \<open>The frame rate: the timer is replaced when it does not run at the rate wanted.\<close>

definition change_timer :: "Decoder \<Rightarrow> DecodeLocals \<Rightarrow> timer_env \<Rightarrow> (int \<times> DecodeLocals \<times> timer_env) cpp" where
  "change_timer d l te = (case timer_fps l of
       None \<Rightarrow> Inl NullPointer
     | Some tm \<Rightarrow>
         cbind (GetFps tm) (\<lambda>cur.
         cbind (GetDecodingFps cur d) (\<lambda>change_fps.
           if cur \<noteq> change_fps
           then cbind (Decoding_fps_timer change_fps te) (\<lambda>(tm', te'). Inr (change_fps, l\<lparr>timer_fps := tm'\<rparr>, te'))
           else Inr (change_fps, l, te))))"

text \<open>The body of the loop up to the wait: the pictures the callback is called with.\<close>

definition DecodePass :: "pass_env \<Rightarrow> Decoder \<Rightarrow> DecodeLocals \<Rightarrow> timer_env \<Rightarrow> (DecoderVideoDest list \<times> Decoder \<times> DecodeLocals \<times> timer_env) cpp" where
  "DecodePass pe d l te =
     cbind (TakeSource (pe_fp pe) (pe_now pe) d l) (\<lambda>(item, d1, l1).
       case item of None \<Rightarrow> Inr ([], d1, l1, te)
       | Some src \<Rightarrow>
           cbind (SetDstBufferInfo DecoderVideoDest_new (arr_buffer_dst l1) d1) (\<lambda>dst.
           cbind (Decode (pe_av pe) (pe_junk pe) src dst d1) (\<lambda>(decode_ret, dst1, d2).
             let l2 = l1\<lparr>arr_buffer_dst := written_buffers dst1 (arr_buffer_dst l1)\<rparr> in
             if DECODE_RESULT_int DECODE_SUCCESS \<noteq> decode_ret then Inr ([], d2, l2, te)
             else
               cbind (GetFrameInfo (int FT_ORIGINAL) d2) (\<lambda>orig.
               cbind (if 0 < fi_width orig \<and> 0 < fi_height orig then SetAllocBuffer dst1 (arr_buffer_dst l2) d2
                      else Inr (False, dst1, arr_buffer_dst l2)) (\<lambda>(alloc, dst2, arr).
                 let l3 = l2\<lparr>arr_buffer_dst := arr\<rparr> in
                 if alloc then Inr ([], d2, l3, te)
                 else
                   cbind (change_timer d2 l3 te) (\<lambda>(change_fps, l4, te').
                     let dst3 = dst2\<lparr>dd_index := decoding_index l4, dd_fps := change_fps\<rparr>;
                         l5 = l4\<lparr>decoding_index := c_int (decoding_index l4 + 1)\<rparr> in
                     Inr (if has_callback_decompress d2 then [dst3] else [], d2, l5, te')))))))"

text \<open>The beginning of \<open>ThreadLoop\<close>.\<close>

definition DecodeBegin :: "Decoder \<Rightarrow> timer_env \<Rightarrow> (Decoder \<times> DecodeLocals \<times> timer_env) cpp" where
  "DecodeBegin d te =
     (let d1 = (if 0 = m_adaptive_fps d then d\<lparr>m_adaptive_fps := DECODE_DEFAULT_FPS\<rparr> else d) in
      cbind (Decoding_fps_timer (m_adaptive_fps d1) te) (\<lambda>(tm, te').
        Inr (d1\<lparr>dec_running := True\<rparr>,
             \<lparr>timer_fps = tm, decoding_index = 0, arr_buffer_src = replicate 1024 0, arr_buffer_dst = replicate FT_NUM []\<rparr>, te')))"

section \<open>The two queues agree\<close>

text \<open>The bytes of a frame, and the frame without its pointer.\<close>

definition frame_bytes :: "VideoSource \<Rightarrow> u8 list" where
  "frame_bytes v = take (nat (fb_data_size (vs_frame v))) (ptr_mem (fb_data (vs_frame v)))"

definition frame_meta :: "VideoSource \<Rightarrow> VideoSource" where
  "frame_meta v = v\<lparr>vs_frame := (vs_frame v)\<lparr>fb_data := None\<rparr>\<rparr>"

definition source_ok :: "VideoSource \<Rightarrow> bool" where
  "source_ok v \<longleftrightarrow> 0 < fb_data_size (vs_frame v) \<and> int32_range (fb_data_size (vs_frame v))
     \<and> nat (fb_data_size (vs_frame v)) \<le> length (ptr_mem (fb_data (vs_frame v)))"

primrec cut :: "nat list \<Rightarrow> 'a list \<Rightarrow> 'a list list" where
  "cut [] xs = []"
| "cut (n # ns) xs = take n xs # cut ns (drop n xs)"

lemma length_cut [simp]: "length (cut ns xs) = length ns"
  by (induction ns arbitrary: xs) auto

lemma cut_append: "sum_list ns = length xs \<Longrightarrow> n = length ys \<Longrightarrow> cut (ns @ [n]) (xs @ ys) = cut ns xs @ [ys]"
  by (induction ns arbitrary: xs) auto

definition source_size :: "QueueVideoSrc \<Rightarrow> nat" where
  "source_size x = nat (fb_data_size (vs_frame (qv_video x)))"

definition stream_bytes :: "Decoder \<Rightarrow> u8 list" where
  "stream_bytes d = (case m_queue_stream d of None \<Rightarrow> [] | Some q \<Rightarrow> ql_contents q)"

text \<open>The frames that wait, each with its bytes.\<close>

definition waiting :: "Decoder \<Rightarrow> (VideoSource \<times> u8 list) list" where
  "waiting d = zip (map qv_video (m_queue_src d)) (cut (map source_size (m_queue_src d)) (stream_bytes d))"

lemma waiting_Nil: "waiting d = [] \<Longrightarrow> m_queue_src d = []"
  by (simp add: waiting_def flip: length_0_conv)

definition stream_capacity :: nat where
  "stream_capacity = 1048575"

definition queues_inv :: "Decoder \<Rightarrow> bool" where
  "queues_inv d \<longleftrightarrow> (\<exists>q. m_queue_stream d = Some q \<and> ql_inv q \<and> ql_capacity q = stream_capacity)
     \<and> list_all (\<lambda>x. 0 < source_size x \<and> fb_data (vs_frame (qv_video x)) = None) (m_queue_src d)
     \<and> sum_list (map source_size (m_queue_src d)) = length (stream_bytes d)"

lemma queues_inv_capacity: "queues_inv d \<Longrightarrow> length (stream_bytes d) \<le> stream_capacity"
  by (auto simp: queues_inv_def stream_bytes_def ql_capacity_def length_ql_contents ql_inv_Some ring_inv_def)

lemma Decoder_Initialize_ok:
  assumes "Decoder_CreateFactory (di_type param) factory = Some impl" "m_queue_src d = []"
  shows "\<exists>d'. Decoder_Initialize factory junk param cb d = Inr (0, d') \<and> queues_inv d' \<and> waiting d' = []
    \<and> m_impl d' = Some (SetInfo param impl) \<and> m_adaptive_fps d' \<noteq> 0 \<and> dec_thread d' = dec_thread d"
proof -
  have l: "0 < unat stream_queue_size" "unat stream_queue_size < 2 ^ 31" "unat stream_queue_size - 1 = stream_capacity"
    by (simp_all add: stream_queue_size_def stream_capacity_def)
  have n: "ql_info QueueLocal_new = QueueInfo_new" by (simp add: QueueLocal_new_def)
  obtain q where q: "QL_Initialize junk ''Stream_Queue'' stream_queue_size QueueLocal_new = Inr (0, q)" "ql_inv q"
    "ql_contents q = []" "ql_capacity q = stream_capacity"
    using QL_Initialize_fresh [OF l(1,2) n, of junk "''Stream_Queue''"] l(3) by auto
  show ?thesis
    using assms q by (simp add: Decoder_Initialize_def IsFpsAuto_def GetDecoderInfo_def GetInfo_def SetInfo_def queues_inv_def
        waiting_def stream_bytes_def Let_def DECODE_DEFAULT_FPS_def)
qed

lemma unat_u32_of_int: "0 \<le> x \<Longrightarrow> x < 2 ^ 32 \<Longrightarrow> unat (word_of_int x :: u32) = nat x"
  using unat_u32_of_nat [of "nat x"] by simp

lemma QueuePush_ok:
  assumes "queues_inv d" "m_impl d \<noteq> None" "source_ok src" "length (stream_bytes d) + length (frame_bytes src) \<le> stream_capacity"
  shows "\<exists>d'. QueuePush fp t t1 t2 src d = Inr (0, d') \<and> queues_inv d' \<and> waiting d' = waiting d @ [(frame_meta src, frame_bytes src)]
    \<and> m_impl d' = m_impl d"
proof -
  obtain q where q: "m_queue_stream d = Some q" "ql_inv q" "ql_capacity q = stream_capacity"
    using assms(1) by (auto simp: queues_inv_def)
  let ?n = "fb_data_size (vs_frame src)" and ?p = "ptr_mem (fb_data (vs_frame src))"
  have n: "0 < ?n" "unat (word_of_int ?n :: u32) = nat ?n" "nat ?n \<le> length ?p"
    using assms(3) by (simp_all add: source_ok_def int32_range_def unat_u32_of_int)
  have len: "length (frame_bytes src) = nat ?n" using n by (simp add: frame_bytes_def)
  have fits: "length (ql_contents q) + unat (word_of_int ?n :: u32) \<le> ql_capacity q" "unat (word_of_int ?n :: u32) \<le> length ?p"
    using assms(4) q n len by (simp_all add: stream_bytes_def)
  obtain q' where q': "QL_Push ?p (word_of_int ?n) q = Inr (0, q')" "ql_inv q'"
    "ql_contents q' = ql_contents q @ frame_bytes src" "ql_capacity q' = ql_capacity q"
    using QL_Push_ok [OF q(2) fits] n by (auto simp: frame_bytes_def)
  define x where "x = \<lparr>qv_video = frame_meta src, qv_time = t\<rparr>"
  have x: "source_size x = length (frame_bytes src)" "0 < source_size x" "fb_data (vs_frame (qv_video x)) = None"
    using n len by (simp_all add: x_def source_size_def frame_meta_def)
  have "\<exists>d'. QueuePush fp t t1 t2 src d = Inr (0, d') \<and> m_queue_stream d' = Some q' \<and> m_queue_src d' = m_queue_src d @ [x]
      \<and> m_impl d' = m_impl d"
  proof -
    obtain impl where impl: "m_impl d = Some impl" using assms(2) by auto
    obtain call c where dc: "DoCheckCount fp t1 t2 (dec_fps_checker d) = (call, c)" by fastforce
    have "x = \<lparr>qv_video = src\<lparr>vs_frame := (vs_frame src)\<lparr>fb_data := None\<rparr>\<rparr>, qv_time = t\<rparr>" by (simp add: x_def frame_meta_def)
    then show ?thesis
      using q(1) q'(1) n(1) dc impl
      by (cases call) (auto simp: QueuePush_def Let_def IsFpsAuto_def GetDecoderInfo_def)
  qed
  then obtain d' where push: "QueuePush fp t t1 t2 src d = Inr (0, d')" "m_queue_stream d' = Some q'"
    "m_queue_src d' = m_queue_src d @ [x]" "m_impl d' = m_impl d" by blast
  have cut: "cut (map source_size (m_queue_src d) @ [source_size x]) (ql_contents q @ frame_bytes src)
      = cut (map source_size (m_queue_src d)) (ql_contents q) @ [frame_bytes src]"
    using assms(1) q x by (intro cut_append) (simp_all add: queues_inv_def stream_bytes_def)
  show ?thesis
    using push q q' x cut assms(1)
    by (auto simp: queues_inv_def stream_bytes_def waiting_def x_def frame_meta_def)
qed

lemma QueuePush_refused:
  assumes "queues_inv d" "source_ok src" "stream_capacity < length (stream_bytes d) + length (frame_bytes src)"
  shows "QueuePush fp t t1 t2 src d = Inr (2, d)"
proof -
  obtain q where q: "m_queue_stream d = Some q" "ql_inv q" "ql_capacity q = stream_capacity"
    using assms(1) by (auto simp: queues_inv_def)
  let ?n = "fb_data_size (vs_frame src)"
  have n: "0 < ?n" "unat (word_of_int ?n :: u32) = nat ?n"
    using assms(2) by (simp_all add: source_ok_def int32_range_def unat_u32_of_int)
  have "length (frame_bytes src) = nat ?n" using assms(2) by (simp add: frame_bytes_def source_ok_def)
  then have "QL_Push (ptr_mem (fb_data (vs_frame src))) (word_of_int ?n) q = Inr (3, q)"
    using QL_Push_full [OF q(2), of "word_of_int ?n"] n assms(3) q by (simp add: stream_bytes_def)
  then show ?thesis
    using q n by (simp add: QueuePush_def Let_def)
qed

lemma size_t_nonneg: "0 \<le> x \<Longrightarrow> x < 2 ^ 64 \<Longrightarrow> size_t x = nat x"
  by (simp add: size_t_def)

text \<open>The frame taken is the first that waits, when it has waited long enough.\<close>

lemma TakeSource_ok:
  assumes "queues_inv d" "m_impl d = Some impl" "m_queue_src d = x # rest"
    and "\<not> elapsed_ms fp (qv_time x) now < of_int (queue_accumulate_time (GetInfo impl))"
  shows "\<exists>v d' l'. TakeSource fp now d l = Inr (Some v, d', l') \<and> queues_inv d' \<and> waiting d = (frame_meta v, frame_bytes v) # waiting d'
    \<and> m_impl d' = m_impl d \<and> source_ok v \<and> fb_data (vs_frame v) = Some (arr_buffer_src l', 0) \<and> l' = l\<lparr>arr_buffer_src := arr_buffer_src l'\<rparr>
    \<and> d' = d\<lparr>m_queue_stream := m_queue_stream d', m_queue_src := rest\<rparr>"
proof -
  obtain q where q: "m_queue_stream d = Some q" "ql_inv q" "ql_capacity q = stream_capacity"
    using assms(1) by (auto simp: queues_inv_def)
  let ?n = "fb_data_size (vs_frame (qv_video x))" and ?c = "ql_contents q"
  have sb: "stream_bytes d = ?c" using q by (simp add: stream_bytes_def)
  have n: "0 < ?n" "nat ?n = source_size x" "fb_data (vs_frame (qv_video x)) = None" "source_size x \<le> length ?c"
    using assms(1,3) sb by (auto simp: queues_inv_def source_size_def)
  then have small: "source_size x \<le> stream_capacity" "int (source_size x) = ?n" using queues_inv_capacity [OF assms(1)] sb by auto
  then have u: "unat (word_of_int ?n :: u32) = source_size x" "size_t ?n = source_size x" "source_size x < 2 ^ 31"
    using n by (auto simp: stream_capacity_def unat_u32_of_int size_t_def)
  let ?arr = "if length (arr_buffer_src l) < source_size x then vec_resize (source_size x) 0 (arr_buffer_src l) else arr_buffer_src l"
  have arr: "(if length (arr_buffer_src l) < size_t ?n then byte_resize (size_t ?n) (arr_buffer_src l) else Inr (arr_buffer_src l)) = Inr ?arr"
    "source_size x \<le> length ?arr"
    using u by (simp_all add: byte_resize_def)
  define q1 where "q1 = q\<lparr>ql_pop_data_len := word_of_int ?n\<rparr>"
  let ?arr' = "take (source_size x) ?c @ drop (source_size x) ?arr"
  have front: "QL_Front ?arr (word_of_int ?n) q = Inr (0, ?arr', q1)"
    using QL_Front_ok [OF q(2), of "word_of_int ?n" ?arr] u n arr(2) by (simp add: q1_def)
  have q1: "ql_inv q1" "ql_contents q1 = ?c" "ql_capacity q1 = ql_capacity q"
    "0 < ql_pop_data_len q1" "unat (ql_pop_data_len q1) = source_size x"
    using q u n by (simp_all add: q1_def ql_inv_def ql_contents_def ql_capacity_def word_less_nat_alt split: option.splits)
  have le: "unat (ql_pop_data_len q1) \<le> length (ql_contents q1)" using q1 n by simp
  obtain q2 where q2: "QL_Pop q1 = Inr (0, q2)" "ql_inv q2" "ql_contents q2 = drop (source_size x) ?c" "ql_capacity q2 = ql_capacity q"
    using QL_Pop_ok [OF q1(1,4) le] q1 by auto
  define v where "v = (qv_video x)\<lparr>vs_frame := (vs_frame (qv_video x))\<lparr>fb_data := Some (?arr', 0)\<rparr>\<rparr>"
  have take: "TakeSource fp now d l = Inr (Some v, d\<lparr>m_queue_stream := Some q2, m_queue_src := rest\<rparr>, l\<lparr>arr_buffer_src := ?arr'\<rparr>)"
    using assms(2-4) q(1) front q2(1) arr(1) by (simp add: TakeSource_def GetDecoderInfo_def Let_def v_def)
  have v: "frame_bytes v = take (source_size x) ?c" "frame_meta v = qv_video x" "source_ok v" "fb_data (vs_frame v) = Some (?arr', 0)"
    using n small u arr(2) by (simp_all add: v_def frame_bytes_def frame_meta_def ptr_mem_def source_ok_def int32_range_def)
  have "queues_inv (d\<lparr>m_queue_stream := Some q2, m_queue_src := rest\<rparr>)"
    using assms(1,3) q q2 n sb by (auto simp: queues_inv_def stream_bytes_def)
  moreover have "waiting d = (frame_meta v, frame_bytes v) # waiting (d\<lparr>m_queue_stream := Some q2, m_queue_src := rest\<rparr>)"
    using assms(3) v sb q2 by (simp add: waiting_def stream_bytes_def)
  ultimately show ?thesis
    using take v by auto
qed

lemma TakeSource_none:
  assumes "m_impl d = Some impl"
    and "m_queue_src d = [] \<or> elapsed_ms fp (qv_time (hd (m_queue_src d))) now < of_int (queue_accumulate_time (GetInfo impl))"
  shows "TakeSource fp now d l = Inr (None, d, l)"
  using assms by (auto simp: TakeSource_def GetDecoderInfo_def split: list.splits)

text \<open>
  Any interleaving of pushes and takes, and of steps that leave the queues alone: the frames pushed with
  result 0 and the frames taken, with their bytes.
\<close>

inductive decoder_reach :: "Decoder \<Rightarrow> (VideoSource \<times> u8 list) list \<Rightarrow> (VideoSource \<times> u8 list) list \<Rightarrow> Decoder \<Rightarrow> bool"
  for d0 :: Decoder where
  start: "decoder_reach d0 [] [] d0"
| push: "decoder_reach d0 ps ts d \<Longrightarrow> source_ok src \<Longrightarrow> QueuePush fp t t1 t2 src d = Inr (r, d') \<Longrightarrow>
    decoder_reach d0 (if r = 0 then ps @ [(frame_meta src, frame_bytes src)] else ps) ts d'"
| take_frame: "decoder_reach d0 ps ts d \<Longrightarrow> TakeSource fp now d l = Inr (Some v, d', l') \<Longrightarrow>
    decoder_reach d0 ps (ts @ [(frame_meta v, frame_bytes v)]) d'"
| other: "decoder_reach d0 ps ts d \<Longrightarrow> m_queue_stream d' = m_queue_stream d \<Longrightarrow> m_queue_src d' = m_queue_src d \<Longrightarrow>
    m_impl d' \<noteq> None \<Longrightarrow> decoder_reach d0 ps ts d'"

lemma queues_other:
  "m_queue_stream d' = m_queue_stream d \<Longrightarrow> m_queue_src d' = m_queue_src d \<Longrightarrow>
   queues_inv d' = queues_inv d \<and> waiting d' = waiting d"
  by (simp add: queues_inv_def waiting_def stream_bytes_def)

lemma decoder_reach_frames:
  assumes "decoder_reach d0 ps ts d" "queues_inv d0" "m_impl d0 \<noteq> None" "waiting d0 = []"
  shows "queues_inv d \<and> m_impl d \<noteq> None \<and> ps = ts @ waiting d"
  using assms
proof (induction rule: decoder_reach.induct)
  case start
  then show ?case by simp
next
  case (push ps ts d src fp t t1 t2 r d')
  then have ih: "queues_inv d" "m_impl d \<noteq> None" "ps = ts @ waiting d" by auto
  show ?case
  proof (cases "length (stream_bytes d) + length (frame_bytes src) \<le> stream_capacity")
    case True
    then show ?thesis
      using QueuePush_ok [OF ih(1,2) push.hyps(2) True, of fp t t1 t2] push.hyps(3) ih by auto
  next
    case False
    then have "QueuePush fp t t1 t2 src d = Inr (2, d)"
      using QueuePush_refused [OF ih(1) push.hyps(2), of fp t t1 t2] by simp
    then show ?thesis using push.hyps(3) ih by simp
  qed
next
  case (take_frame ps ts d fp now l v d' l')
  then have ih: "queues_inv d" "m_impl d \<noteq> None" "ps = ts @ waiting d" by auto
  then obtain impl where impl: "m_impl d = Some impl" by auto
  show ?case
  proof (cases "m_queue_src d = [] \<or> elapsed_ms fp (qv_time (hd (m_queue_src d))) now < of_int (queue_accumulate_time (GetInfo impl))")
    case True
    then show ?thesis using TakeSource_none [OF impl True] take_frame.hyps(2) by simp
  next
    case False
    then obtain x rest where x: "m_queue_src d = x # rest"
      "\<not> elapsed_ms fp (qv_time x) now < of_int (queue_accumulate_time (GetInfo impl))"
      by (cases "m_queue_src d") auto
    show ?thesis using TakeSource_ok [OF ih(1) impl x, of l] take_frame.hyps(2) ih by auto
  qed
next
  case (other ps ts d d')
  then show ?case using queues_other [of d' d] by simp
qed

end
