(* ===== verification/Decoder_Thread.thy ===== *)
theory Decoder_Thread
  imports Decoder
begin

text \<open>
  The thread of \<open>Decoder\<close>: the buffers of the pictures, which each pass of the loop makes as large as the sizes
  asked for, the timer the thread waits on, and the join in \<open>Deactivate\<close>.
\<close>

section \<open>Sizes of pictures\<close>

lemma GetCalcBufferSize_range: "int32_range (GetCalcBufferSize f w h)"
  by (simp add: GetCalcBufferSize_def c_int_range Let_def) (simp add: int32_range_def)

text \<open>Without overflow the lines of a 24-bit picture are padded to a multiple of four bytes.\<close>

lemma GetCalcBufferSize_rgb:
  assumes "f = 3 \<or> f = 4" "0 \<le> w" "0 \<le> h" "3 * w + 3 < 2147483648" "(3 * w + 3) div 4 * 4 * h < 2147483648"
  shows "GetCalcBufferSize f w h = (3 * w + 3) div 4 * 4 * h"
proof -
  have a: "c_int (w * 3) = 3 * w" "c_int (3 * w + 3) = 3 * w + 3" "c_div (3 * w + 3) 4 = (3 * w + 3) div 4"
    using assms by (simp_all add: c_int_small c_div_nonneg mult.commute)
  have "(3 * w + 3) div 4 * 4 \<le> 3 * w + 3" by linarith
  then have b: "c_int ((3 * w + 3) div 4 * 4) = (3 * w + 3) div 4 * 4"
    using assms by (intro c_int_small) auto
  have "c_int ((3 * w + 3) div 4 * 4 * h) = (3 * w + 3) div 4 * 4 * h"
    using assms by (intro c_int_small) auto
  then show ?thesis using assms(1) a b by (auto simp: GetCalcBufferSize_def Let_def)
qed

lemma GetCalcBufferSize_yv12:
  assumes "0 \<le> w" "0 \<le> h" "w * h + w * h div 2 < 2147483648"
  shows "GetCalcBufferSize 2 w h = w * h + w * h div 2"
proof -
  have wh: "0 \<le> w * h" using assms by simp
  then have "w * h \<le> w * h + w * h div 2" by simp
  then have "c_int (w * h) = w * h" using assms wh by (intro c_int_small) auto
  then show ?thesis
    using assms wh by (simp add: GetCalcBufferSize_def Let_def c_div_nonneg c_int_small)
qed

text \<open>A negative width makes a negative size.\<close>

lemma GetCalcBufferSize_negative: "GetCalcBufferSize 3 (-10) 10 = -240"
  by (simp add: GetCalcBufferSize_def c_int_def c_div_def)

section \<open>Allocation\<close>

text \<open>The types with a picture, and the sizes wanted for them.\<close>

definition wanted :: "FrameInfo \<Rightarrow> bool" where
  "wanted fi \<longleftrightarrow> \<not> (VPIX_int VPIX_FMT_NONE = fi_pixel_format fi \<or> False = fi_decode fi \<or> 0 = fi_width fi \<or> 0 = fi_height fi)"

definition want_size :: "FrameInfo \<Rightarrow> int" where
  "want_size fi = GetCalcBufferSize (fi_pixel_format fi) (fi_width fi) (fi_height fi)"

lemma want_size_range: "- (2 ^ 31) \<le> want_size fi" "want_size fi < 2 ^ 31"
  using GetCalcBufferSize_range [of "fi_pixel_format fi"] by (simp_all add: want_size_def int32_range_def)

lemma size_t_want: "size_t (want_size fi) = (if 0 \<le> want_size fi then nat (want_size fi) else nat (2 ^ 64 + want_size fi))"
proof (cases "0 \<le> want_size fi")
  case True
  then show ?thesis using want_size_range [of fi] by (simp add: size_t_def)
next
  case False
  have "want_size fi mod 2 ^ 64 = (want_size fi + 2 ^ 64) mod 2 ^ 64" by simp
  also have "\<dots> = want_size fi + 2 ^ 64" using False want_size_range [of fi] by (intro mod_pos_pos_trivial) auto
  finally show ?thesis using False by (simp add: size_t_def add.commute)
qed

definition decoder_ready :: "Decoder \<Rightarrow> DecoderImpl \<Rightarrow> bool" where
  "decoder_ready d impl \<longleftrightarrow> m_impl d = Some impl \<and> length (di_frame_info (m_info impl)) = FT_NUM"

abbreviation info_of :: "DecoderImpl \<Rightarrow> nat \<Rightarrow> FrameInfo" where
  "info_of impl ii \<equiv> di_frame_info (m_info impl) ! ii"

definition alloc_inv :: "DecoderVideoDest \<Rightarrow> u8 list list \<Rightarrow> bool" where
  "alloc_inv dst arr \<longleftrightarrow> length (dd_frame dst) = FT_NUM \<and> length arr = FT_NUM \<and> list_all (\<lambda>b. length b < 2 ^ 31) arr"

lemma GetFrameInfo_ready: "decoder_ready d impl \<Longrightarrow> ii < FT_NUM \<Longrightarrow> GetFrameInfo (int ii) d = Inr (info_of impl ii)"
  by (simp add: decoder_ready_def GetFrameInfo_def Impl_GetFrameInfo_def arr_get_def)

text \<open>One type: refused, enlarged or kept.\<close>

lemma alloc_loop_step:
  assumes "decoder_ready d impl" "ii < FT_NUM" "alloc_inv dst arr"
  shows "wanted (info_of impl ii) \<Longrightarrow> want_size (info_of impl ii) < 0 \<Longrightarrow> alloc_loop (ii # ks) d (ret, dst, arr) = Inl StdLengthError"
    and "\<not> (wanted (info_of impl ii) \<and> want_size (info_of impl ii) < 0) \<Longrightarrow>
      \<exists>dst' b. alloc_loop (ii # ks) d (ret, dst, arr) = alloc_loop ks d
          (ret \<or> wanted (info_of impl ii) \<and> int (length (arr ! ii)) < want_size (info_of impl ii), dst', arr[ii := b])
        \<and> length b = max (length (arr ! ii)) (if wanted (info_of impl ii) then nat (want_size (info_of impl ii)) else 0)
        \<and> dst' = dst\<lparr>dd_frame := dd_frame dst'\<rparr> \<and> map fb_data (dd_frame dst') = map fb_data (dd_frame dst)
        \<and> alloc_inv dst' (arr[ii := b])
        \<and> (\<forall>jj. jj < FT_NUM \<longrightarrow> fb_data_size (dd_frame dst' ! jj) = (if jj = ii \<and> wanted (info_of impl ii) then want_size (info_of impl ii) else fb_data_size (dd_frame dst ! jj)))"
proof -
  let ?fi = "info_of impl ii"
  have g: "GetFrameInfo (int ii) d = Inr ?fi" "arr_get (dd_frame dst) (int ii) = Inr (dd_frame dst ! ii)" "arr_get arr (int ii) = Inr (arr ! ii)"
    using assms by (simp_all add: GetFrameInfo_ready arr_get_def alloc_inv_def)
  have lb: "length (arr ! ii) < 2 ^ 31" using assms by (simp add: alloc_inv_def list_all_length)
  note eq = alloc_loop.simps(2) Let_def split_conv g cbind.simps wanted_def [symmetric] want_size_def [symmetric]
  {
    assume w: "wanted ?fi" "want_size ?fi < 0"
    have s: "size_t (want_size ?fi) = nat (2 ^ 64 + want_size ?fi)" using w by (simp add: size_t_want)
    have "nat (2 ^ 64 + want_size ?fi) \<ge> 2 ^ 63" using want_size_range [of ?fi] by simp
    then show "alloc_loop (ii # ks) d (ret, dst, arr) = Inl StdLengthError"
      using w(1) lb s by (simp add: eq byte_resize_def wanted_def)
  }
  assume n: "\<not> (wanted ?fi \<and> want_size ?fi < 0)"
  show "\<exists>dst' b. alloc_loop (ii # ks) d (ret, dst, arr) = alloc_loop ks d
          (ret \<or> wanted ?fi \<and> int (length (arr ! ii)) < want_size ?fi, dst', arr[ii := b])
        \<and> length b = max (length (arr ! ii)) (if wanted ?fi then nat (want_size ?fi) else 0)
        \<and> dst' = dst\<lparr>dd_frame := dd_frame dst'\<rparr> \<and> map fb_data (dd_frame dst') = map fb_data (dd_frame dst)
        \<and> alloc_inv dst' (arr[ii := b])
        \<and> (\<forall>jj. jj < FT_NUM \<longrightarrow> fb_data_size (dd_frame dst' ! jj) = (if jj = ii \<and> wanted ?fi then want_size ?fi else fb_data_size (dd_frame dst ! jj)))"
  proof (cases "wanted ?fi")
    case False
    then show ?thesis
      using assms(3) by (intro exI [of _ dst] exI [of _ "arr ! ii"]) (simp add: eq wanted_def)
  next
    case True
    then have w: "0 \<le> want_size ?fi" "size_t (want_size ?fi) = nat (want_size ?fi)" using n by (simp_all add: size_t_want)
    let ?dst = "dst\<lparr>dd_frame := (dd_frame dst)[ii := (dd_frame dst ! ii)\<lparr>fb_data_size := want_size ?fi\<rparr>]\<rparr>"
    let ?b = "if length (arr ! ii) < nat (want_size ?fi) then vec_resize (nat (want_size ?fi)) 0 (arr ! ii) else arr ! ii"
    have m: "map fb_data (dd_frame ?dst) = map fb_data (dd_frame dst)"
      using assms by (simp add: map_update alloc_inv_def list_update_same_conv)
    have b: "length ?b = max (length (arr ! ii)) (nat (want_size ?fi))" by (simp add: max_def)
    have small: "nat (want_size ?fi) < 2 ^ 31" using want_size_range [of ?fi] by simp
    have inv: "alloc_inv ?dst (arr[ii := ?b])"
      using assms(3) lb small by (auto simp: alloc_inv_def list_all_iff dest!: set_update_subset_insert [THEN subsetD])
    have sz: "\<forall>jj. jj < FT_NUM \<longrightarrow> fb_data_size (dd_frame ?dst ! jj) = (if jj = ii then want_size ?fi else fb_data_size (dd_frame dst ! jj))"
      using assms(2,3) by (auto simp: alloc_inv_def nth_list_update)
    have "alloc_loop (ii # ks) d (ret, dst, arr) = alloc_loop ks d
          (ret \<or> int (length (arr ! ii)) < want_size ?fi, ?dst, arr[ii := ?b])"
      using True w small by (auto simp: eq wanted_def byte_resize_def zless_nat_eq_int_zless)
    then show ?thesis
      using m b inv True sz by (intro exI [of _ ?dst] exI [of _ ?b]) simp
  qed
qed

text \<open>
  All types: an exception exactly when a size wanted is negative, else the buffers are as large as wanted,
  and the result says whether one was enlarged.
\<close>

lemma alloc_loop_ok:
  assumes "decoder_ready d impl" "distinct ks" "list_all (\<lambda>i. i < FT_NUM) ks" "alloc_inv dst arr"
  shows "if \<exists>ii \<in> set ks. wanted (info_of impl ii) \<and> want_size (info_of impl ii) < 0
    then alloc_loop ks d (ret, dst, arr) = Inl StdLengthError
    else (\<exists>dst' arr'. alloc_loop ks d (ret, dst, arr) =
        Inr (ret \<or> (\<exists>ii \<in> set ks. wanted (info_of impl ii) \<and> int (length (arr ! ii)) < want_size (info_of impl ii)), dst', arr')
      \<and> (\<forall>ii \<in> set ks. wanted (info_of impl ii) \<longrightarrow> want_size (info_of impl ii) \<le> int (length (arr' ! ii)))
      \<and> dst' = dst\<lparr>dd_frame := dd_frame dst'\<rparr> \<and> map fb_data (dd_frame dst') = map fb_data (dd_frame dst)
      \<and> alloc_inv dst' arr' \<and> (\<forall>ii. length (arr ! ii) \<le> length (arr' ! ii))
      \<and> (\<forall>jj. jj < FT_NUM \<longrightarrow> fb_data_size (dd_frame dst' ! jj) = (if jj \<in> set ks \<and> wanted (info_of impl jj) then want_size (info_of impl jj) else fb_data_size (dd_frame dst ! jj))))"
  using assms(2-4)
proof (induction ks arbitrary: ret dst arr)
  case Nil
  then show ?case by auto
next
  case (Cons i ks)
  have i: "i < FT_NUM" "i \<notin> set ks" "distinct ks" "list_all (\<lambda>i. i < FT_NUM) ks" using Cons.prems by auto
  show ?case
  proof (cases "wanted (info_of impl i) \<and> want_size (info_of impl i) < 0")
    case True
    then show ?thesis
      using alloc_loop_step(1) [OF assms(1) i(1) Cons.prems(3)] by auto
  next
    case False
    obtain dst1 b where st: "alloc_loop (i # ks) d (ret, dst, arr) = alloc_loop ks d
          (ret \<or> wanted (info_of impl i) \<and> int (length (arr ! i)) < want_size (info_of impl i), dst1, arr[i := b])"
        "length b = max (length (arr ! i)) (if wanted (info_of impl i) then nat (want_size (info_of impl i)) else 0)"
        "dst1 = dst\<lparr>dd_frame := dd_frame dst1\<rparr>" "map fb_data (dd_frame dst1) = map fb_data (dd_frame dst)" "alloc_inv dst1 (arr[i := b])"
        "\<forall>jj. jj < FT_NUM \<longrightarrow> fb_data_size (dd_frame dst1 ! jj) = (if jj = i \<and> wanted (info_of impl i) then want_size (info_of impl i) else fb_data_size (dd_frame dst ! jj))"
      using alloc_loop_step(2) [OF assms(1) i(1) Cons.prems(3) False] by blast
    let ?ret = "ret \<or> wanted (info_of impl i) \<and> int (length (arr ! i)) < want_size (info_of impl i)"
    note IH = Cons.IH [OF i(3,4) st(5), of ?ret]
    have ia: "i < length arr" using i(1) Cons.prems(3) by (simp add: alloc_inv_def)
    have other: "arr[i := b] ! j = arr ! j" if "j \<in> set ks" for j
      using that i(2) by (metis nth_list_update_neq)
    have le: "length (arr ! j) \<le> length (arr[i := b] ! j)" for j
      using ia st(2) by (cases "i = j") auto
    show ?thesis
    proof (cases "\<exists>ii \<in> set ks. wanted (info_of impl ii) \<and> want_size (info_of impl ii) < 0")
      case True
      then show ?thesis using IH st(1) by auto
    next
      case none: False
      obtain dst' arr' where r: "alloc_loop ks d (?ret, dst1, arr[i := b]) =
          Inr (?ret \<or> (\<exists>ii \<in> set ks. wanted (info_of impl ii) \<and> int (length (arr[i := b] ! ii)) < want_size (info_of impl ii)), dst', arr')"
        "\<forall>ii \<in> set ks. wanted (info_of impl ii) \<longrightarrow> want_size (info_of impl ii) \<le> int (length (arr' ! ii))"
        "dst' = dst1\<lparr>dd_frame := dd_frame dst'\<rparr>" "map fb_data (dd_frame dst') = map fb_data (dd_frame dst1)" "alloc_inv dst' arr'"
        "\<forall>ii. length (arr[i := b] ! ii) \<le> length (arr' ! ii)"
        "\<forall>jj. jj < FT_NUM \<longrightarrow> fb_data_size (dd_frame dst' ! jj) = (if jj \<in> set ks \<and> wanted (info_of impl jj) then want_size (info_of impl jj) else fb_data_size (dd_frame dst1 ! jj))"
        using IH none by (simp only: if_False) blast
      have "wanted (info_of impl i) \<longrightarrow> want_size (info_of impl i) \<le> int (length (arr' ! i))"
        using r(6) [rule_format, of i] ia st(2) by (auto simp: max_def split: if_splits)
      moreover have "\<forall>j. length (arr ! j) \<le> length (arr' ! j)" using r(6) le order.trans by blast
      moreover have "(\<exists>ii \<in> set ks. wanted (info_of impl ii) \<and> int (length (arr[i := b] ! ii)) < want_size (info_of impl ii))
          = (\<exists>ii \<in> set ks. wanted (info_of impl ii) \<and> int (length (arr ! ii)) < want_size (info_of impl ii))"
        using other by auto
      moreover have "dst' = dst\<lparr>dd_frame := dd_frame dst'\<rparr>" using r(3) st(3) by (metis (no_types, lifting) DecoderVideoDest.surjective DecoderVideoDest.update_convs(3))
      moreover have "\<forall>jj. jj < FT_NUM \<longrightarrow> fb_data_size (dd_frame dst' ! jj) =
          (if jj \<in> set (i # ks) \<and> wanted (info_of impl jj) then want_size (info_of impl jj) else fb_data_size (dd_frame dst ! jj))"
        using r(7) st(6) i(2) by auto
      ultimately show ?thesis
        using r st False none by auto
    qed
  qed
qed

lemma SetAllocBuffer_ok:
  assumes "decoder_ready d impl" "alloc_inv dst arr"
  shows "if \<exists>ii < FT_NUM. wanted (info_of impl ii) \<and> want_size (info_of impl ii) < 0
    then SetAllocBuffer dst arr d = Inl StdLengthError
    else (\<exists>dst' arr'. SetAllocBuffer dst arr d =
        Inr (\<exists>ii < FT_NUM. wanted (info_of impl ii) \<and> int (length (arr ! ii)) < want_size (info_of impl ii), dst', arr')
      \<and> (\<forall>ii < FT_NUM. wanted (info_of impl ii) \<longrightarrow> want_size (info_of impl ii) \<le> int (length (arr' ! ii)))
      \<and> dst' = dst\<lparr>dd_frame := dd_frame dst'\<rparr> \<and> map fb_data (dd_frame dst') = map fb_data (dd_frame dst)
      \<and> alloc_inv dst' arr' \<and> (\<forall>ii. length (arr ! ii) \<le> length (arr' ! ii))
      \<and> (\<forall>jj. jj < FT_NUM \<longrightarrow> fb_data_size (dd_frame dst' ! jj) = (if jj \<in> set [0..<FT_NUM] \<and> wanted (info_of impl jj) then want_size (info_of impl jj) else fb_data_size (dd_frame dst ! jj))))"
proof -
  have ex: "(\<exists>ii \<in> set [0..<FT_NUM]. P ii) = (\<exists>ii < FT_NUM. P ii)" and all: "(\<forall>ii \<in> set [0..<FT_NUM]. P ii) = (\<forall>ii < FT_NUM. P ii)" for P
    by auto
  have "list_all (\<lambda>i. i < FT_NUM) [0..<FT_NUM]" by (simp add: list_all_iff)
  from alloc_loop_ok [OF assms(1) distinct_upt this assms(2), of False]
  show ?thesis
    unfolding ex all SetAllocBuffer_def simp_thms .
qed

section \<open>A pass of the loop\<close>

lemma length_FT_NUM: "length xs = FT_NUM \<Longrightarrow> \<exists>a b c. xs = [a, b, c]"
  by (auto simp: FT_NUM_def numeral_3_eq_3 length_Suc_conv)

lemma upt_FT_NUM: "[0..<FT_NUM] = [0, 1, 2]"
  by (simp add: FT_NUM_def upt_rec)

definition buffers_ok :: "u8 list list \<Rightarrow> bool" where
  "buffers_ok arr \<longleftrightarrow> length arr = FT_NUM \<and> list_all (\<lambda>b. length b < 2 ^ 31) arr"

lemma buffers_ok_lengths: "buffers_ok arr \<longleftrightarrow> length (map length arr) = FT_NUM \<and> list_all (\<lambda>n. n < 2 ^ 31) (map length arr)"
  by (simp add: buffers_ok_def list.pred_map o_def)

text \<open>What the destination is given for a buffer.\<close>

definition frame_for_buffer :: "u8 list \<Rightarrow> FrameBuffer" where
  "frame_for_buffer b = (if b = [] then FrameBuffer_new else \<lparr>fb_data = Some (b, 0), fb_data_size = int (length b)\<rparr>)"

lemma SetDstBufferInfo_ok:
  assumes "decoder_ready d impl" "buffers_ok arr"
  shows "\<exists>dst. SetDstBufferInfo DecoderVideoDest_new arr d = Inr dst \<and> dd_frame dst = map frame_for_buffer arr
    \<and> dd_frame_info dst = di_frame_info (m_info impl)"
proof -
  obtain a b c where arr: "arr = [a, b, c]" using assms(2) length_FT_NUM [of arr] by (auto simp: buffers_ok_def)
  obtain x y z where fi: "di_frame_info (m_info impl) = [x, y, z]" using assms(1) length_FT_NUM [of "di_frame_info (m_info impl)"] by (auto simp: decoder_ready_def)
  have l: "int (length a) < 2147483648" "int (length b) < 2147483648" "int (length c) < 2147483648"
    using assms(2) by (simp_all add: buffers_ok_def arr)
  have c: "c_int (int (length a)) = int (length a)" "c_int (int (length b)) = int (length b)" "c_int (int (length c)) = int (length c)"
    using l by (simp_all only: c_int_small of_nat_0_le_iff)
  have g: "GetFrameInfo (int 0) d = Inr x" "GetFrameInfo (int 1) d = Inr y" "GetFrameInfo (int 2) d = Inr z"
    using assms(1) fi by (simp_all add: decoder_ready_def GetFrameInfo_def Impl_GetFrameInfo_def arr_get_def)
  have n: "dd_frame_info DecoderVideoDest_new = [FrameInfo_new, FrameInfo_new, FrameInfo_new]"
    "dd_frame DecoderVideoDest_new = [FrameBuffer_new, FrameBuffer_new, FrameBuffer_new]"
    by (simp_all add: DecoderVideoDest_new_def FT_NUM_def numeral_3_eq_3)
  show ?thesis
    unfolding SetDstBufferInfo_def upt_FT_NUM dst_buffer_loop.simps g
    by (simp add: arr fi n c arr_set_def arr_get_def frame_for_buffer_def)
qed

lemma frame_for_buffer_ok: "buffer_ok (frame_for_buffer b)"
  by (simp add: frame_for_buffer_def buffer_ok_def FrameBuffer_new_def)

text \<open>The bytes of a frame of the callback can be read.\<close>

definition readable :: "FrameBuffer \<Rightarrow> bool" where
  "readable fb \<longleftrightarrow> (\<exists>bs. ptr_bytes (fb_data fb) (fb_data_size fb) = Inr bs)"

lemma readable_iff: "readable fb \<longleftrightarrow> 0 \<le> fb_data_size fb \<and>
   (case fb_data fb of None \<Rightarrow> fb_data_size fb = 0 | Some (bs, off) \<Rightarrow> 0 \<le> off \<and> off + fb_data_size fb \<le> int (length bs))"
  by (auto simp: readable_def ptr_bytes_def rd_n_def split: option.splits)

text \<open>The buffers after the conversions: those the frames point to.\<close>

definition frame_length :: "FrameBuffer \<Rightarrow> nat" where
  "frame_length fb = (case fb_data fb of None \<Rightarrow> 0 | Some (bs, off) \<Rightarrow> length bs)"

lemma frame_of_buffer:
  assumes "buffer_ok x" "fb_data_size x = fb_data_size (frame_for_buffer a)" "(fb_data x = None) = (fb_data (frame_for_buffer a) = None)"
  shows "fb_data_size x = int (length a)" "frame_length x = length a"
    "length (case fb_data x of None \<Rightarrow> a | Some (bs, off) \<Rightarrow> bs) = length a"
  using assms by (cases "fb_data x"; cases "a = []"; auto simp: frame_for_buffer_def FrameBuffer_new_def buffer_ok_def frame_length_def)+

lemma written_buffers_ok:
  assumes "buffers_ok arr" "dest_ok dst1" "same_frames dst1 dst" "dd_frame dst = map frame_for_buffer arr"
  shows "map length (written_buffers dst1 arr) = map length arr \<and> buffers_ok (written_buffers dst1 arr)
    \<and> (\<forall>ii < FT_NUM. frame_length (dd_frame dst1 ! ii) = length (arr ! ii)
        \<and> fb_data_size (dd_frame dst1 ! ii) = int (length (arr ! ii)))"
proof -
  obtain a b c where arr: "arr = [a, b, c]" using assms(1) length_FT_NUM [of arr] by (auto simp: buffers_ok_def)
  obtain x y z where f: "dd_frame dst1 = [x, y, z]" using assms(2) length_FT_NUM [of "dd_frame dst1"] by (auto simp: dest_ok_def)
  have k: "buffer_ok x" "buffer_ok y" "buffer_ok z" using assms(2) f by (simp_all add: dest_ok_def)
  have e: "fb_data_size x = fb_data_size (frame_for_buffer a)" "(fb_data x = None) = (fb_data (frame_for_buffer a) = None)"
    "fb_data_size y = fb_data_size (frame_for_buffer b)" "(fb_data y = None) = (fb_data (frame_for_buffer b) = None)"
    "fb_data_size z = fb_data_size (frame_for_buffer c)" "(fb_data z = None) = (fb_data (frame_for_buffer c) = None)"
    using assms(3,4) by (simp_all add: same_frames_def arr f)
  note s = frame_of_buffer [OF k(1) e(1,2)] frame_of_buffer [OF k(2) e(3,4)] frame_of_buffer [OF k(3) e(5,6)]
  have m: "map length (written_buffers dst1 arr) = map length arr"
    using s by (simp add: written_buffers_def arr f)
  then have "buffers_ok (written_buffers dst1 arr)"
    using assms(1) by (simp only: buffers_ok_lengths)
  moreover have "\<forall>ii < FT_NUM. frame_length (dd_frame dst1 ! ii) = length (arr ! ii) \<and> fb_data_size (dd_frame dst1 ! ii) = int (length (arr ! ii))"
    using s by (simp add: arr f FT_NUM_def numeral_3_eq_3 less_Suc_eq all_conj_distrib)
  ultimately show ?thesis using m by blast
qed

text \<open>A timer the thread can wait on, and the singletons when they can give it another.\<close>

definition timer_ok :: "int CTimerLocker option \<Rightarrow> bool" where
  "timer_ok t \<longleftrightarrow> (\<exists>l. t = Some l \<and> 0 < tl_period l \<and> tl_name l = ''Decoding_fps'')"

definition timer_env_ok :: "timer_env \<Rightarrow> bool" where
  "timer_env_ok te \<longleftrightarrow> manager_inv (te_inst te) (te_table te) (te_mgr te) \<and> te_timer te \<noteq> 0"

definition timer_free :: "timer_env \<Rightarrow> bool" where
  "timer_free te \<longleftrightarrow> \<not> list_all timer_used (te_table te)"

lemma GetTimerLockerByTime_total:
  assumes inv: "manager_inv inst ts mgr" and ms: "int32_range ms0" and free: "\<not> list_all timer_used ts"
  shows "\<exists>item mgr' ts' cs. GetTimerLockerByTime inst hTimer name ms0 callback mgr ts = Inr (item, mgr', ts', cs)"
proof -
  let ?res = "m_timer_min_resolution mgr" and ?ms = "max ms0 (m_timer_min_resolution mgr)"
  have res: "has_impl inst" "0 < ?res" using inv by (auto simp: manager_inv_def)
  have ms': "?res \<le> ?ms" "(if ms0 < ?res then ?res else ms0) = ?ms" by (auto simp: max_def)
  obtain m1 ts1 cs1 where del: "DeleteTimerLocker inst name mgr ts =
      Inr (name \<in> map_names (m_map_timers mgr), mgr\<lparr>m_map_timers := m1\<rparr>, ts1, cs1)"
    "manager_inv inst ts1 (mgr\<lparr>m_map_timers := m1\<rparr>)" "list_all timer_used ts1 \<longrightarrow> list_all timer_used ts"
    using DeleteTimerLocker_ok [OF inv] by blast
  let ?mgr1 = "mgr\<lparr>m_map_timers := m1\<rparr>"
  obtain d where d: "GetDivisor ?ms ?mgr1 = Inr d" using GetDivisor_ok [of ?mgr1 ?ms] res ms' by auto
  have "\<exists>k mgr2 ts2 cs2. GetList inst hTimer d ?mgr1 ts1 = Inr (k, mgr2, ts2, cs2)"
  proof (cases "map_of m1 d")
    case (Some v)
    then show ?thesis using GetList_old [of ?mgr1 d v inst hTimer ts1] by simp
  next
    case None
    have inv1: "timers_inv ts1 m1" using del(2) by (simp add: manager_inv_def)
    show ?thesis
    proof (cases "hTimer = 0")
      case True
      then show ?thesis using GetList_none [OF res(1), of ?mgr1 d ts1 hTimer] None inv1 del(3) free by auto
    next
      case False
      then show ?thesis using GetList_new [OF res(1), of ?mgr1 d ts1 hTimer] None inv1 del(3) free by auto
    qed
  qed
  then show ?thesis
    unfolding GetTimerLockerByTime_def GetTimerMinResolution_def ms'(2) Let_def using del(1) d
    by (auto split: option.splits simp: Let_def)
qed

lemma c_div_1000_range: "int32_range (c_div 1000 x)"
proof -
  have "\<bar>1000 :: int\<bar> div \<bar>x\<bar> \<le> 1000" "0 \<le> \<bar>1000 :: int\<bar> div \<bar>x\<bar>"
    using zdiv_mono2 [of 1000 1 "\<bar>x\<bar>"] by (cases "x = 0"; simp add: div_int_pos_iff)+
  then show ?thesis by (auto simp: c_div_def int32_range_def sgn_if)
qed

lemma Decoding_fps_timer_ok:
  assumes "timer_env_ok te" "timer_free te" "fps \<noteq> 0"
  shows "\<exists>t te'. Decoding_fps_timer fps te = Inr (t, te') \<and> timer_ok t \<and> timer_env_ok te'
    \<and> ''Decoding_fps'' \<in> map_names (m_map_timers (te_mgr te'))"
proof -
  let ?g = "GetTimerLockerByTime (te_inst te) (te_timer te) ''Decoding_fps'' (c_div 1000 fps) None (te_mgr te) (te_table te)"
  have inv: "manager_inv (te_inst te) (te_table te) (te_mgr te)" "te_timer te \<noteq> 0" using assms(1) by (simp_all add: timer_env_ok_def)
  obtain item mgr' ts' cs where g: "?g = Inr (item, mgr', ts', cs)"
    using GetTimerLockerByTime_total [OF inv(1) c_div_1000_range] assms(2) unfolding timer_free_def by blast
  note r = GetTimerLockerByTime_ok [OF inv(1) c_div_1000_range g]
  have "0 < m_timer_min_resolution (te_mgr te)" using inv(1) by (simp add: manager_inv_def)
  then show ?thesis
    using r g inv(2) assms(3)
    by (auto simp: Decoding_fps_timer_def GetTimerLockerByFps_def timer_ok_def timer_env_ok_def CTimerLocker_new_def)
qed

lemma GetDecodingFps_ok:
  assumes "m_impl d = Some impl" "cur \<noteq> 0"
  shows "\<exists>fps. GetDecodingFps cur d = Inr fps \<and> fps \<noteq> 0"
  using assms by (simp add: GetDecodingFps_def IsFpsAuto_def GetDecoderInfo_def Let_def)

lemma change_timer_ok:
  assumes "m_impl d = Some impl" "timer_ok (timer_fps l)" "timer_env_ok te" "timer_free te"
  shows "\<exists>fps l' te'. change_timer d l te = Inr (fps, l', te') \<and> timer_ok (timer_fps l') \<and> timer_env_ok te'
    \<and> l' = l\<lparr>timer_fps := timer_fps l'\<rparr>"
proof -
  obtain tm where tm: "timer_fps l = Some tm" "0 < tl_period tm" using assms(2) by (auto simp: timer_ok_def)
  then obtain cur where cur: "GetFps tm = Inr cur" by (simp add: GetFps_def)
  have get: "\<exists>fps. GetDecodingFps cur d = Inr fps"
    using assms(1) by (simp add: GetDecodingFps_def IsFpsAuto_def GetDecoderInfo_def Let_def)
  then obtain fps where fps: "GetDecodingFps cur d = Inr fps" by blast
  show ?thesis
  proof (cases "cur = fps")
    case True
    then show ?thesis using tm cur fps assms by (simp add: change_timer_def)
  next
    case False
    have "fps \<noteq> 0" using fps False assms(1) by (auto simp: GetDecodingFps_def IsFpsAuto_def GetDecoderInfo_def Let_def split: if_splits)
    then obtain t te' where "Decoding_fps_timer fps te = Inr (t, te')" "timer_ok t" "timer_env_ok te'"
      using Decoding_fps_timer_ok [OF assms(3,4)] by blast
    then show ?thesis
      using tm cur fps False by (simp add: change_timer_def)
  qed
qed

text \<open>A decoding that succeeds has set the size of the original picture and nothing else.\<close>

definition decoded_infos :: "av_env \<Rightarrow> FrameInfo list \<Rightarrow> FrameInfo list" where
  "decoded_infos av fis = fis[FT_ORIGINAL := (fis ! FT_ORIGINAL)\<lparr>fi_width := ctx_width av, fi_height := ctx_height av\<rparr>]"

lemma Impl_Decode_infos:
  assumes "Impl_Decode av junk src dst impl = Inr (ret, dst', impl')"
  shows "ret = 0 \<Longrightarrow> di_frame_info (m_info impl') = decoded_infos av (di_frame_info (m_info impl)) \<and> 0 < ctx_width av"
proof -
  assume r: "ret = 0"
  then show "di_frame_info (m_info impl') = decoded_infos av (di_frame_info (m_info impl)) \<and> 0 < ctx_width av"
    using assms by (auto simp: Impl_Decode_def cbind_Inr_iff put_FrameInfo_def Impl_GetFrameInfo_def arr_get_def arr_set_def
        decoded_infos_def FT_ORIGINAL_def split: if_splits)
qed

definition pass_inv :: "Decoder \<Rightarrow> DecodeLocals \<Rightarrow> timer_env \<Rightarrow> bool" where
  "pass_inv d l te \<longleftrightarrow> queues_inv d \<and> (\<exists>impl. m_impl d = Some impl \<and> impl_ok impl) \<and> buffers_ok (arr_buffer_dst l)
     \<and> timer_ok (timer_fps l) \<and> timer_env_ok te"

text \<open>The pictures asked for that have a negative size.\<close>

definition negative_wanted :: "FrameInfo list \<Rightarrow> bool" where
  "negative_wanted fis \<longleftrightarrow> (\<exists>fi \<in> set fis. wanted fi \<and> want_size fi < 0)"

lemma negative_wanted_index:
  "length fis = FT_NUM \<Longrightarrow> negative_wanted fis \<longleftrightarrow> (\<exists>ii < FT_NUM. wanted (fis ! ii) \<and> want_size (fis ! ii) < 0)"
  by (metis negative_wanted_def in_set_conv_nth)

text \<open>The part of a pass up to the decoding.\<close>

lemma DecodePass_decoded:
  assumes inv: "pass_inv d l te" and av: "av_sized (pe_av pe)"
    and take: "TakeSource (pe_fp pe) (pe_now pe) d l = Inr (Some src, d1, l1)"
  shows "\<exists>impl impl' dst dst1 ret. m_impl d = Some impl
    \<and> SetDstBufferInfo DecoderVideoDest_new (arr_buffer_dst l1) d1 = Inr dst
    \<and> Decode (pe_av pe) (pe_junk pe) src dst d1 = Inr (ret, dst1, d1\<lparr>m_impl := Some impl'\<rparr>)
    \<and> (ret = 0 \<longrightarrow> di_frame_info (m_info impl') = decoded_infos (pe_av pe) (di_frame_info (m_info impl)) \<and> 0 < ctx_width (pe_av pe))
    \<and> impl_ok impl' \<and> dest_ok dst1 \<and> queues_inv (d1\<lparr>m_impl := Some impl'\<rparr>)
    \<and> buffers_ok (written_buffers dst1 (arr_buffer_dst l1)) \<and> timer_fps l1 = timer_fps l
    \<and> (\<forall>ii < FT_NUM. frame_length (dd_frame dst1 ! ii) = length (written_buffers dst1 (arr_buffer_dst l1) ! ii)
        \<and> fb_data_size (dd_frame dst1 ! ii) = int (length (written_buffers dst1 (arr_buffer_dst l1) ! ii)))"
proof -
  obtain impl where impl: "m_impl d = Some impl" "impl_ok impl" and q: "queues_inv d" and b: "buffers_ok (arr_buffer_dst l)"
    using inv by (auto simp: pass_inv_def)
  have "\<not> (m_queue_src d = [] \<or> elapsed_ms (pe_fp pe) (qv_time (hd (m_queue_src d))) (pe_now pe) < of_int (queue_accumulate_time (GetInfo impl)))"
    using TakeSource_none [OF impl(1), of "pe_fp pe" "pe_now pe" l] take by auto
  then obtain x rest where x: "m_queue_src d = x # rest"
    "\<not> elapsed_ms (pe_fp pe) (qv_time x) (pe_now pe) < of_int (queue_accumulate_time (GetInfo impl))"
    by (cases "m_queue_src d") auto
  note TakeSource_ok [OF q impl(1) x, of l]
  then have t: "queues_inv d1" "m_impl d1 = Some impl" "source_ok src" "fb_data (vs_frame src) = Some (arr_buffer_src l1, 0)"
    "l1 = l\<lparr>arr_buffer_src := arr_buffer_src l1\<rparr>"
    using take impl(1) by auto
  from t(5) have l1: "arr_buffer_dst l1 = arr_buffer_dst l" "timer_fps l1 = timer_fps l" by (metis DecodeLocals.select_convs(1,4) DecodeLocals.surjective DecodeLocals.update_convs(3))+
  have rdy: "decoder_ready d1 impl" using t(2) impl(2) by (simp add: decoder_ready_def impl_ok_def)
  obtain dst where dst: "SetDstBufferInfo DecoderVideoDest_new (arr_buffer_dst l) d1 = Inr dst" "dd_frame dst = map frame_for_buffer (arr_buffer_dst l)"
    using SetDstBufferInfo_ok [OF rdy b] by blast
  have dok: "dest_ok dst"
    using b dst(2) frame_for_buffer_ok by (auto simp: dest_ok_def buffers_ok_def list_all_iff)
  have p: "ptr_bytes (fb_data (vs_frame src)) (fb_data_size (vs_frame src)) = Inr (frame_bytes src)"
    using t(3,4) by (simp add: source_ok_def ptr_bytes_def rd_n_def ptr_mem_def frame_bytes_def nat_le_iff)
  obtain ret dst1 impl' where dec: "Impl_Decode (pe_av pe) (pe_junk pe) src dst impl = Inr (ret, dst1, impl')" "impl_ok impl'" "dest_ok dst1"
    "same_frames dst1 dst"
    using Impl_Decode_ok [OF av impl(2) dok p] by blast
  note w = written_buffers_ok [OF b dec(3,4) dst(2)]
  have wl: "length (written_buffers dst1 (arr_buffer_dst l) ! ii) = length (arr_buffer_dst l ! ii)" if "ii < FT_NUM" for ii
  proof -
    have "map length (written_buffers dst1 (arr_buffer_dst l)) ! ii = map length (arr_buffer_dst l) ! ii" using w by simp
    moreover have "length (written_buffers dst1 (arr_buffer_dst l)) = FT_NUM" "length (arr_buffer_dst l) = FT_NUM"
      using w b by (simp_all add: buffers_ok_def)
    ultimately show ?thesis using that by simp
  qed
  have "queues_inv (d1\<lparr>m_impl := Some impl'\<rparr>)" using queues_other [of "d1\<lparr>m_impl := Some impl'\<rparr>" d1] t(1) by simp
  then show ?thesis
    using impl(1) l1 dst(1) dec t(2) Impl_Decode_infos [OF dec(1)] w wl by (auto simp: Decode_def)
qed

lemma readable_same: "frame_length fb = n \<Longrightarrow> buffer_ok fb \<Longrightarrow> 0 \<le> fb_data_size fb \<Longrightarrow> fb_data_size fb \<le> int n \<Longrightarrow> readable fb"
  by (auto simp: readable_iff frame_length_def buffer_ok_def split: option.splits)

text \<open>What a frame and its buffer have in common before the allocation.\<close>

definition frames_match :: "DecoderVideoDest \<Rightarrow> u8 list list \<Rightarrow> bool" where
  "frames_match dst arr \<longleftrightarrow> dest_ok dst \<and> buffers_ok arr
     \<and> (\<forall>ii < FT_NUM. frame_length (dd_frame dst ! ii) = length (arr ! ii) \<and> fb_data_size (dd_frame dst ! ii) = int (length (arr ! ii)))"

lemma frames_match_readable:
  assumes "frames_match dst arr"
  shows "list_all readable (dd_frame dst)"
  using assms by (auto simp: frames_match_def dest_ok_def list_all_length intro!: readable_same [OF refl])

lemma alloc_readable:
  assumes rdy: "decoder_ready d impl" and m: "frames_match dst arr"
    and neg: "\<not> negative_wanted (di_frame_info (m_info impl))"
  shows "\<exists>alloc dst' arr'. SetAllocBuffer dst arr d = Inr (alloc, dst', arr') \<and> buffers_ok arr'
    \<and> (\<not> alloc \<longrightarrow> list_all readable (dd_frame dst'))"
proof -
  have ai: "alloc_inv dst arr" using m by (simp add: frames_match_def alloc_inv_def dest_ok_def buffers_ok_def)
  have nn: "\<not> (\<exists>ii < FT_NUM. wanted (info_of impl ii) \<and> want_size (info_of impl ii) < 0)"
    using neg negative_wanted_index [of "di_frame_info (m_info impl)"] rdy by (simp add: decoder_ready_def)
  then obtain dst' arr' where a: "SetAllocBuffer dst arr d =
      Inr (\<exists>ii < FT_NUM. wanted (info_of impl ii) \<and> int (length (arr ! ii)) < want_size (info_of impl ii), dst', arr')"
    "map fb_data (dd_frame dst') = map fb_data (dd_frame dst)" "alloc_inv dst' arr'"
    "\<forall>jj < FT_NUM. fb_data_size (dd_frame dst' ! jj) =
       (if jj \<in> set [0..<FT_NUM] \<and> wanted (info_of impl jj) then want_size (info_of impl jj) else fb_data_size (dd_frame dst ! jj))"
    using SetAllocBuffer_ok [OF rdy ai] by (simp only: if_False) blast
  have l: "length (dd_frame dst') = FT_NUM" "length (dd_frame dst) = FT_NUM"
    using a(3) m by (simp_all add: alloc_inv_def frames_match_def dest_ok_def)
  have "readable (dd_frame dst' ! ii)" if ii: "ii < FT_NUM"
    and none: "\<not> (\<exists>ii < FT_NUM. wanted (info_of impl ii) \<and> int (length (arr ! ii)) < want_size (info_of impl ii))" for ii
  proof -
    have same: "fb_data (dd_frame dst' ! ii) = fb_data (dd_frame dst ! ii)"
      using arg_cong [OF a(2), of "\<lambda>xs. xs ! ii"] ii l by simp
    have "0 \<le> fb_data_size (dd_frame dst' ! ii) \<and> fb_data_size (dd_frame dst' ! ii) \<le> int (length (arr ! ii))"
      using a(4) m ii none nn by (auto simp: frames_match_def not_less)
    moreover have "buffer_ok (dd_frame dst ! ii)" "frame_length (dd_frame dst ! ii) = length (arr ! ii)"
      using m ii by (simp_all add: frames_match_def dest_ok_def list_all_length)
    ultimately show ?thesis
      using same by (auto simp: readable_iff frame_length_def buffer_ok_def split: option.splits)
  qed
  then have "\<not> (\<exists>ii < FT_NUM. wanted (info_of impl ii) \<and> int (length (arr ! ii)) < want_size (info_of impl ii)) \<longrightarrow> list_all readable (dd_frame dst')"
    unfolding list_all_length l by blast
  moreover have "buffers_ok arr'" using a(3) by (simp add: alloc_inv_def buffers_ok_def)
  ultimately show ?thesis using a(1) by blast
qed

lemma alloc_negative:
  assumes rdy: "decoder_ready d impl" and m: "frames_match dst arr" and neg: "negative_wanted (di_frame_info (m_info impl))"
  shows "SetAllocBuffer dst arr d = Inl StdLengthError"
proof -
  have ai: "alloc_inv dst arr" using m by (simp add: frames_match_def alloc_inv_def dest_ok_def buffers_ok_def)
  have "\<exists>ii < FT_NUM. wanted (info_of impl ii) \<and> want_size (info_of impl ii) < 0"
    using neg negative_wanted_index [of "di_frame_info (m_info impl)"] rdy by (simp add: decoder_ready_def)
  then show ?thesis using SetAllocBuffer_ok [OF rdy ai] by (simp only: if_True)
qed

text \<open>The part of a pass after the decoding, for a frame that was decoded.\<close>

definition finish_pass :: "Decoder \<Rightarrow> DecodeLocals \<Rightarrow> timer_env \<Rightarrow> bool \<times> DecoderVideoDest \<times> u8 list list
    \<Rightarrow> (DecoderVideoDest list \<times> Decoder \<times> DecodeLocals \<times> timer_env) cpp" where
  "finish_pass d2 l2 te = (\<lambda>(alloc, dst2, arr). let l3 = l2\<lparr>arr_buffer_dst := arr\<rparr> in
     if alloc then Inr ([], d2, l3, te)
     else cbind (change_timer d2 l3 te) (\<lambda>(change_fps, l4, te').
       let dst3 = dst2\<lparr>dd_index := decoding_index l4, dd_fps := change_fps\<rparr>;
           l5 = l4\<lparr>decoding_index := c_int (decoding_index l4 + 1)\<rparr> in
       Inr (if has_callback_decompress d2 then [dst3] else [], d2, l5, te')))"

lemma finish_pass_ok:
  assumes "queues_inv d2" "m_impl d2 = Some impl" "impl_ok impl" "buffers_ok arr" "timer_ok (timer_fps l2)" "timer_env_ok te" "timer_free te"
    and "\<not> alloc \<longrightarrow> list_all readable (dd_frame dst2)"
  shows "\<exists>dsts d' l' te'. finish_pass d2 l2 te (alloc, dst2, arr) = Inr (dsts, d', l', te') \<and> pass_inv d' l' te'
    \<and> (\<forall>dst \<in> set dsts. list_all readable (dd_frame dst))"
proof -
  let ?l3 = "l2\<lparr>arr_buffer_dst := arr\<rparr>"
  obtain fps l4 te' where ct: "change_timer d2 ?l3 te = Inr (fps, l4, te')" "timer_ok (timer_fps l4)" "timer_env_ok te'"
    "l4 = ?l3\<lparr>timer_fps := timer_fps l4\<rparr>"
    using change_timer_ok [of d2 impl ?l3 te] assms by auto
  have l4: "arr_buffer_dst l4 = arr"
    using ct(4) by (metis DecodeLocals.select_convs(4) DecodeLocals.surjective DecodeLocals.update_convs(1,4))
  show ?thesis
    using assms ct l4 by (cases alloc) (simp_all add: finish_pass_def pass_inv_def Let_def)
qed

lemma DecodePass_eq:
  assumes "TakeSource (pe_fp pe) (pe_now pe) d l = Inr (Some src, d1, l1)"
    and "SetDstBufferInfo DecoderVideoDest_new (arr_buffer_dst l1) d1 = Inr dst"
    and "Decode (pe_av pe) (pe_junk pe) src dst d1 = Inr (ret, dst1, d2)"
    and "GetFrameInfo (int FT_ORIGINAL) d2 = Inr orig"
  shows "DecodePass pe d l te =
    (let l2 = l1\<lparr>arr_buffer_dst := written_buffers dst1 (arr_buffer_dst l1)\<rparr> in
     if ret \<noteq> 0 then Inr ([], d2, l2, te)
     else cbind (if 0 < fi_width orig \<and> 0 < fi_height orig then SetAllocBuffer dst1 (arr_buffer_dst l2) d2
                 else Inr (False, dst1, arr_buffer_dst l2)) (finish_pass d2 l2 te))"
  using assms by (simp add: DecodePass_def finish_pass_def Let_def)

text \<open>
  A pass either keeps the invariant, and every picture it gives the callback can be read at its size, or it
  ends in the exception of a size that is negative.
\<close>

definition pass_outcome :: "pass_env \<Rightarrow> DecoderImpl \<Rightarrow> (DecoderVideoDest list \<times> Decoder \<times> DecodeLocals \<times> timer_env) cpp \<Rightarrow> bool" where
  "pass_outcome pe impl r \<longleftrightarrow> (case r of
       Inl e \<Rightarrow> e = StdLengthError \<and> negative_wanted (decoded_infos (pe_av pe) (di_frame_info (m_info impl)))
     | Inr (dsts, d', l', te') \<Rightarrow> pass_inv d' l' te' \<and> (\<forall>dst \<in> set dsts. list_all readable (dd_frame dst)))"

lemma TakeSource_cases:
  assumes "queues_inv d" "m_impl d = Some impl"
  shows "TakeSource fp now d l = Inr (None, d, l) \<or> (\<exists>v d' l'. TakeSource fp now d l = Inr (Some v, d', l'))"
proof (cases "m_queue_src d = [] \<or> elapsed_ms fp (qv_time (hd (m_queue_src d))) now < of_int (queue_accumulate_time (GetInfo impl))")
  case True
  then show ?thesis using TakeSource_none [OF assms(2) True] by blast
next
  case False
  then obtain x rest where "m_queue_src d = x # rest"
    "\<not> elapsed_ms fp (qv_time x) now < of_int (queue_accumulate_time (GetInfo impl))" by (cases "m_queue_src d") auto
  then show ?thesis using TakeSource_ok [OF assms, of x rest fp now l] by blast
qed

lemma DecodePass_ok:
  assumes inv: "pass_inv d l te" and av: "av_sized (pe_av pe)" and free: "timer_free te" and impl: "m_impl d = Some impl"
  shows "pass_outcome pe impl (DecodePass pe d l te)"
proof -
  have q: "queues_inv d" and tok: "timer_ok (timer_fps l)" "timer_env_ok te" using inv by (simp_all add: pass_inv_def)
  from TakeSource_cases [OF q impl, of "pe_fp pe" "pe_now pe" l]
  show ?thesis
  proof (elim disjE exE)
    assume "TakeSource (pe_fp pe) (pe_now pe) d l = Inr (None, d, l)"
    then show ?thesis using inv by (simp add: DecodePass_def pass_outcome_def)
  next
    fix src d1 l1 assume take: "TakeSource (pe_fp pe) (pe_now pe) d l = Inr (Some src, d1, l1)"
    let ?W = "\<lambda>dst1. written_buffers dst1 (arr_buffer_dst l1)"
    obtain impl' dst dst1 ret where c: "SetDstBufferInfo DecoderVideoDest_new (arr_buffer_dst l1) d1 = Inr dst"
      "Decode (pe_av pe) (pe_junk pe) src dst d1 = Inr (ret, dst1, d1\<lparr>m_impl := Some impl'\<rparr>)"
      "ret = 0 \<longrightarrow> di_frame_info (m_info impl') = decoded_infos (pe_av pe) (di_frame_info (m_info impl)) \<and> 0 < ctx_width (pe_av pe)"
      "impl_ok impl'" "queues_inv (d1\<lparr>m_impl := Some impl'\<rparr>)" "timer_fps l1 = timer_fps l" "frames_match dst1 (?W dst1)"
      using DecodePass_decoded [OF inv av take] impl unfolding frames_match_def by auto
    let ?d2 = "d1\<lparr>m_impl := Some impl'\<rparr>" and ?l2 = "l1\<lparr>arr_buffer_dst := ?W dst1\<rparr>"
    have rdy: "decoder_ready ?d2 impl'" using c(4) by (simp add: decoder_ready_def impl_ok_def)
    obtain orig where orig: "GetFrameInfo (int FT_ORIGINAL) ?d2 = Inr orig"
      using GetFrameInfo_ready [OF rdy, of FT_ORIGINAL] by (simp add: FT_ORIGINAL_def FT_NUM_def)
    note eq = DecodePass_eq [OF take c(1,2) orig, of te]
    have bok: "buffers_ok (?W dst1)" using c(7) by (simp add: frames_match_def)
    have fin: "pass_outcome pe impl (finish_pass ?d2 ?l2 te (alloc, dst2, arr))"
      if "buffers_ok arr" "\<not> alloc \<longrightarrow> list_all readable (dd_frame dst2)" for alloc dst2 arr
      using finish_pass_ok [of ?d2 impl' arr ?l2 te alloc dst2] c tok free that by (auto simp: pass_outcome_def)
    show ?thesis
    proof (cases "ret = 0 \<and> 0 < fi_width orig \<and> 0 < fi_height orig")
      case False
      then show ?thesis
        using c tok bok fin [OF bok, of False dst1] frames_match_readable [OF c(7)] eq
        by (auto simp: pass_inv_def pass_outcome_def Let_def)
    next
      case True
      then have infos: "di_frame_info (m_info impl') = decoded_infos (pe_av pe) (di_frame_info (m_info impl))" using c(3) by blast
      show ?thesis
        using alloc_negative [OF rdy c(7)] alloc_readable [OF rdy c(7)] fin True eq infos
        by (cases "negative_wanted (di_frame_info (m_info impl'))") (auto simp: pass_outcome_def)
    qed
  qed
qed

text \<open>A frame that is decoded while a size is negative ends the thread, and so the program, by the exception.\<close>

lemma DecodePass_negative:
  assumes inv: "pass_inv d l te" and av: "av_sized (pe_av pe)" and impl: "m_impl d = Some impl"
    and take: "TakeSource (pe_fp pe) (pe_now pe) d l = Inr (Some src, d1, l1)"
    and dec: "SetDstBufferInfo DecoderVideoDest_new (arr_buffer_dst l1) d1 = Inr dst" "Decode (pe_av pe) (pe_junk pe) src dst d1 = Inr (0, dst1, d2)"
    and neg: "negative_wanted (decoded_infos (pe_av pe) (di_frame_info (m_info impl)))" and h: "0 < ctx_height (pe_av pe)"
  shows "DecodePass pe d l te = Inl StdLengthError"
proof -
  obtain impl' where c: "d2 = d1\<lparr>m_impl := Some impl'\<rparr>" "impl_ok impl'" "frames_match dst1 (written_buffers dst1 (arr_buffer_dst l1))"
    "di_frame_info (m_info impl') = decoded_infos (pe_av pe) (di_frame_info (m_info impl))" "0 < ctx_width (pe_av pe)"
    using DecodePass_decoded [OF inv av take] impl dec unfolding frames_match_def by auto
  have rdy: "decoder_ready d2 impl'" using c by (simp add: decoder_ready_def impl_ok_def)
  have o: "GetFrameInfo (int FT_ORIGINAL) d2 = Inr (info_of impl' FT_ORIGINAL)"
    using GetFrameInfo_ready [OF rdy, of FT_ORIGINAL] by (simp add: FT_ORIGINAL_def FT_NUM_def)
  have "FT_ORIGINAL < length (di_frame_info (m_info impl))"
    using c(2,4) by (simp add: impl_ok_def decoded_infos_def FT_ORIGINAL_def FT_NUM_def)
  then have "0 < fi_width (info_of impl' FT_ORIGINAL) \<and> 0 < fi_height (info_of impl' FT_ORIGINAL)"
    using c(4,5) h by (simp add: decoded_infos_def)
  then show ?thesis
    using DecodePass_eq [OF take dec o, of te] alloc_negative [OF rdy c(3)] neg c(4) by (simp add: Let_def)
qed

text \<open>A pass that takes a frame which FFmpeg decodes.\<close>

definition pass_decodes :: "pass_env \<Rightarrow> Decoder \<Rightarrow> DecodeLocals \<Rightarrow> bool" where
  "pass_decodes pe d l \<longleftrightarrow> 0 < ctx_height (pe_av pe) \<and> (\<exists>src d1 l1 dst dst1 d2.
     TakeSource (pe_fp pe) (pe_now pe) d l = Inr (Some src, d1, l1)
     \<and> SetDstBufferInfo DecoderVideoDest_new (arr_buffer_dst l1) d1 = Inr dst
     \<and> Decode (pe_av pe) (pe_junk pe) src dst d1 = Inr (0, dst1, d2))"

lemma DecodePass_decodes_negative:
  assumes "pass_inv d l te" "av_sized (pe_av pe)" "m_impl d = Some impl" "pass_decodes pe d l"
    and "negative_wanted (decoded_infos (pe_av pe) (di_frame_info (m_info impl)))"
  shows "DecodePass pe d l te = Inl StdLengthError"
  using DecodePass_negative [OF assms(1-3)] assms(4,5) unfolding pass_decodes_def by blast

text \<open>For instance the first frame of a thread, when it has waited long enough.\<close>

lemma convert_frames_none:
  "list_all (\<lambda>ii. ii < length (dd_frame dst)) ks \<Longrightarrow> list_all (\<lambda>fb. fb_data fb = None) (dd_frame dst) \<Longrightarrow>
   convert_frames av junk d ks (ret, dst, c) = Inr (ret, dst, c)"
  by (induction ks) (auto simp: convert_frame_def arr_get_def list_all_iff)

lemma first_pass_decodes:
  assumes "queues_inv d" "m_impl d = Some impl" "impl_ok impl" "m_queue_src d = x # rest"
    and "\<not> elapsed_ms (pe_fp pe) (qv_time x) (pe_now pe) < of_int (queue_accumulate_time (GetInfo impl))"
    and "arr_buffer_dst l = replicate FT_NUM []"
    and av: "\<forall>bs. avcodec_send_packet (pe_av pe) bs = 0" "avcodec_receive_frame (pe_av pe) = 0"
      "0 < ctx_width (pe_av pe)" "0 < ctx_height (pe_av pe)"
  shows "pass_decodes pe d l"
proof -
  obtain v d1 l1 where t: "TakeSource (pe_fp pe) (pe_now pe) d l = Inr (Some v, d1, l1)" "m_impl d1 = Some impl" "source_ok v"
    "l1 = l\<lparr>arr_buffer_src := arr_buffer_src l1\<rparr>" "fb_data (vs_frame v) = Some (arr_buffer_src l1, 0)"
    using TakeSource_ok [OF assms(1,2,4,5), of l] assms(2) by auto
  have l1: "arr_buffer_dst l1 = replicate FT_NUM []"
    using t(4) assms(6) by (metis DecodeLocals.select_convs(4) DecodeLocals.surjective DecodeLocals.update_convs(3))
  have rdy: "decoder_ready d1 impl" using t(2) assms(3) by (simp add: decoder_ready_def impl_ok_def)
  have "buffers_ok (arr_buffer_dst l1)" by (simp add: l1 buffers_ok_def list_all_iff)
  from SetDstBufferInfo_ok [OF rdy this] obtain dst where
    dst: "SetDstBufferInfo DecoderVideoDest_new (arr_buffer_dst l1) d1 = Inr dst" "dd_frame dst = map frame_for_buffer (replicate FT_NUM [])"
    using l1 by auto
  have fr: "list_all (\<lambda>ii. ii < length (dd_frame dst)) [0..<FT_NUM]" "list_all (\<lambda>fb. fb_data fb = None) (dd_frame dst)"
    by (simp_all add: dst(2) list_all_iff frame_for_buffer_def FrameBuffer_new_def)
  obtain bs where bs: "ptr_bytes (fb_data (vs_frame v)) (fb_data_size (vs_frame v)) = Inr bs"
    using t(3,5) by (auto simp: source_ok_def ptr_mem_def ptr_bytes_def rd_n_def nat_le_iff)
  have l: "length (di_frame_info (m_info impl)) = 3" "m_source_avpacket impl"
    using assms(3) by (simp_all add: impl_ok_def FT_NUM_def)
  have "\<exists>dst1 d2. Decode (pe_av pe) (pe_junk pe) v dst d1 = Inr (0, dst1, d2)"
    using t(2) l bs av fr
    by (simp add: Decode_def Impl_Decode_def Impl_GetFrameInfo_def put_FrameInfo_def arr_get_def arr_set_def FT_ORIGINAL_def
        convert_frames_none)
  then show ?thesis using t(1) dst(1) av(4) unfolding pass_decodes_def by blast
qed

section \<open>The thread and the join\<close>

text \<open>
  \<open>dt_waiting\<close>: the thread is at \<open>timer_fps->Wait()\<close>. A turn gets the readings of a pass, whether the timer wakes the
  thread, and the timers as they are then. The end of the loop deletes the thread's timer. An exception or undefined
  access ends the program, and stays.
\<close>

record decode_thread =
  dt_decoder :: Decoder
  dt_locals :: DecodeLocals
  dt_pc :: thread_pc
  dt_waiting :: bool

definition Decode_turn :: "pass_env \<times> bool \<times> timer_env \<Rightarrow> decode_thread \<Rightarrow> decode_thread cpp" where
  "Decode_turn e s = (case e of (pe, woken, te) \<Rightarrow>
     (case dt_pc s of
       Started \<Rightarrow> cbind (DecodeBegin (dt_decoder s) te) (\<lambda>(d, l, te').
         Inr (s\<lparr>dt_decoder := d, dt_locals := l, dt_pc := Looping, dt_waiting := False\<rparr>))
     | Looping \<Rightarrow>
         if dt_waiting s then Inr (if woken then s\<lparr>dt_waiting := False\<rparr> else s)
         else if dec_running (dt_decoder s) then
           cbind (DecodePass pe (dt_decoder s) (dt_locals s) te) (\<lambda>(dsts, d, l, te').
             Inr (s\<lparr>dt_decoder := d, dt_locals := l, dt_waiting := True\<rparr>))
         else cbind (DeleteTimerLocker_ptr (te_inst te) (timer_fps (dt_locals s)) (te_mgr te) (te_table te)) (\<lambda>r.
           Inr (s\<lparr>dt_pc := Ended\<rparr>))
     | _ \<Rightarrow> Inr s))"

primrec Decode_turns :: "(pass_env \<times> bool \<times> timer_env) list \<Rightarrow> decode_thread \<Rightarrow> decode_thread cpp" where
  "Decode_turns [] s = Inr s"
| "Decode_turns (e # es) s = cbind (Decode_turn e s) (Decode_turns es)"

definition decode_thread_new :: "Decoder \<Rightarrow> decode_thread" where
  "decode_thread_new d = \<lparr>dt_decoder = d, dt_locals = \<lparr>timer_fps = None, decoding_index = 0, arr_buffer_src = [], arr_buffer_dst = []\<rparr>,
     dt_pc = NotStarted, dt_waiting = False\<rparr>"

definition dt_Activate :: "av_env \<Rightarrow> decode_thread \<Rightarrow> (int \<times> decode_thread) cpp" where
  "dt_Activate av s = cbind (Decoder_Activate av (dt_decoder s)) (\<lambda>(r, d).
     Inr (r, s\<lparr>dt_decoder := d, dt_pc := (if r = 0 then Started else dt_pc s)\<rparr>))"

definition dt_joined :: "decode_thread \<Rightarrow> (int \<times> decode_thread) cpp" where
  "dt_joined s = cbind (Decoder_joined (dt_decoder s)) (\<lambda>(r, d). Inr (r, s\<lparr>dt_decoder := d, dt_pc := NotStarted\<rparr>))"

text \<open>\<open>Deactivate\<close> with the turns of the thread during the join; \<open>None\<close>: it still blocks.\<close>

definition Decoder_Deactivate :: "(pass_env \<times> bool \<times> timer_env) list \<Rightarrow> decode_thread \<Rightarrow> (int \<times> decode_thread) option cpp" where
  "Decoder_Deactivate es s =
     (let s1 = s\<lparr>dt_decoder := Decoder_stop (dt_decoder s)\<rparr> in
      if joinable (dec_thread (dt_decoder s1))
      then cbind (Decode_turns es s1) (\<lambda>s2. if dt_pc s2 = Ended then cbind (dt_joined s2) (\<lambda>x. Inr (Some x)) else Inr None)
      else cbind (dt_joined s1) (\<lambda>x. Inr (Some x)))"

definition Decode_step :: "pass_env \<times> bool \<times> timer_env \<Rightarrow> decode_thread cpp \<Rightarrow> decode_thread cpp" where
  "Decode_step e r = cbind r (Decode_turn e)"

definition Decode_stop :: "decode_thread cpp \<Rightarrow> decode_thread cpp" where
  "Decode_stop r = cbind r (\<lambda>s. Inr (s\<lparr>dt_decoder := Decoder_stop (dt_decoder s)\<rparr>))"

definition Decode_pc :: "decode_thread cpp \<Rightarrow> thread_pc" where
  "Decode_pc r = (case r of Inl e \<Rightarrow> NotStarted | Inr s \<Rightarrow> dt_pc s)"

definition Decode_env_ok :: "pass_env \<times> bool \<times> timer_env \<Rightarrow> bool" where
  "Decode_env_ok e \<longleftrightarrow> timer_env_ok (snd (snd e))"

definition Decode_good :: "decode_thread cpp \<Rightarrow> bool" where
  "Decode_good r \<longleftrightarrow> (\<exists>s. r = Inr s \<and> (dt_pc s = Looping \<longrightarrow> timer_ok (timer_fps (dt_locals s))))"

definition Decode_stopping :: "decode_thread cpp \<Rightarrow> bool" where
  "Decode_stopping r \<longleftrightarrow> (\<exists>s. r = Inr s \<and> dt_pc s = Looping \<and> \<not> dec_running (dt_decoder s) \<and> timer_ok (timer_fps (dt_locals s)))"

definition Decode_rank :: "decode_thread cpp \<Rightarrow> nat" where
  "Decode_rank r = (case r of Inl e \<Rightarrow> 0 | Inr s \<Rightarrow> if dt_waiting s then 1 else 0)"

definition Decode_lost :: "decode_thread cpp \<Rightarrow> bool" where
  "Decode_lost r \<longleftrightarrow> (case r of Inl e \<Rightarrow> True | Inr s \<Rightarrow> dt_pc s = Looping \<and> dec_running (dt_decoder s))"

lemma TakeSource_running: "TakeSource fp now d l = Inr (v, d', l') \<Longrightarrow> dec_running d' = dec_running d"
  by (auto simp: TakeSource_def cbind_Inr_iff Let_def split: list.splits if_splits option.splits)

lemma DecodePass_running:
  assumes "DecodePass pe d l te = Inr (dsts, d', l', te')"
  shows "dec_running d' = dec_running d"
proof -
  obtain item d1 l1 where take: "TakeSource (pe_fp pe) (pe_now pe) d l = Inr (item, d1, l1)"
    using assms by (auto simp: DecodePass_def cbind_Inr_iff)
  have "dec_running d' = dec_running d1"
    using assms take by (auto simp: DecodePass_def cbind_Inr_iff Decode_def Let_def split: option.splits if_splits)
  then show ?thesis using TakeSource_running [OF take] by simp
qed

lemma DeleteTimerLocker_ptr_total:
  assumes "timer_ok t" "timer_env_ok te"
  shows "\<exists>r. DeleteTimerLocker_ptr (te_inst te) t (te_mgr te) (te_table te) = Inr r"
proof -
  obtain l where l: "t = Some l" using assms(1) by (auto simp: timer_ok_def)
  have "manager_inv (te_inst te) (te_table te) (te_mgr te)" using assms(2) by (simp add: timer_env_ok_def)
  from DeleteTimerLocker_ok [OF this, of "TL_GetName l"] show ?thesis
    by (auto simp: DeleteTimerLocker_ptr_def l)
qed

lemma Decode_lost_step: "Decode_lost r \<Longrightarrow> Decode_lost (Decode_step e r)"
proof (cases r)
  case (Inl x)
  then show "Decode_lost (Decode_step e r)" by (simp add: Decode_step_def Decode_lost_def)
next
  case (Inr s)
  assume "Decode_lost r"
  then have s: "dt_pc s = Looping" "dec_running (dt_decoder s)" using Inr by (simp_all add: Decode_lost_def)
  obtain pe w te where e: "e = (pe, w, te)" by (cases e)
  show ?thesis
  proof (cases "dt_waiting s")
    case True
    then show ?thesis using s Inr e by (simp add: Decode_step_def Decode_turn_def Decode_lost_def)
  next
    case False
    show ?thesis
    proof (cases "DecodePass pe (dt_decoder s) (dt_locals s) te")
      case (Inl x)
      then show ?thesis using s Inr e False by (simp add: Decode_step_def Decode_turn_def Decode_lost_def)
    next
      case r: (Inr y)
      obtain dsts d l te' where y: "y = (dsts, d, l, te')" by (cases y)
      then show ?thesis
        using s Inr e False r DecodePass_running [OF r [unfolded y]]
        by (simp add: Decode_step_def Decode_turn_def Decode_lost_def)
    qed
  qed
qed

interpretation decoder_thread: flagged_thread Decode_step Decode_stop Decode_pc Decode_env_ok "\<lambda>(pe, woken, te). woken"
  Decode_rank Decode_good Decode_stopping Decode_lost
proof
  fix r assume "Decode_good r" "Decode_pc r = Looping"
  then show "Decode_stopping (Decode_stop r)"
    by (auto simp: Decode_good_def Decode_pc_def Decode_stopping_def Decode_stop_def Decoder_stop_def)
next
  fix r e assume st: "Decode_stopping r" and e: "Decode_env_ok e" and ne: "Decode_pc (Decode_step e r) \<noteq> Ended"
  obtain s where s: "r = Inr s" "dt_pc s = Looping" "\<not> dec_running (dt_decoder s)" "timer_ok (timer_fps (dt_locals s))"
    using st by (auto simp: Decode_stopping_def)
  obtain pe w te where e': "e = (pe, w, te)" by (cases e)
  have te: "timer_env_ok te" using e e' by (simp add: Decode_env_ok_def)
  have "dt_waiting s"
  proof (rule ccontr)
    assume "\<not> dt_waiting s"
    then show False
      using ne s e' DeleteTimerLocker_ptr_total [OF s(4) te] by (auto simp: Decode_step_def Decode_turn_def Decode_pc_def)
  qed
  then show "Decode_stopping (Decode_step e r) \<and> Decode_rank (Decode_step e r) \<le> Decode_rank r
      \<and> ((case e of (pe, woken, te) \<Rightarrow> woken) \<longrightarrow> Decode_rank (Decode_step e r) < Decode_rank r)"
    using s e' by (simp add: Decode_step_def Decode_turn_def Decode_stopping_def Decode_rank_def)
next
  fix r e assume "Decode_pc r = Ended"
  then show "Decode_pc (Decode_step e r) = Ended"
    by (auto simp: Decode_pc_def Decode_step_def Decode_turn_def split: sum.splits prod.splits)
next
  fix r show "Decode_pc (Decode_stop r) = Decode_pc r"
    by (cases r) (simp_all add: Decode_pc_def Decode_stop_def)
next
  fix r e assume g: "Decode_good r" and pc: "Decode_pc r = Started"
  then show "Decode_lost (Decode_step e (Decode_stop r))"
    by (cases "DecodeBegin (Decoder_stop (dt_decoder (projr r))) (snd (snd e))")
       (auto simp: Decode_good_def Decode_pc_def Decode_stop_def Decode_step_def Decode_turn_def Decode_lost_def DecodeBegin_def
          cbind_Inr_iff Let_def split: prod.splits)
next
  fix r e assume "Decode_lost r"
  then show "Decode_lost (Decode_step e r)" by (rule Decode_lost_step)
next
  fix r assume "Decode_lost r"
  then show "Decode_pc r \<noteq> Ended" by (auto simp: Decode_lost_def Decode_pc_def split: sum.splits)
qed

section \<open>One timer for all decoders\<close>

text \<open>All lockers of the manager.\<close>

definition all_lockers :: "'c map_timers \<Rightarrow> 'c CTimerLocker list" where
  "all_lockers m = concat (map (\<lambda>x. list_lockers (snd x)) m)"

lemma filter_name_distinct:
  assumes "distinct (map tl_name ps)" "name \<in> tl_name ` set ps"
  shows "length (filter (\<lambda>p. tl_name p = name) ps) = 1"
  using assms
proof (induction ps)
  case Nil
  then show ?case by simp
next
  case (Cons p ps)
  show ?case
  proof (cases "tl_name p = name")
    case True
    then have "filter (\<lambda>p. tl_name p = name) ps = []" using True Cons.prems(1) by (auto simp: filter_empty_conv image_iff)
    then show ?thesis using True by simp
  next
    case False
    then show ?thesis using Cons by simp
  qed
qed

text \<open>A name that is registered belongs to exactly one locker.\<close>

lemma one_locker_of_name:
  assumes "timers_inv ts m" "name \<in> map_names m"
  shows "length (filter (\<lambda>p. tl_name p = name) (all_lockers m)) = 1"
  using assms
proof (induction m)
  case Nil
  then show ?case by (simp add: map_names_def)
next
  case (Cons x m)
  obtain k l where x: "x = (k, l)" by (cases x)
  have inv: "list_all (list_before (k, l)) m" "list_ok k l" "timers_inv ts m" using Cons.prems(1) by (simp_all add: x timers_inv_Cons)
  show ?case
  proof (cases "name \<in> list_names l")
    case True
    then have "name \<notin> map_names m" using inv(1) by (fastforce simp: map_names_def list_all_iff list_before_def)
    then have "filter (\<lambda>p. tl_name p = name) (all_lockers m) = []"
      by (auto simp: filter_empty_conv all_lockers_def map_names_def list_names_def)
    then show ?thesis
      using filter_name_distinct [of "list_lockers l" name] True inv(2) by (simp add: x all_lockers_def list_ok_def list_names_def)
  next
    case False
    then have "filter (\<lambda>p. tl_name p = name) (list_lockers l) = []" by (auto simp: filter_empty_conv list_names_def)
    then show ?thesis
      using Cons.IH [OF inv(3)] Cons.prems(2) False by (simp add: x all_lockers_def map_names_def)
  qed
qed

text \<open>At 60 frames per second the timer of 16 ms runs at 62, so every frame replaces it.\<close>

lemma fps_60_never_settles: "GetFps (CTimerLocker_new name (c_div 1000 60) cb) = Inr 62"
  by (simp add: GetFps_def CTimerLocker_new_def c_div_def)

end
