(* ===== verification/Timer_Sharing.thy ===== *)
theory Timer_Sharing
  imports Decoder_Thread "HOL-Library.Multiset"
begin

text \<open>
  What a decoder thread does to the lockers of the one timer manager when it begins: all lockers are a multiset, of
  which the one named \<open>Decoding_fps\<close> is taken out and a new one is put in. Between two threads that begin, the timers
  of the system may go off any number of times.
\<close>

section \<open>Deleting and adding a locker\<close>

lemma all_lockers_Cons: "all_lockers ((k, l) # m) = list_lockers l @ all_lockers m"
  by (simp add: all_lockers_def)

lemma all_lockers_names: "tl_name ` set (all_lockers m) = map_names m"
  by (auto simp: all_lockers_def map_names_def list_names_def)

lemma DeleteTimerLocker_loop_lockers:
  assumes "timers_inv ts m" "DeleteTimerLocker_loop inst name m ts' = Inr (r, m', ts'', cs)"
  shows "all_lockers m' = filter (\<lambda>p. tl_name p \<noteq> name) (all_lockers m)"
  using assms
proof (induction m arbitrary: r m' ts' ts'' cs)
  case Nil
  then show ?case by (simp add: all_lockers_def)
next
  case (Cons a m)
  obtain k l where a: "a = (k, l)" by (cases a)
  obtain found d l' where di: "DeleteItem name l = (found, d, l')" by (cases "DeleteItem name l")
  have hd: "list_all (list_before (k, l)) m" "list_ok k l" "timers_inv ts m"
    using Cons.prems(1) by (auto simp: a timers_inv_Cons)
  have fl: "list_lockers l' = filter (\<lambda>p. tl_name p \<noteq> name) (list_lockers l)"
    using DeleteItem_loop_distinct [of "list_lockers l" name] hd(2) di
    by (auto simp: DeleteItem_def list_ok_def split_beta)
  have found: "found \<longleftrightarrow> name \<in> list_names l" using DeleteItem_ok(1) [OF hd(2), of name] di by simp
  show ?case
  proof (cases found)
    case True
    then have "name \<notin> map_names m" using hd(1) found by (fastforce simp: map_names_def list_all_iff list_before_def)
    then have rest: "filter (\<lambda>p. tl_name p \<noteq> name) (all_lockers m) = all_lockers m"
      unfolding all_lockers_names [symmetric] by (auto simp: filter_id_conv)
    show ?thesis
      using Cons.prems(2) True fl
      by (auto simp: a di rest all_lockers_Cons IsEmpty_def cbind_Inr_iff split: if_splits)
  next
    case False
    then have none: "filter (\<lambda>p. tl_name p \<noteq> name) (list_lockers l) = list_lockers l"
      using found by (auto simp: filter_id_conv list_names_def)
    from False Cons.prems(2) obtain m2 where "DeleteTimerLocker_loop inst name m ts' = Inr (r, m2, ts'', cs)" "m' = (k, l) # m2"
      by (auto simp: a di cbind_Inr_iff)
    with Cons.IH [OF hd(3) this(1)] show ?thesis by (simp add: a all_lockers_Cons none)
  qed
qed

text \<open>Putting a list in: the lockers of the list it replaces go.\<close>

lemma mset_map_put:
  "sorted_wrt list_before m \<Longrightarrow>
   mset (all_lockers (map_put k v m)) + mset (case map_of m k of None \<Rightarrow> [] | Some l \<Rightarrow> list_lockers l)
     = mset (all_lockers m) + mset (list_lockers v)"
proof (induction k v m rule: map_put.induct)
  case (1 k v)
  then show ?case by (simp add: all_lockers_def)
next
  case (2 k v k' v' m)
  have "k < k' \<Longrightarrow> map_of m k = None"
    using 2(2) by (fastforce simp: list_before_def map_of_eq_None_iff)
  moreover have "map_of m k' = None"
    using 2(2) by (fastforce simp: list_before_def map_of_eq_None_iff)
  ultimately show ?case
    using 2 by (auto simp: all_lockers_Cons ac_simps)
qed

lemma mset_add_locker:
  assumes "sorted_wrt list_before m" "map_of m k = Some l \<or> map_of m k = None \<and> list_lockers l = []"
  shows "mset (all_lockers (map_put k (snd (AddItem item l)) m)) = add_mset item (mset (all_lockers m))"
  using mset_map_put [OF assms(1), of k "snd (AddItem item l)"] assms(2) by (auto simp: AddItem_def)

section \<open>Asking for a locker\<close>

text \<open>The lockers after a call that gave one: those of other names, and a fresh one.\<close>

lemma GetTimerLockerByTime_lockers:
  fixes mgr :: "'c LockerManager"
  assumes inv: "manager_inv inst ts mgr"
    and r: "GetTimerLockerByTime inst hTimer name ms0 callback mgr ts = Inr (Some item, mgr', ts', cs)"
  shows "\<exists>mgr1 ts1 cs1. DeleteTimerLocker inst name mgr ts = Inr (name \<in> map_names (m_map_timers mgr), mgr1, ts1, cs1)
    \<and> all_lockers (m_map_timers mgr1) = filter (\<lambda>p. tl_name p \<noteq> name) (all_lockers (m_map_timers mgr))
    \<and> mset (all_lockers (m_map_timers mgr')) = add_mset item (mset (all_lockers (m_map_timers mgr1)))"
proof -
  obtain m1 ts1 cs1 where del: "DeleteTimerLocker inst name mgr ts =
      Inr (name \<in> map_names (m_map_timers mgr), mgr\<lparr>m_map_timers := m1\<rparr>, ts1, cs1)"
    "manager_inv inst ts1 (mgr\<lparr>m_map_timers := m1\<rparr>)"
    using DeleteTimerLocker_ok [OF inv] by blast
  let ?mgr1 = "mgr\<lparr>m_map_timers := m1\<rparr>"
  have fl: "all_lockers m1 = filter (\<lambda>p. tl_name p \<noteq> name) (all_lockers (m_map_timers mgr))"
    using del(1) inv DeleteTimerLocker_loop_lockers [of ts "m_map_timers mgr" inst name ts]
    by (auto simp: DeleteTimerLocker_def manager_inv_def cbind_Inr_iff dest: arg_cong [where f = m_map_timers])
  have so: "sorted_wrt list_before m1"
    using del(2) by (simp add: manager_inv_def timers_inv_def)
  obtain d key mgr2 cs2 where g: "GetList inst hTimer d ?mgr1 ts1 = Inr (Some key, mgr2, ts', cs2)"
    "mgr' = mgr2\<lparr>m_map_timers := map_put key (snd (AddItem item (the (map_of (m_map_timers mgr2) key)))) (m_map_timers mgr2)\<rparr>"
    using r del(1) by (auto simp: GetTimerLockerByTime_def cbind_Inr_iff Let_def split: option.splits if_splits)
  have "mset (all_lockers (m_map_timers mgr')) = add_mset item (mset (all_lockers m1))"
  proof (cases "map_of m1 d")
    case (Some l)
    then show ?thesis using g mset_add_locker [OF so, of d l item] by (auto simp: GetList_def)
  next
    case None
    let ?new = "LockerList_Initialize inst hTimer (LockerList_new d :: 'c CTimerLockerList) ts1"
    obtain r0 l ts2 cs3 where i: "?new = Inr (r0, l, ts2, cs3)"
      using g(1) None by (cases ?new) (auto simp: GetList_def)
    have l: "list_lockers l = []"
      using i by (auto simp: LockerList_Initialize_def LockerList_new_def cbind_Inr_iff)
    have "r0 = 0"
      using g(1) None i by (cases "r0 = 0") (simp_all add: GetList_def cbind_Inr_iff split_beta)
    then have "mgr2 = ?mgr1\<lparr>m_map_timers := map_put d l m1\<rparr>" "key = d"
      using g(1) None i by (auto simp: GetList_def)
    then have "m_map_timers mgr' = map_put d (snd (AddItem item l)) m1"
      unfolding g(2) by (simp add: map_of_map_put map_put_put)
    then show ?thesis
      using None l mset_add_locker [OF so, of d l item] by simp
  qed
  with del(1) fl show ?thesis by (intro exI [of _ ?mgr1] exI conjI) simp_all
qed

section \<open>Timers that go off\<close>

text \<open>The lockers of the manager, and one event of a timer of the system.\<close>

definition lockers_of :: "timer_env \<Rightarrow> int CTimerLocker multiset" where
  "lockers_of te = mset (all_lockers (m_map_timers (te_mgr te)))"

definition timer_tick :: "timer_env \<Rightarrow> timer_env \<Rightarrow> bool" where
  "timer_tick te te' \<longleftrightarrow> (\<exists>tid mgr' calls. timer_event tid (te_table te) (te_mgr te) = Inr (mgr', calls) \<and> te' = te\<lparr>te_mgr := mgr'\<rparr>)"

text \<open>An event counts and wakes; it leaves the names and periods of the lockers, and the resolution.\<close>

definition signatures :: "'c CTimerLocker multiset \<Rightarrow> (string \<times> int) multiset" where
  "signatures = image_mset (\<lambda>p. (tl_name p, tl_period p))"

lemma signatures_ticked: "signatures (mset (map (snd \<circ> tick_item k) ps)) = signatures (mset ps)"
  by (induction ps) (simp_all add: signatures_def tick_item_def Let_def WakeUp_def)

lemma CallbackTimer_signatures:
  assumes "manager_inv inst ts mgr"
  shows "signatures (mset (all_lockers (m_map_timers (fst (CallbackTimer tid ms mgr))))) = signatures (mset (all_lockers (m_map_timers mgr)))
    \<and> m_timer_min_resolution (fst (CallbackTimer tid ms mgr)) = m_timer_min_resolution mgr"
proof (cases "map_of (m_map_timers mgr) ms")
  case None
  then show ?thesis by (simp add: CallbackTimer_def)
next
  case (Some l)
  have inv: "timers_inv ts (m_map_timers mgr)" using assms by (simp add: manager_inv_def)
  then have "list_ok ms l" using map_of_SomeD [OF Some] by (auto simp: timers_inv_def list_all_iff)
  then have e: "signatures (mset (list_lockers (fst (SendEvent l)))) = signatures (mset (list_lockers l))"
    by (simp only: SendEvent_ok(4) signatures_ticked)
  have "sorted_wrt list_before (m_map_timers mgr)" using inv by (simp add: timers_inv_def)
  from arg_cong [OF mset_map_put [OF this, of ms "fst (SendEvent l)"], of signatures] e show ?thesis
    by (simp add: Some CallbackTimer_def split_beta) (simp add: signatures_def)
qed

lemma timer_tick_ok:
  assumes "timer_env_ok te" "timer_tick te te'"
  shows "timer_env_ok te' \<and> signatures (lockers_of te') = signatures (lockers_of te)"
proof -
  have inv: "manager_inv (te_inst te) (te_table te) (te_mgr te)" using assms(1) by (simp add: timer_env_ok_def)
  obtain tid mgr' calls where t: "timer_event tid (te_table te) (te_mgr te) = Inr (mgr', calls)" "te' = te\<lparr>te_mgr := mgr'\<rparr>"
    using assms(2) by (auto simp: timer_tick_def)
  then obtain call where c: "(case call of Some (CallbackTimer_closure, i, ptr) \<Rightarrow> Inr (CallbackTimer i ptr (te_mgr te))
      | _ \<Rightarrow> Inr (te_mgr te, [])) = (Inr (mgr', calls) :: _ cpp)"
    by (auto simp: timer_event_def cbind_Inr_iff)
  consider "mgr' = te_mgr te" | i ptr where "CallbackTimer i ptr (te_mgr te) = (mgr', calls)"
  proof (cases call)
    case (Some t)
    obtain f i ptr where "t = (f, i, ptr)" by (cases t)
    then show ?thesis using c Some that by (cases f) simp_all
  qed (use c that in simp)
  then show ?thesis
  proof cases
    case 1
    then show ?thesis using assms(1) t(2) by simp
  next
    case (2 i ptr)
    then show ?thesis
      using timer_event_inv [OF inv t(1)] CallbackTimer_signatures [OF inv, of i ptr] assms(1) t(2)
      by (simp add: timer_env_ok_def lockers_of_def)
  qed
qed

lemma timer_ticks_ok:
  "timer_tick\<^sup>*\<^sup>* te te' \<Longrightarrow> timer_env_ok te \<Longrightarrow> timer_env_ok te' \<and> signatures (lockers_of te') = signatures (lockers_of te)"
  by (induction rule: rtranclp_induct) (simp, metis timer_tick_ok)

section \<open>A thread that begins\<close>

text \<open>The rate a decoder begins with, and the locker its thread gets.\<close>

definition begin_fps :: "Decoder \<Rightarrow> int" where
  "begin_fps d = (if m_adaptive_fps d = 0 then DECODE_DEFAULT_FPS else m_adaptive_fps d)"

definition begin_locker :: "Decoder \<Rightarrow> timer_env \<Rightarrow> int CTimerLocker" where
  "begin_locker d te = CTimerLocker_new ''Decoding_fps'' (max (c_div 1000 (begin_fps d)) (m_timer_min_resolution (te_mgr te))) None"

lemma DecodeBegin_lockers:
  assumes "timer_env_ok te" "DecodeBegin d te = Inr (d', l, te')"
  shows "\<exists>mgr1 ts1 cs1. DeleteTimerLocker (te_inst te) ''Decoding_fps'' (te_mgr te) (te_table te)
        = Inr (''Decoding_fps'' \<in> map_names (m_map_timers (te_mgr te)), mgr1, ts1, cs1)
    \<and> mset (all_lockers (m_map_timers mgr1)) = filter_mset (\<lambda>p. tl_name p \<noteq> ''Decoding_fps'') (lockers_of te)
    \<and> lockers_of te' = add_mset (begin_locker d te) (mset (all_lockers (m_map_timers mgr1)))
    \<and> timer_fps l = Some (begin_locker d te) \<and> timer_env_ok te'"
proof -
  have inv: "manager_inv (te_inst te) (te_table te) (te_mgr te)" "te_timer te \<noteq> 0" using assms(1) by (simp_all add: timer_env_ok_def)
  have "begin_fps d \<noteq> 0" by (simp add: begin_fps_def DECODE_DEFAULT_FPS_def)
  then obtain item mgr ts cs where g: "GetTimerLockerByTime (te_inst te) (te_timer te) ''Decoding_fps'' (c_div 1000 (begin_fps d)) None
      (te_mgr te) (te_table te) = Inr (item, mgr, ts, cs)" "te' = te\<lparr>te_mgr := mgr, te_table := ts\<rparr>" "timer_fps l = item"
    using assms(2)
    by (auto simp: DecodeBegin_def Decoding_fps_timer_def GetTimerLockerByFps_def begin_fps_def cbind_Inr_iff Let_def split: if_splits)
  note r = GetTimerLockerByTime_ok [OF inv(1) c_div_1000_range g(1)]
  have i: "item = Some (begin_locker d te)" using r inv(2) by (auto simp: begin_locker_def)
  have "timer_env_ok te'" using r g(2) inv(2) by (simp add: timer_env_ok_def)
  with GetTimerLockerByTime_lockers [OF inv(1) g(1) [unfolded i]] g(2,3) i show ?thesis
    by (auto simp: lockers_of_def simp flip: mset_filter)
qed

text \<open>Of the name there is one locker, so taking it out is taking out that one.\<close>

lemma named_locker:
  assumes "timer_env_ok te" "name \<in> map_names (m_map_timers (te_mgr te))"
  obtains p rest where "lockers_of te = add_mset p rest" "filter_mset (\<lambda>p. tl_name p \<noteq> name) (lockers_of te) = rest" "tl_name p = name"
proof -
  have "timers_inv (te_table te) (m_map_timers (te_mgr te))"
    using assms(1) by (simp add: timer_env_ok_def manager_inv_def)
  then have "size (filter_mset (\<lambda>p. tl_name p = name) (lockers_of te)) = 1"
    using one_locker_of_name [OF _ assms(2)] by (simp add: lockers_of_def flip: mset_filter)
  then obtain p where p: "filter_mset (\<lambda>p. tl_name p = name) (lockers_of te) = {#p#}"
    using size_1_singleton_mset by blast
  have "p \<in># filter_mset (\<lambda>p. tl_name p = name) (lockers_of te)" unfolding p by simp
  then have "tl_name p = name" by simp
  moreover have "lockers_of te = {#p#} + filter_mset (\<lambda>p. tl_name p \<noteq> name) (lockers_of te)"
    using multiset_partition [of "lockers_of te" "\<lambda>p. tl_name p = name"] unfolding p .
  moreover have "{#p#} + rest = add_mset p rest" for rest
    by simp
  ultimately show ?thesis using that by metis
qed

end
