(* ===== verification/Rtsp_Session.thy ===== *)
theory Rtsp_Session
  imports Timer_Locker Thread_Join H264_Sink Complex_Main
begin

text \<open>
  \<open>Session_RTSP\<close> of \<open>src/session\<close> and the RTSP client's handlers of \<open>src/live555/rtsp_callback.cpp\<close> with the state
  of \<open>rtsp_client\<close> and \<open>rtsp_StreamClientState\<close>. The live555 library is not code of this program: what its functions
  return is in the arguments of the handlers, the calls of it that matter are listed, and its event loop is the
  sequence of the handlers it calls, with the watch variable tested before each. A closed client is not called back.
  The packets a subsession's sink gets are the subject of \<open>H264_Sink\<close>.
\<close>

section \<open>Session\<close>

definition SESSION_TYPE_NONE :: int where "SESSION_TYPE_NONE = 0"
definition SESSION_TYPE_FILE :: int where "SESSION_TYPE_FILE = 1"
definition SESSION_TYPE_RTSP :: int where "SESSION_TYPE_RTSP = 2"

record SessionInfo =
  si_name :: string
  si_url :: string
  auth_id :: string
  auth_pw :: string
  si_type :: int
  si_port :: int
  use_tcp :: bool

definition SessionInfo_new :: SessionInfo where
  "SessionInfo_new = \<lparr>si_name = [], si_url = [], auth_id = [], auth_pw = [], si_type = SESSION_TYPE_NONE, si_port = 0, use_tcp = True\<rparr>"

section \<open>Stream client state\<close>

text \<open>A subsession, with what the library answers for it.\<close>

record MediaSubsession =
  mediumName :: string
  codecName :: string
  initiate :: bool
  rtcpInstance :: bool
  ss_sink :: bool
  ss_miscPtr :: bool
  ss_byeHandler :: bool

record StreamClientState =
  scs_iter :: "nat option"                      \<comment> \<open>the number of subsessions it has given\<close>
  scs_session :: "MediaSubsession list option"
  scs_subsession :: "nat option"
  streamTimerTask :: bool
  scs_duration :: rat

definition StreamClientState_new :: StreamClientState where
  "StreamClientState_new = \<lparr>scs_iter = None, scs_session = None, scs_subsession = None, streamTimerTask = False, scs_duration = 0\<rparr>"

text \<open>A client, and whether it has not been closed, which destroys it.\<close>

record CustomRTSPClient =
  rc_open :: bool
  rc_state :: StreamClientState
  rc_use_tcp :: bool      \<comment> \<open>\<open>use_tcp\<close> of its session's information\<close>

definition CustomRTSPClient_new :: "bool \<Rightarrow> CustomRTSPClient" where
  "CustomRTSPClient_new tcp = \<lparr>rc_open = True, rc_state = StreamClientState_new, rc_use_tcp = tcp\<rparr>"

datatype rtsp_call =
    SendDescribe bool                 \<comment> \<open>with an authenticator\<close>
  | SendSetup nat bool
  | SendPlay bool                     \<comment> \<open>with absolute times\<close>
  | SendTeardown
  | CloseSink nat
  | ScheduleTimer u32
  | CloseClient
  | SetReconnect                      \<comment> \<open>\<open>Session_RTSP::Reconnect\<close>\<close>

text \<open>Any use of a client that has been closed is undefined.\<close>

definition with_client :: "CustomRTSPClient \<Rightarrow> 'a cpp \<Rightarrow> 'a cpp" where
  "with_client c r = (if rc_open c then r else Inl DanglingPointer)"

text \<open>The next subsession to set up among the remaining ones.\<close>

fun next_subsession :: "(nat \<times> MediaSubsession) list \<Rightarrow> nat option" where
  "next_subsession [] = None"
| "next_subsession ((i, ss) # rest) =
     (if (mediumName ss = ''video'' \<or> codecName ss = ''H264'') = False then next_subsession rest
      else if initiate ss = False then next_subsession rest
      else Some i)"

text \<open>\<open>absolute\<close>: the session has an absolute start time; \<open>len\<close> is its end time less its start time.\<close>

definition setupNextSubsession :: "bool \<Rightarrow> rat \<Rightarrow> CustomRTSPClient \<Rightarrow> (CustomRTSPClient \<times> rtsp_call list) cpp" where
  "setupNextSubsession absolute len c = with_client c
     (let scs = rc_state c in
      case (scs_iter scs, scs_session scs) of
        (Some n, Some ss) \<Rightarrow>
          (case next_subsession (drop n (zip [0..<length ss] ss)) of
             Some i \<Rightarrow> Inr (c\<lparr>rc_state := scs\<lparr>scs_iter := Some (i + 1), scs_subsession := Some i\<rparr>\<rparr>, [SendSetup i (rc_use_tcp c)])
           | None \<Rightarrow>
               let scs1 = scs\<lparr>scs_iter := Some (length ss), scs_subsession := None\<rparr> in
               if absolute then Inr (c\<lparr>rc_state := scs1\<rparr>, [SendPlay True])
               else Inr (c\<lparr>rc_state := scs1\<lparr>scs_duration := len\<rparr>\<rparr>, [SendPlay False]))
      | _ \<Rightarrow> Inl NullPointer)"

text \<open>\<open>session\<close> is what \<open>MediaSession::createNew\<close> makes of the description.\<close>

definition continueAfterDESCRIBE :: "bool \<Rightarrow> rat \<Rightarrow> int \<Rightarrow> MediaSubsession list option \<Rightarrow> CustomRTSPClient
    \<Rightarrow> (CustomRTSPClient \<times> rtsp_call list) cpp" where
  "continueAfterDESCRIBE absolute len resultCode session c = with_client c
     (if resultCode \<noteq> 0 then Inr (c, [SetReconnect])
      else
        let c1 = c\<lparr>rc_state := (rc_state c)\<lparr>scs_session := session\<rparr>\<rparr> in
        (case session of
           None \<Rightarrow> Inr (c1, [SetReconnect])
         | Some ss \<Rightarrow>
             if ss = [] then Inr (c1, [SetReconnect])
             else setupNextSubsession absolute len (c1\<lparr>rc_state := (rc_state c1)\<lparr>scs_iter := Some 0\<rparr>\<rparr>)))"

definition put_subsession :: "nat \<Rightarrow> MediaSubsession \<Rightarrow> CustomRTSPClient \<Rightarrow> CustomRTSPClient" where
  "put_subsession i ss c = c\<lparr>rc_state := (rc_state c)\<lparr>scs_session := map_option (\<lambda>xs. xs[i := ss]) (scs_session (rc_state c))\<rparr>\<rparr>"

definition continueAfterSETUP :: "bool \<Rightarrow> rat \<Rightarrow> int \<Rightarrow> CustomRTSPClient \<Rightarrow> (CustomRTSPClient \<times> rtsp_call list) cpp" where
  "continueAfterSETUP absolute len resultCode c = with_client c
     (cbind (if resultCode \<noteq> 0 then Inr c
        else (case (scs_subsession (rc_state c), scs_session (rc_state c)) of
            (Some i, Some ss) \<Rightarrow>
              let sub = ss ! i in
              Inr (if mediumName sub = ''video'' \<and> codecName sub = ''H264''
                   then put_subsession i (sub\<lparr>ss_sink := True, ss_miscPtr := True,
                          ss_byeHandler := (if rtcpInstance sub then True else ss_byeHandler sub)\<rparr>) c
                   else c)
          | _ \<Rightarrow> Inl NullPointer))
       (setupNextSubsession absolute len))"

text \<open>The loop of \<open>shutdownStream\<close>: the sinks closed, and the subsessions after it.\<close>

fun close_sinks :: "nat \<Rightarrow> MediaSubsession list \<Rightarrow> rtsp_call list \<times> MediaSubsession list" where
  "close_sinks i [] = ([], [])"
| "close_sinks i (sub # ss) =
     (let (cs, ss') = close_sinks (i + 1) ss in
      if ss_sink sub
      then (CloseSink i # cs, sub\<lparr>ss_sink := False, ss_byeHandler := (if rtcpInstance sub then False else ss_byeHandler sub)\<rparr> # ss')
      else (cs, sub # ss'))"

definition shutdownStream :: "CustomRTSPClient \<Rightarrow> (CustomRTSPClient \<times> rtsp_call list) cpp" where
  "shutdownStream c = with_client c
     (case scs_session (rc_state c) of
        None \<Rightarrow> Inr (c\<lparr>rc_open := False\<rparr>, [CloseClient])
      | Some ss \<Rightarrow>
          let (cs, ss') = close_sinks 0 ss in
          Inr (c\<lparr>rc_open := False, rc_state := (rc_state c)\<lparr>scs_session := Some ss'\<rparr>\<rparr>,
               cs @ (if cs \<noteq> [] then [SendTeardown] else []) @ [CloseClient]))"

definition continueAfterPLAY :: "int \<Rightarrow> CustomRTSPClient \<Rightarrow> (CustomRTSPClient \<times> rtsp_call list) cpp" where
  "continueAfterPLAY resultCode c = with_client c
     (if resultCode \<noteq> 0 then shutdownStream c
      else if scs_duration (rc_state c) > 0 then
        let d = scs_duration (rc_state c) + 2 in
        Inr (c\<lparr>rc_state := (rc_state c)\<lparr>scs_duration := d, streamTimerTask := True\<rparr>\<rparr>, [ScheduleTimer (word_of_int \<lfloor>d * 1000000\<rfloor>)])
      else Inr (c, []))"

definition subsessionAfterPlaying :: "nat \<Rightarrow> CustomRTSPClient \<Rightarrow> (CustomRTSPClient \<times> rtsp_call list) cpp" where
  "subsessionAfterPlaying i c = with_client c
     (case scs_session (rc_state c) of
        None \<Rightarrow> Inl NullPointer
      | Some ss \<Rightarrow>
          let sub = ss ! i; c1 = put_subsession i (sub\<lparr>ss_sink := False\<rparr>) c in
          if list_ex ss_sink (ss[i := sub\<lparr>ss_sink := False\<rparr>]) then Inr (c1, [CloseSink i])
          else cbind (shutdownStream c1) (\<lambda>(c2, cs). Inr (c2, CloseSink i # cs)))"

definition subsessionByeHandler :: "nat \<Rightarrow> CustomRTSPClient \<Rightarrow> (CustomRTSPClient \<times> rtsp_call list) cpp" where
  "subsessionByeHandler i c = subsessionAfterPlaying i c"

definition streamTimerHandler :: "CustomRTSPClient \<Rightarrow> (CustomRTSPClient \<times> rtsp_call list) cpp" where
  "streamTimerHandler c = with_client c (Inr (c\<lparr>rc_state := (rc_state c)\<lparr>streamTimerTask := False\<rparr>\<rparr>, [SetReconnect]))"

text \<open>The handlers the event loop calls; \<open>NoEvent\<close> is a step of the loop without one.\<close>

datatype rtsp_event =
    NoEvent
  | Described bool rat int "MediaSubsession list option"
  | SetUp bool rat int
  | Played int
  | AfterPlaying nat
  | Bye nat
  | StreamTimer

fun handle :: "rtsp_event \<Rightarrow> CustomRTSPClient \<Rightarrow> (CustomRTSPClient \<times> rtsp_call list) cpp" where
  "handle NoEvent c = Inr (c, [])"
| "handle (Described absolute len r s) c = continueAfterDESCRIBE absolute len r s c"
| "handle (SetUp absolute len r) c = continueAfterSETUP absolute len r c"
| "handle (Played r) c = continueAfterPLAY r c"
| "handle (AfterPlaying i) c = subsessionAfterPlaying i c"
| "handle (Bye i) c = subsessionByeHandler i c"
| "handle StreamTimer c = streamTimerHandler c"

section \<open>Session\_RTSP\<close>

datatype rtsp_at = Opening | InEventLoop | AtLocker

record Session_RTSP =
  rs_info :: SessionInfo
  rs_has_callback :: bool
  rs_thread :: InnerThread
  rs_pc :: thread_pc
  rs_at :: rtsp_at
  rs_running :: bool
  m_eventLoopWatchVariable :: bool
  m_rtspClient :: "CustomRTSPClient option"
  m_locker :: Locker

definition Session_RTSP_new :: Session_RTSP where
  "Session_RTSP_new = \<lparr>rs_info = SessionInfo_new, rs_has_callback = False, rs_thread = InnerThread_new, rs_pc = NotStarted,
     rs_at = Opening, rs_running = False, m_eventLoopWatchVariable = False, m_rtspClient = None, m_locker = Locker_new\<rparr>"

definition SetSessionInfo :: "SessionInfo \<Rightarrow> Session_RTSP \<Rightarrow> int \<times> Session_RTSP" where
  "SetSessionInfo param s = (0, s\<lparr>rs_info := param\<rparr>)"

definition GetSessionInfo :: "Session_RTSP \<Rightarrow> SessionInfo" where
  "GetSessionInfo s = rs_info s"

definition SetStreamCallback :: "bool \<Rightarrow> Session_RTSP \<Rightarrow> Session_RTSP" where
  "SetStreamCallback callback s = s\<lparr>rs_has_callback := callback\<rparr>"

definition RTSP_Initialize :: "Session_RTSP \<Rightarrow> int \<times> Session_RTSP" where
  "RTSP_Initialize s = (0, s\<lparr>m_eventLoopWatchVariable := False\<rparr>)"

definition RTSP_Finalize :: "Session_RTSP \<Rightarrow> int \<times> Session_RTSP" where
  "RTSP_Finalize s = (0, s)"

definition RTSP_Activate :: "Session_RTSP \<Rightarrow> (int \<times> Session_RTSP) cpp" where
  "RTSP_Activate s =
     (if rs_running s then Inr (0, s)
      else cbind (StartThread (SaveThreadName (si_name (rs_info s)) (rs_thread s))) (\<lambda>(b, t).
        Inr (0, s\<lparr>rs_thread := t, rs_pc := Started\<rparr>)))"

text \<open>\<open>Deactivate\<close> before and after the join.\<close>

definition RTSP_stop :: "Session_RTSP \<Rightarrow> Session_RTSP" where
  "RTSP_stop s = s\<lparr>m_eventLoopWatchVariable := True, rs_running := False, m_locker := WakeUp (m_locker s)\<rparr>"

definition RTSP_joined :: "Session_RTSP \<Rightarrow> int \<times> Session_RTSP" where
  "RTSP_joined s = (0, s\<lparr>rs_thread := JoinThread (rs_thread s), rs_pc := NotStarted\<rparr>)"

definition Reconnect :: "Session_RTSP \<Rightarrow> Session_RTSP" where
  "Reconnect s = s\<lparr>m_eventLoopWatchVariable := True\<rparr>"

text \<open>\<open>created\<close>: the library made a client; \<open>sent\<close>: its \<open>DESCRIBE\<close> was sent. A client whose \<open>DESCRIBE\<close> is not sent stays.\<close>

definition openURL :: "bool \<Rightarrow> bool \<Rightarrow> Session_RTSP \<Rightarrow> bool \<times> Session_RTSP \<times> rtsp_call list" where
  "openURL created sent s =
     (let info = GetSessionInfo s in
      if \<not> created then (False, s\<lparr>m_rtspClient := None\<rparr>, [])
      else
        let s1 = s\<lparr>m_rtspClient := Some (CustomRTSPClient_new (use_tcp info))\<rparr>;
            authenticator = (auth_id info \<noteq> [] \<and> auth_pw info \<noteq> []) in
        (if sent then True else False, s1, [SendDescribe authenticator]))"

text \<open>The end of a pass of the loop: wait for a reconnection, or end.\<close>

definition end_pass :: "Session_RTSP \<Rightarrow> Session_RTSP" where
  "end_pass s = (if rs_running s then s\<lparr>rs_at := AtLocker\<rparr> else s\<lparr>rs_pc := Ended\<rparr>)"

text \<open>A turn of \<open>ThreadLoop\<close>: its beginning, \<open>openURL\<close>, a step of the event loop or its end, or the wait.\<close>

record rtsp_env =
  re_created :: bool
  re_sent :: bool
  re_event :: rtsp_event

definition RTSP_turn :: "rtsp_env \<Rightarrow> Session_RTSP \<Rightarrow> (Session_RTSP \<times> rtsp_call list) cpp" where
  "RTSP_turn e s = (case rs_pc s of
       Started \<Rightarrow> Inr (s\<lparr>rs_running := True, rs_pc := Looping, rs_at := Opening\<rparr>, [])
     | Looping \<Rightarrow>
         (case rs_at s of
            Opening \<Rightarrow>
              (let (ok, s1, cs) = openURL (re_created e) (re_sent e) s in
               Inr (if ok then s1\<lparr>m_eventLoopWatchVariable := False, rs_at := InEventLoop\<rparr> else end_pass s1, cs))
          | InEventLoop \<Rightarrow>
              (case m_rtspClient s of None \<Rightarrow> Inl NullPointer
               | Some c \<Rightarrow>
                   if m_eventLoopWatchVariable s
                   then cbind (shutdownStream c) (\<lambda>(c', cs). Inr (end_pass (s\<lparr>m_rtspClient := None\<rparr>), cs))
                   else if \<not> rc_open c then Inr (s, [])
                   else cbind (handle (re_event e) c) (\<lambda>(c', cs).
                     let s1 = s\<lparr>m_rtspClient := Some c'\<rparr> in
                     Inr (if SetReconnect \<in> set cs then Reconnect s1 else s1, cs)))
          | AtLocker \<Rightarrow>
              (let (ok, l) = WaitProc (m_locker s); s1 = s\<lparr>m_locker := l\<rparr> in
               Inr (if \<not> ok then (s, [])
                    else if rs_running s1 then (s1\<lparr>rs_at := Opening\<rparr>, []) else (s1\<lparr>rs_pc := Ended\<rparr>, []))))
     | _ \<Rightarrow> Inr (s, []))"

primrec RTSP_turns :: "rtsp_env list \<Rightarrow> Session_RTSP \<Rightarrow> (Session_RTSP \<times> rtsp_call list) cpp" where
  "RTSP_turns [] s = Inr (s, [])"
| "RTSP_turns (e # es) s = cbind (RTSP_turn e s) (\<lambda>(s1, cs). cbind (RTSP_turns es s1) (\<lambda>(s2, cs'). Inr (s2, cs @ cs')))"

text \<open>\<open>Deactivate\<close> with the turns of the thread during the join; \<open>None\<close>: it still blocks.\<close>

definition RTSP_Deactivate :: "rtsp_env list \<Rightarrow> Session_RTSP \<Rightarrow> (int \<times> Session_RTSP) option cpp" where
  "RTSP_Deactivate es s =
     (let s1 = RTSP_stop s in
      if joinable (rs_thread s1)
      then cbind (RTSP_turns es s1) (\<lambda>(s2, cs). Inr (if rs_pc s2 = Ended then Some (RTSP_joined s2) else None))
      else Inr (Some (RTSP_joined s1)))"

text \<open>The factory of sessions, with the object each creator makes.\<close>

type_synonym session_map = "int \<rightharpoonup> Session_RTSP"

definition Session_Register :: "int \<Rightarrow> Session_RTSP \<Rightarrow> session_map \<Rightarrow> session_map" where
  "Session_Register type callback m = m(type \<mapsto> callback)"

definition Session_Unregister :: "int \<Rightarrow> session_map \<Rightarrow> session_map" where
  "Session_Unregister type m = m(type := None)"

definition Session_CreateFactory :: "int \<Rightarrow> session_map \<Rightarrow> Session_RTSP option" where
  "Session_CreateFactory type m = (case m type of Some it \<Rightarrow> Some it | None \<Rightarrow> None)"

definition SessionFactory_Initialize :: "session_map \<Rightarrow> session_map" where
  "SessionFactory_Initialize m = Session_Register SESSION_TYPE_RTSP Session_RTSP_new m"

section \<open>The join\<close>

definition RTSP_step :: "rtsp_env \<Rightarrow> Session_RTSP cpp \<Rightarrow> Session_RTSP cpp" where
  "RTSP_step e r = cbind r (\<lambda>s. cbind (RTSP_turn e s) (\<lambda>(s', cs). Inr s'))"

definition RTSP_stop_step :: "Session_RTSP cpp \<Rightarrow> Session_RTSP cpp" where
  "RTSP_stop_step r = cbind r (\<lambda>s. Inr (RTSP_stop s))"

definition RTSP_pc :: "Session_RTSP cpp \<Rightarrow> thread_pc" where
  "RTSP_pc r = (case r of Inl e \<Rightarrow> NotStarted | Inr s \<Rightarrow> rs_pc s)"

text \<open>In its event loop with an open client, or at its locker; not in \<open>openURL\<close>, after which the watch variable is cleared.\<close>

definition open_client :: "Session_RTSP \<Rightarrow> bool" where
  "open_client s \<longleftrightarrow> (\<exists>c. m_rtspClient s = Some c \<and> rc_open c)"

definition RTSP_good :: "Session_RTSP cpp \<Rightarrow> bool" where
  "RTSP_good r \<longleftrightarrow> (\<exists>s. r = Inr s \<and> m_lock_max_count (m_locker s) = 1
     \<and> (rs_pc s = Looping \<longrightarrow> rs_at s \<noteq> Opening \<and> (rs_at s = InEventLoop \<longrightarrow> open_client s)))"

definition RTSP_stopping :: "Session_RTSP cpp \<Rightarrow> bool" where
  "RTSP_stopping r \<longleftrightarrow> (\<exists>s. r = Inr s \<and> rs_pc s = Looping \<and> \<not> rs_running s
     \<and> (rs_at s = InEventLoop \<and> m_eventLoopWatchVariable s \<and> open_client s \<or> rs_at s = AtLocker \<and> 0 < m_lock_count (m_locker s)))"

definition RTSP_lost :: "Session_RTSP cpp \<Rightarrow> bool" where
  "RTSP_lost r \<longleftrightarrow> (case r of Inl e \<Rightarrow> True | Inr s \<Rightarrow> rs_pc s = Looping \<and> rs_running s)"

lemma shutdownStream_open: "rc_open c \<Longrightarrow> \<exists>c' cs. shutdownStream c = Inr (c', cs) \<and> \<not> rc_open c' \<and> CloseClient \<in> set cs"
  by (auto simp: shutdownStream_def with_client_def Let_def split: option.splits prod.splits)

lemma shutdownStream_closed: "\<not> rc_open c \<Longrightarrow> shutdownStream c = Inl DanglingPointer"
  by (simp add: shutdownStream_def with_client_def)

lemma RTSP_lost_turn:
  assumes "rs_pc s = Looping" "rs_running s" "RTSP_turn e s = Inr (s', cs)"
  shows "rs_pc s' = Looping \<and> rs_running s'"
  using assms
  by (auto simp: RTSP_turn_def openURL_def end_pass_def Reconnect_def WaitProc_def cbind_Inr_iff Let_def
      split: rtsp_at.splits option.splits if_splits)

lemma RTSP_stopping_turn:
  assumes "RTSP_stopping (Inr s)"
  shows "\<exists>s' cs. RTSP_turn e s = Inr (s', cs) \<and> rs_pc s' = Ended"
proof -
  have s: "rs_pc s = Looping" "\<not> rs_running s" using assms by (simp_all add: RTSP_stopping_def)
  consider (loop) c where "rs_at s = InEventLoop" "m_eventLoopWatchVariable s" "m_rtspClient s = Some c" "rc_open c"
    | (locker) "rs_at s = AtLocker" "0 < m_lock_count (m_locker s)"
    using assms by (auto simp: RTSP_stopping_def open_client_def)
  then show ?thesis
  proof cases
    case loop
    then obtain c' cs where "shutdownStream c = Inr (c', cs)" using shutdownStream_open by blast
    then show ?thesis using loop s by (simp add: RTSP_turn_def end_pass_def)
  next
    case locker
    then show ?thesis using s by (simp add: RTSP_turn_def WaitProc_def)
  qed
qed

interpretation rtsp_thread: flagged_thread RTSP_step RTSP_stop_step RTSP_pc "\<lambda>e. True" "\<lambda>e. True" "\<lambda>r. 0"
  RTSP_good RTSP_stopping RTSP_lost
proof
  fix r assume "RTSP_good r" "RTSP_pc r = Looping"
  then show "RTSP_stopping (RTSP_stop_step r)"
    by (cases "rs_at (projr r)")
       (auto simp: RTSP_good_def RTSP_pc_def RTSP_stopping_def RTSP_stop_step_def RTSP_stop_def WakeUp_def open_client_def)
next
  fix r and e :: rtsp_env
  assume st: "RTSP_stopping r" and ne: "RTSP_pc (RTSP_step e r) \<noteq> Ended"
  obtain s where s: "r = Inr s" using st by (auto simp: RTSP_stopping_def)
  show "RTSP_stopping (RTSP_step e r) \<and> (0::nat) \<le> 0 \<and> (True \<longrightarrow> (0::nat) < 0)"
    using RTSP_stopping_turn [of s e] st s ne by (auto simp: RTSP_step_def RTSP_pc_def)
next
  fix r and e :: rtsp_env assume "RTSP_pc r = Ended"
  then show "RTSP_pc (RTSP_step e r) = Ended"
    by (cases r) (simp_all add: RTSP_pc_def RTSP_step_def RTSP_turn_def)
next
  fix r show "RTSP_pc (RTSP_stop_step r) = RTSP_pc r"
    by (cases r) (simp_all add: RTSP_pc_def RTSP_stop_step_def RTSP_stop_def)
next
  fix r and e :: rtsp_env assume "RTSP_good r" "RTSP_pc r = Started"
  then show "RTSP_lost (RTSP_step e (RTSP_stop_step r))"
    by (auto simp: RTSP_good_def RTSP_pc_def RTSP_stop_step_def RTSP_stop_def RTSP_step_def RTSP_turn_def RTSP_lost_def)
next
  fix r and e :: rtsp_env assume l: "RTSP_lost r"
  show "RTSP_lost (RTSP_step e r)"
  proof (cases r)
    case (Inl x)
    then show ?thesis by (simp add: RTSP_lost_def RTSP_step_def)
  next
    case (Inr s)
    then show ?thesis
      using l RTSP_lost_turn [of s e] by (cases "RTSP_turn e s") (auto simp: RTSP_lost_def RTSP_step_def)
  qed
next
  fix r assume "RTSP_lost r"
  then show "RTSP_pc r \<noteq> Ended" by (auto simp: RTSP_lost_def RTSP_pc_def split: sum.splits)
qed

section \<open>Reconnections\<close>

definition is_describe :: "rtsp_call \<Rightarrow> bool" where
  "is_describe c = (case c of SendDescribe a \<Rightarrow> True | _ \<Rightarrow> False)"

definition describes :: "rtsp_call list \<Rightarrow> nat" where
  "describes cs = length (filter is_describe cs)"

lemma describes_simps [simp]:
  "describes [] = 0" "describes (c # cs) = (if is_describe c then 1 else 0) + describes cs"
  "describes (xs @ ys) = describes xs + describes ys"
  by (simp_all add: describes_def)

lemma is_describe_simps [simp]:
  "is_describe (SendDescribe a)" "\<not> is_describe (SendSetup i b)" "\<not> is_describe (SendPlay b)" "\<not> is_describe SendTeardown"
  "\<not> is_describe (CloseSink i)" "\<not> is_describe (ScheduleTimer w)" "\<not> is_describe CloseClient" "\<not> is_describe SetReconnect"
  by (simp_all add: is_describe_def)

lemma close_sinks_describes: "describes (fst (close_sinks i ss)) = 0"
  by (induction i ss rule: close_sinks.induct) (auto simp: split_beta Let_def)

lemma shutdownStream_describes: "shutdownStream c = Inr (c', cs) \<Longrightarrow> describes cs = 0"
proof -
  assume a: "shutdownStream c = Inr (c', cs)"
  show ?thesis
  proof (cases "scs_session (rc_state c)")
    case None
    then show ?thesis using a by (auto simp: shutdownStream_def with_client_def split: if_splits)
  next
    case (Some ss)
    then show ?thesis
      using a close_sinks_describes [of 0 ss] by (auto simp: shutdownStream_def with_client_def split_beta Let_def split: if_splits)
  qed
qed

lemma setupNextSubsession_describes: "setupNextSubsession b l c = Inr (c', cs) \<Longrightarrow> describes cs = 0"
  by (auto simp: setupNextSubsession_def with_client_def Let_def split: if_splits option.splits)

lemma handle_describes:
  assumes "handle ev c = Inr (c', cs)"
  shows "describes cs = 0"
proof -
  have ap: "describes cs = 0" if "subsessionAfterPlaying i c = Inr (c', cs)" for i
    using that by (auto simp: subsessionAfterPlaying_def with_client_def cbind_Inr_iff Let_def dest: shutdownStream_describes
        split: if_splits option.splits)
  show ?thesis
    using assms ap
    by (cases ev) (auto simp: continueAfterDESCRIBE_def continueAfterSETUP_def continueAfterPLAY_def
        subsessionByeHandler_def streamTimerHandler_def with_client_def cbind_Inr_iff Let_def
        dest: setupNextSubsession_describes shutdownStream_describes split: if_splits option.splits)
qed

text \<open>How often a thread can still open its URL without a \<open>WakeUp\<close>, which only \<open>Deactivate\<close> makes.\<close>

definition open_budget :: "Session_RTSP \<Rightarrow> nat" where
  "open_budget s = nat (m_lock_count (m_locker s)) + (case rs_pc s of
       NotStarted \<Rightarrow> 0 | Started \<Rightarrow> 1 | Ended \<Rightarrow> 0 | Looping \<Rightarrow> if rs_at s = Opening then 1 else 0)"

lemma RTSP_turn_budget:
  assumes "RTSP_turn e s = Inr (s', cs)"
  shows "describes cs + open_budget s' \<le> open_budget s"
proof (cases "rs_pc s = Looping \<and> rs_at s = InEventLoop")
  case True
  then obtain c where c: "m_rtspClient s = Some c" using assms by (cases "m_rtspClient s") (auto simp: RTSP_turn_def)
  show ?thesis
    using assms True c
    by (auto simp: RTSP_turn_def cbind_Inr_iff end_pass_def open_budget_def Reconnect_def Let_def
        dest: shutdownStream_describes handle_describes split: if_splits)
next
  case False
  then show ?thesis
    using assms
    by (auto simp: RTSP_turn_def cbind_Inr_iff end_pass_def open_budget_def openURL_def WaitProc_def Let_def
        split: if_splits rtsp_at.splits thread_pc.splits)
qed

lemma RTSP_turns_budget: "RTSP_turns es s = Inr (s', cs) \<Longrightarrow> describes cs + open_budget s' \<le> open_budget s"
proof (induction es arbitrary: s cs)
  case Nil
  then show ?case by simp
next
  case (Cons e es)
  then obtain s1 cs1 cs2 where t: "RTSP_turn e s = Inr (s1, cs1)" "RTSP_turns es s1 = Inr (s', cs2)" "cs = cs1 @ cs2"
    by (auto simp: cbind_Inr_iff)
  then show ?case using RTSP_turn_budget [OF t(1)] Cons.IH [OF t(2)] by simp
qed

section \<open>Closing the client\<close>

text \<open>The handlers that close the client: a refused \<open>PLAY\<close>, and the end of the last sink.\<close>

definition ends_stream :: "rtsp_event \<Rightarrow> CustomRTSPClient \<Rightarrow> bool" where
  "ends_stream ev c \<longleftrightarrow> (case ev of
       Played r \<Rightarrow> r \<noteq> 0
     | AfterPlaying i \<Rightarrow> (\<exists>ss. scs_session (rc_state c) = Some ss \<and> \<not> list_ex ss_sink (ss[i := (ss ! i)\<lparr>ss_sink := False\<rparr>]))
     | Bye i \<Rightarrow> (\<exists>ss. scs_session (rc_state c) = Some ss \<and> \<not> list_ex ss_sink (ss[i := (ss ! i)\<lparr>ss_sink := False\<rparr>]))
     | _ \<Rightarrow> False)"

lemma setupNextSubsession_open: "setupNextSubsession b l c = Inr (c', cs) \<Longrightarrow> rc_open c'"
  by (auto simp: setupNextSubsession_def with_client_def Let_def split: if_splits option.splits)

lemma put_subsession_open [simp]: "rc_open (put_subsession i ss c) = rc_open c"
  by (simp add: put_subsession_def)

lemma handle_open:
  assumes "handle ev c = Inr (c', cs)" "rc_open c"
  shows "rc_open c' \<longleftrightarrow> \<not> ends_stream ev c"
proof -
  have sh: "shutdownStream d = Inr (c', cs') \<Longrightarrow> \<not> rc_open c'" for d cs'
    using shutdownStream_open [of d] shutdownStream_closed [of d] by (cases "rc_open d") auto
  have ap: "rc_open c' \<longleftrightarrow> \<not> (\<exists>ss. scs_session (rc_state c) = Some ss \<and> \<not> list_ex ss_sink (ss[i := (ss ! i)\<lparr>ss_sink := False\<rparr>]))"
    if "subsessionAfterPlaying i c = Inr (c', cs)" for i
    using that assms(2) sh
    by (auto simp: subsessionAfterPlaying_def with_client_def cbind_Inr_iff Let_def split: if_splits option.splits)
  show ?thesis
    using assms ap sh setupNextSubsession_open
    by (cases ev) (auto simp: ends_stream_def continueAfterDESCRIBE_def continueAfterSETUP_def continueAfterPLAY_def
        subsessionByeHandler_def streamTimerHandler_def with_client_def cbind_Inr_iff Let_def split: if_splits option.splits)
qed

lemma ends_stream_handle:
  assumes "ends_stream ev c" "rc_open c"
  shows "\<exists>c' cs. handle ev c = Inr (c', cs) \<and> \<not> rc_open c' \<and> CloseClient \<in> set cs \<and> SetReconnect \<notin> set cs"
proof -
  have sr: "SetReconnect \<notin> set (fst (close_sinks i ss))" for i ss
    by (induction i ss rule: close_sinks.induct) (auto simp: split_beta Let_def)
  have sh: "\<exists>c' cs. shutdownStream d = Inr (c', cs) \<and> \<not> rc_open c' \<and> CloseClient \<in> set cs \<and> SetReconnect \<notin> set cs"
    if "rc_open d" for d
    using that sr by (cases "scs_session (rc_state d)") (auto simp: shutdownStream_def with_client_def split_beta Let_def)
  have ap: "\<exists>c' cs. subsessionAfterPlaying i c = Inr (c', cs) \<and> \<not> rc_open c' \<and> CloseClient \<in> set cs \<and> SetReconnect \<notin> set cs"
    if s: "scs_session (rc_state c) = Some ss" "\<not> list_ex ss_sink (ss[i := (ss ! i)\<lparr>ss_sink := False\<rparr>])" for i ss
  proof -
    obtain c' cs where "shutdownStream (put_subsession i ((ss ! i)\<lparr>ss_sink := False\<rparr>) c) = Inr (c', cs)" "\<not> rc_open c'"
      "CloseClient \<in> set cs" "SetReconnect \<notin> set cs"
      using sh [of "put_subsession i ((ss ! i)\<lparr>ss_sink := False\<rparr>) c"] assms(2) by auto
    then show ?thesis using s assms(2) by (simp add: subsessionAfterPlaying_def with_client_def Let_def)
  qed
  show ?thesis
    using assms ap sh by (cases ev) (auto simp: ends_stream_def continueAfterPLAY_def subsessionByeHandler_def with_client_def)
qed

lemma closed_client_idle:
  assumes "rs_pc s = Looping" "rs_at s = InEventLoop" "m_rtspClient s = Some c" "\<not> rc_open c" "\<not> m_eventLoopWatchVariable s"
  shows "RTSP_turns es s = Inr (s, [])"
  using assms by (induction es) (simp_all add: RTSP_turn_def)

text \<open>Then the thread idles in its event loop, and \<open>Deactivate\<close> makes it close the client a second time.\<close>

lemma closed_twice:
  assumes "rs_pc s = Looping" "rs_at s = InEventLoop" "m_rtspClient s = Some c" "rc_open c" "\<not> m_eventLoopWatchVariable s"
    and "ends_stream (re_event e) c"
  shows "\<exists>s1 cs. RTSP_turn e s = Inr (s1, cs) \<and> CloseClient \<in> set cs
    \<and> (\<forall>es. RTSP_turns es s1 = Inr (s1, [])) \<and> (\<forall>e'. RTSP_turn e' (RTSP_stop s1) = Inl DanglingPointer)"
proof -
  obtain c' cs where h: "handle (re_event e) c = Inr (c', cs)" "\<not> rc_open c'" "CloseClient \<in> set cs" "SetReconnect \<notin> set cs"
    using ends_stream_handle [OF assms(6,4)] by blast
  let ?s1 = "s\<lparr>m_rtspClient := Some c'\<rparr>"
  have t: "RTSP_turn e s = Inr (?s1, cs)" using assms h by (simp add: RTSP_turn_def Let_def)
  have "RTSP_turns es ?s1 = Inr (?s1, [])" for es using assms h by (intro closed_client_idle) simp_all
  moreover have "RTSP_turn e' (RTSP_stop ?s1) = Inl DanglingPointer" for e'
    using assms h by (simp add: RTSP_turn_def RTSP_stop_def shutdownStream_closed)
  ultimately show ?thesis using t h(3) by blast
qed

end
