(* ===== verification/Streamer.thy ===== *)
theory Streamer
  imports Decoder_Thread Rtsp_Session
begin

text \<open>
  \<open>Streamer\<close> of \<open>src/stream/Streamer.cpp\<close>: one stream of a camera, the session that receives its frames and the
  decoder they go to. The preview window is only in the debug build. Joining a thread takes the turns the thread
  makes meanwhile, and a join that still blocks is \<open>None\<close>. Replacing an object destroys the old one.
\<close>

section \<open>Calls that may block\<close>

definition jbind :: "'a option cpp \<Rightarrow> ('a \<Rightarrow> 'b option cpp) \<Rightarrow> 'b option cpp" where
  "jbind r f = cbind r (\<lambda>x. case x of None \<Rightarrow> Inr None | Some y \<Rightarrow> f y)"

definition returns :: "'a cpp \<Rightarrow> 'a option cpp" where
  "returns r = cbind r (\<lambda>x. Inr (Some x))"

lemma jbind_simps [simp]:
  "jbind (Inl e) f = Inl e" "jbind (Inr None) f = Inr None" "jbind (Inr (Some y)) f = f y"
  by (simp_all add: jbind_def)

lemma returns_simps [simp]: "returns (Inl e) = Inl e" "returns (Inr x) = Inr (Some x)"
  by (simp_all add: returns_def)

lemma jbind_Some_iff: "jbind r f = Inr (Some z) \<longleftrightarrow> (\<exists>y. r = Inr (Some y) \<and> f y = Inr (Some z))"
  by (auto simp: jbind_def cbind_Inr_iff split: option.splits)

lemma returns_Some_iff: "returns r = Inr (Some x) \<longleftrightarrow> r = Inr x"
  by (auto simp: returns_def cbind_Inr_iff)

lemma jbind_Inl_iff: "jbind r f = Inl e \<longleftrightarrow> r = Inl e \<or> (\<exists>y. r = Inr (Some y) \<and> f y = Inl e)"
  by (auto simp: jbind_def cbind_Inl_iff split: option.splits)

lemma returns_Inl_iff: "returns r = Inl e \<longleftrightarrow> r = Inl e"
  by (auto simp: returns_def cbind_Inl_iff)

section \<open>Code\<close>

record StreamerInfo =
  sti_index :: int
  sti_used :: bool
  sti_session_info :: SessionInfo
  sti_decoder_info :: DecoderInfo
  sti_callback :: bool

definition StreamerInfo_new :: StreamerInfo where
  "StreamerInfo_new = \<lparr>sti_index = 0, sti_used = False, sti_session_info = SessionInfo_new, sti_decoder_info = DecoderInfo_new,
     sti_callback = False\<rparr>"

record Streamer =
  m_stream_index :: int
  m_print_log_fps :: int
  m_session :: "Session_RTSP option"
  m_decoder :: "decode_thread option"
  str_fps_checker :: FPSChecker
  str_callback :: bool
  m_initialize :: bool
  m_activate :: bool
  m_push_frame_time :: int

definition Streamer_new :: "int \<Rightarrow> Streamer" where
  "Streamer_new i = \<lparr>m_stream_index = i, m_print_log_fps = 0, m_session = None, m_decoder = None, str_fps_checker = FPSChecker_new,
     str_callback = False, m_initialize = False, m_activate = False, m_push_frame_time = 0\<rparr>"

definition GetIndex :: "Streamer \<Rightarrow> int" where
  "GetIndex st = m_stream_index st"

definition Streamer_GetSessionInfo :: "Streamer \<Rightarrow> SessionInfo cpp" where
  "Streamer_GetSessionInfo st = (case m_session st of None \<Rightarrow> Inl NullPointer | Some s \<Rightarrow> Inr (GetSessionInfo s))"

definition PrintFPS :: "Streamer \<Rightarrow> Streamer" where
  "PrintFPS st = st\<lparr>m_print_log_fps := c_int (m_print_log_fps st + 1)\<rparr>"

definition SetSessionCallback :: "Session_RTSP \<Rightarrow> Session_RTSP" where
  "SetSessionCallback session = SetStreamCallback True session"

text \<open>
  The destruction of the old objects: \<open>~Decoder\<close> finalizes, and a thread that still runs would go on with an object
  that is gone.
\<close>

definition destroy_decoder :: "decode_thread option \<Rightarrow> unit cpp" where
  "destroy_decoder t = (case t of None \<Rightarrow> Inr ()
     | Some s \<Rightarrow> cbind (Decoder_Finalize (dt_decoder s)) (\<lambda>x. if joinable (dec_thread (dt_decoder s)) then Inl DanglingPointer else Inr ()))"

definition destroy_session :: "Session_RTSP option \<Rightarrow> unit cpp" where
  "destroy_session s = (case s of None \<Rightarrow> Inr () | Some x \<Rightarrow> if joinable (rs_thread x) then Inl DanglingPointer else Inr ())"

text \<open>The factories are those that the constructors of \<open>Decoder\<close> and \<open>Streamer\<close> register.\<close>

definition Streamer_Initialize :: "session_map \<Rightarrow> factory_map \<Rightarrow> (nat \<Rightarrow> u8) \<Rightarrow> StreamerInfo \<Rightarrow> Streamer \<Rightarrow> (int \<times> Streamer) cpp" where
  "Streamer_Initialize sessions decoders junk param st =
     (if m_initialize st then Inr (1, st)
      else if m_activate st then Inr (2, st)
      else
        let st1 = st\<lparr>m_stream_index := sti_index param, str_callback := sti_callback param\<rparr> in
        cbind (destroy_decoder (m_decoder st1)) (\<lambda>u.
        cbind (Decoder_Initialize (Factory_Initialize decoders) junk (sti_decoder_info param) True Decoder_new) (\<lambda>(r, d).
          let st2 = st1\<lparr>m_decoder := Some (decode_thread_new d)\<rparr> in
          if r \<noteq> 0 then Inr (3, st2)
          else
            cbind (destroy_session (m_session st2)) (\<lambda>u.
              case Session_CreateFactory (si_type (sti_session_info param)) (SessionFactory_Initialize sessions) of
                None \<Rightarrow> Inl NullPointer
              | Some s \<Rightarrow>
                  let (r1, s1) = SetSessionInfo (sti_session_info param) s; s2 = SetSessionCallback s1; (r2, s3) = RTSP_Initialize s2;
                      st3 = st2\<lparr>m_session := Some s3\<rparr> in
                  if r2 \<noteq> 0 then Inr (4, st3) else Inr (0, st3\<lparr>m_initialize := True\<rparr>)))))"

definition Streamer_Finalize :: "Streamer \<Rightarrow> (int \<times> Streamer) cpp" where
  "Streamer_Finalize st =
     (let st1 = st\<lparr>m_session := map_option (snd \<circ> RTSP_Finalize) (m_session st)\<rparr> in
      cbind (case m_decoder st1 of None \<Rightarrow> Inr st1
        | Some t \<Rightarrow> cbind (Decoder_Finalize (dt_decoder t)) (\<lambda>(r, d). Inr (st1\<lparr>m_decoder := Some (t\<lparr>dt_decoder := d\<rparr>)\<rparr>)))
        (\<lambda>st2. Inr (0, st2\<lparr>m_initialize := False\<rparr>)))"

definition Streamer_Activate :: "av_env \<Rightarrow> int \<Rightarrow> Streamer \<Rightarrow> (int \<times> Streamer) cpp" where
  "Streamer_Activate av now st =
     (if False = m_initialize st then Inr (1, st)
      else (case m_session st of None \<Rightarrow> Inl NullPointer
        | Some s \<Rightarrow> cbind (RTSP_Activate s) (\<lambda>(r, s').
            let st1 = st\<lparr>m_session := Some s'\<rparr> in
            if r \<noteq> 0 then Inr (2, st1)
            else (case m_decoder st1 of None \<Rightarrow> Inl NullPointer
              | Some t \<Rightarrow> cbind (dt_Activate av t) (\<lambda>(r, t').
                  let st2 = st1\<lparr>m_decoder := Some t'\<rparr> in
                  if r \<noteq> 0 then Inr (3, st2) else Inr (0, st2\<lparr>m_activate := True, m_push_frame_time := now\<rparr>))))))"

record join_env =
  je_session :: "rtsp_env list"
  je_decoder :: "(pass_env \<times> bool \<times> timer_env) list"

definition Streamer_Deactivate :: "join_env \<Rightarrow> Streamer \<Rightarrow> (int \<times> Streamer) option cpp" where
  "Streamer_Deactivate je st =
     (if False = m_initialize st then Inr (Some (1, st))
      else (case m_session st of None \<Rightarrow> Inl NullPointer
        | Some s \<Rightarrow> jbind (RTSP_Deactivate (je_session je) s) (\<lambda>(r, s').
            case m_decoder st of None \<Rightarrow> Inl NullPointer
            | Some t \<Rightarrow> jbind (Decoder_Deactivate (je_decoder je) t) (\<lambda>(r, t').
                Inr (Some (0, st\<lparr>m_session := Some s', m_decoder := Some t', m_print_log_fps := 0, m_activate := False\<rparr>))))))"

definition IsActivate :: "Streamer \<Rightarrow> bool" where
  "IsActivate st = m_activate st"

definition SetDecodeFrameInfo :: "int \<Rightarrow> FrameInfo \<Rightarrow> Streamer \<Rightarrow> Streamer cpp" where
  "SetDecodeFrameInfo type info st = (case m_decoder st of None \<Rightarrow> Inl NullPointer
     | Some t \<Rightarrow> cbind (Decoder_SetFrameInfo type info (dt_decoder t)) (\<lambda>d. Inr (st\<lparr>m_decoder := Some (t\<lparr>dt_decoder := d\<rparr>)\<rparr>)))"

definition GetIntervalPushFrameTime :: "fp \<Rightarrow> int \<Rightarrow> Streamer \<Rightarrow> int" where
  "GetIntervalPushFrameTime fp now st =
     (let elapsed = elapsed_ms fp (m_push_frame_time st) now in c_int (if 0 \<le> elapsed then \<lfloor>elapsed\<rfloor> else \<lceil>elapsed\<rceil>))"

text \<open>The frame of the session as a source of the decoder; \<open>t\<close>, \<open>t1\<close>, \<open>t2\<close> are the readings of \<open>QueuePush\<close>.\<close>

definition OnVideoFrameReceived :: "fp \<Rightarrow> int \<Rightarrow> int \<Rightarrow> int \<Rightarrow> int \<Rightarrow> SessionVideoFrame \<Rightarrow> Streamer \<Rightarrow> (int \<times> Streamer) cpp" where
  "OnVideoFrameReceived fp t t1 t2 now data st =
     (let src = \<lparr>vs_frame = \<lparr>fb_data = Some (vf_buffer data, 0), fb_data_size = vf_buf_size data\<rparr>,
                 vs_key_frame = vf_key_frame data, vs_timestamp = vf_timestamp data\<rparr> in
      case m_decoder st of None \<Rightarrow> Inl NullPointer
      | Some x \<Rightarrow> cbind (QueuePush fp t t1 t2 src (dt_decoder x)) (\<lambda>(r, d).
          Inr (0, st\<lparr>m_decoder := Some (x\<lparr>dt_decoder := d\<rparr>), m_push_frame_time := now\<rparr>)))"

text \<open>The calls of the callback, with the index of the stream.\<close>

definition Streamer_OnVideoDecompress :: "fp \<Rightarrow> int \<Rightarrow> int \<Rightarrow> DecoderVideoDest \<Rightarrow> Streamer \<Rightarrow> int \<times> (int \<times> DecoderVideoDest) list \<times> Streamer" where
  "Streamer_OnVideoDecompress fp t t' data st =
     (let (call, c) = DoCheckCount fp t t' (str_fps_checker st); st1 = st\<lparr>str_fps_checker := c\<rparr>;
          st2 = (case call of None \<Rightarrow> st1 | Some x \<Rightarrow> PrintFPS st1) in
      (0, if str_callback st2 then [(m_stream_index st2, data)] else [], st2))"

end
