(* ===== verification/Repeat_Work.thy ===== *)
theory Repeat_Work
  imports Timer_Locker Thread_Join
begin

text \<open>
  \<open>RepeatWorkProc\<close> of \<open>include/common/RepeatWorkProc.cpp\<close>: works called again and again, each with a timer
  locker whose callback queues the number of the work for the thread. A work is a value of type \<open>'w\<close>, an empty
  \<open>std::function\<close> is \<open>None\<close>, and the ones a turn calls are listed; what a work does is not part of the model.
  The callback of a timer is the number it queues. A pointer to a locker is the locker.
\<close>

section \<open>Code\<close>

record 'w RepeatWorkProc =
  rp_thread :: InnerThread
  rp_pc :: thread_pc
  rp_running :: bool
  m_queue_repeat_event :: Locker
  m_queue_repeat_work :: "int list"
  m_map_timer :: "(int \<times> int CTimerLocker option) list"
  m_map_work :: "(int \<times> 'w option) list"

definition RepeatWorkProc_new :: "'w RepeatWorkProc" where
  "RepeatWorkProc_new = \<lparr>rp_thread = SaveThreadName ''RepeatWorkProc'' InnerThread_new, rp_pc = NotStarted, rp_running = False,
     m_queue_repeat_event = Locker_new, m_queue_repeat_work = [], m_map_timer = [], m_map_work = []\<rparr>"

definition RW_Activate :: "'w RepeatWorkProc \<Rightarrow> (int \<times> 'w RepeatWorkProc) cpp" where
  "RW_Activate p =
     (if rp_running p then Inr (1, p)
      else cbind (StartThread (rp_thread p)) (\<lambda>(b, t). Inr (0, p\<lparr>rp_thread := t, rp_pc := Started\<rparr>)))"

definition GetTimerName :: "int \<Rightarrow> string" where
  "GetTimerName work_type = ''RepeatTimer_'' @ to_string work_type"

text \<open>The callback of the timer of a work.\<close>

definition repeat_callback :: "int \<Rightarrow> 'w RepeatWorkProc \<Rightarrow> 'w RepeatWorkProc" where
  "repeat_callback work_type p =
     p\<lparr>m_queue_repeat_work := m_queue_repeat_work p @ [work_type], m_queue_repeat_event := WakeUp (m_queue_repeat_event p)\<rparr>"

definition AddWork :: "TimerInstance \<Rightarrow> nat \<Rightarrow> int \<Rightarrow> int \<Rightarrow> 'w option \<Rightarrow> 'w RepeatWorkProc \<Rightarrow> int LockerManager \<Rightarrow> timer_table
    \<Rightarrow> (int \<times> 'w RepeatWorkProc \<times> int LockerManager \<times> timer_table \<times> timer_call list) cpp" where
  "AddWork inst hTimer work_type ms work p mgr ts =
     (if map_of (m_map_work p) work_type \<noteq> None then Inr (1, p, mgr, ts, [])
      else
        let p1 = p\<lparr>m_map_work := map_put work_type work (m_map_work p)\<rparr> in
        cbind (GetTimerLockerByTime inst hTimer (GetTimerName work_type) ms (Some work_type) mgr ts) (\<lambda>(timer, mgr', ts', cs).
          Inr (0, p1\<lparr>m_map_timer := map_put work_type timer (m_map_timer p1)\<rparr>, mgr', ts', cs)))"

definition map_erase :: "'k \<Rightarrow> ('k \<times> 'v) list \<Rightarrow> ('k \<times> 'v) list" where
  "map_erase k m = filter (\<lambda>(k', v). k' \<noteq> k) m"

definition DeleteWork :: "TimerInstance \<Rightarrow> int \<Rightarrow> 'w RepeatWorkProc \<Rightarrow> int LockerManager \<Rightarrow> timer_table
    \<Rightarrow> (int \<times> 'w RepeatWorkProc \<times> int LockerManager \<times> timer_table \<times> timer_call list) cpp" where
  "DeleteWork inst work_type p mgr ts =
     (if map_of (m_map_work p) work_type = None then Inr (1, p, mgr, ts, [])
      else (case map_of (m_map_timer p) work_type of
        None \<Rightarrow> Inr (2, p, mgr, ts, [])
      | Some timer \<Rightarrow>
          cbind (DeleteTimerLocker_ptr inst timer mgr ts) (\<lambda>(r, mgr', ts', cs).
            Inr (0, p\<lparr>m_map_timer := map_erase work_type (m_map_timer p), m_map_work := map_erase work_type (m_map_work p)\<rparr>,
                 mgr', ts', cs))))"

fun delete_timers :: "TimerInstance \<Rightarrow> (int \<times> int CTimerLocker option) list \<Rightarrow> int LockerManager \<Rightarrow> timer_table
    \<Rightarrow> (int LockerManager \<times> timer_table \<times> timer_call list) cpp" where
  "delete_timers inst [] mgr ts = Inr (mgr, ts, [])"
| "delete_timers inst ((k, timer) # m) mgr ts =
     cbind (DeleteTimerLocker_ptr inst timer mgr ts) (\<lambda>(r, mgr', ts', cs).
       cbind (delete_timers inst m mgr' ts') (\<lambda>(mgr'', ts'', cs'). Inr (mgr'', ts'', cs @ cs')))"

text \<open>\<open>Deactivate\<close> before it joins the thread, and after the join.\<close>

definition RW_stop :: "'w RepeatWorkProc \<Rightarrow> 'w RepeatWorkProc" where
  "RW_stop p = p\<lparr>m_map_timer := [], m_map_work := [], rp_running := False,
     m_queue_repeat_event := WakeUp (m_queue_repeat_event p)\<rparr>"

definition RW_joined :: "'w RepeatWorkProc \<Rightarrow> 'w RepeatWorkProc" where
  "RW_joined p = p\<lparr>rp_thread := JoinThread (rp_thread p), rp_pc := NotStarted, m_queue_repeat_work := []\<rparr>"

text \<open>The works that the queued numbers call.\<close>

fun drain_works :: "(int \<times> 'w option) list \<Rightarrow> int list \<Rightarrow> 'w list" where
  "drain_works works [] = []"
| "drain_works works (work_type # q) =
     (case map_of works work_type of
        None \<Rightarrow> drain_works works q
      | Some None \<Rightarrow> drain_works works q
      | Some (Some func) \<Rightarrow> func # drain_works works q)"

text \<open>A turn of \<open>ThreadLoop\<close>: its beginning, or one pass of its loop; a wait that blocks leaves all as it is.\<close>

definition RW_turn :: "'w RepeatWorkProc \<Rightarrow> 'w list \<times> 'w RepeatWorkProc" where
  "RW_turn p = (case rp_pc p of
       Started \<Rightarrow> ([], p\<lparr>rp_running := True, rp_pc := Looping\<rparr>)
     | Looping \<Rightarrow>
         (let (ok, ev) = WaitProc (m_queue_repeat_event p); p1 = p\<lparr>m_queue_repeat_event := ev\<rparr> in
          if \<not> ok then ([], p)
          else if False = rp_running p1 then ([], p1\<lparr>rp_pc := Ended\<rparr>)
          else (drain_works (m_map_work p1) (m_queue_repeat_work p1), p1\<lparr>m_queue_repeat_work := []\<rparr>))
     | _ \<Rightarrow> ([], p))"

primrec RW_turns :: "nat \<Rightarrow> 'w RepeatWorkProc \<Rightarrow> 'w list \<times> 'w RepeatWorkProc" where
  "RW_turns 0 p = ([], p)"
| "RW_turns (Suc n) p = (let (fs, p1) = RW_turn p; (fs', p2) = RW_turns n p1 in (fs @ fs', p2))"

text \<open>\<open>Deactivate\<close> with \<open>n\<close> turns of the thread during the join; \<open>None\<close>: it still blocks.\<close>

definition RW_Deactivate :: "TimerInstance \<Rightarrow> nat \<Rightarrow> 'w RepeatWorkProc \<Rightarrow> int LockerManager \<Rightarrow> timer_table
    \<Rightarrow> (int \<times> 'w RepeatWorkProc \<times> int LockerManager \<times> timer_table \<times> timer_call list) option cpp" where
  "RW_Deactivate inst n p mgr ts =
     cbind (delete_timers inst (m_map_timer p) mgr ts) (\<lambda>(mgr', ts', cs).
       let p1 = RW_stop p in
       if joinable (rp_thread p1)
       then (let p2 = snd (RW_turns n p1) in
             Inr (if rp_pc p2 = Ended then Some (0, RW_joined p2, mgr', ts', cs) else None))
       else Inr (Some (0, RW_joined p1, mgr', ts', cs)))"

text \<open>A timer event of the system, with the callbacks it makes.\<close>

definition repeat_timer_event :: "int \<Rightarrow> timer_table \<Rightarrow> int LockerManager \<Rightarrow> 'w RepeatWorkProc
    \<Rightarrow> (int LockerManager \<times> 'w RepeatWorkProc) cpp" where
  "repeat_timer_event tid ts mgr p =
     cbind (timer_event tid ts mgr) (\<lambda>(mgr', calls). Inr (mgr', fold repeat_callback calls p))"

section \<open>The join\<close>

definition RW_step :: "unit \<Rightarrow> 'w RepeatWorkProc \<Rightarrow> 'w RepeatWorkProc" where
  "RW_step u p = snd (RW_turn p)"

text \<open>The event of the object, whose count nothing sets, holds at most one wake-up.\<close>

definition event_ok :: "'w RepeatWorkProc \<Rightarrow> bool" where
  "event_ok p \<longleftrightarrow> m_lock_max_count (m_queue_repeat_event p) = 1 \<and> m_lock_count (m_queue_repeat_event p) \<le> 1"

definition RW_stopping :: "'w RepeatWorkProc \<Rightarrow> bool" where
  "RW_stopping p \<longleftrightarrow> rp_pc p = Looping \<and> \<not> rp_running p \<and> m_lock_count (m_queue_repeat_event p) = 1"

definition RW_lost :: "'w RepeatWorkProc \<Rightarrow> bool" where
  "RW_lost p \<longleftrightarrow> rp_pc p = Looping \<and> rp_running p"

lemmas RW_turn_defs = RW_step_def RW_turn_def WaitProc_def Let_def

interpretation repeat_thread: flagged_thread RW_step RW_stop rp_pc "\<lambda>u. True" "\<lambda>u. True" "\<lambda>p. 0" event_ok RW_stopping RW_lost
proof
  fix p :: "'w RepeatWorkProc"
  assume "event_ok p" "rp_pc p = Looping"
  then show "RW_stopping (RW_stop p)"
    by (simp add: RW_stopping_def RW_stop_def WakeUp_def event_ok_def)
next
  fix p :: "'w RepeatWorkProc" and u
  assume "event_ok p" "rp_pc p = Started"
  then show "RW_lost (RW_step u (RW_stop p))"
    by (simp add: RW_lost_def RW_stop_def RW_turn_defs)
qed (auto simp: RW_stopping_def RW_lost_def RW_stop_def RW_turn_defs)

lemma RW_turns_run: "snd (RW_turns n p) = repeat_thread.run (replicate n ()) p"
  by (induction n arbitrary: p) (auto simp: RW_step_def split_beta Let_def)

lemma RW_turns_ended:
  assumes "event_ok p"
  shows "rp_pc p = Looping \<Longrightarrow> 0 < n \<Longrightarrow> rp_pc (snd (RW_turns n (RW_stop p))) = Ended"
    and "rp_pc p = Started \<Longrightarrow> rp_pc (snd (RW_turns n (RW_stop p))) \<noteq> Ended"
  using repeat_thread.join_returns [OF assms, of "replicate n ()"] repeat_thread.join_blocks [OF assms, of "replicate n ()"]
  by (auto simp: RW_turns_run list_all_iff)

section \<open>Works and their timers\<close>

definition timer_of :: "int \<times> int CTimerLocker option \<Rightarrow> bool" where
  "timer_of x \<longleftrightarrow> (\<exists>l. snd x = Some l \<and> tl_name l = GetTimerName (fst x))"

text \<open>Each work has a timer of its own name.\<close>

definition repeat_inv :: "'w RepeatWorkProc \<Rightarrow> bool" where
  "repeat_inv p \<longleftrightarrow> event_ok p \<and> (\<forall>k. map_of (m_map_timer p) k = None \<longleftrightarrow> map_of (m_map_work p) k = None)
     \<and> list_all timer_of (m_map_timer p)"

lemma map_of_erase: "map_of (map_erase k m) k' = (if k' = k then None else map_of m k')"
  by (induction m) (auto simp: map_erase_def)

lemma AddWork_ok:
  assumes "repeat_inv p" "manager_inv inst ts mgr" "int32_range ms" "hTimer \<noteq> 0"
    and "AddWork inst hTimer wt ms work p mgr ts = Inr (ret, p', mgr', ts', cs)"
  shows "repeat_inv p' \<and> manager_inv inst ts' mgr'
    \<and> (if map_of (m_map_work p) wt \<noteq> None then ret = 1 \<and> p' = p \<and> mgr' = mgr
       else ret = 0 \<and> map_of (m_map_work p') wt = Some work \<and> GetTimerName wt \<in> map_names (m_map_timers mgr'))"
proof (cases "map_of (m_map_work p) wt")
  case (Some w)
  then show ?thesis using assms by (simp add: AddWork_def)
next
  case None
  obtain timer where g: "GetTimerLockerByTime inst hTimer (GetTimerName wt) ms (Some wt) mgr ts = Inr (timer, mgr', ts', cs)"
    and p': "ret = 0" "p' = p\<lparr>m_map_work := map_put wt work (m_map_work p), m_map_timer := map_put wt timer (m_map_timer p)\<rparr>"
    using assms(5) None by (auto simp: AddWork_def cbind_Inr_iff Let_def)
  note r = GetTimerLockerByTime_ok [OF assms(2,3) g]
  then have t: "timer = Some (CTimerLocker_new (GetTimerName wt) (max ms (m_timer_min_resolution mgr)) (Some wt))"
    using assms(4) by blast
  have "list_all timer_of (map_put wt timer (m_map_timer p))"
  proof -
    have "timer_of (wt, timer)" by (simp add: t timer_of_def CTimerLocker_new_def)
    moreover have "\<forall>x \<in> set (m_map_timer p). timer_of x" using assms(1) by (simp add: repeat_inv_def list_all_iff)
    ultimately show ?thesis using set_map_put [of wt timer "m_map_timer p"] by (auto simp: list_all_iff)
  qed
  then show ?thesis
    using assms(1) None r p' t by (auto simp: repeat_inv_def map_of_map_put event_ok_def)
qed

lemma DeleteTimerLocker_ptr_ok:
  assumes "timer_of (k, timer)" "manager_inv inst ts mgr"
  shows "\<exists>r mgr' ts' cs. DeleteTimerLocker_ptr inst timer mgr ts = Inr (r, mgr', ts', cs) \<and> manager_inv inst ts' mgr'
    \<and> map_names (m_map_timers mgr') = map_names (m_map_timers mgr) - {GetTimerName k}"
  using assms(1) DeleteTimerLocker_ok [OF assms(2), of "GetTimerName k"]
  by (auto simp: timer_of_def DeleteTimerLocker_ptr_def TL_GetName_def)

lemma DeleteWork_ok:
  assumes "repeat_inv p" "manager_inv inst ts mgr"
  shows "\<exists>ret p' mgr' ts' cs. DeleteWork inst wt p mgr ts = Inr (ret, p', mgr', ts', cs) \<and> repeat_inv p' \<and> manager_inv inst ts' mgr'
    \<and> (if map_of (m_map_work p) wt = None then ret = 1 \<and> p' = p
       else ret = 0 \<and> map_of (m_map_work p') wt = None \<and> GetTimerName wt \<notin> map_names (m_map_timers mgr'))"
proof (cases "map_of (m_map_work p) wt")
  case None
  then show ?thesis using assms by (simp add: DeleteWork_def)
next
  case (Some w)
  then obtain timer where t: "map_of (m_map_timer p) wt = Some timer"
    using assms(1) unfolding repeat_inv_def by (metis not_None_eq)
  then have "timer_of (wt, timer)"
    using assms(1) by (auto simp: repeat_inv_def list_all_iff dest!: map_of_SomeD)
  then obtain r mgr' ts' cs where d: "DeleteTimerLocker_ptr inst timer mgr ts = Inr (r, mgr', ts', cs)" "manager_inv inst ts' mgr'"
    "map_names (m_map_timers mgr') = map_names (m_map_timers mgr) - {GetTimerName wt}"
    using DeleteTimerLocker_ptr_ok [OF _ assms(2)] by blast
  have "list_all timer_of (map_erase wt (m_map_timer p))"
    using assms(1) by (auto simp: repeat_inv_def list_all_iff map_erase_def)
  then show ?thesis
    using Some t d assms(1) by (auto simp: DeleteWork_def repeat_inv_def map_of_erase event_ok_def)
qed

lemma delete_timers_ok:
  assumes "list_all timer_of m" "manager_inv inst ts mgr"
  shows "\<exists>mgr' ts' cs. delete_timers inst m mgr ts = Inr (mgr', ts', cs) \<and> manager_inv inst ts' mgr'
    \<and> map_names (m_map_timers mgr') = map_names (m_map_timers mgr) - (GetTimerName \<circ> fst) ` set m"
  using assms
proof (induction m arbitrary: mgr ts)
  case Nil
  then show ?case by simp
next
  case (Cons x m)
  obtain k timer where x: "x = (k, timer)" by (cases x)
  have "timer_of (k, timer)" using Cons.prems(1) x by simp
  then obtain r mgr1 ts1 cs1 where d: "DeleteTimerLocker_ptr inst timer mgr ts = Inr (r, mgr1, ts1, cs1)" "manager_inv inst ts1 mgr1"
    "map_names (m_map_timers mgr1) = map_names (m_map_timers mgr) - {GetTimerName k}"
    using DeleteTimerLocker_ptr_ok [OF _ Cons.prems(2)] by blast
  have "list_all timer_of m" using Cons.prems(1) by simp
  then obtain mgr2 ts2 cs2 where "delete_timers inst m mgr1 ts1 = Inr (mgr2, ts2, cs2)" "manager_inv inst ts2 mgr2"
    "map_names (m_map_timers mgr2) = map_names (m_map_timers mgr1) - (GetTimerName \<circ> fst) ` set m"
    using Cons.IH [OF _ d(2)] by blast
  then show ?case using d x by auto
qed

text \<open>Without a timer \<open>AddWork\<close> still returns 0, and the next deletion dereferences null.\<close>

lemma AddWork_no_timer:
  assumes "map_of (m_map_work p) wt = None"
    and "GetTimerLockerByTime inst hTimer (GetTimerName wt) ms (Some wt) mgr ts = Inr (None, mgr', ts', cs)"
  shows "\<exists>p'. AddWork inst hTimer wt ms work p mgr ts = Inr (0, p', mgr', ts', cs) \<and> DeleteWork inst wt p' mgr' ts' = Inl NullPointer"
  using assms by (simp add: AddWork_def DeleteWork_def map_of_map_put DeleteTimerLocker_ptr_def Let_def)

lemma drain_works_eq:
  "drain_works works q = concat (map (\<lambda>wt. case map_of works wt of Some (Some f) \<Rightarrow> [f] | _ \<Rightarrow> []) q)"
  by (induction q) (auto split: option.splits)

lemma repeat_callback_turn:
  assumes "rp_pc p = Looping" "rp_running p" "m_lock_max_count (m_queue_repeat_event p) = 1" "map_of (m_map_work p) wt = Some (Some f)"
  shows "fst (RW_turn (repeat_callback wt p)) = drain_works (m_map_work p) (m_queue_repeat_work p) @ [f]"
  using assms by (simp add: RW_turn_defs repeat_callback_def WakeUp_def drain_works_eq)

text \<open>\<open>Deactivate\<close> returns exactly when the thread had begun and gets a turn.\<close>

lemma RW_Deactivate_returns_iff:
  assumes "repeat_inv p" "manager_inv inst ts mgr" "joinable (rp_thread p)" "rp_pc p = Started \<or> rp_pc p = Looping"
  shows "(\<exists>r. RW_Deactivate inst n p mgr ts = Inr (Some r)) \<longleftrightarrow> rp_pc p = Looping \<and> 0 < n"
    and "\<not> (rp_pc p = Looping \<and> 0 < n) \<Longrightarrow> RW_Deactivate inst n p mgr ts = Inr None"
proof -
  have "list_all timer_of (m_map_timer p)" using assms(1) by (simp add: repeat_inv_def)
  from delete_timers_ok [OF this assms(2)]
  obtain mgr' ts' cs where d: "delete_timers inst (m_map_timer p) mgr ts = Inr (mgr', ts', cs)" by blast
  have j: "joinable (rp_thread (RW_stop p))" using assms(3) by (simp add: RW_stop_def)
  have ev: "event_ok p" using assms(1) by (simp add: repeat_inv_def)
  have e: "rp_pc (snd (RW_turns n (RW_stop p))) = Ended \<longleftrightarrow> rp_pc p = Looping \<and> 0 < n"
    using RW_turns_ended [OF ev, of n] assms(4) by (cases n) (auto simp: RW_stop_def)
  show "(\<exists>r. RW_Deactivate inst n p mgr ts = Inr (Some r)) \<longleftrightarrow> rp_pc p = Looping \<and> 0 < n"
    using d j e by (auto simp: RW_Deactivate_def Let_def)
  show "\<not> (rp_pc p = Looping \<and> 0 < n) \<Longrightarrow> RW_Deactivate inst n p mgr ts = Inr None"
    using d j e by (auto simp: RW_Deactivate_def Let_def)
qed

end
