(* ===== verification/System_Info.thy ===== *)
theory System_Info
  imports Util_Strings
begin

text \<open>
  The setup files of \<open>include/proto/SystemInfo.cpp\<close>. The message classes that protobuf generates from
  \<open>CameraInfoFile.proto\<close> are records of its fields; writing and parsing their bytes is a parameter (\<open>pb_codec\<close>), as are the
  conversions between UTF-8 and UTF-16. A \<open>tstring\<close> is a wide string. A file system maps paths to contents.
\<close>

section \<open>Messages\<close>

record PB_StreamInfo =
  pb_url :: string
  pb_ip :: string
  pb_port :: u32
  pb_user_id :: string
  pb_user_pw :: string
  pb_tcp :: bool
  pb_stream_accumulate_time :: u32
  pb_fps :: u32
  pb_stream_used :: bool

record PB_Camera =
  pb_camera_guid :: string
  pb_camera_name :: string
  pb_stream_info :: "PB_StreamInfo list"

record PB_System =
  pb_system_guid :: string
  pb_system_name :: string
  pb_cameras :: "string list"    \<comment> \<open>the \<open>camera_guid\<close> of each\<close>

record PB_CameraWatchdog =
  pb_pid :: u32

record 'm pb_codec =
  pb_valid :: "'m \<Rightarrow> bool"    \<comment> \<open>the strings of the message are UTF-8\<close>
  pb_write :: "'m \<Rightarrow> u8 list"
  pb_parse :: "u8 list \<Rightarrow> 'm option"

text \<open>Documented behaviour of protobuf: a valid message that was written is parsed back, and no bytes are an empty message.\<close>

definition codec_ok :: "'m pb_codec \<Rightarrow> 'm \<Rightarrow> bool" where
  "codec_ok c m0 \<longleftrightarrow> (\<forall>x. pb_valid c x \<longrightarrow> pb_parse c (pb_write c x) = Some x) \<and> pb_parse c [] = Some m0"

section \<open>Structures\<close>

record StreamInfo =
  sf_url :: string
  sf_ip :: string
  sf_user_id :: string
  sf_user_pw :: string
  sf_port :: int
  sf_stream_accumulate_time :: int
  sf_fps :: int
  sf_tcp :: bool
  sf_stream_used :: bool

definition StreamInfo_new :: StreamInfo where
  "StreamInfo_new = \<lparr>sf_url = ''rtsp://'', sf_ip = [], sf_user_id = [], sf_user_pw = [], sf_port = 554,
     sf_stream_accumulate_time = 500, sf_fps = 0, sf_tcp = True, sf_stream_used = False\<rparr>"

record CameraInfo =
  ci_camera_id :: int
  ci_camera_file :: string
  ci_camera_guid :: string
  ci_camera_name :: wstring
  ci_stream_info :: "StreamInfo list"

definition CameraInfo_new :: CameraInfo where
  "CameraInfo_new = \<lparr>ci_camera_id = -1, ci_camera_file = [], ci_camera_guid = [], ci_camera_name = [],
     ci_stream_info = replicate 3 StreamInfo_new\<rparr>"

record CameraWatchdog =
  wd_guid :: string
  wd_pid :: int

record SystemInfo =
  sy_system_guid :: string
  sy_system_name :: wstring
  sy_cameras :: "string list"    \<comment> \<open>the \<open>guid\<close> of each\<close>

section \<open>Files\<close>

type_synonym files = "string \<rightharpoonup> u8 list"

text \<open>What became of an output stream: not opened, failed after some bytes, or written.\<close>

datatype out_stream = OpenFailed | WriteFailed nat | Written

definition write_stream :: "out_stream \<Rightarrow> string \<Rightarrow> u8 list \<Rightarrow> files \<Rightarrow> bool \<times> files" where
  "write_stream out path bytes fs = (case out of
       OpenFailed \<Rightarrow> (False, fs)
     | WriteFailed n \<Rightarrow> (False, fs(path \<mapsto> take n bytes))
     | Written \<Rightarrow> (True, fs(path \<mapsto> bytes)))"

definition IsExistFile :: "files \<Rightarrow> string \<Rightarrow> bool" where
  "IsExistFile fs path = (if fs path = None then False else True)"

text \<open>\<open>ParseFromIstream\<close> of a file that exists; \<open>opened\<close>: the stream could be opened.\<close>

definition parse_file :: "'m pb_codec \<Rightarrow> bool \<Rightarrow> files \<Rightarrow> string \<Rightarrow> 'm option" where
  "parse_file c opened fs path = (if opened then Option.bind (fs path) (pb_parse c) else None)"

section \<open>Code\<close>

definition stream_node :: "StreamInfo \<Rightarrow> PB_StreamInfo" where
  "stream_node s = \<lparr>pb_url = sf_url s, pb_ip = sf_ip s, pb_port = word_of_int (sf_port s), pb_user_id = sf_user_id s,
     pb_user_pw = sf_user_pw s, pb_tcp = sf_tcp s, pb_stream_accumulate_time = word_of_int (sf_stream_accumulate_time s),
     pb_fps = word_of_int (sf_fps s), pb_stream_used = sf_stream_used s\<rparr>"

definition camera_message :: "(wstring \<Rightarrow> string) \<Rightarrow> CameraInfo \<Rightarrow> PB_Camera" where
  "camera_message convert_unicode_to_utf8 camera_info =
     \<lparr>pb_camera_guid = ci_camera_guid camera_info, pb_camera_name = convert_unicode_to_utf8 (ci_camera_name camera_info),
      pb_stream_info = map (\<lambda>ii. stream_node (ci_stream_info camera_info ! ii)) [0..<3]\<rparr>"

definition SaveCameraInfoPB :: "(wstring \<Rightarrow> string) \<Rightarrow> PB_Camera pb_codec \<Rightarrow> out_stream \<Rightarrow> string \<Rightarrow> CameraInfo \<Rightarrow> files \<Rightarrow> int \<times> files" where
  "SaveCameraInfoPB convert_unicode_to_utf8 c out file_path camera_info fs =
     (let camera_pb = camera_message convert_unicode_to_utf8 camera_info;
          (ok, fs') = write_stream out file_path (pb_write c camera_pb) fs in
      if False = ok then (1, fs') else (0, fs'))"

definition load_stream :: "PB_StreamInfo \<Rightarrow> StreamInfo" where
  "load_stream n = \<lparr>sf_url = pb_url n, sf_ip = pb_ip n, sf_user_id = pb_user_id n, sf_user_pw = pb_user_pw n,
     sf_port = sint (pb_port n), sf_stream_accumulate_time = sint (pb_stream_accumulate_time n), sf_fps = sint (pb_fps n),
     sf_tcp = pb_tcp n, sf_stream_used = pb_stream_used n\<rparr>"

text \<open>The loop over the streams: \<open>stream_info(ii)\<close> of protobuf does not check its index.\<close>

primrec load_streams :: "nat list \<Rightarrow> PB_Camera \<Rightarrow> CameraInfo \<Rightarrow> CameraInfo cpp" where
  "load_streams [] camera_pb info = Inr info"
| "load_streams (ii # ks) camera_pb info =
     (if length (pb_stream_info camera_pb) \<le> ii then Inl OutOfBounds
      else load_streams ks camera_pb (info\<lparr>ci_stream_info := (ci_stream_info info)[ii := load_stream (pb_stream_info camera_pb ! ii)]\<rparr>))"

definition LoadCameraInfoPB :: "(string \<Rightarrow> wstring) \<Rightarrow> PB_Camera pb_codec \<Rightarrow> bool \<Rightarrow> files \<Rightarrow> string \<Rightarrow> CameraInfo \<Rightarrow> (int \<times> CameraInfo) cpp" where
  "LoadCameraInfoPB convert_utf8_to_unicode c opened fs file_path camera_info =
     (if False = IsExistFile fs file_path then Inr (1, camera_info)
      else (case parse_file c opened fs file_path of
        None \<Rightarrow> Inr (2, camera_info)
      | Some camera_pb \<Rightarrow>
          cbind (load_streams [0..<3] camera_pb (camera_info\<lparr>ci_camera_guid := pb_camera_guid camera_pb,
              ci_camera_name := convert_utf8_to_unicode (pb_camera_name camera_pb)\<rparr>)) (\<lambda>info. Inr (0, info))))"

definition system_message :: "(wstring \<Rightarrow> string) \<Rightarrow> SystemInfo \<Rightarrow> PB_System" where
  "system_message convert_unicode_to_utf8 system_info =
     \<lparr>pb_system_guid = sy_system_guid system_info, pb_system_name = convert_unicode_to_utf8 (sy_system_name system_info),
      pb_cameras = sy_cameras system_info\<rparr>"

definition SaveSystemInfoPB :: "(wstring \<Rightarrow> string) \<Rightarrow> PB_System pb_codec \<Rightarrow> out_stream \<Rightarrow> string \<Rightarrow> SystemInfo \<Rightarrow> files \<Rightarrow> int \<times> files" where
  "SaveSystemInfoPB convert_unicode_to_utf8 c out file_path system_info fs =
     (let system_pb = system_message convert_unicode_to_utf8 system_info;
          (ok, fs') = write_stream out file_path (pb_write c system_pb) fs in
      if False = ok then (1, fs') else (0, fs'))"

definition LoadSystemInfoPB :: "(string \<Rightarrow> wstring) \<Rightarrow> PB_System pb_codec \<Rightarrow> bool \<Rightarrow> files \<Rightarrow> string \<Rightarrow> SystemInfo \<Rightarrow> int \<times> SystemInfo" where
  "LoadSystemInfoPB convert_utf8_to_unicode c opened fs file_path system_info =
     (if False = IsExistFile fs file_path then (1, system_info)
      else (case parse_file c opened fs file_path of
        None \<Rightarrow> (2, system_info)
      | Some system_pb \<Rightarrow>
          (0, system_info\<lparr>sy_system_guid := pb_system_guid system_pb,
            sy_system_name := convert_utf8_to_unicode (pb_system_name system_pb), sy_cameras := pb_cameras system_pb\<rparr>)))"

definition SaveCameraWatchdog :: "PB_CameraWatchdog pb_codec \<Rightarrow> out_stream \<Rightarrow> string \<Rightarrow> CameraWatchdog \<Rightarrow> files \<Rightarrow> int \<times> files" where
  "SaveCameraWatchdog c out file_path watchdog_info fs =
     (let (ok, fs') = write_stream out file_path (pb_write c \<lparr>pb_pid = word_of_int (wd_pid watchdog_info)\<rparr>) fs in
      if False = ok then (1, fs') else (0, fs'))"

definition LoadCameraWatchdog :: "PB_CameraWatchdog pb_codec \<Rightarrow> bool \<Rightarrow> files \<Rightarrow> string \<Rightarrow> CameraWatchdog \<Rightarrow> int \<times> CameraWatchdog" where
  "LoadCameraWatchdog c opened fs file_path watchdog_info =
     (if False = IsExistFile fs file_path then (1, watchdog_info)
      else (case parse_file c opened fs file_path of
        None \<Rightarrow> (2, watchdog_info)
      | Some watchdog_pb \<Rightarrow> (0, watchdog_info\<lparr>wd_pid := sint (pb_pid watchdog_pb)\<rparr>)))"

section \<open>Files that are read back\<close>

definition stream_ok :: "StreamInfo \<Rightarrow> bool" where
  "stream_ok s \<longleftrightarrow> int32_range (sf_port s) \<and> int32_range (sf_stream_accumulate_time s) \<and> int32_range (sf_fps s)"

lemma sint_word_of_int32: "int32_range x \<Longrightarrow> sint (word_of_int x :: u32) = x"
  by (simp add: int32_range_def sint_sbintrunc' signed_take_bit_int_eq_self)

lemma load_stream_node: "stream_ok s \<Longrightarrow> load_stream (stream_node s) = s"
  by (simp add: load_stream_def stream_node_def stream_ok_def sint_word_of_int32)

lemma length_3: "length xs = 3 \<longleftrightarrow> (\<exists>a b c. xs = [a, b, c])"
  by (auto simp: numeral_3_eq_3 length_Suc_conv)

lemma load_streams_short: "length (pb_stream_info camera_pb) < 3 \<Longrightarrow> load_streams [0..<3] camera_pb info = Inl OutOfBounds"
  by (auto simp: numeral_3_eq_3 upt_rec)

lemma SaveCamera_Load:
  assumes "codec_ok c e" "pb_valid c (camera_message utf8_of info)" "unicode_of (utf8_of (ci_camera_name info)) = ci_camera_name info"
    and "length (ci_stream_info info) = 3" "list_all stream_ok (ci_stream_info info)" "length (ci_stream_info info0) = 3"
    and "SaveCameraInfoPB utf8_of c Written path info fs = (r, fs')"
  shows "r = 0 \<and> LoadCameraInfoPB unicode_of c True fs' path info0
    = Inr (0, info\<lparr>ci_camera_id := ci_camera_id info0, ci_camera_file := ci_camera_file info0\<rparr>)"
proof -
  obtain a b d a' b' d' where l: "ci_stream_info info = [a, b, d]" "ci_stream_info info0 = [a', b', d']"
    using assms(4,6) by (auto simp: length_3)
  then have "load_stream (stream_node a) = a" "load_stream (stream_node b) = b" "load_stream (stream_node d) = d"
    using assms(5) by (simp_all add: load_stream_node)
  then show ?thesis
    using assms(1-3,7) l
    by (auto simp: SaveCameraInfoPB_def camera_message_def LoadCameraInfoPB_def write_stream_def parse_file_def IsExistFile_def codec_ok_def
        numeral_3_eq_3 upt_rec)
qed

lemma SaveSystem_Load:
  assumes "codec_ok c e" "pb_valid c (system_message utf8_of info)" "unicode_of (utf8_of (sy_system_name info)) = sy_system_name info"
    and "SaveSystemInfoPB utf8_of c Written path info fs = (r, fs')"
  shows "r = 0 \<and> LoadSystemInfoPB unicode_of c True fs' path info0 = (0, info)"
  using assms by (auto simp: SaveSystemInfoPB_def system_message_def LoadSystemInfoPB_def write_stream_def parse_file_def IsExistFile_def codec_ok_def)

lemma SaveWatchdog_Load:
  assumes "codec_ok c e" "pb_valid c \<lparr>pb_pid = word_of_int (wd_pid info)\<rparr>" "int32_range (wd_pid info)" "SaveCameraWatchdog c Written path info fs = (r, fs')"
  shows "r = 0 \<and> LoadCameraWatchdog c True fs' path info0 = (0, info0\<lparr>wd_pid := wd_pid info\<rparr>)"
  using assms by (auto simp: SaveCameraWatchdog_def LoadCameraWatchdog_def write_stream_def parse_file_def IsExistFile_def codec_ok_def
      sint_word_of_int32)

text \<open>A save that fails at once leaves an empty file, and reading it leaves the memory of the message.\<close>

lemma failed_save_breaks_load:
  assumes "codec_ok c \<lparr>pb_camera_guid = [], pb_camera_name = [], pb_stream_info = []\<rparr>"
    and "SaveCameraInfoPB utf8_of c (WriteFailed 0) path info fs = (r, fs')"
  shows "r = 1 \<and> LoadCameraInfoPB unicode_of c True fs' path info0 = Inl OutOfBounds"
proof -
  have "fs' = fs(path \<mapsto> [])" "r = 1"
    using assms(2) by (auto simp: SaveCameraInfoPB_def write_stream_def)
  then show ?thesis
    using assms(1) by (simp add: LoadCameraInfoPB_def IsExistFile_def parse_file_def codec_ok_def load_streams_short)
qed

end
