(* ===== verification/Camera.thy ===== *)
theory Camera
  imports Streamer Repeat_Work Send_Manager System_Info
begin

text \<open>
  \<open>Camera\<close> of \<open>src/Camera.cpp\<close>: three streamers, the queue on which clients send their requests, the workers that send
  the frames to them and the check that restarts a stream without frames. The operations run on several threads, each
  whole; joining a thread takes the turns it makes meanwhile, and a call that does not return is \<open>None\<close>. The
  sample stream and the preview windows are only in the debug build.
\<close>

section \<open>Code\<close>

text \<open>A work of the repeated checks is the index its \<open>std::bind\<close> holds.\<close>

record Camera =
  m_streamers :: "Streamer option list"
  m_camera_guid :: string
  m_camera_id :: int
  m_repeqt_worker :: "int RepeatWorkProc"
  m_recv_worker :: RecvWorker
  m_send_manager :: SendWorkers

definition Camera_new :: "int RepeatWorkProc \<Rightarrow> Camera" where
  "Camera_new worker = \<lparr>m_streamers = [], m_camera_guid = [], m_camera_id = 0, m_repeqt_worker = worker,
     m_recv_worker = RecvWorker_new, m_send_manager = []\<rparr>"

text \<open>
  What the camera works on that is not its own: the shared memory and the timers of the process, and the calls that
  unlock senders, by queue.
\<close>

record cam_sys =
  cs_shm :: shm
  cs_timers :: timer_env
  cs_unlocks :: "(string \<times> sys_call list) list"

definition unlocked :: "(string \<times> sys_call list) list \<Rightarrow> cam_sys \<Rightarrow> cam_sys" where
  "unlocked calls sys = sys\<lparr>cs_unlocks := cs_unlocks sys @ calls\<rparr>"

definition get_streamer :: "int \<Rightarrow> Camera \<Rightarrow> Streamer cpp" where
  "get_streamer i c = cbind (arr_get (m_streamers c) i) (\<lambda>x. case x of None \<Rightarrow> Inl NullPointer | Some st \<Rightarrow> Inr st)"

definition put_streamer :: "int \<Rightarrow> Streamer \<Rightarrow> Camera \<Rightarrow> Camera" where
  "put_streamer i st c = c\<lparr>m_streamers := (m_streamers c)[nat i := Some st]\<rparr>"

definition Camera_Initialize :: "CmdLineParser \<Rightarrow> Camera \<Rightarrow> (int \<times> Camera) cpp" where
  "Camera_Initialize cmd c =
     cbind (ReadCmdLineValue_int CMD_KEY_CAMERA_ID (m_camera_id c) cmd) (\<lambda>(b, i).
       let (b', guid) = ReadCmdLineValue_string CMD_KEY_CAMERA_GUID (m_camera_guid c) cmd in
       Inr (0, c\<lparr>m_camera_id := i, m_camera_guid := guid,
                 m_streamers := m_streamers c @ map (\<lambda>ii. Some (Streamer_new ii)) [0, 1, 2]\<rparr>))"

primrec finalize_streamers :: "Streamer option list \<Rightarrow> unit cpp" where
  "finalize_streamers [] = Inr ()"
| "finalize_streamers (x # xs) = (case x of None \<Rightarrow> Inl NullPointer
     | Some st \<Rightarrow> cbind (Streamer_Finalize st) (\<lambda>r. finalize_streamers xs))"

definition Camera_Finalize :: "Camera \<Rightarrow> (int \<times> Camera) cpp" where
  "Camera_Finalize c = cbind (finalize_streamers (m_streamers c)) (\<lambda>u. Inr (0, c\<lparr>m_streamers := []\<rparr>))"

definition camera_queue_name :: "string \<Rightarrow> string" where
  "camera_queue_name guid = ''CAMERA_QUEUE_'' @ guid"

text \<open>A receive worker that could not be activated is only logged.\<close>

definition Camera_Activate :: "map_env \<Rightarrow> create_os \<Rightarrow> reset_os \<Rightarrow> Camera \<Rightarrow> cam_sys \<Rightarrow> (int \<times> Camera \<times> cam_sys) cpp" where
  "Camera_Activate env os ros c sys =
     cbind (RecvWorker_Activate env os ros (camera_queue_name (m_camera_guid c)) 3 False True (m_recv_worker c) (cs_shm sys))
       (\<lambda>(ret, r, m, cs).
          cbind (RW_Activate (m_repeqt_worker c)) (\<lambda>(ret', w).
            Inr (0, c\<lparr>m_recv_worker := r, m_repeqt_worker := w\<rparr>, sys\<lparr>cs_shm := m\<rparr>)))"

fun deactivate_streamers :: "(nat \<Rightarrow> join_env) \<Rightarrow> nat \<Rightarrow> Streamer option list \<Rightarrow> Streamer option list option cpp" where
  "deactivate_streamers je i [] = Inr (Some [])"
| "deactivate_streamers je i (x # xs) = (case x of None \<Rightarrow> Inl NullPointer
     | Some st \<Rightarrow> jbind (Streamer_Deactivate (je i) st) (\<lambda>(r, st').
         jbind (deactivate_streamers je (i + 1) xs) (\<lambda>xs'. Inr (Some (Some st' # xs')))))"

text \<open>\<open>n\<close> is the number of turns of the repeating thread during its join.\<close>

definition Camera_Deactivate :: "(nat \<Rightarrow> join_env) \<Rightarrow> nat \<Rightarrow> Camera \<Rightarrow> cam_sys \<Rightarrow> (int \<times> Camera \<times> cam_sys) option cpp" where
  "Camera_Deactivate je n c sys =
     (let (r, items) = SendManager_Deactivate (m_send_manager c); te = cs_timers sys in
      jbind (RW_Deactivate (te_inst te) n (m_repeqt_worker c) (te_mgr te) (te_table te)) (\<lambda>(r, w, mgr, ts, cs).
        let (r', rw, cs') = RecvWorker_Deactivate (m_recv_worker c) in
        jbind (deactivate_streamers je 0 (m_streamers c)) (\<lambda>sts.
          Inr (Some (0, c\<lparr>m_streamers := sts, m_repeqt_worker := w, m_recv_worker := rw, m_send_manager := items\<rparr>,
                     unlocked (UnlockSendWork (m_send_manager c)) (sys\<lparr>cs_timers := te\<lparr>te_mgr := mgr, te_table := ts\<rparr>\<rparr>))))))"

text \<open>What a request gets from outside: files, factories, clock, FFmpeg, and what becomes of its waits and joins.\<close>

record load_env =
  le_unicode :: "string \<Rightarrow> wstring"
  le_codec :: "PB_Camera pb_codec"
  le_opened :: bool
  le_files :: files
  le_sessions :: session_map
  le_decoders :: factory_map
  le_junk :: "nat \<Rightarrow> u8"
  le_av :: "nat \<Rightarrow> av_env"
  le_now :: "nat \<Rightarrow> int"
  le_join :: "nat \<Rightarrow> join_env"
  le_sync :: "nat \<Rightarrow> nat \<Rightarrow> sync_os"

definition InitializeStreamer :: "load_env \<Rightarrow> StreamerInfo \<Rightarrow> Camera \<Rightarrow> (int \<times> Camera) cpp" where
  "InitializeStreamer le stream_info c =
     cbind (get_streamer (sti_index stream_info) c) (\<lambda>st.
     cbind (Streamer_Initialize (le_sessions le) (le_decoders le) (le_junk le) stream_info st) (\<lambda>(ret, st').
       if ret \<noteq> 0 then Inr (ret, c\<lparr>m_streamers := (m_streamers c)[nat (sti_index stream_info) := None]\<rparr>)
       else Inr (0, put_streamer (sti_index stream_info) st' c)))"

definition streamer_init :: "nat \<Rightarrow> StreamInfo \<Rightarrow> StreamerInfo" where
  "streamer_init ii info =
     StreamerInfo_new\<lparr>sti_session_info := SessionInfo_new\<lparr>
         si_name := ''Rtsp  stream index['' @ to_string (int ii) @ ''] Url['' @ sf_url info @ '']'',
         auth_id := sf_user_id info, auth_pw := sf_user_pw info, si_type := SESSION_TYPE_RTSP, si_port := sf_port info,
         si_url := sf_url info, use_tcp := sf_tcp info\<rparr>,
       sti_decoder_info := DecoderInfo_new\<lparr>di_fps := sf_fps info\<rparr>, sti_index := int ii, sti_used := sf_stream_used info,
       sti_callback := True\<rparr>"

definition SendStatus :: "int \<Rightarrow> STATUS \<Rightarrow> (nat \<Rightarrow> sync_os) \<Rightarrow> Camera \<Rightarrow> cam_sys \<Rightarrow> (Camera \<times> cam_sys) cpp" where
  "SendStatus i status os c sys =
     cbind (SendStreamStatus i (STATUS_code status) os (m_send_manager c) (cs_shm sys)) (\<lambda>(rets, items, m).
       Inr (c\<lparr>m_send_manager := items\<rparr>, sys\<lparr>cs_shm := m\<rparr>))"

definition AddCheck :: "int \<Rightarrow> Camera \<Rightarrow> cam_sys \<Rightarrow> (Camera \<times> cam_sys) cpp" where
  "AddCheck i c sys =
     (let te = cs_timers sys in
      cbind (AddWork (te_inst te) (te_timer te) (0 + i) (1000 * 10) (Some i) (m_repeqt_worker c) (te_mgr te) (te_table te))
        (\<lambda>(r, w, mgr, ts, cs). Inr (c\<lparr>m_repeqt_worker := w\<rparr>, sys\<lparr>cs_timers := te\<lparr>te_mgr := mgr, te_table := ts\<rparr>\<rparr>)))"

text \<open>The body of the loop for a stream that is used; what the streamer's operations return is not looked at.\<close>

definition RestartStreamer :: "load_env \<Rightarrow> nat \<Rightarrow> StreamInfo \<Rightarrow> Streamer \<Rightarrow> Streamer option cpp" where
  "RestartStreamer le ii info st =
     jbind (Streamer_Deactivate (le_join le ii) st) (\<lambda>(r, st1).
     returns (cbind (Streamer_Finalize st1) (\<lambda>(r, st2).
       cbind (Streamer_Initialize (le_sessions le) (le_decoders le) (le_junk le) (streamer_init ii info) st2) (\<lambda>(r, st3).
       cbind (Streamer_Activate (le_av le ii) (le_now le ii) st3) (\<lambda>(r, st4). Inr st4)))))"

definition LoadStream :: "load_env \<Rightarrow> nat \<Rightarrow> StreamInfo \<Rightarrow> Camera \<Rightarrow> cam_sys \<Rightarrow> (Camera \<times> cam_sys) option cpp" where
  "LoadStream le ii info c sys =
     jbind (returns (arr_get (m_streamers c) (int ii))) (\<lambda>x.
       if sf_stream_used info then
         (case x of None \<Rightarrow> Inl NullPointer
          | Some st \<Rightarrow> jbind (RestartStreamer le ii info st) (\<lambda>st'.
              returns (cbind (SendStatus (int ii) READY (le_sync le ii) (put_streamer (int ii) st' c)
                  (unlocked (UnlockSendWork_stream (int ii) (m_send_manager c)) sys)) (\<lambda>(c', sys').
                AddCheck (int ii) c' sys'))))
       else Inr (Some (c, sys)))"

primrec LoadStreams :: "load_env \<Rightarrow> nat list \<Rightarrow> CameraInfo \<Rightarrow> Camera \<Rightarrow> cam_sys \<Rightarrow> (Camera \<times> cam_sys) option cpp" where
  "LoadStreams le [] info c sys = Inr (Some (c, sys))"
| "LoadStreams le (ii # ks) info c sys =
     jbind (LoadStream le ii (ci_stream_info info ! ii) c sys) (\<lambda>(c', sys'). LoadStreams le ks info c' sys')"

definition LoadCamerasPbFile :: "load_env \<Rightarrow> string \<Rightarrow> Camera \<Rightarrow> cam_sys \<Rightarrow> (int \<times> Camera \<times> cam_sys) option cpp" where
  "LoadCamerasPbFile le file c sys =
     jbind (returns (LoadCameraInfoPB (le_unicode le) (le_codec le) (le_opened le) (le_files le) file
         (CameraInfo_new\<lparr>ci_camera_file := file\<rparr>))) (\<lambda>(r, info).
       if r \<noteq> 0 then Inr (Some (1, c, sys))
       else jbind (LoadStreams le [0..<3] info c sys) (\<lambda>(c', sys'). Inr (Some (0, c', sys'))))"

definition Camera_OnVideoDecompress :: "(nat \<Rightarrow> sync_os) \<Rightarrow> int \<Rightarrow> DecoderVideoDest \<Rightarrow> Camera \<Rightarrow> cam_sys \<Rightarrow> (int \<times> Camera \<times> cam_sys) cpp" where
  "Camera_OnVideoDecompress os i data c sys =
     cbind (SendFrame (m_camera_guid c) i data os (m_send_manager c) (cs_shm sys)) (\<lambda>(rets, items, m).
       Inr (0, c\<lparr>m_send_manager := items\<rparr>, sys\<lparr>cs_shm := m\<rparr>))"

record recv_env =
  rv_map :: map_env
  rv_create :: create_os
  rv_junk :: nat
  rv_cmd :: CmdLineParser
  rv_pid :: int
  rv_sync :: sync_os
  rv_load :: load_env

definition OnRecvProcessInfoReq :: "recv_env \<Rightarrow> PacketStruct \<Rightarrow> Camera \<Rightarrow> cam_sys \<Rightarrow> (Camera \<times> cam_sys) cpp" where
  "OnRecvProcessInfoReq rv packet c sys = (case Packet_ProcessInfoReq_Casting (Some packet) of None \<Rightarrow> Inl NullPointer
     | Some p \<Rightarrow>
         cbind (InsertSendWork (rv_map rv) (rv_create rv) (rv_junk rv) (ir_queue_name p) (sync_count p) (m_send_manager c) (cs_shm sys))
           (\<lambda>(ret, items, m).
         cbind (SendProcessInfo (rv_cmd rv) (rv_pid rv) (ir_queue_name p) (rv_sync rv) items m) (\<lambda>(sent, items', m').
           Inr (c\<lparr>m_send_manager := items'\<rparr>, sys\<lparr>cs_shm := m'\<rparr>))))"

definition OnRecvStreamInfo :: "load_env \<Rightarrow> PacketStruct \<Rightarrow> Camera \<Rightarrow> cam_sys \<Rightarrow> (Camera \<times> cam_sys) option cpp" where
  "OnRecvStreamInfo le packet c sys = (case Packet_StreamInfo_Casting (Some packet) of None \<Rightarrow> Inl NullPointer
     | Some p \<Rightarrow> jbind (LoadCamerasPbFile le (setup_file p) c sys) (\<lambda>(r, c', sys'). Inr (Some (c', sys'))))"

definition OnRecvStreamRequest :: "PacketStruct \<Rightarrow> Camera \<Rightarrow> cam_sys \<Rightarrow> (Camera \<times> cam_sys) cpp" where
  "OnRecvStreamRequest packet c sys = (case Packet_StreamRequest_Casting (Some packet) of None \<Rightarrow> Inl NullPointer
     | Some p \<Rightarrow>
         cbind (get_streamer (rq_stream_index p) c) (\<lambda>st.
         cbind (if IsActivate st
                then cbind (SetDecodeFrameInfo (rq_frame_type p)
                       \<lparr>fi_pixel_format = pixel_format p, fi_width = rq_width p, fi_height = rq_height p, fi_decode = video_streaming p\<rparr> st)
                     (\<lambda>st'. Inr (put_streamer (rq_stream_index p) st' c))
                else Inr c) (\<lambda>c1.
           let (r, items) = SetFrameInfo (rq_queue_name p) (rq_frame_type p) (rq_stream_index p) (video_streaming p) (m_send_manager c1) in
           Inr (c1\<lparr>m_send_manager := items\<rparr>, unlocked (UnlockSendWork_stream (rq_stream_index p) items) sys))))"

text \<open>The callback of the receive worker; an unknown name gives no packet.\<close>

definition OnRecvWorker :: "recv_env \<Rightarrow> delivery \<Rightarrow> Camera \<Rightarrow> cam_sys \<Rightarrow> (Camera \<times> cam_sys) option cpp" where
  "OnRecvWorker rv = (\<lambda>(packet_name, reader, buf) c sys. case CreateFactory packet_name of None \<Rightarrow> Inl NullPointer
     | Some packet0 \<Rightarrow>
         jbind (returns (Reader buf reader packet0)) (\<lambda>packet.
           case PacketType packet of
             PACKEK_TYPE_PROCESS_INFO_REQ \<Rightarrow> returns (OnRecvProcessInfoReq rv packet c sys)
           | PACKEK_TYPE_STREAM_INFO \<Rightarrow> OnRecvStreamInfo (rv_load rv) packet c sys
           | PACKEK_TYPE_STREAM_REQUEST \<Rightarrow> returns (OnRecvStreamRequest packet c sys)
           | _ \<Rightarrow> Inr (Some (c, sys))))"

record check_env =
  ck_fp :: fp
  ck_now :: int
  ck_join :: join_env
  ck_av :: av_env
  ck_activate_time :: int
  ck_sync :: "nat \<Rightarrow> sync_os"
  ck_sync2 :: "nat \<Rightarrow> sync_os"

definition OnTimerCheckStream :: "check_env \<Rightarrow> int \<Rightarrow> Camera \<Rightarrow> cam_sys \<Rightarrow> (Camera \<times> cam_sys) option cpp" where
  "OnTimerCheckStream ck i c sys =
     jbind (returns (get_streamer i c)) (\<lambda>st.
       if False = IsActivate st then Inr (Some (c, sys))
       else if GetIntervalPushFrameTime (ck_fp ck) (ck_now ck) st < 3000 then Inr (Some (c, sys))
       else jbind (Streamer_Deactivate (ck_join ck) st) (\<lambda>(r, st1).
         returns (cbind (Streamer_Activate (ck_av ck) (ck_activate_time ck) st1) (\<lambda>(r, st2).
           cbind (SendStatus i NO_SIGNAL (ck_sync ck) (put_streamer i st2 c) sys) (\<lambda>(c1, sys1).
           cbind (SendStatus i RECONNECT (ck_sync2 ck) c1 sys1) (\<lambda>(c2, sys2).
           cbind (Streamer_GetSessionInfo st2) (\<lambda>info. Inr (c2, sys2))))))))"

text \<open>A turn of the repeating thread with the checks it makes, the \<open>k\<close>-th in \<open>cks k\<close>.\<close>

primrec run_checks :: "(nat \<Rightarrow> check_env) \<Rightarrow> nat \<Rightarrow> int list \<Rightarrow> Camera \<Rightarrow> cam_sys \<Rightarrow> (Camera \<times> cam_sys) option cpp" where
  "run_checks cks k [] = (\<lambda>c sys. Inr (Some (c, sys)))"
| "run_checks cks k (i # works) = (\<lambda>c sys. jbind (OnTimerCheckStream (cks k) i c sys) (\<lambda>(c', sys'). run_checks cks (k + 1) works c' sys'))"

definition repeat_turn :: "(nat \<Rightarrow> check_env) \<Rightarrow> Camera \<Rightarrow> cam_sys \<Rightarrow> (Camera \<times> cam_sys) option cpp" where
  "repeat_turn cks c sys = (let (works, w) = RW_turn (m_repeqt_worker c) in run_checks cks 0 works (c\<lparr>m_repeqt_worker := w\<rparr>) sys)"

end
