(* ===== verification/Streamer_Inv.thy ===== *)
theory Streamer_Inv
  imports Streamer
begin

text \<open>
  The invariant of a streamer: which of its objects exist, and that a thread is joinable exactly when it was started.
  The operations keep it, in the order in which the camera calls them; a thread's own steps keep it too.
\<close>

section \<open>Sessions\<close>

definition session_inv :: "Session_RTSP \<Rightarrow> bool" where
  "session_inv s \<longleftrightarrow> (joinable (rs_thread s) \<longleftrightarrow> rs_pc s \<noteq> NotStarted) \<and> (rs_pc s = NotStarted \<or> rs_pc s = Ended \<longrightarrow> \<not> rs_running s)"

lemma RTSP_turn_inv: "RTSP_turn e s = Inr (s', cs) \<Longrightarrow> session_inv s \<Longrightarrow> session_inv s' \<and> (rs_pc s' = NotStarted \<longleftrightarrow> rs_pc s = NotStarted)"
  by (auto simp: RTSP_turn_def session_inv_def openURL_def end_pass_def Reconnect_def WaitProc_def cbind_Inr_iff Let_def
      split: thread_pc.splits rtsp_at.splits option.splits if_splits)

lemma RTSP_turns_inv: "RTSP_turns es s = Inr (s', cs) \<Longrightarrow> session_inv s \<Longrightarrow> session_inv s'"
proof (induction es arbitrary: s cs)
  case Nil
  then show ?case by simp
next
  case (Cons e es)
  then obtain s1 cs1 cs2 where t: "RTSP_turn e s = Inr (s1, cs1)" "RTSP_turns es s1 = Inr (s', cs2)"
    by (auto simp: cbind_Inr_iff)
  show ?case using Cons.IH [OF t(2)] RTSP_turn_inv [OF t(1) Cons.prems(2)] by blast
qed

lemma RTSP_stop_inv: "session_inv s \<Longrightarrow> session_inv (RTSP_stop s)"
  by (simp add: session_inv_def RTSP_stop_def)

lemma RTSP_Deactivate_inv:
  assumes "RTSP_Deactivate es s = Inr (Some (r, s'))" "session_inv s"
  shows "session_inv s' \<and> rs_pc s' = NotStarted"
proof -
  have i: "session_inv (RTSP_stop s)" using assms(2) by (rule RTSP_stop_inv)
  show ?thesis
  proof (cases "joinable (rs_thread (RTSP_stop s))")
    case True
    then obtain s2 cs where t: "RTSP_turns es (RTSP_stop s) = Inr (s2, cs)" "rs_pc s2 = Ended" "s' = snd (RTSP_joined s2)"
      using assms(1) by (auto simp: RTSP_Deactivate_def cbind_Inr_iff Let_def split: if_splits)
    then show ?thesis using RTSP_turns_inv [OF t(1) i] by (auto simp: session_inv_def RTSP_joined_def JoinThread_def)
  next
    case False
    then have "s' = snd (RTSP_joined (RTSP_stop s))" using assms(1) by (auto simp: RTSP_Deactivate_def Let_def)
    then show ?thesis using False i by (auto simp: session_inv_def RTSP_joined_def JoinThread_def)
  qed
qed

lemma RTSP_Activate_ok:
  assumes "session_inv s" "rs_pc s = NotStarted"
  shows "\<exists>s'. RTSP_Activate s = Inr (0, s') \<and> session_inv s' \<and> rs_pc s' = Started"
  using assms by (auto simp: session_inv_def RTSP_Activate_def StartThread_def SaveThreadName_def)

section \<open>Decoders\<close>

definition has_infos :: "Decoder \<Rightarrow> bool" where
  "has_infos d \<longleftrightarrow> (\<exists>impl. m_impl d = Some impl \<and> length (di_frame_info (m_info impl)) = FT_NUM)"

definition decoder_inv :: "decode_thread \<Rightarrow> bool" where
  "decoder_inv t \<longleftrightarrow> (joinable (dec_thread (dt_decoder t)) \<longleftrightarrow> dt_pc t \<noteq> NotStarted)
     \<and> m_queue_stream (dt_decoder t) \<noteq> None \<and> has_infos (dt_decoder t)"

lemma TakeSource_keeps:
  assumes "TakeSource fp now d l = Inr (v, d', l')" "queues_inv d" "m_impl d = Some impl"
  shows "queues_inv d' \<and> m_impl d' = m_impl d \<and> dec_thread d' = dec_thread d"
proof -
  have "v = None \<longrightarrow> d' = d" using assms(1) by (auto simp: TakeSource_def cbind_Inr_iff Let_def split: list.splits if_splits option.splits)
  moreover have "queues_inv d' \<and> m_impl d' = m_impl d" if v: "v \<noteq> None"
  proof -
    obtain x rest where x: "m_queue_src d = x # rest"
      "\<not> elapsed_ms fp (qv_time x) now < of_int (queue_accumulate_time (GetInfo impl))"
      using assms(1,3) v by (auto simp: TakeSource_def GetDecoderInfo_def split: list.splits if_splits)
    from TakeSource_ok [OF assms(2,3) this, of l] show ?thesis using assms(1) by auto
  qed
  moreover have "dec_thread d' = dec_thread d"
    using assms(1) by (auto simp: TakeSource_def cbind_Inr_iff Let_def split: list.splits if_splits option.splits)
  ultimately show ?thesis using assms(2) by (cases v) auto
qed

lemma queues_inv_impl [simp]: "queues_inv (d\<lparr>m_impl := x\<rparr>) = queues_inv d"
  by (simp add: queues_inv_def stream_bytes_def)

lemma Impl_Decode_length:
  assumes "Impl_Decode av junk src dst impl = Inr (ret, dst', impl')"
  shows "length (di_frame_info (m_info impl')) = length (di_frame_info (m_info impl))"
  using assms by (auto simp: Impl_Decode_def cbind_Inr_iff put_FrameInfo_def arr_set_def split: if_splits)

lemma Decode_keeps:
  assumes "Decode av junk src dst d = Inr (ret, dst', d')" "has_infos d"
  shows "has_infos d' \<and> (queues_inv d' \<longleftrightarrow> queues_inv d) \<and> dec_thread d' = dec_thread d"
  using assms by (auto simp: Decode_def has_infos_def cbind_Inr_iff Impl_Decode_length split: option.splits)

lemma DecodePass_keeps:
  assumes "DecodePass pe d l te = Inr (dsts, d', l', te')" "queues_inv d" "has_infos d"
  shows "queues_inv d' \<and> has_infos d' \<and> dec_thread d' = dec_thread d"
proof -
  obtain v d1 l1 where t: "TakeSource (pe_fp pe) (pe_now pe) d l = Inr (v, d1, l1)"
    using assms(1) by (auto simp: DecodePass_def cbind_Inr_iff)
  obtain impl where impl: "m_impl d = Some impl" using assms(3) by (auto simp: has_infos_def)
  have 1: "queues_inv d1" "has_infos d1" "dec_thread d1 = dec_thread d"
    using TakeSource_keeps [OF t assms(2) impl] assms(3) by (simp_all add: has_infos_def)
  have "d' = d1 \<or> (\<exists>src dst dst' ret. Decode (pe_av pe) (pe_junk pe) src dst d1 = Inr (ret, dst', d'))"
    using assms(1) t by (auto simp: DecodePass_def cbind_Inr_iff Let_def split: option.splits if_splits)
  then show ?thesis using 1 Decode_keeps by metis
qed

lemma queues_inv_stream: "queues_inv d \<Longrightarrow> m_queue_stream d \<noteq> None"
  by (auto simp: queues_inv_def)

lemma Decode_turn_inv:
  assumes "Decode_turn e t = Inr t'" "decoder_inv t" "queues_inv (dt_decoder t)"
  shows "decoder_inv t' \<and> queues_inv (dt_decoder t') \<and> (dt_pc t' = NotStarted \<longleftrightarrow> dt_pc t = NotStarted)"
proof -
  obtain pe w te where e: "e = (pe, w, te)" by (cases e)
  have i: "has_infos (dt_decoder t)" using assms(2) by (simp add: decoder_inv_def)
  consider (starting) "dt_pc t = Started" | (pass) "dt_pc t = Looping" "\<not> dt_waiting t" "dec_running (dt_decoder t)"
    | (other) "dt_pc t \<noteq> Started" "\<not> (dt_pc t = Looping \<and> \<not> dt_waiting t \<and> dec_running (dt_decoder t))" by blast
  then show ?thesis
  proof cases
    case starting
    then show ?thesis
      using assms e by (auto simp: Decode_turn_def DecodeBegin_def decoder_inv_def has_infos_def queues_inv_def stream_bytes_def
          cbind_Inr_iff Let_def split: if_splits)
  next
    case pass
    then obtain dsts d l te' where p: "DecodePass pe (dt_decoder t) (dt_locals t) te = Inr (dsts, d, l, te')"
      "t' = t\<lparr>dt_decoder := d, dt_locals := l, dt_waiting := True\<rparr>"
      using assms(1) e by (auto simp: Decode_turn_def cbind_Inr_iff)
    then show ?thesis
      using DecodePass_keeps [OF p(1) assms(3) i] pass(1) assms(2) queues_inv_stream by (simp add: decoder_inv_def)
  next
    case other
    then show ?thesis
      using assms e by (auto simp: Decode_turn_def decoder_inv_def cbind_Inr_iff split: thread_pc.splits if_splits)
  qed
qed

lemma Decode_turns_inv:
  "Decode_turns es t = Inr t' \<Longrightarrow> decoder_inv t \<Longrightarrow> queues_inv (dt_decoder t) \<Longrightarrow> decoder_inv t' \<and> queues_inv (dt_decoder t')"
  by (induction es arbitrary: t) (auto simp: cbind_Inr_iff dest: Decode_turn_inv)

lemma dt_joined_inv:
  assumes "dt_joined t = Inr (r, t')" "decoder_inv t"
  shows "decoder_inv t' \<and> dt_pc t' = NotStarted \<and> (queues_inv (dt_decoder t') \<longleftrightarrow> queues_inv (dt_decoder t))"
proof -
  have *: "queues_inv (d\<lparr>dec_thread := x\<rparr>) = queues_inv d" for d x by (simp add: queues_inv_def stream_bytes_def)
  show ?thesis
    using assms by (auto simp: dt_joined_def Decoder_joined_def decoder_inv_def has_infos_def Impl_Deactivate_def JoinThread_def
        queues_inv_def stream_bytes_def cbind_Inr_iff Let_def split: option.splits)
qed

lemma Decoder_Deactivate_inv:
  assumes "Decoder_Deactivate es t = Inr (Some (r, t'))" "decoder_inv t" "queues_inv (dt_decoder t)"
  shows "decoder_inv t' \<and> dt_pc t' = NotStarted \<and> queues_inv (dt_decoder t')"
proof -
  let ?t1 = "t\<lparr>dt_decoder := Decoder_stop (dt_decoder t)\<rparr>"
  have i: "decoder_inv ?t1" "queues_inv (dt_decoder ?t1)"
    using assms(2,3) by (simp_all add: decoder_inv_def Decoder_stop_def has_infos_def queues_inv_def stream_bytes_def)
  show ?thesis
  proof (cases "joinable (dec_thread (dt_decoder ?t1))")
    case True
    then obtain t2 where t2: "Decode_turns es ?t1 = Inr t2" "dt_joined t2 = Inr (r, t')"
      using assms(1) by (auto simp: Decoder_Deactivate_def cbind_Inr_iff Let_def split: if_splits)
    show ?thesis using dt_joined_inv [OF t2(2)] Decode_turns_inv [OF t2(1) i] by blast
  next
    case False
    then have "dt_joined ?t1 = Inr (r, t')"
      using assms(1) by (auto simp: Decoder_Deactivate_def cbind_Inr_iff Let_def)
    then show ?thesis using dt_joined_inv i by blast
  qed
qed

lemma dt_Activate_ok:
  assumes "decoder_inv t" "dt_pc t = NotStarted"
  shows "\<exists>r t'. dt_Activate av t = Inr (r, t') \<and> decoder_inv t' \<and> (queues_inv (dt_decoder t') \<longleftrightarrow> queues_inv (dt_decoder t))
    \<and> (r = 0 \<longrightarrow> dt_pc t' = Started) \<and> (r = 0 \<or> r = 1)"
proof -
  obtain impl where impl: "m_impl (dt_decoder t) = Some impl" "length (di_frame_info (m_info impl)) = FT_NUM"
    using assms(1) by (auto simp: decoder_inv_def has_infos_def)
  obtain r impl' where a: "Impl_Activate av impl = (r, impl')" by fastforce
  then have l: "length (di_frame_info (m_info impl')) = FT_NUM"
    using impl(2) by (auto simp: Impl_Activate_def Let_def split: if_splits)
  show ?thesis
    using assms impl a l
    by (auto simp: dt_Activate_def Decoder_Activate_def StartThread_def decoder_inv_def has_infos_def queues_inv_def stream_bytes_def Let_def)
qed

section \<open>Streamers\<close>

text \<open>An initialized streamer has both objects; a streamer that is not has no thread left.\<close>

definition streamer_inv :: "Streamer \<Rightarrow> bool" where
  "streamer_inv st \<longleftrightarrow> (m_activate st \<longrightarrow> m_initialize st)
     \<and> (m_initialize st \<longrightarrow> m_session st \<noteq> None \<and> (\<exists>t. m_decoder st = Some t \<and> queues_inv (dt_decoder t)))
     \<and> (\<forall>s. m_session st = Some s \<longrightarrow> session_inv s) \<and> (\<forall>t. m_decoder st = Some t \<longrightarrow> decoder_inv t)
     \<and> (\<not> m_initialize st \<longrightarrow> (\<forall>s. m_session st = Some s \<longrightarrow> rs_pc s = NotStarted) \<and> (\<forall>t. m_decoder st = Some t \<longrightarrow> dt_pc t = NotStarted))"

text \<open>No thread runs.\<close>

definition stopped :: "Streamer \<Rightarrow> bool" where
  "stopped st \<longleftrightarrow> \<not> m_activate st \<and> (\<forall>s. m_session st = Some s \<longrightarrow> rs_pc s = NotStarted) \<and> (\<forall>t. m_decoder st = Some t \<longrightarrow> dt_pc t = NotStarted)"

lemma Streamer_new_inv: "streamer_inv (Streamer_new i)" "stopped (Streamer_new i)"
  by (simp_all add: streamer_inv_def stopped_def Streamer_new_def)

lemma Streamer_Deactivate_inv:
  assumes "Streamer_Deactivate je st = Inr (Some (r, st'))" "streamer_inv st"
  shows "streamer_inv st' \<and> stopped st' \<and> m_initialize st' = m_initialize st"
proof (cases "m_initialize st")
  case False
  then show ?thesis using assms by (auto simp: Streamer_Deactivate_def streamer_inv_def stopped_def)
next
  case True
  then obtain s t where st: "m_session st = Some s" "m_decoder st = Some t" "session_inv s" "decoder_inv t" "queues_inv (dt_decoder t)"
    using assms(2) by (auto simp: streamer_inv_def)
  obtain r1 s' r2 t' where d: "RTSP_Deactivate (je_session je) s = Inr (Some (r1, s'))"
    "Decoder_Deactivate (je_decoder je) t = Inr (Some (r2, t'))"
    "st' = st\<lparr>m_session := Some s', m_decoder := Some t', m_print_log_fps := 0, m_activate := False\<rparr>"
    using assms(1) True st(1,2) by (auto simp: Streamer_Deactivate_def jbind_Some_iff)
  show ?thesis
    using d(3) True RTSP_Deactivate_inv [OF d(1) st(3)] Decoder_Deactivate_inv [OF d(2) st(4,5)]
    by (simp add: streamer_inv_def stopped_def)
qed

lemma Streamer_Finalize_ok:
  assumes "streamer_inv st" "stopped st"
  shows "\<exists>st'. Streamer_Finalize st = Inr (0, st') \<and> streamer_inv st' \<and> stopped st' \<and> \<not> m_initialize st'"
proof -
  have f: "\<exists>d'. Decoder_Finalize (dt_decoder t) = Inr (0, d') \<and> decoder_inv (t\<lparr>dt_decoder := d'\<rparr>)" if "decoder_inv t" for t
    using that by (auto simp: Decoder_Finalize_def decoder_inv_def has_infos_def)
  show ?thesis
  proof (cases "m_decoder st")
    case None
    then show ?thesis using assms by (auto simp: Streamer_Finalize_def streamer_inv_def stopped_def RTSP_Finalize_def Let_def)
  next
    case (Some t)
    then have "decoder_inv t" using assms(1) by (simp add: streamer_inv_def)
    from f [OF this] obtain d' where d: "Decoder_Finalize (dt_decoder t) = Inr (0, d')" "decoder_inv (t\<lparr>dt_decoder := d'\<rparr>)"
      by blast
    then show ?thesis
      using assms Some by (auto simp: Streamer_Finalize_def streamer_inv_def stopped_def RTSP_Finalize_def Let_def)
  qed
qed

lemma Session_factory_rtsp: "Session_CreateFactory SESSION_TYPE_RTSP (SessionFactory_Initialize m) = Some Session_RTSP_new"
  by (simp add: Session_CreateFactory_def SessionFactory_Initialize_def Session_Register_def)

lemma Decoder_factory_ffmpeg: "Decoder_CreateFactory DECODER_LIB_TYPE_FFMPEG (Factory_Initialize m) = Some DecoderImpl_FFmpeg_new"
  by (simp add: Decoder_CreateFactory_def Factory_Initialize_def Factory_Register_def)

lemma destroy_ok:
  "decoder_inv t \<Longrightarrow> dt_pc t = NotStarted \<Longrightarrow> destroy_decoder (Some t) = Inr ()"
  "session_inv s \<Longrightarrow> rs_pc s = NotStarted \<Longrightarrow> destroy_session (Some s) = Inr ()"
  by (auto simp: destroy_decoder_def destroy_session_def Decoder_Finalize_def decoder_inv_def session_inv_def)

lemma Streamer_Initialize_ok:
  assumes "streamer_inv st" "\<not> m_initialize st" "si_type (sti_session_info param) = SESSION_TYPE_RTSP"
    and "di_type (sti_decoder_info param) = DECODER_LIB_TYPE_FFMPEG" "length (di_frame_info (sti_decoder_info param)) = FT_NUM"
  shows "\<exists>st'. Streamer_Initialize sessions decoders junk param st = Inr (0, st') \<and> streamer_inv st' \<and> stopped st' \<and> m_initialize st'"
proof -
  have na: "\<not> m_activate st" using assms(1,2) by (auto simp: streamer_inv_def)
  have dd: "destroy_decoder (m_decoder st) = Inr ()"
    using assms(1,2) destroy_ok(1) by (cases "m_decoder st") (auto simp: streamer_inv_def destroy_decoder_def)
  have ds: "destroy_session (m_session st) = Inr ()"
    using assms(1,2) destroy_ok(2) by (cases "m_session st") (auto simp: streamer_inv_def destroy_session_def)
  have "m_queue_src Decoder_new = []" by (simp add: Decoder_new_def)
  then obtain d where d: "Decoder_Initialize (Factory_Initialize decoders) junk (sti_decoder_info param) True Decoder_new = Inr (0, d)"
    "queues_inv d" "m_impl d = Some (SetInfo (sti_decoder_info param) DecoderImpl_FFmpeg_new)" "dec_thread d = dec_thread Decoder_new"
    using Decoder_Initialize_ok [of "sti_decoder_info param" "Factory_Initialize decoders" DecoderImpl_FFmpeg_new] Decoder_factory_ffmpeg assms(4)
    by metis
  have di: "decoder_inv (decode_thread_new d)" "dt_pc (decode_thread_new d) = NotStarted" "dt_decoder (decode_thread_new d) = d"
    using d assms(5) queues_inv_stream [OF d(2)]
    by (simp_all add: decoder_inv_def has_infos_def decode_thread_new_def Decoder_new_def SaveThreadName_def InnerThread_new_def SetInfo_def)
  show ?thesis
    using assms(2,3) na dd ds d(1,2) di Session_factory_rtsp [of sessions]
    by (auto simp: Streamer_Initialize_def SetSessionInfo_def SetSessionCallback_def SetStreamCallback_def RTSP_Initialize_def
        streamer_inv_def stopped_def session_inv_def Session_RTSP_new_def InnerThread_new_def Let_def)
qed

text \<open>Activation of a stopped streamer: with a result other than 0 it is not active, though its session may run.\<close>

lemma Streamer_Activate_ok:
  assumes "streamer_inv st" "stopped st"
  shows "\<exists>r st'. Streamer_Activate av now st = Inr (r, st') \<and> streamer_inv st' \<and> (m_activate st' \<longleftrightarrow> r = 0) \<and> m_initialize st' = m_initialize st
    \<and> (r = 0 \<longrightarrow> m_initialize st \<and> m_push_frame_time st' = now)"
proof (cases "m_initialize st")
  case False
  then show ?thesis using assms by (auto simp: Streamer_Activate_def stopped_def)
next
  case True
  then obtain s t where st: "m_session st = Some s" "m_decoder st = Some t" "session_inv s" "decoder_inv t" "queues_inv (dt_decoder t)"
    "rs_pc s = NotStarted" "dt_pc t = NotStarted"
    using assms by (auto simp: streamer_inv_def stopped_def)
  obtain s' where s': "RTSP_Activate s = Inr (0, s')" "session_inv s'" using RTSP_Activate_ok [OF st(3,6)] by blast
  obtain r t' where t': "dt_Activate av t = Inr (r, t')" "decoder_inv t'" "queues_inv (dt_decoder t')"
    using dt_Activate_ok [OF st(4,7), of av] st(5) by blast
  then show ?thesis
    using True assms(2) st(1,2) s' by (simp add: Streamer_Activate_def streamer_inv_def stopped_def Let_def)
qed

lemma SetDecodeFrameInfo_cases:
  assumes "streamer_inv st" "m_initialize st"
  shows "if 0 \<le> type \<and> type < int FT_NUM
    then \<exists>st'. SetDecodeFrameInfo type info st = Inr st' \<and> streamer_inv st'
      \<and> m_initialize st' = m_initialize st \<and> m_activate st' = m_activate st
    else SetDecodeFrameInfo type info st = Inl OutOfBounds"
proof -
  obtain t0 where t0: "m_decoder st = Some t0" "queues_inv (dt_decoder t0)" "decoder_inv t0"
    using assms by (auto simp: streamer_inv_def)
  then obtain t impl where t: "m_decoder st = Some t" "queues_inv (dt_decoder t)" "decoder_inv t"
    "m_impl (dt_decoder t) = Some impl" "length (di_frame_info (m_info impl)) = FT_NUM"
    unfolding decoder_inv_def has_infos_def by blast
  have i: "streamer_inv (st\<lparr>m_decoder := Some (t\<lparr>dt_decoder := (dt_decoder t)\<lparr>m_impl := Some impl'\<rparr>\<rparr>)\<rparr>)"
    if "length (di_frame_info (m_info impl')) = FT_NUM" for impl'
    using assms t that by (auto simp: streamer_inv_def decoder_inv_def has_infos_def)
  show ?thesis
    using t i by (auto simp: SetDecodeFrameInfo_def Decoder_SetFrameInfo_def Impl_GetFrameInfo_def put_FrameInfo_def arr_get_def arr_set_def
        FT_ORIGINAL_def FT_NUM_def)
qed

lemma QueuePush_thread: "QueuePush fp t t1 t2 src d = Inr (r, d') \<Longrightarrow> dec_thread d' = dec_thread d"
  by (auto simp: QueuePush_def cbind_Inr_iff Let_def split: if_splits option.splits prod.splits)

lemma OnVideoFrameReceived_ok:
  assumes "streamer_inv st" "m_initialize st"
    and "vf_buf_size data \<le> 0 \<or> int32_range (vf_buf_size data) \<and> vf_buf_size data \<le> int (length (vf_buffer data))"
  shows "\<exists>st'. OnVideoFrameReceived fp t t1 t2 now data st = Inr (0, st') \<and> streamer_inv st' \<and> m_push_frame_time st' = now"
proof -
  obtain x where x: "m_decoder st = Some x" "queues_inv (dt_decoder x)" "decoder_inv x"
    using assms by (auto simp: streamer_inv_def)
  let ?src = "\<lparr>vs_frame = \<lparr>fb_data = Some (vf_buffer data, 0), fb_data_size = vf_buf_size data\<rparr>,
                 vs_key_frame = vf_key_frame data, vs_timestamp = vf_timestamp data\<rparr>"
  have "\<exists>r d. QueuePush fp t t1 t2 ?src (dt_decoder x) = Inr (r, d) \<and> queues_inv d \<and> has_infos d \<and> dec_thread d = dec_thread (dt_decoder x)"
  proof (cases "vf_buf_size data \<le> 0")
    case True
    then show ?thesis using x by (auto simp: QueuePush_def decoder_inv_def)
  next
    case False
    then have so: "source_ok ?src" using assms(3) by (simp add: source_ok_def ptr_mem_def nat_le_iff)
    show ?thesis
    proof (cases "length (stream_bytes (dt_decoder x)) + length (frame_bytes ?src) \<le> stream_capacity")
      case True
      have "m_impl (dt_decoder x) \<noteq> None" using x(3) by (auto simp: decoder_inv_def has_infos_def)
      from QueuePush_ok [OF x(2) this so True] show ?thesis
        using x(3) QueuePush_thread by (fastforce simp: decoder_inv_def has_infos_def)
    next
      case False
      then show ?thesis using QueuePush_refused [OF x(2) so] x by (auto simp: decoder_inv_def)
    qed
  qed
  then obtain r d where d: "QueuePush fp t t1 t2 ?src (dt_decoder x) = Inr (r, d)" "queues_inv d" "has_infos d"
    "dec_thread d = dec_thread (dt_decoder x)" by blast
  then show ?thesis
    using assms(1,2) x queues_inv_stream [OF d(2)]
    by (auto simp: OnVideoFrameReceived_def streamer_inv_def decoder_inv_def)
qed

end
