(* ===== verification/Camera_Inv.thy ===== *)
theory Camera_Inv
  imports Camera Streamer_Inv
begin

text \<open>
  The invariant of the camera: its three streamers exist and keep theirs, and its senders have different queues. Every
  operation that returns keeps it, whatever the clients send and however the threads are interleaved. The last
  section is about what goes wrong between the components.
\<close>

section \<open>Invariant\<close>

definition streamer_at :: "Camera \<Rightarrow> int \<Rightarrow> Streamer" where
  "streamer_at c i = the (m_streamers c ! nat i)"

definition camera_inv :: "Camera \<Rightarrow> bool" where
  "camera_inv c \<longleftrightarrow> length (m_streamers c) = 3 \<and> (\<forall>x \<in> set (m_streamers c). \<exists>st. x = Some st \<and> streamer_inv st)
     \<and> distinct (names (m_send_manager c))"

definition index_ok :: "int \<Rightarrow> bool" where
  "index_ok i \<longleftrightarrow> 0 \<le> i \<and> i < 3"

lemma get_streamer_cases:
  assumes "camera_inv c"
  shows "get_streamer i c = (if index_ok i then Inr (streamer_at c i) else Inl OutOfBounds)"
    and "index_ok i \<Longrightarrow> streamer_inv (streamer_at c i) \<and> m_streamers c ! nat i = Some (streamer_at c i)"
proof -
  have *: "streamer_inv (streamer_at c i) \<and> m_streamers c ! nat i = Some (streamer_at c i)" if "index_ok i"
  proof -
    have "nat i < length (m_streamers c)" using that assms by (auto simp: index_ok_def camera_inv_def)
    then have "m_streamers c ! nat i \<in> set (m_streamers c)" by (rule nth_mem)
    then show ?thesis using assms by (fastforce simp: camera_inv_def streamer_at_def)
  qed
  then show "index_ok i \<Longrightarrow> streamer_inv (streamer_at c i) \<and> m_streamers c ! nat i = Some (streamer_at c i)" .
  show "get_streamer i c = (if index_ok i then Inr (streamer_at c i) else Inl OutOfBounds)"
    using * assms by (auto simp: get_streamer_def arr_get_def index_ok_def camera_inv_def)
qed

lemma put_streamer_inv: "camera_inv c \<Longrightarrow> streamer_inv st \<Longrightarrow> camera_inv (put_streamer i st c)"
  using set_update_subset_insert [of "m_streamers c" "nat i" "Some st"] by (auto simp: camera_inv_def put_streamer_def)

lemma streamer_at_put: "camera_inv c \<Longrightarrow> index_ok i \<Longrightarrow> streamer_at (put_streamer i st c) i = st"
  by (simp add: streamer_at_def put_streamer_def camera_inv_def index_ok_def nat_less_iff)

lemma camera_inv_simps [simp]:
  "camera_inv (c\<lparr>m_repeqt_worker := w\<rparr>) = camera_inv c" "camera_inv (c\<lparr>m_recv_worker := r\<rparr>) = camera_inv c"
  by (simp_all add: camera_inv_def)

lemma camera_inv_names: "camera_inv c \<Longrightarrow> distinct (names items) \<Longrightarrow> camera_inv (c\<lparr>m_send_manager := items\<rparr>)"
  by (simp add: camera_inv_def)

lemma Camera_Initialize_inv:
  assumes "Camera_Initialize cmd (Camera_new w) = Inr (r, c)"
  shows "r = 0 \<and> camera_inv c \<and> (\<forall>i. index_ok i \<longrightarrow> stopped (streamer_at c i) \<and> \<not> m_initialize (streamer_at c i))"
proof -
  have c: "r = 0" "m_streamers c = map (\<lambda>ii. Some (Streamer_new ii)) [0, 1, 2]" "m_send_manager c = []"
    using assms by (auto simp: Camera_Initialize_def Camera_new_def cbind_Inr_iff split_beta Let_def)
  have "\<exists>j. streamer_at c i = Streamer_new j" if "index_ok i" for i
  proof -
    have "nat i = 0 \<or> nat i = 1 \<or> nat i = 2" using that by (auto simp: index_ok_def)
    then show ?thesis by (auto simp: streamer_at_def c(2))
  qed
  moreover have "stopped (Streamer_new j) \<and> \<not> m_initialize (Streamer_new j)" for j
    using Streamer_new_inv(2) by (simp add: Streamer_new_def)
  ultimately have "\<forall>i. index_ok i \<longrightarrow> stopped (streamer_at c i) \<and> \<not> m_initialize (streamer_at c i)"
    by metis
  then show ?thesis using c Streamer_new_inv(1) by (auto simp: camera_inv_def)
qed

section \<open>Operations\<close>

lemma SendStatus_inv: "SendStatus i s os c sys = Inr (c', sys') \<Longrightarrow> camera_inv c \<Longrightarrow> camera_inv c' \<and> m_streamers c' = m_streamers c"
  by (auto simp: SendStatus_def SendStreamStatus_def cbind_Inr_iff camera_inv_def broadcast_names split: option.splits)

lemma AddCheck_inv: "AddCheck i c sys = Inr (c', sys') \<Longrightarrow> camera_inv c \<Longrightarrow> camera_inv c' \<and> m_streamers c' = m_streamers c"
  by (auto simp: AddCheck_def cbind_Inr_iff Let_def)

lemma Camera_OnVideoDecompress_inv: "Camera_OnVideoDecompress os i data c sys = Inr (r, c', sys') \<Longrightarrow> camera_inv c \<Longrightarrow> camera_inv c'"
  by (auto simp: Camera_OnVideoDecompress_def SendFrame_def cbind_Inr_iff camera_inv_def broadcast_names split: option.splits)

lemma OnRecvProcessInfoReq_inv: "OnRecvProcessInfoReq rv p c sys = Inr (c', sys') \<Longrightarrow> camera_inv c \<Longrightarrow> camera_inv c'"
proof -
  assume a: "OnRecvProcessInfoReq rv p c sys = Inr (c', sys')" and i: "camera_inv c"
  obtain q where q: "Packet_ProcessInfoReq_Casting (Some p) = Some q"
    using a by (auto simp: OnRecvProcessInfoReq_def split: option.splits)
  with a obtain ret items m sent items' m' where
    ins: "InsertSendWork (rv_map rv) (rv_create rv) (rv_junk rv) (ir_queue_name q) (sync_count q) (m_send_manager c) (cs_shm sys) = Inr (ret, items, m)"
    and snd: "SendProcessInfo (rv_cmd rv) (rv_pid rv) (ir_queue_name q) (rv_sync rv) items m = Inr (sent, items', m')"
    and c': "c' = c\<lparr>m_send_manager := items'\<rparr>"
    by (auto simp: OnRecvProcessInfoReq_def cbind_Inr_iff)
  have "distinct (names items)"
    using InsertSendWork_names [OF ins] i by (auto simp: camera_inv_def)
  then show "camera_inv c'" using i c' SendProcessInfo_names [OF snd] by (simp add: camera_inv_names)
qed

text \<open>The requests for frames that end in undefined behaviour are those with an index out of range.\<close>

definition request_ok :: "Camera \<Rightarrow> Packet_StreamRequest \<Rightarrow> bool" where
  "request_ok c p \<longleftrightarrow> index_ok (rq_stream_index p)
     \<and> (IsActivate (streamer_at c (rq_stream_index p)) \<longrightarrow> 0 \<le> rq_frame_type p \<and> rq_frame_type p < int FT_NUM)"

lemma OnRecvStreamRequest_cases:
  assumes "camera_inv c"
  shows "if request_ok c p then \<exists>c' sys'. OnRecvStreamRequest (PStreamRequest p) c sys = Inr (c', sys') \<and> camera_inv c'
    else OnRecvStreamRequest (PStreamRequest p) c sys = Inl OutOfBounds"
proof (cases "index_ok (rq_stream_index p)")
  case False
  then show ?thesis using get_streamer_cases(1) [OF assms] by (simp add: OnRecvStreamRequest_def request_ok_def)
next
  case True
  let ?i = "rq_stream_index p" and ?st = "streamer_at c (rq_stream_index p)"
    and ?fi = "\<lparr>fi_pixel_format = pixel_format p, fi_width = rq_width p, fi_height = rq_height p, fi_decode = video_streaming p\<rparr>"
  have st: "get_streamer ?i c = Inr ?st" "streamer_inv ?st" using get_streamer_cases [OF assms] True by simp_all
  have d: "distinct (names (snd (SetFrameInfo n ft si vs (m_send_manager c))))" for n ft si vs
    using assms by (simp add: SetFrameInfo_names camera_inv_def)
  have sm: "m_send_manager (put_streamer i st c) = m_send_manager c" for i st by (simp add: put_streamer_def)
  show ?thesis
  proof (cases "IsActivate ?st")
    case False
    then show ?thesis
      using st d True assms by (simp add: OnRecvStreamRequest_def request_ok_def camera_inv_names split_beta Let_def)
  next
    case active: True
    then have "m_initialize ?st" using st(2) by (simp add: streamer_inv_def IsActivate_def)
    note s = SetDecodeFrameInfo_cases [OF st(2) this, of "rq_frame_type p" ?fi]
    show ?thesis
    proof (cases "0 \<le> rq_frame_type p \<and> rq_frame_type p < int FT_NUM")
      case False
      then show ?thesis using s st(1) active True by (auto simp: OnRecvStreamRequest_def request_ok_def)
    next
      case ft: True
      then obtain st' where st': "SetDecodeFrameInfo (rq_frame_type p) ?fi ?st = Inr st'" "streamer_inv st'" using s by auto
      then show ?thesis
        using st(1) active True ft d sm put_streamer_inv [OF assms st'(2)]
        by (simp add: OnRecvStreamRequest_def request_ok_def camera_inv_names split_beta Let_def)
    qed
  qed
qed

lemma RestartStreamer_inv:
  assumes "RestartStreamer le ii info st = Inr (Some st')" "streamer_inv st"
  shows "streamer_inv st' \<and> m_initialize st'"
proof -
  obtain r1 st1 where 1: "Streamer_Deactivate (le_join le ii) st = Inr (Some (r1, st1))"
    using assms(1) by (auto simp: RestartStreamer_def jbind_Some_iff)
  have i1: "streamer_inv st1" "stopped st1" using Streamer_Deactivate_inv [OF 1 assms(2)] by blast+
  obtain st2 where 2: "Streamer_Finalize st1 = Inr (0, st2)" "streamer_inv st2" "stopped st2" "\<not> m_initialize st2"
    using Streamer_Finalize_ok [OF i1] by blast
  have p: "si_type (sti_session_info (streamer_init ii info)) = SESSION_TYPE_RTSP"
    "di_type (sti_decoder_info (streamer_init ii info)) = DECODER_LIB_TYPE_FFMPEG"
    "length (di_frame_info (sti_decoder_info (streamer_init ii info))) = FT_NUM"
    by (simp_all add: streamer_init_def StreamerInfo_new_def DecoderInfo_new_def DECODER_LIB_TYPE_FFMPEG_def)
  obtain st3 where 3: "Streamer_Initialize (le_sessions le) (le_decoders le) (le_junk le) (streamer_init ii info) st2 = Inr (0, st3)"
    "streamer_inv st3" "stopped st3" "m_initialize st3"
    using Streamer_Initialize_ok [OF 2(2,4) p] by blast
  obtain r4 st4 where 4: "Streamer_Activate (le_av le ii) (le_now le ii) st3 = Inr (r4, st4)" "streamer_inv st4" "m_initialize st4"
    using Streamer_Activate_ok [OF 3(2,3)] 3(4) by blast
  show ?thesis using assms(1) 1 2(1) 3(1) 4 by (simp add: RestartStreamer_def)
qed

lemma LoadStream_inv:
  assumes "LoadStream le ii info c sys = Inr (Some (c', sys'))" "camera_inv c" "ii < 3"
  shows "camera_inv c'"
proof (cases "sf_stream_used info")
  case False
  then show ?thesis using assms by (auto simp: LoadStream_def jbind_Some_iff)
next
  case True
  have ii: "index_ok (int ii)" using assms(3) by (simp add: index_ok_def)
  note st = get_streamer_cases(2) [OF assms(2) ii]
  have "arr_get (m_streamers c) (int ii) = Inr (Some (streamer_at c (int ii)))"
    using st assms(2,3) by (simp add: arr_get_def camera_inv_def)
  then obtain st' c1 sys1 where s: "RestartStreamer le ii info (streamer_at c (int ii)) = Inr (Some st')"
    "SendStatus (int ii) READY (le_sync le ii) (put_streamer (int ii) st' c) (unlocked (UnlockSendWork_stream (int ii) (m_send_manager c)) sys) = Inr (c1, sys1)"
    "AddCheck (int ii) c1 sys1 = Inr (c', sys')"
    using assms(1) True by (auto simp: LoadStream_def jbind_Some_iff returns_Some_iff cbind_Inr_iff)
  have "streamer_inv st'" using RestartStreamer_inv [OF s(1)] st by blast
  then show ?thesis
    using SendStatus_inv [OF s(2)] AddCheck_inv [OF s(3)] put_streamer_inv [OF assms(2)] by blast
qed

lemma LoadStreams_inv:
  "LoadStreams le ks info c sys = Inr (Some (c', sys')) \<Longrightarrow> camera_inv c \<Longrightarrow> \<forall>k \<in> set ks. k < 3 \<Longrightarrow> camera_inv c'"
proof (induction ks arbitrary: c sys)
  case Nil
  then show ?case by simp
next
  case (Cons k ks)
  then obtain c1 sys1 where l: "LoadStream le k (ci_stream_info info ! k) c sys = Inr (Some (c1, sys1))"
    "LoadStreams le ks info c1 sys1 = Inr (Some (c', sys'))"
    by (auto simp: jbind_Some_iff)
  show ?case using Cons.IH [OF l(2)] LoadStream_inv [OF l(1) Cons.prems(2)] Cons.prems(3) by simp
qed

lemma LoadCamerasPbFile_inv:
  assumes "LoadCamerasPbFile le file c sys = Inr (Some (r, c', sys'))" "camera_inv c"
  shows "camera_inv c'"
proof -
  have "\<forall>k \<in> set [0..<3]. k < (3 :: nat)" by simp
  then show ?thesis
    using assms LoadStreams_inv [of le "[0..<3]"] by (auto simp: LoadCamerasPbFile_def jbind_Some_iff split: if_splits)
qed

lemma OnTimerCheckStream_inv:
  assumes "OnTimerCheckStream ck i c sys = Inr (Some (c', sys'))" "camera_inv c"
  shows "camera_inv c'"
proof -
  let ?st = "streamer_at c i"
  have i: "index_ok i" "get_streamer i c = Inr ?st" "streamer_inv ?st"
    using assms get_streamer_cases [OF assms(2), of i] by (auto simp: OnTimerCheckStream_def split: if_splits)
  show ?thesis
  proof (cases "IsActivate ?st \<and> \<not> GetIntervalPushFrameTime (ck_fp ck) (ck_now ck) ?st < 3000")
    case False
    then show ?thesis using assms i(2) by (auto simp: OnTimerCheckStream_def split: if_splits)
  next
    case True
    then obtain r1 st1 r2 st2 c1 sys1 c2 sys2 where s: "Streamer_Deactivate (ck_join ck) ?st = Inr (Some (r1, st1))"
      "Streamer_Activate (ck_av ck) (ck_activate_time ck) st1 = Inr (r2, st2)"
      "SendStatus i NO_SIGNAL (ck_sync ck) (put_streamer i st2 c) sys = Inr (c1, sys1)"
      "SendStatus i RECONNECT (ck_sync2 ck) c1 sys1 = Inr (c2, sys2)" "c' = c2"
      using assms(1) i(2) by (auto simp: OnTimerCheckStream_def jbind_Some_iff returns_Some_iff cbind_Inr_iff split: if_splits)
    have "streamer_inv st1" "stopped st1" using Streamer_Deactivate_inv [OF s(1) i(3)] by blast+
    from Streamer_Activate_ok [OF this, of "ck_av ck" "ck_activate_time ck"] s(2) have "streamer_inv st2" by auto
    then show ?thesis
      using SendStatus_inv [OF s(3)] SendStatus_inv [OF s(4)] put_streamer_inv [OF assms(2)] s(5) by blast
  qed
qed

lemma OnRecvWorker_inv:
  assumes "OnRecvWorker rv d c sys = Inr (Some (c', sys'))" "camera_inv c"
  shows "camera_inv c'"
proof -
  obtain name reader buf where d: "d = (name, reader, buf)" by (cases d)
  obtain packet0 packet where p: "CreateFactory name = Some packet0" "Reader buf reader packet0 = Inr packet"
    using assms(1) by (auto simp: OnRecvWorker_def d jbind_Some_iff returns_Some_iff split: option.splits)
  show ?thesis
  proof (cases packet)
    case (PProcessInfoReq q)
    then show ?thesis
      using assms p OnRecvProcessInfoReq_inv by (auto simp: OnRecvWorker_def d returns_Some_iff)
  next
    case (PStreamInfo q)
    then show ?thesis
      using assms p LoadCamerasPbFile_inv by (auto simp: OnRecvWorker_def d OnRecvStreamInfo_def jbind_Some_iff)
  next
    case (PStreamRequest q)
    then show ?thesis
      using assms(1) p OnRecvStreamRequest_cases [OF assms(2), of q sys] by (auto simp: OnRecvWorker_def d returns_Some_iff split: if_splits)
  qed (use assms p in \<open>auto simp: OnRecvWorker_def d\<close>)
qed

section \<open>Any interleaving\<close>

lemma run_checks_inv: "run_checks cks k works c sys = Inr (Some (c', sys')) \<Longrightarrow> camera_inv c \<Longrightarrow> camera_inv c'"
proof (induction works arbitrary: k c sys)
  case Nil
  then show ?case by simp
next
  case (Cons i works)
  then obtain c1 sys1 where t: "OnTimerCheckStream (cks k) i c sys = Inr (Some (c1, sys1))"
    "run_checks cks (k + 1) works c1 sys1 = Inr (Some (c', sys'))"
    by (auto simp: jbind_Some_iff)
  show ?case using Cons.IH [OF t(2)] OnTimerCheckStream_inv [OF t(1) Cons.prems(2)] by blast
qed

lemma repeat_turn_inv: "repeat_turn cks c sys = Inr (Some (c', sys')) \<Longrightarrow> camera_inv c \<Longrightarrow> camera_inv c'"
  using run_checks_inv by (fastforce simp: repeat_turn_def Let_def split: prod.splits)

lemma Camera_Activate_inv: "Camera_Activate env os ros c sys = Inr (r, c', sys') \<Longrightarrow> camera_inv c \<Longrightarrow> camera_inv c'"
  by (auto simp: Camera_Activate_def camera_inv_def cbind_Inr_iff)

lemma deactivate_streamers_inv:
  "deactivate_streamers je i xs = Inr (Some xs') \<Longrightarrow> \<forall>x \<in> set xs. \<exists>st. x = Some st \<and> streamer_inv st \<Longrightarrow>
    length xs' = length xs \<and> (\<forall>x \<in> set xs'. \<exists>st. x = Some st \<and> streamer_inv st \<and> stopped st)"
proof (induction je i xs arbitrary: xs' rule: deactivate_streamers.induct)
  case (1 je i)
  then show ?case by simp
next
  case (2 je i x xs)
  then obtain st where st: "x = Some st" "streamer_inv st" by auto
  then obtain r st' ys where d: "Streamer_Deactivate (je i) st = Inr (Some (r, st'))"
    "deactivate_streamers je (i + 1) xs = Inr (Some ys)" "xs' = Some st' # ys"
    using 2(2) by (auto simp: jbind_Some_iff)
  have "length ys = length xs \<and> (\<forall>x \<in> set ys. \<exists>st. x = Some st \<and> streamer_inv st \<and> stopped st)"
    using 2(1) [OF st(1) d(2)] 2(3) by simp
  then show ?case using Streamer_Deactivate_inv [OF d(1) st(2)] d(3) by auto
qed

lemma Camera_Deactivate_inv:
  assumes "Camera_Deactivate je n c sys = Inr (Some (r, c', sys'))" "camera_inv c"
  shows "camera_inv c' \<and> (\<forall>i. index_ok i \<longrightarrow> stopped (streamer_at c' i)) \<and> m_send_manager c' = []"
proof -
  obtain sts where sts: "deactivate_streamers je 0 (m_streamers c) = Inr (Some sts)" "m_streamers c' = sts" "m_send_manager c' = []"
    using assms(1) by (auto simp: Camera_Deactivate_def SendManager_Deactivate_def ClearSendWork_def jbind_Some_iff split_beta Let_def)
  have l: "length sts = 3" "\<forall>x \<in> set sts. \<exists>st. x = Some st \<and> streamer_inv st \<and> stopped st"
    using deactivate_streamers_inv [OF sts(1)] assms(2) by (auto simp: camera_inv_def)
  then have inv: "camera_inv c'" using sts(2,3) by (auto simp: camera_inv_def)
  have "stopped (streamer_at c' i)" if "index_ok i" for i
  proof -
    have "nat i < length sts" using that l(1) by (auto simp: index_ok_def)
    then have "sts ! nat i \<in> set sts" by (rule nth_mem)
    then show ?thesis using l(2) sts(2) by (fastforce simp: streamer_at_def)
  qed
  then show ?thesis using inv sts(3) by blast
qed

text \<open>
  The steps of the process: requests, checks, timers, the turns of the sessions and decoders, frames and pictures.
  Other processes change the shared memory at any time.
\<close>

inductive camera_step :: "Camera \<times> cam_sys \<Rightarrow> Camera \<times> cam_sys \<Rightarrow> bool" where
  s_request: "OnRecvWorker rv d c sys = Inr (Some (c', sys')) \<Longrightarrow> camera_step (c, sys) (c', sys')"
| s_checks: "repeat_turn cks c sys = Inr (Some (c', sys')) \<Longrightarrow> camera_step (c, sys) (c', sys')"
| s_timer: "camera_step (c, sys) (c\<lparr>m_repeqt_worker := repeat_callback i (m_repeqt_worker c)\<rparr>, sys)"
| s_picture: "Camera_OnVideoDecompress os i data c sys = Inr (r, c', sys') \<Longrightarrow> camera_step (c, sys) (c', sys')"
| s_session: "index_ok i \<Longrightarrow> m_session (streamer_at c i) = Some s \<Longrightarrow> RTSP_turn e s = Inr (s', calls) \<Longrightarrow>
    camera_step (c, sys) (put_streamer i ((streamer_at c i)\<lparr>m_session := Some s'\<rparr>) c, sys)"
| s_frame: "index_ok i \<Longrightarrow> m_session (streamer_at c i) = Some s \<Longrightarrow> rs_pc s = Looping \<Longrightarrow>
    vf_buf_size data \<le> 0 \<or> int32_range (vf_buf_size data) \<and> vf_buf_size data \<le> int (length (vf_buffer data)) \<Longrightarrow>
    OnVideoFrameReceived fp t t1 t2 now data (streamer_at c i) = Inr (r, st') \<Longrightarrow>
    camera_step (c, sys) (put_streamer i st' c, sys)"
| s_decoder: "index_ok i \<Longrightarrow> m_decoder (streamer_at c i) = Some t \<Longrightarrow> Decode_turn e t = Inr t' \<Longrightarrow>
    camera_step (c, sys) (put_streamer i ((streamer_at c i)\<lparr>m_decoder := Some t'\<rparr>) c, sys)"
| s_activate: "Camera_Activate env os ros c sys = Inr (r, c', sys') \<Longrightarrow> camera_step (c, sys) (c', sys')"
| s_deactivate: "Camera_Deactivate je n c sys = Inr (Some (r, c', sys')) \<Longrightarrow> camera_step (c, sys) (c', sys')"
| s_outside: "camera_step (c, sys) (c, sys')"

lemma streamer_session_inv:
  assumes "streamer_inv st" "m_session st = Some s" "RTSP_turn e s = Inr (s', calls)"
  shows "streamer_inv (st\<lparr>m_session := Some s'\<rparr>)"
proof -
  have "session_inv s" using assms(1,2) by (simp add: streamer_inv_def)
  from RTSP_turn_inv [OF assms(3) this] show ?thesis using assms(1,2) by (simp add: streamer_inv_def)
qed

lemma streamer_decoder_inv:
  assumes "streamer_inv st" "m_decoder st = Some t" "Decode_turn e t = Inr t'"
  shows "streamer_inv (st\<lparr>m_decoder := Some t'\<rparr>)"
proof (cases "m_initialize st")
  case True
  then have "decoder_inv t" "queues_inv (dt_decoder t)" using assms(1,2) by (auto simp: streamer_inv_def)
  from Decode_turn_inv [OF assms(3) this] show ?thesis using assms(1,2) True by (simp add: streamer_inv_def)
next
  case False
  then have "dt_pc t = NotStarted" using assms(1,2) by (simp add: streamer_inv_def)
  then have "t' = t" using assms(3) by (auto simp: Decode_turn_def split: prod.splits)
  then show ?thesis using assms(1,2) by (simp add: streamer_inv_def)
qed

lemma camera_step_inv: "camera_step x y \<Longrightarrow> camera_inv (fst x) \<Longrightarrow> camera_inv (fst y)"
proof (induction rule: camera_step.induct)
  case (s_session i c s e s' calls sys)
  then show ?case using get_streamer_cases(2) [of c i] put_streamer_inv streamer_session_inv by auto
next
  case (s_frame i c s data fp t t1 t2 now r st' sys)
  then have i: "streamer_inv (streamer_at c i)" using get_streamer_cases(2) [of c i] by simp
  then have "m_initialize (streamer_at c i)" using s_frame(2,3) by (auto simp: streamer_inv_def)
  from OnVideoFrameReceived_ok [OF i this s_frame(4), of fp t t1 t2 now] have "streamer_inv st'" using s_frame(5) by auto
  then show ?case using s_frame put_streamer_inv by simp
next
  case (s_decoder i c t e t' sys)
  then show ?case using get_streamer_cases(2) [of c i] put_streamer_inv streamer_decoder_inv by auto
qed (auto dest: OnRecvWorker_inv repeat_turn_inv Camera_OnVideoDecompress_inv Camera_Activate_inv Camera_Deactivate_inv)

lemma camera_reach_inv: "camera_step\<^sup>*\<^sup>* x y \<Longrightarrow> camera_inv (fst x) \<Longrightarrow> camera_inv (fst y)"
  by (induction rule: rtranclp_induct) (auto dest: camera_step_inv)

section \<open>Between the components\<close>

text \<open>A stream whose \<open>PLAY\<close> was refused, or whose last sink ended, kills the process at its next check.\<close>

lemma refused_play_check:
  assumes "camera_inv c" "index_ok i" "IsActivate (streamer_at c i)" "m_session (streamer_at c i) = Some s"
    and "rs_pc s = Looping" "rs_at s = InEventLoop" "m_rtspClient s = Some cl" "rc_open cl" "\<not> m_eventLoopWatchVariable s"
    and "ends_stream (re_event e) cl"
    and "\<not> GetIntervalPushFrameTime (ck_fp ck) (ck_now ck) (streamer_at c i) < 3000" "je_session (ck_join ck) \<noteq> []"
  shows "\<exists>s1 calls. RTSP_turn e s = Inr (s1, calls) \<and> CloseClient \<in> set calls
    \<and> (\<forall>es. RTSP_turns es s1 = Inr (s1, []))
    \<and> OnTimerCheckStream ck i (put_streamer i ((streamer_at c i)\<lparr>m_session := Some s1\<rparr>) c) sys = Inl DanglingPointer"
proof -
  let ?st = "streamer_at c i"
  obtain s1 calls where t: "RTSP_turn e s = Inr (s1, calls)" "CloseClient \<in> set calls" "\<forall>es. RTSP_turns es s1 = Inr (s1, [])"
    "\<forall>e'. RTSP_turn e' (RTSP_stop s1) = Inl DanglingPointer"
    using closed_twice [OF assms(5-10)] by blast
  have st: "streamer_inv ?st" using get_streamer_cases(2) [OF assms(1,2)] by simp
  then have si: "session_inv s" "m_initialize ?st" using assms(3,4) by (simp_all add: streamer_inv_def IsActivate_def)
  have j: "joinable (rs_thread (RTSP_stop s1))"
    using RTSP_turn_inv [OF t(1) si(1)] assms(5) by (auto simp: session_inv_def RTSP_stop_def)
  let ?st1 = "?st\<lparr>m_session := Some s1\<rparr>" and ?c1 = "put_streamer i (?st\<lparr>m_session := Some s1\<rparr>) c"
  obtain e' es where "je_session (ck_join ck) = e' # es" using assms(12) by (cases "je_session (ck_join ck)") auto
  then have "RTSP_Deactivate (je_session (ck_join ck)) s1 = Inl DanglingPointer"
    using j t(4) by (simp add: RTSP_Deactivate_def Let_def)
  then have d: "Streamer_Deactivate (ck_join ck) ?st1 = Inl DanglingPointer"
    using si(2) by (simp add: Streamer_Deactivate_def)
  have inv: "camera_inv ?c1" using put_streamer_inv [OF assms(1) streamer_session_inv [OF st assms(4) t(1)]] .
  have g: "get_streamer i ?c1 = Inr ?st1"
    using get_streamer_cases(1) [OF inv, of i] assms(2) streamer_at_put [OF assms(1,2)] by simp
  have "IsActivate ?st1" "GetIntervalPushFrameTime (ck_fp ck) (ck_now ck) ?st1 = GetIntervalPushFrameTime (ck_fp ck) (ck_now ck) ?st"
    using assms(3) by (simp_all add: IsActivate_def GetIntervalPushFrameTime_def)
  then show ?thesis
    using t d g assms(11) by (auto simp: OnTimerCheckStream_def)
qed

text \<open>What an accepted request for frames changes in the decoder of an active stream.\<close>

definition requested_info :: "Packet_StreamRequest \<Rightarrow> FrameInfo" where
  "requested_info p = \<lparr>fi_pixel_format = pixel_format p, fi_width = rq_width p, fi_height = rq_height p, fi_decode = video_streaming p\<rparr>"

definition with_info :: "nat \<Rightarrow> FrameInfo \<Rightarrow> decode_thread \<Rightarrow> decode_thread" where
  "with_info ii fi t = t\<lparr>dt_decoder := (dt_decoder t)\<lparr>m_impl := map_option (\<lambda>impl.
     impl\<lparr>m_info := (m_info impl)\<lparr>di_frame_info := (di_frame_info (m_info impl))[ii := fi]\<rparr>\<rparr>) (m_impl (dt_decoder t))\<rparr>\<rparr>"

lemma request_decoder:
  assumes "camera_inv c" "index_ok (rq_stream_index p)" "IsActivate (streamer_at c (rq_stream_index p))"
    and "0 < rq_frame_type p" "rq_frame_type p < int FT_NUM" "m_decoder (streamer_at c (rq_stream_index p)) = Some t"
  shows "\<exists>c' sys'. OnRecvStreamRequest (PStreamRequest p) c sys = Inr (c', sys') \<and> camera_inv c'
    \<and> m_decoder (streamer_at c' (rq_stream_index p)) = Some (with_info (nat (rq_frame_type p)) (requested_info p) t)"
proof -
  let ?i = "rq_stream_index p" and ?st = "streamer_at c (rq_stream_index p)"
  have st: "get_streamer ?i c = Inr ?st" "streamer_inv ?st" using get_streamer_cases [OF assms(1)] assms(2) by simp_all
  then obtain impl where impl: "m_impl (dt_decoder t) = Some impl" "length (di_frame_info (m_info impl)) = FT_NUM"
    using assms(6) by (auto simp: streamer_inv_def decoder_inv_def has_infos_def)
  let ?st' = "?st\<lparr>m_decoder := Some (with_info (nat (rq_frame_type p)) (requested_info p) t)\<rparr>"
  have s: "SetDecodeFrameInfo (rq_frame_type p) (requested_info p) ?st = Inr ?st'"
    using assms(4-6) impl by (simp add: SetDecodeFrameInfo_def Decoder_SetFrameInfo_def put_FrameInfo_def arr_set_def FT_ORIGINAL_def with_info_def)
  have at: "streamer_at (put_streamer ?i x c) ?i = x" for x using streamer_at_put [OF assms(1,2)] .
  have ok: "request_ok c p" using assms(2-5) by (simp add: request_ok_def)
  obtain c' sys' where r: "OnRecvStreamRequest (PStreamRequest p) c sys = Inr (c', sys')" "camera_inv c'"
    using OnRecvStreamRequest_cases [OF assms(1), of p sys] ok by auto
  have "\<exists>items. c' = (put_streamer ?i ?st' c)\<lparr>m_send_manager := items\<rparr>"
    using r(1) st(1) s assms(3) unfolding requested_info_def
    by (auto simp: OnRecvStreamRequest_def cbind_Inr_iff split_beta Let_def)
  moreover have "streamer_at (d\<lparr>m_send_manager := items\<rparr>) i = streamer_at d i" for d items i by (simp add: streamer_at_def)
  ultimately show ?thesis using r at by auto
qed

text \<open>A client that asks for a picture of negative size ends the process at the next frame that is decoded.\<close>

lemma negative_info_pass:
  assumes "pass_inv (dt_decoder t) l te" "0 < k" "k < FT_NUM" "wanted fi" "want_size fi < 0" "av_sized (pe_av pe)"
  shows "pass_inv (dt_decoder (with_info k fi t)) l te"
    and "pass_decodes pe (dt_decoder (with_info k fi t)) l \<Longrightarrow> DecodePass pe (dt_decoder (with_info k fi t)) l te = Inl StdLengthError"
proof -
  obtain impl where impl: "m_impl (dt_decoder t) = Some impl" "impl_ok impl" using assms(1) by (auto simp: pass_inv_def)
  let ?impl = "impl\<lparr>m_info := (m_info impl)\<lparr>di_frame_info := (di_frame_info (m_info impl))[k := fi]\<rparr>\<rparr>"
  have d: "dt_decoder (with_info k fi t) = (dt_decoder t)\<lparr>m_impl := Some ?impl\<rparr>" by (simp add: with_info_def impl(1))
  show pinv: "pass_inv (dt_decoder (with_info k fi t)) l te"
    using assms(1) impl by (simp add: d pass_inv_def impl_ok_def)
  have k: "k < length (di_frame_info (m_info impl))" "k \<noteq> FT_ORIGINAL"
    using assms(2,3) impl(2) by (auto simp: impl_ok_def FT_ORIGINAL_def)
  have "(decoded_infos av (di_frame_info (m_info ?impl))) ! k = fi" for av
    using k by (simp add: decoded_infos_def)
  then have n: "negative_wanted (decoded_infos av (di_frame_info (m_info ?impl)))" for av
    using assms(4,5) k by (fastforce simp: negative_wanted_def decoded_infos_def in_set_conv_nth)
  have "m_impl (dt_decoder (with_info k fi t)) = Some ?impl" by (simp add: d)
  from DecodePass_decodes_negative [OF pinv assms(6) this _ n]
  show "pass_decodes pe (dt_decoder (with_info k fi t)) l \<Longrightarrow> DecodePass pe (dt_decoder (with_info k fi t)) l te = Inl StdLengthError" .
qed

end
