(* ===== verification/Application.thy ===== *)
theory Application
  imports Camera
begin

text \<open>
  \<open>Application\<close> of \<open>src/Application.cpp\<close> and the loop of \<open>src/main.cpp\<close>. The event that a second process of the same
  name finds is a manual-reset event of the system, shared by its name. Logs and the console window are left out.
\<close>

section \<open>Code\<close>

datatype APP_ERROR_CODE = APP_SUCCESS | APP_EXIST_PROCESS_NAME | APP_ONCE_EVENT_FAILED

fun APP_ERROR_int :: "APP_ERROR_CODE \<Rightarrow> int" where
  "APP_ERROR_int APP_SUCCESS = 0"
| "APP_ERROR_int APP_EXIST_PROCESS_NAME = 1"
| "APP_ERROR_int APP_ONCE_EVENT_FAILED = 2"

text \<open>The named events of the system, each with whether it is signalled; a handle is its name.\<close>

type_synonym events = "string \<rightharpoonup> bool"

record Application =
  m_process_name :: string
  m_exit_code :: int
  m_do_exit :: bool
  m_singleton_event :: "string option"
  m_camera :: "Camera option"
  m_cmd_line_parser :: CmdLineParser

definition Application_new :: Application where
  "Application_new = \<lparr>m_process_name = [], m_exit_code = 0, m_do_exit = False, m_singleton_event = None, m_camera = None,
     m_cmd_line_parser = CmdLineParser_new\<rparr>"

text \<open>\<open>CreateEventA\<close> with manual reset, not signalled: the handle and whether the event existed; \<open>ok\<close>: it can be made.\<close>

definition CreateEventA :: "bool \<Rightarrow> string \<Rightarrow> events \<Rightarrow> (string option \<times> bool) \<times> events" where
  "CreateEventA ok name ev =
     (if \<not> ok then ((None, False), ev)
      else (case ev name of Some x \<Rightarrow> ((Some name, True), ev) | None \<Rightarrow> ((Some name, False), ev(name \<mapsto> False))))"

definition SetEvent :: "string option \<Rightarrow> events \<Rightarrow> events" where
  "SetEvent h ev = (case h of None \<Rightarrow> ev | Some name \<Rightarrow> (if ev name = None then ev else ev(name \<mapsto> True)))"

definition SetExitCode :: "int \<Rightarrow> Application \<Rightarrow> events \<Rightarrow> Application \<times> events" where
  "SetExitCode code app ev = (app\<lparr>m_exit_code := code, m_do_exit := True\<rparr>, SetEvent (m_singleton_event app) ev)"

definition App_ReadCmdLineValue_int :: "string \<Rightarrow> int \<Rightarrow> Application \<Rightarrow> (bool \<times> int) cpp" where
  "App_ReadCmdLineValue_int key val app = ReadCmdLineValue_int key val (m_cmd_line_parser app)"

definition App_ReadCmdLineValue :: "string \<Rightarrow> string \<Rightarrow> Application \<Rightarrow> bool \<times> string" where
  "App_ReadCmdLineValue key val app = ReadCmdLineValue_string key val (m_cmd_line_parser app)"

definition HasCmdKey :: "string \<Rightarrow> Application \<Rightarrow> bool" where
  "HasCmdKey key app = HasKey key (m_cmd_line_parser app)"

definition App_Initialize :: "bool \<Rightarrow> int RepeatWorkProc \<Rightarrow> int \<Rightarrow> string list option \<Rightarrow> Application \<Rightarrow> events \<Rightarrow> (int \<times> Application \<times> events) cpp" where
  "App_Initialize ok worker argc argv app ev =
     cbind (ParseCommandLine argc argv (m_cmd_line_parser app)) (\<lambda>cmd.
       let app1 = app\<lparr>m_cmd_line_parser := cmd\<rparr>;
           process_name = snd (App_ReadCmdLineValue CMD_KEY_PROCESS_NAME ''PROCESS_CAMERA'' app1);
           ((h, exists), ev1) = CreateEventA ok process_name ev;
           app2 = app1\<lparr>m_process_name := process_name, m_singleton_event := h\<rparr> in
       if h = None then
         (let code = APP_ERROR_int APP_ONCE_EVENT_FAILED; (app3, ev2) = SetExitCode code app2 ev1 in Inr (code, app3, ev2))
       else if exists then
         (let code = APP_ERROR_int APP_EXIST_PROCESS_NAME; (app3, ev2) = SetExitCode code app2 ev1 in Inr (code, app3, ev2))
       else
         cbind (Camera_Initialize (m_cmd_line_parser app2) (Camera_new worker)) (\<lambda>(ret, c).
           let app3 = app2\<lparr>m_camera := Some c\<rparr> in
           if ret \<noteq> 0 then (let (app4, ev2) = SetExitCode ret app3 ev1 in Inr (ret, app4, ev2))
           else Inr (0, app3, ev1)))"

definition App_Finalize :: "Application \<Rightarrow> (int \<times> Application) cpp" where
  "App_Finalize app =
     cbind (case m_camera app of None \<Rightarrow> Inr None | Some c \<Rightarrow> cbind (Camera_Finalize c) (\<lambda>(r, c'). Inr (Some c'))) (\<lambda>cam.
       let app1 = app\<lparr>m_camera := cam\<rparr> in
       Inr (0, if m_singleton_event app1 \<noteq> None then app1\<lparr>m_singleton_event := None\<rparr> else app1))"

definition App_Activate :: "map_env \<Rightarrow> create_os \<Rightarrow> reset_os \<Rightarrow> Application \<Rightarrow> cam_sys \<Rightarrow> events \<Rightarrow> (int \<times> Application \<times> cam_sys \<times> events) cpp" where
  "App_Activate env os ros app sys ev = (case m_camera app of None \<Rightarrow> Inl NullPointer
     | Some c \<Rightarrow> cbind (Camera_Activate env os ros c sys) (\<lambda>(ret, c', sys').
         let app1 = app\<lparr>m_camera := Some c'\<rparr> in
         if ret \<noteq> 0 then (let (app2, ev2) = SetExitCode ret app1 ev in Inr (ret, app2, sys', ev2))
         else Inr (0, app1, sys', ev)))"

definition App_Deactivate :: "(nat \<Rightarrow> join_env) \<Rightarrow> nat \<Rightarrow> Application \<Rightarrow> cam_sys \<Rightarrow> (int \<times> Application \<times> cam_sys) option cpp" where
  "App_Deactivate je n app sys = (case m_camera app of None \<Rightarrow> Inr (Some (0, app, sys))
     | Some c \<Rightarrow> jbind (Camera_Deactivate je n c sys) (\<lambda>(r, c', sys'). Inr (Some (0, app\<lparr>m_camera := Some c'\<rparr>, sys'))))"

text \<open>
  A wait, without a time limit when \<open>no_limit\<close>: \<open>Some True\<close> when the event is signalled, \<open>Some False\<close> at once for a null handle, and
  otherwise it blocks. With a limit it returns \<open>False\<close> when the event stays unsignalled.
\<close>

definition WaitForExitEvent :: "bool \<Rightarrow> Application \<Rightarrow> events \<Rightarrow> bool option" where
  "WaitForExitEvent no_limit app ev = (case m_singleton_event app of None \<Rightarrow> Some False
     | Some h \<Rightarrow> if ev h = Some True then Some True else if no_limit then None else Some False)"

definition IsExitProcess :: "Application \<Rightarrow> bool" where
  "IsExitProcess app = m_do_exit app"

definition GetExitCode :: "Application \<Rightarrow> int" where
  "GetExitCode app = m_exit_code app"

text \<open>
  A turn of the loop of \<open>main\<close>. It is at the key test or blocked in the wait. \<open>q_key\<close>: a key is waiting, and is \<open>q\<close>;
  \<open>ev\<close> is the state of the events at this turn.
\<close>

datatype main_at = AtKey | AtWait | Left

definition main_turn :: "bool \<times> events \<Rightarrow> Application \<Rightarrow> main_at \<Rightarrow> main_at" where
  "main_turn e app a = (case e of (q_key, ev) \<Rightarrow>
     (let wait = (case WaitForExitEvent True app ev of None \<Rightarrow> AtWait | Some b \<Rightarrow> if b then Left else AtKey) in
      case a of AtKey \<Rightarrow> if q_key then Left else wait | AtWait \<Rightarrow> wait | Left \<Rightarrow> Left))"

primrec main_loop :: "(bool \<times> events) list \<Rightarrow> Application \<Rightarrow> main_at \<Rightarrow> main_at" where
  "main_loop [] app a = a"
| "main_loop (e # es) app a = main_loop es app (main_turn e app a)"

section \<open>The event\<close>

text \<open>A second process of the same name signals the event of the first, whose main loop then ends.\<close>

lemma second_instance:
  assumes "App_Initialize True w1 argc1 argv1 Application_new ev = Inr (0, app1, ev1)"
    and "App_Initialize True w2 argc2 argv2 Application_new ev1 = Inr (r, app2, ev2)"
    and "m_process_name app2 = m_process_name app1"
  shows "r = 1 \<and> m_exit_code app2 = 1 \<and> WaitForExitEvent True app1 ev2 = Some True
    \<and> main_turn (False, ev2) app1 AtWait = Left \<and> (\<forall>h x. ev h = Some x \<longrightarrow> ev1 h = Some x)"
  using assms
  by (auto simp: App_Initialize_def CreateEventA_def SetExitCode_def SetEvent_def WaitForExitEvent_def main_turn_def
      cbind_Inr_iff Let_def App_ReadCmdLineValue_def split: option.splits if_splits prod.splits)

text \<open>Once the loop waits it looks at no key: only the event ends it.\<close>

lemma waiting_ignores_keys:
  assumes "m_singleton_event app = Some h" "list_all (\<lambda>(q, ev). ev h \<noteq> Some True) es"
  shows "main_loop es app AtWait = AtWait"
  using assms by (induction es) (auto simp: main_turn_def WaitForExitEvent_def split: prod.splits)

text \<open>Without an event the loop spins until the key is pressed, whatever exit code was set.\<close>

lemma no_event_spins:
  assumes "m_singleton_event app = None"
  shows "main_loop es app AtKey = (if list_ex fst es then Left else AtKey)"
proof -
  have left: "main_loop es app Left = Left" for es by (induction es) (auto simp: main_turn_def split: prod.splits)
  show ?thesis
    using assms by (induction es) (auto simp: main_turn_def WaitForExitEvent_def left split: prod.splits)
qed

lemma failed_event:
  assumes "App_Initialize False w argc argv Application_new ev = Inr (r, app, ev')"
  shows "r = 2 \<and> m_exit_code app = 2 \<and> main_loop es app AtKey = (if list_ex fst es then Left else AtKey)"
proof -
  have "r = 2 \<and> m_exit_code app = 2 \<and> m_singleton_event app = None"
    using assms by (auto simp: App_Initialize_def CreateEventA_def SetExitCode_def SetEvent_def cbind_Inr_iff Let_def)
  then show ?thesis using no_event_spins by blast
qed

end
