(* ===== verification/Camera_Properties.thy ===== *)
theory Camera_Properties
  imports Timer_Sharing Camera_Inv Application
begin

text \<open>
  What the camera process does with its clients, its streams and itself: the properties of \<open>Decoder\<close>, \<open>Session_RTSP\<close>,
  \<open>RepeatWorkProc\<close>, \<open>Camera\<close>, \<open>Application\<close> and the setup files, with their witnesses. The concrete decoder of the
  witnesses is a fresh one with a single frame waiting, and FFmpeg is a library that decodes every frame.
\<close>

section \<open>A concrete decoder for the witnesses\<close>

definition demo_av :: av_env where
  "demo_av = \<lparr>av_frame_alloc = True, avcodec_find_decoder = \<lambda>c. True, avcodec_open2 = 0, avcodec_send_packet = \<lambda>bs. 0,
     AVERROR_INVALIDDATA = -1094995529, avcodec_receive_frame = 0, ctx_width = 64, ctx_height = 48, ctx_pix_fmt = AV_PIX_FMT_YUV420P,
     sws_getContext = \<lambda>p. True, av_image_get_buffer_size = \<lambda>f w h. 0, av_image_fill_arrays = \<lambda>f w h. 0,
     sws_scale = \<lambda>p. 1, av_picture = \<lambda>p. []\<rparr>"

definition demo_fp :: fp where
  "demo_fp = \<lparr>fl32 = \<lambda>x. x, fl64 = \<lambda>x. x\<rparr>"

definition demo_source :: VideoSource where
  "demo_source = \<lparr>vs_frame = \<lparr>fb_data = Some ([0, 0, 0, 1, 0x65], 0), fb_data_size = 5\<rparr>, vs_key_frame = True,
     vs_timestamp = \<lparr>tv_sec = 0, tv_usec = 0\<rparr>\<rparr>"

definition demo_pass :: pass_env where
  "demo_pass = \<lparr>pe_now = 2000000000, pe_fp = demo_fp, pe_av = demo_av, pe_junk = True\<rparr>"

definition demo_locals :: DecodeLocals where
  "demo_locals = \<lparr>timer_fps = Some (CTimerLocker_new ''Decoding_fps'' 33 None), decoding_index = 0,
     arr_buffer_src = replicate 1024 0, arr_buffer_dst = replicate FT_NUM []\<rparr>"

definition demo_te :: timer_env where
  "demo_te = \<lparr>te_inst = \<lparr>has_impl = True, timer_type = Some WINDOWS_MMTIMER\<rparr>, te_timer = 5,
     te_mgr = \<lparr>m_timer_min_resolution = 10, m_map_timers = []\<rparr>, te_table = replicate 4 ParamTimer_new\<rparr>"

lemma demo_av_ok: "av_sized demo_av"
  by (simp add: av_sized_def demo_av_def)

lemma demo_te_ok: "timer_env_ok demo_te" "timer_free demo_te"
  by (simp_all add: timer_env_ok_def timer_free_def demo_te_def manager_inv_def int32_range_def numeral_eq_Suc ParamTimer_new_def)

text \<open>An initialized decoder is active, a frame has been pushed at time 0, and its thread is about to make a pass.\<close>

lemma demo_decoder:
  "\<exists>d0 d impl. Decoder_Initialize (Factory_Initialize Map.empty) (\<lambda>i. 0) DecoderInfo_new True Decoder_new = Inr (0, d0)
    \<and> decoder_reach d0 [(frame_meta demo_source, frame_bytes demo_source)] [] d \<and> pass_inv d demo_locals demo_te
    \<and> m_impl d = Some impl \<and> impl_ok impl \<and> di_frame_info (m_info impl) = replicate FT_NUM FrameInfo_new \<and> pass_decodes demo_pass d demo_locals
    \<and> (\<exists>x. m_queue_src d = [x] \<and> qv_time x = 0) \<and> queue_accumulate_time (m_info impl) = 1000 \<and> joinable (dec_thread d)"
proof -
  have f: "Decoder_CreateFactory (di_type DecoderInfo_new) (Factory_Initialize Map.empty) = Some DecoderImpl_FFmpeg_new"
    using Decoder_factory_ffmpeg by (simp add: DecoderInfo_new_def DECODER_LIB_TYPE_FFMPEG_def)
  have "m_queue_src Decoder_new = []" by (simp add: Decoder_new_def)
  from Decoder_Initialize_ok [OF f this] obtain d0 where d0:
    "Decoder_Initialize (Factory_Initialize Map.empty) (\<lambda>i. 0) DecoderInfo_new True Decoder_new = Inr (0, d0)" "queues_inv d0" "waiting d0 = []"
    "m_impl d0 = Some (SetInfo DecoderInfo_new DecoderImpl_FFmpeg_new)" "dec_thread d0 = dec_thread Decoder_new" by blast
  let ?impl = "snd (Impl_Activate demo_av (SetInfo DecoderInfo_new DecoderImpl_FFmpeg_new))"
  let ?d1 = "d0\<lparr>m_impl := Some ?impl, dec_thread := \<lparr>joinable = True, m_thread_name = ''Decoder''\<rparr>\<rparr>"
  have impl: "impl_ok ?impl" "di_frame_info (m_info ?impl) = replicate FT_NUM FrameInfo_new" "queue_accumulate_time (m_info ?impl) = 1000"
    by (simp_all add: impl_ok_def Impl_Activate_def SetInfo_def DecoderImpl_FFmpeg_new_def demo_av_def GetInfo_def GetAVCodecID_def
        DecoderInfo_new_def converter_inv_def Converter_new_def Let_def)
  have q1: "queues_inv ?d1" "m_impl ?d1 \<noteq> None" using d0(2) by (simp_all add: queues_inv_def stream_bytes_def)
  have so: "source_ok demo_source" by (simp add: source_ok_def demo_source_def int32_range_def ptr_mem_def)
  have b0: "m_queue_src d0 = []" using d0(3) by (rule waiting_Nil)
  then have b1: "stream_bytes d0 = []" using d0(2) by (simp add: queues_inv_def)
  have fits: "length (stream_bytes ?d1) + length (frame_bytes demo_source) \<le> stream_capacity"
    using b1 by (simp add: stream_bytes_def stream_capacity_def frame_bytes_def demo_source_def ptr_mem_def)
  obtain d where p: "QueuePush demo_fp 0 0 0 demo_source ?d1 = Inr (0, d)" "queues_inv d" "m_impl d = Some ?impl"
    using QueuePush_ok [OF q1 so fits, of demo_fp 0 0 0] by auto
  have src: "\<exists>x. m_queue_src d = [x] \<and> qv_time x = 0" "joinable (dec_thread d)"
    using p(1) b0 by (auto simp: QueuePush_def cbind_Inr_iff Let_def split: if_splits option.splits prod.splits)
  have "decoder_reach d0 [] [] ?d1"
    by (rule decoder_reach.other [OF decoder_reach.start]) simp_all
  from decoder_reach.push [OF this so p(1)]
  have r: "decoder_reach d0 [(frame_meta demo_source, frame_bytes demo_source)] [] d" by simp
  have pi: "pass_inv d demo_locals demo_te"
    using p(2,3) impl(1) demo_te_ok(1)
    by (simp add: pass_inv_def demo_locals_def buffers_ok_def list_all_iff timer_ok_def CTimerLocker_new_def)
  obtain x where x: "m_queue_src d = [x]" "qv_time x = 0" using src(1) by blast
  have "pass_decodes demo_pass d demo_locals"
    using first_pass_decodes [OF p(2,3) impl(1) x(1), of demo_pass demo_locals] x(2) impl(3)
    by (simp add: demo_pass_def demo_locals_def demo_av_def demo_fp_def elapsed_ms_def GetInfo_def)
  then show ?thesis using d0(1) r pi p(3) impl src by blast
qed

section \<open>Decoders\<close>

text \<open>
  C11. The frames of a stream are decoded in the order in which they were accepted, each once and with its own bytes:
  from a freshly initialized decoder, in any interleaving of \<open>QueuePush\<close> and of the thread's passes, the frames accepted are
  those taken followed by those that wait in the two queues.
\<close>

theorem decoder_frames_in_order:
  assumes "Decoder_Initialize factory junk param cb Decoder_new = Inr (0, d0)" "decoder_reach d0 ps ts d"
  shows "ps = ts @ waiting d \<and> queues_inv d"
proof -
  have src: "m_queue_src Decoder_new = []" by (simp add: Decoder_new_def)
  obtain impl where f: "Decoder_CreateFactory (di_type param) factory = Some impl"
    using assms(1) by (cases "Decoder_CreateFactory (di_type param) factory") (auto simp: Decoder_Initialize_def)
  from Decoder_Initialize_ok [OF f src, of junk cb] assms(1)
  have "queues_inv d0" "waiting d0 = []" "m_impl d0 \<noteq> None" by auto
  then show ?thesis using decoder_reach_frames [OF assms(2)] by blast
qed

theorem decoder_frames_in_order_witness:
  "\<exists>d0 d. decoder_reach d0 [(frame_meta demo_source, frame_bytes demo_source)] [] d
    \<and> waiting d = [(frame_meta demo_source, [0, 0, 0, 1, 0x65])]"
proof -
  have b: "frame_bytes demo_source = [0, 0, 0, 1, 0x65]" by (simp add: frame_bytes_def demo_source_def ptr_mem_def)
  obtain d0 d where d: "Decoder_Initialize (Factory_Initialize Map.empty) (\<lambda>i. 0) DecoderInfo_new True Decoder_new = Inr (0, d0)"
    "decoder_reach d0 [(frame_meta demo_source, frame_bytes demo_source)] [] d"
    using demo_decoder by blast
  from decoder_frames_in_order [OF d] show ?thesis using d(2) b by auto
qed

text \<open>
  C12. A pass of the decoder's thread, with an entry of the timer table free and whatever FFmpeg returns within its documented sizes, keeps the invariant of the
  thread and gives the callback only pictures whose bytes can all be read; or it ends in \<open>std::length_error\<close>, and then
  a client had asked for a picture of negative size.
\<close>

theorem decode_pass_outcome:
  assumes "pass_inv d l te" "av_sized (pe_av pe)" "timer_free te" "m_impl d = Some impl"
  shows "case DecodePass pe d l te of
      Inl e \<Rightarrow> e = StdLengthError \<and> negative_wanted (decoded_infos (pe_av pe) (di_frame_info (m_info impl)))
    | Inr (dsts, d', l', te') \<Rightarrow> pass_inv d' l' te' \<and> (\<forall>dst \<in> set dsts. list_all readable (dd_frame dst))"
  using DecodePass_ok [OF assms] by (simp add: pass_outcome_def)

theorem decode_pass_outcome_witness:
  "\<exists>d dsts d' l' te'. m_queue_src d \<noteq> [] \<and> DecodePass demo_pass d demo_locals demo_te = Inr (dsts, d', l', te') \<and> pass_inv d' l' te'"
proof -
  obtain d impl where d: "pass_inv d demo_locals demo_te" "m_impl d = Some impl" "di_frame_info (m_info impl) = replicate FT_NUM FrameInfo_new"
    "m_queue_src d \<noteq> []"
    using demo_decoder by auto
  have av: "av_sized (pe_av demo_pass)" using demo_av_ok by (simp add: demo_pass_def)
  have n: "\<not> negative_wanted (decoded_infos (pe_av demo_pass) (di_frame_info (m_info impl)))"
    by (simp add: d(3) negative_wanted_def decoded_infos_def FT_NUM_def FT_ORIGINAL_def numeral_3_eq_3 FrameInfo_new_def wanted_def)
  from decode_pass_outcome [OF d(1) av demo_te_ok(2) d(2)] n
  obtain x where "DecodePass demo_pass d demo_locals demo_te = Inr x" "case x of (dsts, d', l', te') \<Rightarrow> pass_inv d' l' te'"
    by (auto split: sum.splits)
  then show ?thesis using d(4) by (cases x) auto
qed

text \<open>
  C33. Every decoder asks the one timer manager for a locker of the name \<open>Decoding_fps\<close>: when a second thread begins, after
  any number of timer events, the locker \<open>p\<close> the first thread got is deleted and replaced by a new one, of the rate of the
  second decoder; no other locker changes. Lockers are values here: the first thread still has the pointer to \<open>p\<close>.
\<close>

theorem decoders_share_timer:
  assumes "timer_env_ok te" "DecodeBegin d1 te = Inr (d1', l1, te1)" "timer_tick\<^sup>*\<^sup>* te1 te1'"
    and "DecodeBegin d2 te1' = Inr (d2', l2, te2)"
  shows "\<exists>p0 p q rest. timer_fps l1 = Some p0 \<and> tl_name p = ''Decoding_fps'' \<and> tl_period p = tl_period p0
    \<and> lockers_of te1' = add_mset p rest
    \<and> (\<exists>mgr ts cs. DeleteTimerLocker (te_inst te1') ''Decoding_fps'' (te_mgr te1') (te_table te1') = Inr (True, mgr, ts, cs)
        \<and> mset (all_lockers (m_map_timers mgr)) = rest)
    \<and> lockers_of te2 = add_mset q rest \<and> q = begin_locker d2 te1' \<and> timer_fps l2 = Some q
    \<and> (\<forall>r \<in># rest. tl_name r \<noteq> ''Decoding_fps'') \<and> (p \<in># lockers_of te2 \<longleftrightarrow> p = q)"
proof -
  let ?N = "''Decoding_fps''"
  obtain rest0 where b1: "timer_fps l1 = Some (begin_locker d1 te)" "timer_env_ok te1"
      "lockers_of te1 = add_mset (begin_locker d1 te) rest0" "\<forall>r \<in># rest0. tl_name r \<noteq> ?N"
    using DecodeBegin_lockers [OF assms(1,2)] by fastforce
  note tk = timer_ticks_ok [OF assms(3) b1(2)]
  have sg: "(?N, tl_period (begin_locker d1 te)) \<in># signatures (lockers_of te1')"
    using tk b1(3) by (simp add: signatures_def begin_locker_def CTimerLocker_new_def)
  then obtain p where p: "p \<in># lockers_of te1'" "tl_name p = ?N" "tl_period p = tl_period (begin_locker d1 te)"
    by (auto simp: signatures_def)
  have "p \<in> set (all_lockers (m_map_timers (te_mgr te1')))"
    using p(1) by (simp add: lockers_of_def)
  then have nm: "?N \<in> map_names (m_map_timers (te_mgr te1'))"
    using p(2) all_lockers_names by (metis imageI)
  obtain p1 rest where p1: "lockers_of te1' = add_mset p1 rest" "filter_mset (\<lambda>p. tl_name p \<noteq> ?N) (lockers_of te1') = rest" "tl_name p1 = ?N"
    using named_locker [OF _ nm] tk by blast
  have other: "\<forall>r \<in># rest. tl_name r \<noteq> ?N" by (simp flip: p1(2))
  have eq: "p1 = p" using p(1,2) other by (auto simp: p1(1))
  obtain mgr ts cs where d: "DeleteTimerLocker (te_inst te1') ?N (te_mgr te1') (te_table te1') = Inr (True, mgr, ts, cs)"
      "mset (all_lockers (m_map_timers mgr)) = rest" "lockers_of te2 = add_mset (begin_locker d2 te1') rest"
      "timer_fps l2 = Some (begin_locker d2 te1')"
    using DecodeBegin_lockers [OF _ assms(4)] tk nm unfolding p1(2) by auto
  have "p \<in># lockers_of te2 \<longleftrightarrow> p = begin_locker d2 te1'"
    using p(2) other by (auto simp: d(3))
  with b1(1) p(2,3) p1(1) eq other d show ?thesis by blast
qed

theorem decoders_share_timer_witness:
  "\<exists>d1' l1 te1 d2' l2 te2 p0 q. DecodeBegin Decoder_new demo_te = Inr (d1', l1, te1)
    \<and> DecodeBegin (Decoder_new\<lparr>m_adaptive_fps := 10\<rparr>) te1 = Inr (d2', l2, te2)
    \<and> timer_fps l1 = Some p0 \<and> timer_fps l2 = Some q \<and> p0 \<notin># lockers_of te2 \<and> q \<in># lockers_of te2"
proof -
  let ?r = "cbind (DecodeBegin Decoder_new demo_te) (\<lambda>(d1', l1, te1). DecodeBegin (Decoder_new\<lparr>m_adaptive_fps := 10\<rparr>) te1)"
  have "\<not> isl ?r" by code_simp
  then obtain d1' l1 te1 d2' l2 te2 where r: "DecodeBegin Decoder_new demo_te = Inr (d1', l1, te1)"
      "DecodeBegin (Decoder_new\<lparr>m_adaptive_fps := 10\<rparr>) te1 = Inr (d2', l2, te2)"
    by (cases "DecodeBegin Decoder_new demo_te") (auto simp: isl_def cbind_Inr_iff, metis prod_cases3 sum.collapse(2) isl_def)
  have b: "timer_fps l1 = Some (begin_locker Decoder_new demo_te)" "tl_period (begin_locker Decoder_new demo_te) = 33"
    using DecodeBegin_lockers [OF demo_te_ok(1) r(1)]
    by (auto simp: begin_locker_def begin_fps_def Decoder_new_def demo_te_def CTimerLocker_new_def DECODE_DEFAULT_FPS_def c_div_def)
  from decoders_share_timer [OF demo_te_ok(1) r(1) rtranclp.rtrancl_refl r(2)] obtain p q rest where
    s: "lockers_of te1 = add_mset p rest" "lockers_of te2 = add_mset q rest" "q = begin_locker (Decoder_new\<lparr>m_adaptive_fps := 10\<rparr>) te1"
      "timer_fps l2 = Some q" "\<forall>r \<in># rest. tl_name r \<noteq> ''Decoding_fps''"
    by blast
  have "100 \<le> tl_period q"
    by (simp add: s(3) begin_locker_def begin_fps_def CTimerLocker_new_def c_div_def)
  then have "begin_locker Decoder_new demo_te \<notin># lockers_of te2"
    using s(2,5) b(2) by (auto simp: begin_locker_def CTimerLocker_new_def)
  then show ?thesis using r b(1) s(2,4) by (intro exI conjI) (assumption | simp)+
qed

section \<open>Camera\<close>

definition demo_session :: Session_RTSP where
  "demo_session = Session_RTSP_new\<lparr>rs_thread := \<lparr>joinable = True, m_thread_name = []\<rparr>, rs_pc := Looping, rs_at := InEventLoop,
     rs_running := True, m_rtspClient := Some (CustomRTSPClient_new True)\<rparr>"

definition demo_stream :: "decode_thread \<Rightarrow> Streamer" where
  "demo_stream t = (Streamer_new 0)\<lparr>m_session := Some demo_session, m_decoder := Some t, m_initialize := True, m_activate := True\<rparr>"

definition demo_camera :: "decode_thread \<Rightarrow> Camera" where
  "demo_camera t = (Camera_new RepeatWorkProc_new)\<lparr>m_streamers := [Some (demo_stream t), Some (Streamer_new 1), Some (Streamer_new 2)]\<rparr>"

definition demo_thread :: "Decoder \<Rightarrow> decode_thread" where
  "demo_thread d = \<lparr>dt_decoder = d, dt_locals = demo_locals, dt_pc = Looping, dt_waiting = False\<rparr>"

definition demo_sys :: cam_sys where
  "demo_sys = \<lparr>cs_shm = (\<lambda>a. None), cs_timers = demo_te, cs_unlocks = []\<rparr>"

text \<open>A camera whose first stream is active, with the decoder above.\<close>

lemma demo_camera_ok:
  assumes "pass_inv d l te" "m_impl d = Some impl" "impl_ok impl" "joinable (dec_thread d)"
  shows "camera_inv (demo_camera (demo_thread d))" "streamer_at (demo_camera (demo_thread d)) 0 = demo_stream (demo_thread d)"
proof -
  have q: "queues_inv d" using assms(1) by (simp add: pass_inv_def)
  have "decoder_inv (demo_thread d)"
    using assms(2-4) queues_inv_stream [OF q] by (simp add: decoder_inv_def demo_thread_def has_infos_def impl_ok_def)
  then have "streamer_inv (demo_stream (demo_thread d))"
    using q by (simp add: streamer_inv_def demo_stream_def demo_session_def session_inv_def demo_thread_def)
  then show "camera_inv (demo_camera (demo_thread d))"
    using Streamer_new_inv by (simp add: camera_inv_def demo_camera_def Camera_new_def)
  show "streamer_at (demo_camera (demo_thread d)) 0 = demo_stream (demo_thread d)"
    by (simp add: streamer_at_def demo_camera_def)
qed

text \<open>
  C8. Whatever the clients send and however requests, checks, timers, received frames and the threads of the sessions
  and decoders are interleaved, the camera keeps its shape: three streamers that exist, active only when initialized,
  each with a session and a decoder whose threads are joinable exactly when started, and senders of different names.
\<close>

theorem camera_keeps_shape:
  assumes "Camera_Initialize cmd (Camera_new w) = Inr (r, c)" "camera_step\<^sup>*\<^sup>* (c, sys) (c', sys')"
  shows "length (m_streamers c') = 3 \<and> distinct (names (m_send_manager c'))
    \<and> (\<forall>x \<in> set (m_streamers c'). \<exists>st. x = Some st \<and> (m_activate st \<longrightarrow> m_initialize st)
        \<and> (m_initialize st \<longrightarrow> (\<exists>s t. m_session st = Some s \<and> m_decoder st = Some t \<and> queues_inv (dt_decoder t)
            \<and> (joinable (rs_thread s) \<longleftrightarrow> rs_pc s \<noteq> NotStarted) \<and> (joinable (dec_thread (dt_decoder t)) \<longleftrightarrow> dt_pc t \<noteq> NotStarted))))"
proof -
  have "camera_inv c'" using camera_reach_inv [OF assms(2)] Camera_Initialize_inv [OF assms(1)] by simp
  then show ?thesis by (fastforce simp: camera_inv_def streamer_inv_def session_inv_def decoder_inv_def)
qed

theorem camera_keeps_shape_witness:
  "\<exists>c c'. Camera_Initialize CmdLineParser_new (Camera_new RepeatWorkProc_new) = Inr (0, c)
    \<and> camera_step\<^sup>*\<^sup>* (c, demo_sys) (c', demo_sys) \<and> c \<noteq> c' \<and> length (m_streamers c') = 3"
proof -
  obtain c where c: "Camera_Initialize CmdLineParser_new (Camera_new RepeatWorkProc_new) = Inr (0, c)"
    "m_queue_repeat_work (m_repeqt_worker c) = []"
    by (simp add: Camera_Initialize_def ReadCmdLineValue_int_def ReadCmdLineValue_conv_def ReadCmdLineValue_string_def FindItem_def
        CmdLineParser_new_def Camera_new_def RepeatWorkProc_new_def)
  let ?c' = "c\<lparr>m_repeqt_worker := repeat_callback 0 (m_repeqt_worker c)\<rparr>"
  have st: "camera_step\<^sup>*\<^sup>* (c, demo_sys) (?c', demo_sys)" by (rule r_into_rtranclp) (rule s_timer)
  have "m_queue_repeat_work (m_repeqt_worker ?c') = [0]" using c(2) by (simp add: repeat_callback_def)
  then have "c \<noteq> ?c'" using c(2) by (metis list.distinct(1))
  then show ?thesis using c(1) st camera_keeps_shape [OF c(1) st] by blast
qed

text \<open>
  C13. A request for frames is undefined behaviour exactly when its stream index is outside 0..2, or its frame type is
  and the stream is active; no other request of a client fails.
\<close>

theorem stream_request_fails_iff:
  assumes "camera_inv c"
  shows "(\<exists>e. OnRecvStreamRequest (PStreamRequest p) c sys = Inl e) \<longleftrightarrow>
    \<not> (0 \<le> rq_stream_index p \<and> rq_stream_index p < 3)
    \<or> IsActivate (streamer_at c (rq_stream_index p)) \<and> \<not> (0 \<le> rq_frame_type p \<and> rq_frame_type p < 3)"
  using OnRecvStreamRequest_cases [OF assms, of p sys] by (auto simp: request_ok_def index_ok_def FT_NUM_def split: if_splits)

theorem stream_request_fails_iff_witness:
  "\<exists>c. camera_inv c \<and> (\<exists>e. OnRecvStreamRequest (PStreamRequest (Packet_StreamRequest_new\<lparr>rq_stream_index := 3\<rparr>)) c demo_sys = Inl e)
    \<and> (\<exists>e. OnRecvStreamRequest (PStreamRequest (Packet_StreamRequest_new\<lparr>rq_frame_type := -1\<rparr>)) c demo_sys = Inl e)
    \<and> \<not> (\<exists>e. OnRecvStreamRequest (PStreamRequest Packet_StreamRequest_new) c demo_sys = Inl e)"
proof -
  obtain d impl where d: "pass_inv d demo_locals demo_te" "m_impl d = Some impl" "impl_ok impl" "joinable (dec_thread d)"
    using demo_decoder by blast
  note c = demo_camera_ok [OF d]
  have a: "IsActivate (streamer_at (demo_camera (demo_thread d)) 0)" by (simp add: c(2) demo_stream_def IsActivate_def)
  note iff = stream_request_fails_iff [OF c(1)]
  show ?thesis
    using c(1) a by (intro exI [of _ "demo_camera (demo_thread d)"]) (simp only: iff, simp add: Packet_StreamRequest_new_def)
qed

text \<open>
  C9. A client can end the camera process: after a request for a picture whose buffer size is negative, the thread of the
  stream's decoder ends in \<open>std::length_error\<close> in the first pass whose frame FFmpeg decodes.
\<close>

theorem negative_request_ends_process:
  assumes "camera_inv c" "index_ok (rq_stream_index p)" "IsActivate (streamer_at c (rq_stream_index p))"
    and "0 < rq_frame_type p" "rq_frame_type p < int FT_NUM" "wanted (requested_info p)" "want_size (requested_info p) < 0"
    and "m_decoder (streamer_at c (rq_stream_index p)) = Some t" "pass_inv (dt_decoder t) (dt_locals t) te" "av_sized (pe_av pe)"
  shows "\<exists>c' sys' t'. OnRecvStreamRequest (PStreamRequest p) c sys = Inr (c', sys') \<and> camera_inv c'
    \<and> m_decoder (streamer_at c' (rq_stream_index p)) = Some t' \<and> t' = with_info (nat (rq_frame_type p)) (requested_info p) t
    \<and> pass_inv (dt_decoder t') (dt_locals t) te
    \<and> (pass_decodes pe (dt_decoder t') (dt_locals t) \<longrightarrow> DecodePass pe (dt_decoder t') (dt_locals t) te = Inl StdLengthError)"
proof -
  have k: "0 < nat (rq_frame_type p)" "nat (rq_frame_type p) < FT_NUM" using assms(4,5) by linarith+
  show ?thesis
    using request_decoder [OF assms(1-5,8), of sys] negative_info_pass [OF assms(9) k assms(6,7,10)] by auto
qed

definition demo_request :: Packet_StreamRequest where
  "demo_request = \<lparr>rq_queue_name = ''CLIENT'', rq_stream_index = 0, video_streaming = True, rq_frame_type = 1,
     pixel_format = VPIX_int VPIX_FMT_BGR24, rq_width = -10, rq_height = 10\<rparr>"

theorem negative_request_ends_process_witness:
  "\<exists>c c' sys' t'. camera_inv c \<and> OnRecvStreamRequest (PStreamRequest demo_request) c demo_sys = Inr (c', sys')
    \<and> m_decoder (streamer_at c' 0) = Some t' \<and> DecodePass demo_pass (dt_decoder t') demo_locals demo_te = Inl StdLengthError"
proof -
  obtain d impl x where d: "pass_inv d demo_locals demo_te" "m_impl d = Some impl" "impl_ok impl" "joinable (dec_thread d)"
    "m_queue_src d = [x]" "qv_time x = 0" "queue_accumulate_time (m_info impl) = 1000"
    using demo_decoder by blast
  note c = demo_camera_ok [OF d(1-4)]
  let ?c = "demo_camera (demo_thread d)" and ?t = "demo_thread d"
  have r: "rq_stream_index demo_request = 0" "rq_frame_type demo_request = 1" by (simp_all add: demo_request_def)
  have t: "dt_decoder ?t = d" "dt_locals ?t = demo_locals" by (simp_all add: demo_thread_def)
  have h: "index_ok (rq_stream_index demo_request)" "IsActivate (streamer_at ?c (rq_stream_index demo_request))"
    "0 < rq_frame_type demo_request" "rq_frame_type demo_request < int FT_NUM"
    "wanted (requested_info demo_request)" "want_size (requested_info demo_request) < 0"
    "m_decoder (streamer_at ?c (rq_stream_index demo_request)) = Some ?t" "pass_inv (dt_decoder ?t) (dt_locals ?t) demo_te"
    "av_sized (pe_av demo_pass)"
    using d(1) demo_av_ok
    by (simp_all add: r c(2) index_ok_def demo_stream_def IsActivate_def FT_NUM_def wanted_def want_size_def requested_info_def demo_request_def
        GetCalcBufferSize_def c_int_def c_div_def t demo_pass_def)
  obtain c' sys' t' where t': "OnRecvStreamRequest (PStreamRequest demo_request) ?c demo_sys = Inr (c', sys')"
    "m_decoder (streamer_at c' 0) = Some t'" "t' = with_info 1 (requested_info demo_request) ?t" "pass_inv (dt_decoder t') demo_locals demo_te"
    "pass_decodes demo_pass (dt_decoder t') demo_locals \<longrightarrow> DecodePass demo_pass (dt_decoder t') demo_locals demo_te = Inl StdLengthError"
    using negative_request_ends_process [OF c(1) h, of demo_sys] by (auto simp: r demo_thread_def)
  let ?impl = "impl\<lparr>m_info := (m_info impl)\<lparr>di_frame_info := (di_frame_info (m_info impl))[1 := requested_info demo_request]\<rparr>\<rparr>"
  have i: "m_impl (dt_decoder t') = Some ?impl" "m_queue_src (dt_decoder t') = [x]" "queues_inv (dt_decoder t')" "impl_ok ?impl"
    using t'(3) d(1-5) by (simp_all add: with_info_def demo_thread_def pass_inv_def impl_ok_def)
  have "pass_decodes demo_pass (dt_decoder t') demo_locals"
    using first_pass_decodes [OF i(3,1,4,2), of demo_pass demo_locals] d(6,7)
    by (simp add: demo_pass_def demo_locals_def demo_av_def demo_fp_def elapsed_ms_def GetInfo_def)
  then show ?thesis using c(1) t' by blast
qed

text \<open>
  C10. When the server refuses \<open>PLAY\<close>, or the last sink of a stream ends, the client is closed while the session goes on with it:
  the session's thread makes no further step, and three seconds without frames later the check of the stream makes the
  thread use the destroyed client.
\<close>

theorem refused_play_ends_process:
  assumes "camera_inv c" "index_ok i" "IsActivate (streamer_at c i)" "m_session (streamer_at c i) = Some s"
    and "rs_pc s = Looping" "rs_at s = InEventLoop" "m_rtspClient s = Some cl" "rc_open cl" "\<not> m_eventLoopWatchVariable s"
    and "ends_stream (re_event e) cl"
    and "\<not> GetIntervalPushFrameTime (ck_fp ck) (ck_now ck) (streamer_at c i) < 3000" "je_session (ck_join ck) \<noteq> []"
  shows "\<exists>s1 calls. RTSP_turn e s = Inr (s1, calls) \<and> CloseClient \<in> set calls
    \<and> (\<forall>es. RTSP_turns es s1 = Inr (s1, []))
    \<and> OnTimerCheckStream ck i (put_streamer i ((streamer_at c i)\<lparr>m_session := Some s1\<rparr>) c) sys = Inl DanglingPointer"
  using refused_play_check [OF assms] .

definition demo_events :: "rtsp_event \<Rightarrow> rtsp_env" where
  "demo_events ev = \<lparr>re_created = True, re_sent = True, re_event = ev\<rparr>"

definition demo_check :: check_env where
  "demo_check = \<lparr>ck_fp = demo_fp, ck_now = 3000000000, ck_join = \<lparr>je_session = [demo_events NoEvent], je_decoder = []\<rparr>, ck_av = demo_av,
     ck_activate_time = 0, ck_sync = (\<lambda>i. \<lparr>w_sem = 0, w_mutex = 0, rel_ok = True, rel_error = 0\<rparr>), ck_sync2 = (\<lambda>i. \<lparr>w_sem = 0, w_mutex = 0, rel_ok = True, rel_error = 0\<rparr>)\<rparr>"

theorem refused_play_ends_process_witness:
  "\<exists>c s1 calls. camera_inv c \<and> RTSP_turn (demo_events (Played 1)) demo_session = Inr (s1, calls) \<and> CloseClient \<in> set calls
    \<and> OnTimerCheckStream demo_check 0 (put_streamer 0 ((streamer_at c 0)\<lparr>m_session := Some s1\<rparr>) c) demo_sys = Inl DanglingPointer"
proof -
  obtain d impl where d: "pass_inv d demo_locals demo_te" "m_impl d = Some impl" "impl_ok impl" "joinable (dec_thread d)"
    using demo_decoder by blast
  note c = demo_camera_ok [OF d]
  have h: "index_ok 0" "IsActivate (streamer_at (demo_camera (demo_thread d)) 0)"
    "m_session (streamer_at (demo_camera (demo_thread d)) 0) = Some demo_session"
    "rs_pc demo_session = Looping" "rs_at demo_session = InEventLoop" "m_rtspClient demo_session = Some (CustomRTSPClient_new True)"
    "rc_open (CustomRTSPClient_new True)" "\<not> m_eventLoopWatchVariable demo_session"
    "ends_stream (re_event (demo_events (Played 1))) (CustomRTSPClient_new True)"
    by (simp_all add: c(2) index_ok_def IsActivate_def demo_stream_def demo_session_def CustomRTSPClient_new_def Session_RTSP_new_def
        demo_events_def ends_stream_def)
  have k: "\<not> GetIntervalPushFrameTime (ck_fp demo_check) (ck_now demo_check) (streamer_at (demo_camera (demo_thread d)) 0) < 3000"
    "je_session (ck_join demo_check) \<noteq> []"
    by (simp_all add: c(2) demo_check_def GetIntervalPushFrameTime_def demo_stream_def Streamer_new_def demo_fp_def elapsed_ms_def c_int_def)
  from refused_play_ends_process [OF c(1) h k, of demo_sys] show ?thesis using c(1) by blast
qed

section \<open>Sessions and threads\<close>

text \<open>
  C30. A session opens its URL at most once until it is deactivated: whatever the server and the network do, and although
  a failed description or an expired timer calls \<open>Reconnect\<close>, at most one \<open>DESCRIBE\<close> is sent after \<open>Activate\<close>.
\<close>

theorem session_opens_once:
  assumes "RTSP_Activate (Session_RTSP_new\<lparr>rs_info := info\<rparr>) = Inr (r, s)" "RTSP_turns es s = Inr (s', cs)"
  shows "describes cs \<le> 1"
proof -
  have "open_budget s = 1"
    using assms(1) by (auto simp: RTSP_Activate_def StartThread_def SaveThreadName_def Session_RTSP_new_def InnerThread_new_def
        open_budget_def Locker_new_def)
  then show ?thesis using RTSP_turns_budget [OF assms(2)] by linarith
qed

theorem session_opens_once_witness:
  "\<exists>s s' cs. RTSP_Activate (Session_RTSP_new\<lparr>rs_info := SessionInfo_new\<rparr>) = Inr (0, s)
    \<and> RTSP_turns (map demo_events [NoEvent, NoEvent, StreamTimer, NoEvent, NoEvent, NoEvent, NoEvent]) s = Inr (s', cs)
    \<and> SetReconnect \<in> set cs \<and> describes cs = 1"
proof -
  obtain s where s: "RTSP_Activate (Session_RTSP_new\<lparr>rs_info := SessionInfo_new\<rparr>) = Inr (0, s)"
    "rs_pc s = Started" "m_locker s = Locker_new" "rs_info s = SessionInfo_new"
    by (simp add: RTSP_Activate_def StartThread_def SaveThreadName_def Session_RTSP_new_def InnerThread_new_def)
  have "\<exists>s' cs. RTSP_turns (map demo_events [NoEvent, NoEvent, StreamTimer, NoEvent, NoEvent, NoEvent, NoEvent]) s = Inr (s', cs)
      \<and> SetReconnect \<in> set cs \<and> 1 \<le> describes cs"
    using s(2-4) by (simp add: RTSP_turn_def openURL_def GetSessionInfo_def SessionInfo_new_def demo_events_def CustomRTSPClient_new_def
        streamTimerHandler_def with_client_def shutdownStream_def StreamClientState_new_def end_pass_def WaitProc_def Locker_new_def
        Reconnect_def Let_def)
  then obtain s' cs where t: "RTSP_turns (map demo_events [NoEvent, NoEvent, StreamTimer, NoEvent, NoEvent, NoEvent, NoEvent]) s = Inr (s', cs)"
    "SetReconnect \<in> set cs" "1 \<le> describes cs" by blast
  from session_opens_once [OF s(1) t(1)] show ?thesis using s(1) t by fastforce
qed

text \<open>
  C31. \<open>Deactivate\<close> of the repeating worker returns exactly when its thread had reached its loop and gets a turn: a thread that
  was started and has not yet begun sets the running flag after \<open>Deactivate\<close> cleared it, and the join never ends.
\<close>

theorem repeat_deactivate_returns_iff:
  assumes "repeat_inv p" "manager_inv inst ts mgr" "joinable (rp_thread p)" "rp_pc p = Started \<or> rp_pc p = Looping"
  shows "(\<exists>n r. RW_Deactivate inst n p mgr ts = Inr (Some r)) \<longleftrightarrow> rp_pc p = Looping"
  using RW_Deactivate_returns_iff(1) [OF assms] by blast

theorem repeat_deactivate_returns_iff_witness:
  "\<exists>p :: int RepeatWorkProc. RW_Activate RepeatWorkProc_new = Inr (0, p)
    \<and> (\<forall>n r. RW_Deactivate (te_inst demo_te) n p (te_mgr demo_te) (te_table demo_te) \<noteq> Inr (Some r))
    \<and> (\<exists>n r. RW_Deactivate (te_inst demo_te) n (snd (RW_turn p)) (te_mgr demo_te) (te_table demo_te) = Inr (Some r))"
proof -
  obtain p :: "int RepeatWorkProc" where p: "RW_Activate RepeatWorkProc_new = Inr (0, p)" "repeat_inv p" "joinable (rp_thread p)" "rp_pc p = Started"
    by (simp add: RW_Activate_def RepeatWorkProc_new_def StartThread_def SaveThreadName_def InnerThread_new_def repeat_inv_def
        event_ok_def Locker_new_def)
  have q: "repeat_inv (snd (RW_turn p))" "joinable (rp_thread (snd (RW_turn p)))" "rp_pc (snd (RW_turn p)) = Looping"
    using p(2-4) by (simp_all add: RW_turn_def repeat_inv_def event_ok_def)
  have m: "manager_inv (te_inst demo_te) (te_table demo_te) (te_mgr demo_te)" using demo_te_ok(1) by (simp add: timer_env_ok_def)
  from repeat_deactivate_returns_iff [OF p(2) m p(3)] repeat_deactivate_returns_iff [OF q(1) m q(2)]
  show ?thesis using p(1,4) q(3) by auto
qed

section \<open>The process and its files\<close>

text \<open>
  C32. Starting a second process with the name of a running one ends the running one: the second fails with
  \<open>APP_EXIST_PROCESS_NAME\<close>, but on the way it signals the event that both share, and the main loop of the first leaves.
\<close>

theorem second_instance_ends_first:
  assumes "App_Initialize True w1 argc1 argv1 Application_new ev = Inr (0, app1, ev1)"
    and "App_Initialize True w2 argc2 argv2 Application_new ev1 = Inr (r, app2, ev2)" "m_process_name app2 = m_process_name app1"
  shows "r = APP_ERROR_int APP_EXIST_PROCESS_NAME \<and> GetExitCode app2 = r \<and> WaitForExitEvent True app1 ev2 = Some True
    \<and> main_turn (False, ev2) app1 AtWait = Left"
  using second_instance [OF assms] by (simp add: GetExitCode_def)

theorem second_instance_ends_first_witness:
  "\<exists>app1 ev1 app2 ev2. App_Initialize True RepeatWorkProc_new 0 None Application_new Map.empty = Inr (0, app1, ev1)
    \<and> WaitForExitEvent True app1 ev1 = None
    \<and> App_Initialize True RepeatWorkProc_new 0 None Application_new ev1 = Inr (1, app2, ev2) \<and> WaitForExitEvent True app1 ev2 = Some True"
proof -
  obtain app1 ev1 where 1: "App_Initialize True RepeatWorkProc_new 0 None Application_new Map.empty = Inr (0, app1, ev1)"
    "ev1 = [''PROCESS_CAMERA'' \<mapsto> False]" "m_process_name app1 = ''PROCESS_CAMERA''" "m_singleton_event app1 = Some ''PROCESS_CAMERA''"
    by (simp add: App_Initialize_def ParseCommandLine_def App_ReadCmdLineValue_def ReadCmdLineValue_string_def FindItem_def Application_new_def
        CmdLineParser_new_def CreateEventA_def Camera_Initialize_def ReadCmdLineValue_int_def ReadCmdLineValue_conv_def Let_def)
  obtain app2 ev2 where 2: "App_Initialize True RepeatWorkProc_new 0 None Application_new ev1 = Inr (1, app2, ev2)"
    "m_process_name app2 = ''PROCESS_CAMERA''"
    by (simp add: 1(2) App_Initialize_def ParseCommandLine_def App_ReadCmdLineValue_def ReadCmdLineValue_string_def FindItem_def
        Application_new_def CmdLineParser_new_def CreateEventA_def SetExitCode_def Let_def)
  have "WaitForExitEvent True app1 ev1 = None" by (simp add: WaitForExitEvent_def 1)
  then show ?thesis using second_instance_ends_first [OF 1(1) 2(1)] 1 2 by auto
qed

text \<open>
  C34. The setup file of a camera is read back as it was saved, for ports, times and rates that are \<open>int\<close>s and names the two
  conversions keep, when the save succeeded and protobuf takes the message (its strings are valid UTF-8); the camera id and the
  file name are not part of it.
\<close>

theorem setup_file_roundtrip:
  assumes "codec_ok c e" "pb_valid c (camera_message utf8_of info)" "unicode_of (utf8_of (ci_camera_name info)) = ci_camera_name info"
    and "length (ci_stream_info info) = 3" "list_all stream_ok (ci_stream_info info)" "length (ci_stream_info info0) = 3"
    and "SaveCameraInfoPB utf8_of c Written path info fs = (r, fs')"
  shows "r = 0 \<and> LoadCameraInfoPB unicode_of c True fs' path info0
    = Inr (0, info\<lparr>ci_camera_id := ci_camera_id info0, ci_camera_file := ci_camera_file info0\<rparr>)"
  using SaveCamera_Load [where unicode_of = unicode_of and utf8_of = utf8_of, OF assms] .

definition demo_info :: CameraInfo where
  "demo_info = CameraInfo_new\<lparr>ci_camera_guid := ''GUID'',
     ci_stream_info := [StreamInfo_new\<lparr>sf_port := 8554, sf_stream_used := True\<rparr>, StreamInfo_new, StreamInfo_new]\<rparr>"

definition demo_codec :: "PB_Camera pb_codec" where
  "demo_codec = (let msg = camera_message (\<lambda>w. []) demo_info in
     \<lparr>pb_valid = \<lambda>x. x = msg, pb_write = \<lambda>x. [1],
      pb_parse = \<lambda>bs. if bs = [] then Some \<lparr>pb_camera_guid = [], pb_camera_name = [], pb_stream_info = []\<rparr> else Some msg\<rparr>)"

theorem setup_file_roundtrip_witness:
  "\<exists>fs'. SaveCameraInfoPB (\<lambda>w. []) demo_codec Written ''camera.pb'' demo_info Map.empty = (0, fs')
    \<and> LoadCameraInfoPB (\<lambda>s. []) demo_codec True fs' ''camera.pb'' CameraInfo_new = Inr (0, demo_info)"
proof -
  have h: "codec_ok demo_codec \<lparr>pb_camera_guid = [], pb_camera_name = [], pb_stream_info = []\<rparr>"
    "pb_valid demo_codec (camera_message (\<lambda>w. []) demo_info)" "[] = ci_camera_name demo_info"
    "length (ci_stream_info demo_info) = 3" "list_all stream_ok (ci_stream_info demo_info)" "length (ci_stream_info CameraInfo_new) = 3"
    by (simp_all add: codec_ok_def demo_codec_def demo_info_def CameraInfo_new_def stream_ok_def StreamInfo_new_def int32_range_def Let_def)
  obtain r fs' where s: "SaveCameraInfoPB (\<lambda>w. []) demo_codec Written ''camera.pb'' demo_info Map.empty = (r, fs')" by fastforce
  have i: "demo_info\<lparr>ci_camera_id := ci_camera_id CameraInfo_new, ci_camera_file := ci_camera_file CameraInfo_new\<rparr> = demo_info"
    by (simp add: demo_info_def CameraInfo_new_def)
  from setup_file_roundtrip [where unicode_of = "\<lambda>s. []" and utf8_of = "\<lambda>w. []", OF h s] show ?thesis using s i h(3) by auto
qed

end
