(* ===== verification/Frame_Delivery.thy ===== *)
theory Frame_Delivery
  imports Camera_Inv
begin

text \<open>
  The camera and its clients together: a turn of the receive worker with the callback the camera gives it, what a broadcast
  does to the queues of all clients, and the way of a picture from a client's request to the client's receiver.
\<close>

section \<open>The receive worker of the camera\<close>

text \<open>A turn of \<open>ThreadLoop\<close> whose callback is \<open>OnRecvWorker\<close>; \<open>None\<close> is a turn that does not return.\<close>

definition Camera_recv_turn :: "recv_env \<Rightarrow> turn_os \<Rightarrow> Camera \<Rightarrow> cam_sys \<Rightarrow> (loop_ctl \<times> Camera \<times> cam_sys) option cpp" where
  "Camera_recv_turn rv os c sys = (case ThreadLoop_turn os (m_recv_worker c) (cs_shm sys) of
       None \<Rightarrow> Inr None
     | Some (Inl e) \<Rightarrow> Inl e
     | Some (Inr (ctl, r, m, ds, cs)) \<Rightarrow>
         let c1 = c\<lparr>m_recv_worker := r\<rparr>; sys1 = sys\<lparr>cs_shm := m\<rparr> in
         (case ds of [] \<Rightarrow> Inr (Some (ctl, c1, sys1))
          | d # ds' \<Rightarrow> jbind (OnRecvWorker rv d c1 sys1) (\<lambda>(c2, sys2). Inr (Some (ctl, c2, sys2)))))"

section \<open>Only the own queue changes\<close>

lemma shm_local:
  assumes "m' b = m b"
  shows "shm_inv b m' = shm_inv b m" "shm_contents b m' = shm_contents b m" "shm_capacity b m' = shm_capacity b m"
  using assms by (simp_all add: shm_inv_def shm_contents_def shm_capacity_def)

definition others_kept :: "nat \<Rightarrow> shm \<Rightarrow> shm \<Rightarrow> bool" where
  "others_kept a m m' \<longleftrightarrow> (\<forall>b. b \<noteq> a \<longrightarrow> m' b = m b)"

lemma others_kept_refl [simp]: "others_kept a m m"
  by (simp add: others_kept_def)

lemma others_kept_trans: "others_kept a m m' \<Longrightarrow> others_kept a m' m'' \<Longrightarrow> others_kept a m m''"
  by (simp add: others_kept_def)

lemma store_others: "m_queue_info q = Some a \<Longrightarrow> others_kept a m (store q x m)"
  by (simp add: others_kept_def store_def)

lemma QS_Push_others: "QS_Push b n q m = Inr (r, m') \<Longrightarrow> m_queue_info q = Some a \<Longrightarrow> others_kept a m m'"
  by (auto simp: QS_Push_def cbind_Inr_iff store_others split: if_splits)

lemma QS_Front_view: "QS_Front b n q m = Inr (r, b', q') \<Longrightarrow> m_queue_info q' = m_queue_info q"
  by (auto simp: QS_Front_def cbind_Inr_iff split: if_splits)

lemma QS_Pop_others: "QS_Pop q m = Inr (r, q', m') \<Longrightarrow> m_queue_info q = Some a \<Longrightarrow> m_queue_info q' = Some a \<and> others_kept a m m'"
  by (auto simp: QS_Pop_def cbind_Inr_iff store_others split: if_splits)

lemma SendPacket_others:
  assumes "SendPacket p ms os s m = Inr (ret, s', m', cs)" "mapped a (m_send_queue s)"
  shows "others_kept a m m'"
proof -
  obtain w q cs' ret' where
    sp: "SyncProducer (func_producer w) (word_of_int ms) (m_send_sync s) os (m_send_queue s, m) = Inr (ret', (q, m'), cs')"
    using assms(1) by (auto simp: SendPacket_def send_written_def Let_def cbind_Inr_iff split: if_splits)
  have "others_kept a m (snd (q, m'))"
    using assms(2)
    by (intro sync_access_keeps [OF sp [unfolded SyncProducer_def], where I = "\<lambda>x. others_kept a m (snd x)"])
       (auto simp: func_producer_def cbind_Inr_iff mapped_def dest: QS_Push_others)
  then show ?thesis by simp
qed

lemma CallbackConsumer_others:
  assumes "CallbackConsumer (buf, q, m) = Inr (ok, buf', q', m')" "m_queue_info q = Some a"
  shows "m_queue_info q' = Some a \<and> others_kept a m m'"
  using assms
  by (auto simp: CallbackConsumer_def cbind_Inr_iff Let_def split: if_splits
      dest!: QS_Front_view dest: QS_Pop_others [where a = a])

lemma ThreadLoop_turn_others:
  assumes "ThreadLoop_turn os r m = Some (Inr (ctl, r', m', ds, cs))" "mapped a (m_recv_queue r)"
  shows "others_kept a m m'"
proof (cases "running os")
  case False
  then show ?thesis using assms(1) by (simp add: ThreadLoop_turn_def)
next
  case True
  then obtain ret buf q cs' where sc: "SyncConsumer (func_consumer (running_cb os)) INFINITE_ms (m_recv_sync r) (turn_sync os)
      (m_packet_buffer r, m_recv_queue r, m) = Inr (ret, (buf, q, m'), cs')"
    using assms(1) by (auto simp: ThreadLoop_turn_def Let_def split: sum.splits prod.splits if_splits option.splits)
  have "others_kept a m (snd (snd (buf, q, m')))"
    using assms(2)
    by (intro sync_access_keeps [OF sc [unfolded SyncConsumer_def], where I = "\<lambda>x. others_kept a m (snd (snd x))"])
       (auto simp: func_consumer_def mapped_def split: if_splits dest: CallbackConsumer_others)
  then show ?thesis by simp
qed

section \<open>A broadcast\<close>

text \<open>The object a worker sends to, and workers that send to different well-formed queues.\<close>

definition queue_obj :: "SendWorkInfo \<Rightarrow> nat" where
  "queue_obj item = the (m_queue_info (m_send_queue (send_worker item)))"

definition senders_ready :: "SendWorkers \<Rightarrow> shm \<Rightarrow> bool" where
  "senders_ready items m \<longleftrightarrow> distinct (map queue_obj items)
     \<and> (\<forall>item \<in> set items. sender_ok (queue_obj item) (send_worker item) \<and> shm_inv (queue_obj item) m)"

lemma senders_ready_simps [simp]:
  "senders_ready [] m"
  "senders_ready (item # items) m \<longleftrightarrow> sender_ok (queue_obj item) (send_worker item) \<and> shm_inv (queue_obj item) m
     \<and> queue_obj item \<notin> queue_obj ` set items \<and> senders_ready items m"
  by (auto simp: senders_ready_def)

lemma senders_ready_others:
  assumes "senders_ready items m" "others_kept a m m'" "a \<notin> queue_obj ` set items"
  shows "senders_ready items m'"
proof -
  have "shm_inv (queue_obj item) m'" if i: "item \<in> set items" for item
  proof -
    have "queue_obj item \<noteq> a" using assms(3) i by blast
    then have "m' (queue_obj item) = m (queue_obj item)" using assms(2) by (simp add: others_kept_def)
    then show ?thesis using shm_local(1) [of m' "queue_obj item" m] assms(1) i by (simp add: senders_ready_def)
  qed
  then show ?thesis using assms(1) by (simp add: senders_ready_def)
qed

lemma sender_ok_obj: "sender_ok a (send_worker item) \<Longrightarrow> queue_obj item = a"
  by (simp add: sender_ok_def mapped_def queue_obj_def)

text \<open>What a worker's queue holds after its turn in a broadcast.\<close>

definition after_send :: "sync_os \<Rightarrow> PacketStruct option \<Rightarrow> u8 list \<Rightarrow> nat \<Rightarrow> u8 list \<Rightarrow> u8 list" where
  "after_send os msg data cap c = (case msg of None \<Rightarrow> c
     | Some p \<Rightarrow> if admitted os \<and> length c + msg_len data p \<le> cap then c @ msg_bytes data p else c)"

lemma broadcast_ok:
  assumes "senders_ready items m"
    and "\<forall>item \<in> set items. sends item = Inr (msg item) \<and> (\<forall>p. msg item = Some p \<longrightarrow> receivable (p, dat item) \<and> writable (send_worker item) (p, dat item))"
  shows "\<exists>rets items' m'. broadcast sends ms os i items m = Inr (rets, items', m') \<and> length items' = length items
    \<and> map queue_obj items' = map queue_obj items \<and> senders_ready items' m'
    \<and> (\<forall>k < length items. items' ! k = (items ! k)\<lparr>send_worker := send_worker (items' ! k)\<rparr>
        \<and> shm_capacity (queue_obj (items ! k)) m' = shm_capacity (queue_obj (items ! k)) m
        \<and> shm_contents (queue_obj (items ! k)) m'
          = after_send (os (i + k)) (msg (items ! k)) (dat (items ! k)) (shm_capacity (queue_obj (items ! k)) m) (shm_contents (queue_obj (items ! k)) m))
    \<and> (\<forall>b. b \<notin> queue_obj ` set items \<longrightarrow> m' b = m b)"
  using assms
proof (induction items arbitrary: i m)
  case Nil
  then show ?case by simp
next
  case (Cons item items)
  let ?a = "queue_obj item"
  have s: "sender_ok ?a (send_worker item)" "shm_inv ?a m" and fresh: "?a \<notin> queue_obj ` set items" and r: "senders_ready items m"
    using Cons.prems(1) by simp_all
  have msg: "sends item = Inr (msg item)" "\<And>p. msg item = Some p \<Longrightarrow> receivable (p, dat item)"
    "\<And>p. msg item = Some p \<Longrightarrow> writable (send_worker item) (p, dat item)"
    using Cons.prems(2) by auto
  have "\<exists>ret w m1. (case msg item of None \<Rightarrow> Inr (None, send_worker item, m)
            | Some p \<Rightarrow> cbind (SendPacket p ms (os i) (send_worker item) m) (\<lambda>(ret, w, m', cs). Inr (Some ret, w, m'))) = Inr (ret, w, m1)
      \<and> sender_ok ?a w \<and> shm_inv ?a m1 \<and> shm_capacity ?a m1 = shm_capacity ?a m
      \<and> shm_contents ?a m1 = after_send (os i) (msg item) (dat item) (shm_capacity ?a m) (shm_contents ?a m) \<and> others_kept ?a m m1"
  proof (cases "msg item")
    case None
    then show ?thesis using s by (simp add: after_send_def)
  next
    case (Some p)
    from SendPacket_cases [OF s msg(2,3) [OF Some], of ms "os i"] obtain ret w m1 cs where
      sp: "SendPacket p ms (os i) (send_worker item) m = Inr (ret, w, m1, cs)" "sender_ok ?a w" "shm_inv ?a m1"
        "shm_capacity ?a m1 = shm_capacity ?a m"
        "shm_contents ?a m1 = after_send (os i) (Some p) (dat item) (shm_capacity ?a m) (shm_contents ?a m)"
      by (auto simp: after_send_def split: if_splits)
    have "others_kept ?a m m1" using SendPacket_others [OF sp(1)] s(1) by (simp add: sender_ok_def)
    then show ?thesis using sp Some by simp
  qed
  then obtain ret w m1 where one: "(case msg item of None \<Rightarrow> Inr (None, send_worker item, m)
            | Some p \<Rightarrow> cbind (SendPacket p ms (os i) (send_worker item) m) (\<lambda>(ret, w, m', cs). Inr (Some ret, w, m'))) = Inr (ret, w, m1)"
      "sender_ok ?a w" "shm_inv ?a m1" "shm_capacity ?a m1 = shm_capacity ?a m"
      "shm_contents ?a m1 = after_send (os i) (msg item) (dat item) (shm_capacity ?a m) (shm_contents ?a m)" "others_kept ?a m m1"
    by blast
  let ?item = "item\<lparr>send_worker := w\<rparr>"
  have obj: "queue_obj ?item = ?a" using one(2) by (simp add: sender_ok_def mapped_def queue_obj_def)
  have r1: "senders_ready items m1" using senders_ready_others [OF r one(6) fresh] .
  have p: "\<forall>item \<in> set items. sends item = Inr (msg item) \<and> (\<forall>p. msg item = Some p \<longrightarrow> receivable (p, dat item) \<and> writable (send_worker item) (p, dat item))"
    using Cons.prems(2) by simp
  obtain rets items' m' where rest: "broadcast sends ms os (i + 1) items m1 = Inr (rets, items', m')" "length items' = length items"
    "map queue_obj items' = map queue_obj items" "senders_ready items' m'" "\<forall>b. b \<notin> queue_obj ` set items \<longrightarrow> m' b = m1 b"
    and each: "\<forall>k < length items. items' ! k = (items ! k)\<lparr>send_worker := send_worker (items' ! k)\<rparr>
        \<and> shm_capacity (queue_obj (items ! k)) m' = shm_capacity (queue_obj (items ! k)) m1
        \<and> shm_contents (queue_obj (items ! k)) m' = after_send (os (i + 1 + k)) (msg (items ! k)) (dat (items ! k))
            (shm_capacity (queue_obj (items ! k)) m1) (shm_contents (queue_obj (items ! k)) m1)"
    using Cons.IH [OF r1 p, of "i + 1"] by blast
  have img: "queue_obj ` set items' = queue_obj ` set items" using rest(3) by (metis list.set_map)
  have own: "m' ?a = m1 ?a" using rest(5) fresh by simp
  have kept: "m1 (queue_obj (items ! k)) = m (queue_obj (items ! k))" if "k < length items" for k
  proof -
    have "queue_obj (items ! k) \<noteq> ?a" using fresh nth_mem [OF that] by (metis imageI)
    then show ?thesis using one(6) by (simp add: others_kept_def)
  qed
  have each': "\<forall>k < length (item # items). (?item # items') ! k = ((item # items) ! k)\<lparr>send_worker := send_worker ((?item # items') ! k)\<rparr>
        \<and> shm_capacity (queue_obj ((item # items) ! k)) m' = shm_capacity (queue_obj ((item # items) ! k)) m
        \<and> shm_contents (queue_obj ((item # items) ! k)) m' = after_send (os (i + k)) (msg ((item # items) ! k)) (dat ((item # items) ! k))
            (shm_capacity (queue_obj ((item # items) ! k)) m) (shm_contents (queue_obj ((item # items) ! k)) m)"
  proof (intro allI impI)
    fix k
    assume k: "k < length (item # items)"
    show "(?item # items') ! k = ((item # items) ! k)\<lparr>send_worker := send_worker ((?item # items') ! k)\<rparr>
        \<and> shm_capacity (queue_obj ((item # items) ! k)) m' = shm_capacity (queue_obj ((item # items) ! k)) m
        \<and> shm_contents (queue_obj ((item # items) ! k)) m' = after_send (os (i + k)) (msg ((item # items) ! k)) (dat ((item # items) ! k))
            (shm_capacity (queue_obj ((item # items) ! k)) m) (shm_contents (queue_obj ((item # items) ! k)) m)"
    proof (cases k)
      case 0
      then show ?thesis using one(4,5) shm_local [where m' = m' and m = m1 and b = ?a, OF own] by simp
    next
      case (Suc j)
      then have j: "j < length items" using k by simp
      then show ?thesis using each shm_local [where m' = m1 and m = m and b = "queue_obj (items ! j)", OF kept [OF j]] Suc by simp
    qed
  qed
  have other: "\<forall>b. b \<notin> queue_obj ` set (item # items) \<longrightarrow> m' b = m b"
    using rest(5) one(6) by (auto simp: others_kept_def)
  have ready: "senders_ready (?item # items') m'"
    using one(2,3) obj fresh img rest(4) shm_local [where m' = m' and m = m1 and b = ?a, OF own] by simp
  have run: "broadcast sends ms os i (item # items) m = Inr (ret # rets, ?item # items', m')"
    using rest(1) by (simp add: msg(1) one(1))
  have lens: "length (?item # items') = length (item # items)" "map queue_obj (?item # items') = map queue_obj (item # items)"
    using rest(2,3) obj by simp_all
  show ?case using run lens ready each' other by blast
qed

section \<open>A picture in the queues of all clients\<close>

definition wants_frame :: "int \<Rightarrow> SendWorkInfo \<Rightarrow> bool" where
  "wants_frame si item \<longleftrightarrow> wi_video_streaming item \<and> stream_index item = si \<and> frame_type item \<noteq> -1"

text \<open>The message that stands for the picture of type \<open>ft\<close>, its bytes, pictures whose messages can be read, and workers that can write them.\<close>

definition frame_message :: "string \<Rightarrow> int \<Rightarrow> DecoderVideoDest \<Rightarrow> int \<Rightarrow> PacketStruct" where
  "frame_message guid si data ft = (let info = dd_frame_info data ! nat ft; fb = dd_frame data ! nat ft; orig = dd_frame_info data ! FT_ORIGINAL in
     PFrame \<lparr>camera_guid = guid, fr_stream_index = si, order_num = dd_index data, stream_width = fi_width orig, stream_height = fi_height orig,
       fr_frame_type = ft, frame_pixel_format = fi_pixel_format info, frame_width = fi_width info, frame_height = fi_height info,
       vcodec_id = VCODEC_ID_int VCODEC_ID_H264, frame_buffer = fb_data fb, frame_buffer_len = fb_data_size fb\<rparr>)"

definition picture_of :: "DecoderVideoDest \<Rightarrow> int \<Rightarrow> u8 list" where
  "picture_of data ft = (case ptr_bytes (fb_data (dd_frame data ! nat ft)) (fb_data_size (dd_frame data ! nat ft)) of Inr bs \<Rightarrow> bs | Inl e \<Rightarrow> [])"

definition pictures_ok :: "string \<Rightarrow> int \<Rightarrow> DecoderVideoDest \<Rightarrow> bool" where
  "pictures_ok guid si data \<longleftrightarrow> length (dd_frame_info data) = FT_NUM \<and> length (dd_frame data) = FT_NUM
     \<and> (\<forall>ft < FT_NUM. receivable (frame_message guid si data (int ft), picture_of data (int ft)))"

definition rooms_ok :: "string \<Rightarrow> int \<Rightarrow> DecoderVideoDest \<Rightarrow> SendWorkers \<Rightarrow> bool" where
  "rooms_ok guid si data items \<longleftrightarrow>
     (\<forall>w \<in> send_worker ` set items. \<forall>ft < FT_NUM. writable w (frame_message guid si data (int ft), picture_of data (int ft)))"

definition types_ok :: "int \<Rightarrow> SendWorkers \<Rightarrow> bool" where
  "types_ok si items \<longleftrightarrow> (\<forall>item \<in> set items. wants_frame si item \<longrightarrow> 0 \<le> frame_type item \<and> frame_type item < int FT_NUM)"

definition frame_msg :: "string \<Rightarrow> int \<Rightarrow> DecoderVideoDest \<Rightarrow> SendWorkInfo \<Rightarrow> PacketStruct option" where
  "frame_msg guid si data item = (if wants_frame si item then Some (frame_message guid si data (frame_type item)) else None)"

lemma SendFrame_ok:
  assumes "senders_ready items m" "pictures_ok guid si data" "types_ok si items" "rooms_ok guid si data items"
  shows "\<exists>rets items' m'. SendFrame guid si data os items m = Inr (rets, items', m') \<and> length items' = length items
    \<and> map queue_obj items' = map queue_obj items \<and> senders_ready items' m'
    \<and> (\<forall>k < length items. items' ! k = (items ! k)\<lparr>send_worker := send_worker (items' ! k)\<rparr>
        \<and> shm_capacity (queue_obj (items ! k)) m' = shm_capacity (queue_obj (items ! k)) m
        \<and> shm_contents (queue_obj (items ! k)) m' = after_send (os k) (frame_msg guid si data (items ! k)) (picture_of data (frame_type (items ! k)))
            (shm_capacity (queue_obj (items ! k)) m) (shm_contents (queue_obj (items ! k)) m))
    \<and> (\<forall>b. b \<notin> queue_obj ` set items \<longrightarrow> m' b = m b)"
proof -
  have len: "length (dd_frame_info data) = FT_NUM" "length (dd_frame data) = FT_NUM"
    using assms(2) by (simp_all add: pictures_ok_def)
  obtain pf where pf: "Packet_Frame_Casting (CreateFactory_type PACKEK_TYPE_FRAME) = Some pf"
    by (simp add: CreateFactory_type_def)
  let ?orig = "dd_frame_info data ! FT_ORIGINAL"
  let ?sends = "frame_for (pf\<lparr>camera_guid := guid, fr_stream_index := si, order_num := dd_index data,
              vcodec_id := VCODEC_ID_int VCODEC_ID_H264, stream_width := fi_width ?orig, stream_height := fi_height ?orig\<rparr>) data si"
  have orig: "arr_get (dd_frame_info data) (int FT_ORIGINAL) = Inr ?orig"
    using len by (simp add: arr_get_def FT_ORIGINAL_def FT_NUM_def)
  have sf: "SendFrame guid si data os items m = broadcast ?sends 10 os 0 items m"
    by (simp add: SendFrame_def pf orig)
  have "\<forall>item \<in> set items. ?sends item = Inr (frame_msg guid si data item)
      \<and> (\<forall>p. frame_msg guid si data item = Some p \<longrightarrow> receivable (p, picture_of data (frame_type item))
        \<and> writable (send_worker item) (p, picture_of data (frame_type item)))"
  proof
    fix item
    assume i: "item \<in> set items"
    show "?sends item = Inr (frame_msg guid si data item)
      \<and> (\<forall>p. frame_msg guid si data item = Some p \<longrightarrow> receivable (p, picture_of data (frame_type item))
        \<and> writable (send_worker item) (p, picture_of data (frame_type item)))"
    proof (cases "wants_frame si item")
      case False
      then show ?thesis by (auto simp: frame_for_def frame_msg_def wants_frame_def)
    next
      case True
      then have ft: "0 \<le> frame_type item" "nat (frame_type item) < FT_NUM" "int (nat (frame_type item)) = frame_type item" "frame_type item < int FT_NUM"
        using assms(3) i by (auto simp: types_ok_def)
      have "receivable (frame_message guid si data (frame_type item), picture_of data (frame_type item))"
        using assms(2) ft by (metis pictures_ok_def)
      moreover have "writable (send_worker item) (frame_message guid si data (frame_type item), picture_of data (frame_type item))"
        using assms(4) ft i by (metis rooms_ok_def imageI)
      moreover have "?sends item = Inr (Some (frame_message guid si data (frame_type item)))"
        using True ft(1,2,4) len by (simp add: frame_for_def wants_frame_def arr_get_def frame_message_def Let_def)
      ultimately show ?thesis using True by (simp add: frame_msg_def)
    qed
  qed
  from broadcast_ok [OF assms(1) this, of 10 os 0] show ?thesis unfolding sf by simp
qed

section \<open>A request from the client's queue\<close>

text \<open>What the camera does with a message of a client, as the message was sent.\<close>

definition handle_message :: "recv_env \<Rightarrow> PacketStruct \<Rightarrow> Camera \<Rightarrow> cam_sys \<Rightarrow> (Camera \<times> cam_sys) option cpp" where
  "handle_message rv p c sys = (case p of
       PProcessInfoReq q \<Rightarrow> returns (OnRecvProcessInfoReq rv p c sys)
     | PStreamInfo q \<Rightarrow> OnRecvStreamInfo (rv_load rv) p c sys
     | PStreamRequest q \<Rightarrow> returns (OnRecvStreamRequest p c sys)
     | _ \<Rightarrow> Inr (Some (c, sys)))"

lemma OnRecvWorker_delivers:
  assumes "delivers (p, data) d"
  shows "OnRecvWorker rv d c sys = handle_message rv p c sys"
proof -
  obtain reader buf q p' where d: "d = (PacketTypeStr p, reader, buf)" "CreateFactory (PacketTypeStr p) = Some q"
    "Reader buf reader q = Inr p'" "same_message buf p p'"
    using assms by (cases d) (auto simp: delivers_def)
  have p': "(\<exists>f g. p = PFrame f \<and> p' = PFrame g) \<or> p' = p"
    using d(4) by (cases p; cases p') simp_all
  have "OnRecvWorker rv d c sys = handle_message rv p' c sys"
    using d(2,3) by (simp add: OnRecvWorker_def d(1) returns_def handle_message_def split: PacketStruct.split)
  then show ?thesis using p' by (auto simp: handle_message_def)
qed

lemma Camera_recv_turn_message:
  assumes "receiver_ok a (m_recv_worker c)" "has_callback_reader (m_recv_worker c)" "shm_inv a (cs_shm sys)"
    and "shm_contents a (cs_shm sys) = wire ((p, data) # ps)" "receivable (p, data)" "good_turn os"
  shows "\<exists>r m. receiver_ok a r \<and> has_callback_reader r \<and> shm_inv a m \<and> shm_contents a m = wire ps \<and> others_kept a (cs_shm sys) m
    \<and> Camera_recv_turn rv os c sys = jbind (handle_message rv p (c\<lparr>m_recv_worker := r\<rparr>) (sys\<lparr>cs_shm := m\<rparr>))
        (\<lambda>(c2, sys2). Inr (Some (LoopContinue, c2, sys2)))"
proof -
  have g: "running os" "turn_admitted os" "slot_released (turn_sync os)"
    using assms(6) by (simp_all add: good_turn_def)
  from ThreadLoop_turn_msg [OF assms(1-5) g(1,2)] g(3) obtain r m d cs where
    t: "ThreadLoop_turn os (m_recv_worker c) (cs_shm sys) = Some (Inr (LoopContinue, r, m, [d], cs))"
    and r: "receiver_ok a r" "has_callback_reader r" "shm_inv a m" "shm_contents a m = wire ps" and d: "delivers (p, data) d"
    by auto
  have "others_kept a (cs_shm sys) m"
    using ThreadLoop_turn_others [OF t] assms(1) by (simp add: receiver_ok_def)
  then show ?thesis using r t OnRecvWorker_delivers [OF d] by (auto simp: Camera_recv_turn_def)
qed

section \<open>From the request to the picture\<close>

lemma SetFrameInfo_loop_nth:
  "distinct (names items) \<Longrightarrow> k < length items \<Longrightarrow> SetFrameInfo_loop n ft si vs items ! k
    = (if item_name (items ! k) = n then (items ! k)\<lparr>frame_type := ft, stream_index := si, wi_video_streaming := vs\<rparr> else items ! k)"
proof (induction n ft si vs items arbitrary: k rule: SetFrameInfo_loop.induct)
  case (1 n ft si vs)
  then show ?case by simp
next
  case (2 n ft si vs item items)
  show ?case
  proof (cases k)
    case 0
    then show ?thesis by auto
  next
    case (Suc j)
    then have j: "j < length items" using "2.prems" by simp
    then have "item_name (items ! j) \<in> set (names items)" by (simp add: names_def)
    then show ?thesis using 2 Suc j by auto
  qed
qed

lemma SetFrameInfo_loop_length [simp]: "length (SetFrameInfo_loop n ft si vs items) = length items"
  by (induction n ft si vs items rule: SetFrameInfo_loop.induct) auto

lemma SetFrameInfo_loop_workers: "map send_worker (SetFrameInfo_loop n ft si vs items) = map send_worker items"
  by (induction n ft si vs items rule: SetFrameInfo_loop.induct) auto

lemma SetFrameInfo_loop_ready:
  "senders_ready (SetFrameInfo_loop n ft si vs items) m = senders_ready items m"
  "map queue_obj (SetFrameInfo_loop n ft si vs items) = map queue_obj items"
proof -
  have *: "map f (SetFrameInfo_loop n ft si vs items) = map f items" if "\<And>x. f x = g (send_worker x)" for f :: "SendWorkInfo \<Rightarrow> 'z" and g
    using arg_cong [OF SetFrameInfo_loop_workers, of "map g" n ft si vs items] that by (simp add: comp_def cong: map_cong)
  show q: "map queue_obj (SetFrameInfo_loop n ft si vs items) = map queue_obj items"
    by (rule * [of _ "\<lambda>w. the (m_queue_info (m_send_queue w))"]) (simp add: queue_obj_def)
  let ?ok = "\<lambda>w. let a = the (m_queue_info (m_send_queue w)) in sender_ok a w \<and> shm_inv a m"
  have ready: "senders_ready xs m \<longleftrightarrow> distinct (map queue_obj xs) \<and> list_all (\<lambda>b. b) (map (\<lambda>x. ?ok (send_worker x)) xs)" for xs
    by (simp add: senders_ready_def list_all_iff queue_obj_def Let_def)
  have "map (\<lambda>x. ?ok (send_worker x)) (SetFrameInfo_loop n ft si vs items) = map (\<lambda>x. ?ok (send_worker x)) items"
    by (rule * [of _ ?ok]) simp
  then show "senders_ready (SetFrameInfo_loop n ft si vs items) m = senders_ready items m"
    unfolding ready by (simp only: q)
qed

lemma SetFrameInfo_loop_types:
  assumes "types_ok si items" "0 \<le> ft" "ft < int FT_NUM" "distinct (names items)"
  shows "types_ok si (SetFrameInfo_loop n ft sj vs items)"
  unfolding types_ok_def
proof
  fix x
  assume "x \<in> set (SetFrameInfo_loop n ft sj vs items)"
  then obtain j where j: "j < length items" "x = SetFrameInfo_loop n ft sj vs items ! j"
    by (metis in_set_conv_nth SetFrameInfo_loop_length)
  have "items ! j \<in> set items" using j(1) by (rule nth_mem)
  then show "wants_frame si x \<longrightarrow> 0 \<le> frame_type x \<and> frame_type x < int FT_NUM"
    using assms(1-3) j(2) SetFrameInfo_loop_nth [OF assms(4) j(1)] by (simp add: types_ok_def)
qed

lemma OnRecvStreamRequest_effect:
  assumes "camera_inv c" "request_ok c p"
  shows "\<exists>c' sys'. OnRecvStreamRequest (PStreamRequest p) c sys = Inr (c', sys') \<and> camera_inv c' \<and> cs_shm sys' = cs_shm sys
    \<and> m_camera_guid c' = m_camera_guid c \<and> m_recv_worker c' = m_recv_worker c
    \<and> m_send_manager c' = SetFrameInfo_loop (rq_queue_name p) (rq_frame_type p) (rq_stream_index p) (video_streaming p) (m_send_manager c)"
proof -
  obtain c' sys' where r: "OnRecvStreamRequest (PStreamRequest p) c sys = Inr (c', sys')" "camera_inv c'"
    using OnRecvStreamRequest_cases [OF assms(1), of p sys] assms(2) by auto
  from r(1) have "cs_shm sys' = cs_shm sys \<and> m_camera_guid c' = m_camera_guid c \<and> m_recv_worker c' = m_recv_worker c
    \<and> m_send_manager c' = SetFrameInfo_loop (rq_queue_name p) (rq_frame_type p) (rq_stream_index p) (video_streaming p) (m_send_manager c)"
    by (auto simp: OnRecvStreamRequest_def SetFrameInfo_def cbind_Inr_iff unlocked_def put_streamer_def split: if_splits)
  with r show ?thesis by blast
qed

lemma delivered_frame:
  assumes "senders_ready items m" "pictures_ok guid si data" "types_ok si items" "rooms_ok guid si data items"
    and "k < length items" "wants_frame si (items ! k)"
    and "shm_contents (queue_obj (items ! k)) m = []" "admitted (os k)"
    and "msg_len (picture_of data (frame_type (items ! k))) (frame_message guid si data (frame_type (items ! k))) \<le> shm_capacity (queue_obj (items ! k)) m"
    and "receiver_ok (queue_obj (items ! k)) r" "has_callback_reader r" "good_turn os'"
  shows "\<exists>rets items' m1 r' m2 d cs. SendFrame guid si data os items m = Inr (rets, items', m1)
    \<and> ThreadLoop_turn os' r m1 = Some (Inr (LoopContinue, r', m2, [d], cs))
    \<and> delivers (frame_message guid si data (frame_type (items ! k)), picture_of data (frame_type (items ! k))) d"
proof -
  let ?a = "queue_obj (items ! k)" and ?x = "(frame_message guid si data (frame_type (items ! k)), picture_of data (frame_type (items ! k)))"
  obtain rets items' m1 where sf: "SendFrame guid si data os items m = Inr (rets, items', m1)" "senders_ready items' m1"
    "map queue_obj items' = map queue_obj items" "length items' = length items"
    and c: "shm_contents ?a m1 = after_send (os k) (frame_msg guid si data (items ! k)) (snd ?x) (shm_capacity ?a m) (shm_contents ?a m)"
    using SendFrame_ok [OF assms(1-4), of os] assms(5) by auto
  have obj: "queue_obj (items' ! k) = ?a" using sf(3,4) assms(5) by (metis nth_map)
  have inv: "shm_inv ?a m1" using sf(2,4) assms(5) obj by (metis nth_mem senders_ready_def)
  have "shm_contents ?a m1 = wire [?x]"
    using c assms(6-9) by (simp add: after_send_def frame_msg_def)
  moreover have "0 \<le> frame_type (items ! k)" "frame_type (items ! k) < int FT_NUM"
    using assms(3,5,6) nth_mem by (auto simp: types_ok_def)
  then have "receivable ?x"
    using assms(2) by (metis pictures_ok_def int_nat_eq nat_less_iff)
  ultimately show ?thesis
    using ThreadLoop_turn_msg [OF assms(10,11) inv, of ?x "[]" os'] assms(12) sf(1) by (fastforce simp: good_turn_def)
qed

text \<open>A client's request for frames is handled, and the next picture of the stream reaches that client.\<close>

lemma request_brings_picture:
  assumes c: "camera_inv c" "receiver_ok a (m_recv_worker c)" "has_callback_reader (m_recv_worker c)" "shm_inv a (cs_shm sys)"
    and req: "shm_contents a (cs_shm sys) = wire ((PStreamRequest p, bs) # ps)" "receivable (PStreamRequest p, bs)" "good_turn os1"
      "request_ok c p" "video_streaming p" "0 \<le> rq_frame_type p" "rq_frame_type p < int FT_NUM"
    and clients: "senders_ready (m_send_manager c) (cs_shm sys)" "a \<notin> queue_obj ` set (m_send_manager c)"
      "types_ok (rq_stream_index p) (m_send_manager c)" "k < length (m_send_manager c)" "item_name (m_send_manager c ! k) = rq_queue_name p"
    and pic: "pictures_ok (m_camera_guid c) (rq_stream_index p) data" "rooms_ok (m_camera_guid c) (rq_stream_index p) data (m_send_manager c)"
      "admitted (os k)"
      "shm_contents (queue_obj (m_send_manager c ! k)) (cs_shm sys) = []"
      "msg_len (picture_of data (rq_frame_type p)) (frame_message (m_camera_guid c) (rq_stream_index p) data (rq_frame_type p))
        \<le> shm_capacity (queue_obj (m_send_manager c ! k)) (cs_shm sys)"
    and client: "receiver_ok (queue_obj (m_send_manager c ! k)) r" "has_callback_reader r" "good_turn os2"
  shows "\<exists>c1 sys1 c2 sys2 r' m d cs. Camera_recv_turn rv os1 c sys = Inr (Some (LoopContinue, c1, sys1))
    \<and> Camera_OnVideoDecompress os (rq_stream_index p) data c1 sys1 = Inr (0, c2, sys2)
    \<and> ThreadLoop_turn os2 r (cs_shm sys2) = Some (Inr (LoopContinue, r', m, [d], cs))
    \<and> delivers (frame_message (m_camera_guid c) (rq_stream_index p) data (rq_frame_type p), picture_of data (rq_frame_type p)) d"
proof -
  let ?si = "rq_stream_index p" and ?ft = "rq_frame_type p" and ?items = "m_send_manager c"
  let ?b = "queue_obj (?items ! k)" and ?new = "SetFrameInfo_loop (rq_queue_name p) ?ft ?si (video_streaming p) ?items"
  obtain rw m1 where t: "Camera_recv_turn rv os1 c sys = jbind (handle_message rv (PStreamRequest p) (c\<lparr>m_recv_worker := rw\<rparr>) (sys\<lparr>cs_shm := m1\<rparr>))
        (\<lambda>(c2, sys2). Inr (Some (LoopContinue, c2, sys2)))" "others_kept a (cs_shm sys) m1"
    using Camera_recv_turn_message [OF c(2-4) req(1-3), of rv] by blast
  have "camera_inv (c\<lparr>m_recv_worker := rw\<rparr>)" "request_ok (c\<lparr>m_recv_worker := rw\<rparr>) p"
    using c(1) req(4) by (simp_all add: request_ok_def streamer_at_def)
  from OnRecvStreamRequest_effect [OF this, of "sys\<lparr>cs_shm := m1\<rparr>"] obtain c1 sys1 where
    h: "OnRecvStreamRequest (PStreamRequest p) (c\<lparr>m_recv_worker := rw\<rparr>) (sys\<lparr>cs_shm := m1\<rparr>) = Inr (c1, sys1)"
      "cs_shm sys1 = m1" "m_camera_guid c1 = m_camera_guid c" "m_send_manager c1 = ?new"
    by auto
  have turn: "Camera_recv_turn rv os1 c sys = Inr (Some (LoopContinue, c1, sys1))"
    using t(1) h(1) by (simp add: handle_message_def returns_def)
  have d: "distinct (names ?items)" using c(1) by (simp add: camera_inv_def)
  have it: "?new ! k = (?items ! k)\<lparr>frame_type := ?ft, stream_index := ?si, wi_video_streaming := True\<rparr>"
    using SetFrameInfo_loop_nth [OF d clients(4)] clients(5) req(5) by simp
  have b: "queue_obj (?new ! k) = ?b" by (simp add: it queue_obj_def)
  have "?b \<noteq> a" using clients(2) nth_mem [OF clients(4)] by (metis imageI)
  then have keep: "m1 ?b = cs_shm sys ?b" using t(2) by (simp add: others_kept_def)
  note own = shm_local [where m' = m1 and m = "cs_shm sys" and b = ?b, OF keep]
  have ready: "senders_ready ?new m1"
    using senders_ready_others [OF clients(1) t(2) clients(2)] by (simp add: SetFrameInfo_loop_ready)
  have types: "types_ok ?si ?new" using SetFrameInfo_loop_types [OF clients(3) req(6,7) d] .
  have rooms: "rooms_ok (m_camera_guid c) ?si data ?new"
    using pic(2) by (simp add: rooms_ok_def flip: set_map) (simp add: SetFrameInfo_loop_workers)
  have w: "k < length ?new" "wants_frame ?si (?new ! k)" "frame_type (?new ! k) = ?ft"
    using clients(4) req(6) it by (simp_all add: wants_frame_def)
  obtain rets items' m2 r' m3 dl cs where
    "SendFrame (m_camera_guid c) ?si data os ?new m1 = Inr (rets, items', m2)"
    "ThreadLoop_turn os2 r m2 = Some (Inr (LoopContinue, r', m3, [dl], cs))"
    "delivers (frame_message (m_camera_guid c) ?si data ?ft, picture_of data ?ft) dl"
    using delivered_frame [OF ready pic(1) types rooms w(1,2), of os r os2] w(3) b own pic(3-5) client by auto
  then show ?thesis using turn h by (fastforce simp: Camera_OnVideoDecompress_def)
qed

section \<open>Pictures of any size\<close>

lemma room_after_append: "room_after r (xs @ ys) = room_after (room_after r xs) ys"
  by (induction xs arbitrary: r) simp_all

lemma room_after_exact: "length (blocks_bytes xs) \<le> r \<Longrightarrow> room_after r xs = r - length (blocks_bytes xs)"
  by (induction xs arbitrary: r) auto

text \<open>
  The picture is the last block of its message. When it does not fit, the buffer grows by its length, and the end mark has the room
  that was left before; it does not fit exactly when the buffer is one to four bytes short of the message.
\<close>

lemma end_fits_frame_iff:
  assumes "msg_len [] (PFrame q) \<le> n"
  shows "end_fits n data (PFrame q) \<longleftrightarrow> msg_len data (PFrame q) \<le> n \<or> n + 4 < msg_len data (PFrame q)"
proof -
  obtain small where bl: "msg_blocks d (PFrame q) = small @ [(''FrameData'', d)]" for d
    by (rule that [of "butlast (msg_blocks [] (PFrame q))"]) simp
  define nm where "nm = length (PacketTypeStr (PFrame q))"
  define h where "h = nm + 13 + length (blocks_bytes small)"
  have fd: "block_len (''FrameData'', d) = 14 + length d" for d by (simp add: block_len_def)
  have len: "msg_len d (PFrame q) = h + (14 + length d)" for d
    unfolding msg_len_def packet_len_def bl h_def nm_def by (simp add: fd del: PacketTypeStr.simps)
  let ?r = "n - (nm + 9)"
  have h: "h + 14 \<le> n" using assms len [of "[]"] by simp
  then have "room_after ?r small = n + 4 - h"
    using room_after_exact [of small ?r] by (simp add: h_def)
  then have after: "room_after ?r (msg_blocks data (PFrame q)) = (if n + 4 - h < 14 + length data then n + 4 - h else n + 4 - h - (14 + length data))"
    unfolding bl room_after_append by (simp add: fd)
  show ?thesis using h unfolding end_fits_def len nm_def [symmetric] after by (simp split: if_split) linarith
qed

lemma rooms_ok_frames:
  assumes "senders_ready items m"
    and "\<forall>item \<in> set items. \<forall>b. m_buffer (m_packet_writer (send_worker item)) = Some b \<longrightarrow> (\<forall>ft < FT_NUM.
      let p = frame_message guid si data (int ft); n = msg_len (picture_of data (int ft)) p in
      msg_len [] p \<le> packet_buffer_size \<and> (n \<le> length b \<or> length b + 4 < n))"
  shows "rooms_ok guid si data items"
proof -
  have "writable (send_worker item) (frame_message guid si data (int ft), picture_of data (int ft))" if i: "item \<in> set items" "ft < FT_NUM" for item ft
  proof -
    have "sender_ok (queue_obj item) (send_worker item)" using assms(1) i(1) by (simp add: senders_ready_def)
    then obtain b where b: "m_buffer (m_packet_writer (send_worker item)) = Some b" "packet_buffer_size \<le> length b"
      by (auto simp: sender_ok_def)
    obtain q where q: "frame_message guid si data (int ft) = PFrame q" by (simp add: frame_message_def Let_def)
    have s: "start_size b = length b" using b(2) by (simp add: start_size_def packet_buffer_size_def)
    have "msg_len [] (PFrame q) \<le> length b" using assms(2) i b unfolding q [symmetric] by (fastforce simp: Let_def)
    from end_fits_frame_iff [OF this] assms(2) i b show ?thesis
      unfolding q [symmetric] by (simp add: writable_def s Let_def)
  qed
  then show ?thesis by (auto simp: rooms_ok_def)
qed

end
