(* ===== verification/Sink_Create.thy ===== *)
theory Sink_Create
  imports H264_Sink
begin

text \<open>
  How a new \<open>H264Sink\<close> comes to be (\<open>createNew\<close> and its constructor) and asks for its packets (\<open>continuePlaying\<close>). What live555 knows of
  the subsession is an argument; the logging and the size of live555's own output packets are left out.
\<close>

section \<open>Code\<close>

record 'f SessionVideoInfo =
  vi_width :: int
  vi_height :: int
  vi_fps :: 'f

record video_subsession =
  vs_sprops :: "u8 list list option"    \<comment> \<open>what \<open>parseSPropParameterSets\<close> makes of the string of the subsession\<close>
  videoWidth :: int
  videoHeight :: int
  videoFPS :: u32

text \<open>Whether the two callbacks of a session are set.\<close>

record stream_callbacks =
  video_info_changed :: bool
  video_frame_received :: bool

text \<open>The bytes of a new array are not initialized.\<close>

definition array_new :: "nat \<Rightarrow> (nat \<Rightarrow> u8) \<Rightarrow> array_ex" where
  "array_new n junk = \<lparr>ax_data = map junk [0..<n], ax_len = 0\<rparr>"

text \<open>\<open>session\<close> is \<open>None\<close> for a null pointer; \<open>to_float\<close> is the conversion of the frame rate. The result has the calls of \<open>callback_video_info_changed\<close>.\<close>

definition createNew :: "(u32 \<Rightarrow> 'f) \<Rightarrow> (nat \<Rightarrow> u8) \<Rightarrow> stream_callbacks option \<Rightarrow> video_subsession
    \<Rightarrow> ('f SessionVideoInfo list \<times> H264Sink) cpp" where
  "createNew to_float junk session subsession =
     cbind (setSpropRecords (vs_sprops subsession)
        \<lparr>has_frame_callback = (case session of None \<Rightarrow> False | Some cb \<Rightarrow> video_frame_received cb),
         m_header_buffer = array_new 1024 junk, m_rtp_packet_buffer = array_new g_rtp_packet_buffer_size junk,
         m_received_buffer = array_new (g_rtp_packet_buffer_size + 32) junk\<rparr>)
       (\<lambda>(ok, s).
         Inr (if ok \<and> (case session of None \<Rightarrow> False | Some cb \<Rightarrow> video_info_changed cb)
              then [\<lparr>vi_width = videoWidth subsession, vi_height = videoHeight subsession, vi_fps = to_float (videoFPS subsession)\<rparr>]
              else [], s))"

text \<open>\<open>getNextFrame\<close>: how many bytes the source may write into the packet buffer; \<open>source\<close> says that there is one.\<close>

definition continuePlaying :: "bool \<Rightarrow> bool \<times> nat option" where
  "continuePlaying source = (if source = False then (False, None) else (True, Some g_rtp_packet_buffer_size))"

section \<open>Properties\<close>

text \<open>
  A new sink satisfies the invariant whatever the memory held, its header is that of the parameter sets, and the session hears of the
  picture size exactly when there is a header. The source never writes past the packet buffer.
\<close>

lemma createNew_ok:
  "\<exists>s. createNew to_float junk (Some cb) sub = Inr
       (if (case vs_sprops sub of None \<Rightarrow> [] | Some rs \<Rightarrow> sprop_header rs []) \<noteq> [] \<and> video_info_changed cb
        then [\<lparr>vi_width = videoWidth sub, vi_height = videoHeight sub, vi_fps = to_float (videoFPS sub)\<rparr>] else [], s)
     \<and> sink_inv s \<and> has_frame_callback s = video_frame_received cb \<and> array_contents (m_received_buffer s) = []
     \<and> array_contents (m_header_buffer s) = (case vs_sprops sub of None \<Rightarrow> [] | Some rs \<Rightarrow> sprop_header rs [])"
proof -
  define s0 where "s0 = \<lparr>has_frame_callback = video_frame_received cb, m_header_buffer = array_new 1024 junk,
      m_rtp_packet_buffer = array_new g_rtp_packet_buffer_size junk, m_received_buffer = array_new (g_rtp_packet_buffer_size + 32) junk\<rparr>"
  have s0: "sink_inv s0" "array_contents (m_received_buffer s0) = []" "array_contents (m_header_buffer s0) = []" "array_len (m_header_buffer s0) = 0"
    by (simp_all add: s0_def sink_inv_def array_inv_def array_new_def array_contents_def received_capacity_def array_len_def)
  show ?thesis
  proof (cases "vs_sprops sub")
    case None
    then have "setSpropRecords (vs_sprops sub) s0 = Inr (False, s0)" using s0(4) by (simp add: setSpropRecords_def)
    moreover have "has_frame_callback s0 = video_frame_received cb" by (simp add: s0_def)
    ultimately show ?thesis using s0 None by (simp add: createNew_def s0_def [symmetric])
  next
    case (Some rs)
    obtain s' where s': "setSpropRecords (Some rs) s0 = Inr (sprop_header rs [] \<noteq> [], s')" "sink_inv s'"
      "array_contents (m_header_buffer s') = sprop_header rs []"
      using setSpropRecords_ok [OF s0(1), of rs] by blast
    then have "has_frame_callback s' = video_frame_received cb" "m_received_buffer s' = m_received_buffer s0"
      by (auto simp: setSpropRecords_def cbind_Inr_iff s0_def)
    then show ?thesis using s' s0 Some by (simp add: createNew_def s0_def [symmetric])
  qed
qed

lemma continuePlaying_bound:
  assumes "sink_inv s" "continuePlaying source = (r, Some n)"
  shows "n = length (ax_data (m_rtp_packet_buffer s))"
  using assms by (auto simp: continuePlaying_def sink_inv_def split: if_splits)

text \<open>A new sink of a session with a callback delivers its first frame with the parameter sets of the subsession.\<close>

lemma first_frame_delivered:
  assumes "vs_sprops sub = Some rs" "video_frame_received cb" "ps \<noteq> []" "\<forall>p \<in> set ps. packet_ok (p, False)"
    and "length (sprop_header rs []) + sum_list (map (length \<circ> unit_bytes) ps) \<le> received_capacity"
  shows "\<exists>infos s s'. createNew to_float junk (Some cb) sub = Inr (infos, s) \<and> receive_all t (marked ps) s = Inr ([frame_of t (idr (last ps))
      (concat (map unit_bytes (butlast ps)) @ sprop_header rs [] @ unit_bytes (last ps))], s')"
proof -
  obtain infos s where s: "createNew to_float junk (Some cb) sub = Inr (infos, s)" "sink_inv s" "has_frame_callback s"
    "array_contents (m_received_buffer s) = []" "array_contents (m_header_buffer s) = sprop_header rs []"
    using createNew_ok [of to_float junk cb sub] assms(1,2) by auto
  then show ?thesis
    using receive_all_frame [OF s(2,3) assms(3,4), of t] spec_frame_fits [OF assms(3), of "[]" "sprop_header rs []"] assms(5) by auto
qed

end
