(* ===== verification/Stream_Pipeline.thy ===== *)
theory Stream_Pipeline
  imports Sink_Create Streamer_Inv
begin

text \<open>
  One stream from the packets of its sink to FFmpeg: the sink of its session makes frames of packets, the streamer puts them into the
  queues of its decoder, and the decoder's thread takes them. The session, the requests of clients and the pictures already decoded
  go on meanwhile.
\<close>

section \<open>Frames of a sink\<close>

lemma put_bounds: "length xs \<le> cap \<Longrightarrow> length xs \<le> length (put cap xs ys) \<and> length (put cap xs ys) \<le> cap"
  by (simp add: put_def)

lemma spec_bytes_bounds:
  assumes "length acc \<le> received_capacity"
  shows "length acc \<le> length (spec_bytes h p acc) \<and> length (spec_bytes h p acc) \<le> received_capacity"
proof -
  let ?a = "if snd p then put received_capacity acc h else acc"
  have a: "length acc \<le> length ?a" "length ?a \<le> received_capacity" using put_bounds [OF assms, of h] assms by auto
  note b = put_bounds [OF a(2), of g_H264StartCode]
  note c = put_bounds [OF b [THEN conjunct2], of "fst p"]
  show ?thesis using a b c by (simp add: spec_bytes_def Let_def)
qed

lemma spec_frame_bounds:
  "length acc \<le> received_capacity \<Longrightarrow> length acc \<le> length (spec_frame h ps acc) \<and> length (spec_frame h ps acc) \<le> received_capacity"
proof (induction ps arbitrary: acc)
  case (Cons p ps)
  then show ?case using spec_bytes_bounds [OF Cons.prems, of h "(p, ps = [])"] Cons.IH by fastforce
qed simp

lemma spec_frame_Cons_pos:
  assumes "length h + 4 \<le> received_capacity"
  shows "spec_frame h (p # ps) [] \<noteq> []"
proof -
  let ?a = "if ps = [] then put received_capacity [] h else []"
  have "length ?a + 4 \<le> received_capacity" using assms by (simp add: put_def)
  then have "0 < length (put received_capacity ?a g_H264StartCode)" "length (put received_capacity ?a g_H264StartCode) \<le> received_capacity"
    by (simp_all add: put_def g_H264StartCode_def)
  then have "0 < length (spec_bytes h (p, ps = []) [])" "length (spec_bytes h (p, ps = []) []) \<le> received_capacity"
    using put_bounds [of "put received_capacity ?a g_H264StartCode" received_capacity p] by (auto simp: spec_bytes_def Let_def)
  then have "0 < length (spec_frame h ps (spec_bytes h (p, ps = []) []))"
    using spec_frame_bounds [of "spec_bytes h (p, ps = []) []" h ps] by linarith
  then show ?thesis by simp
qed

section \<open>From the sink to the decoder's queues\<close>

text \<open>The calls of the session's callback, one for each frame; \<open>t\<close>, \<open>t1\<close>, \<open>t2\<close>, \<open>now\<close> are readings of the clock.\<close>

primrec hand_over :: "fp \<Rightarrow> int \<times> int \<times> int \<times> int \<Rightarrow> SessionVideoFrame list \<Rightarrow> Streamer \<Rightarrow> Streamer cpp" where
  "hand_over fp ts [] st = Inr st"
| "hand_over fp ts (f # fs) st = (case ts of (t, t1, t2, now) \<Rightarrow>
     cbind (OnVideoFrameReceived fp t t1 t2 now f st) (\<lambda>(r, st'). hand_over fp ts fs st'))"

text \<open>The frames that wait in a streamer's decoder, and whether the stream queue has room for one more.\<close>

definition queued :: "Streamer \<Rightarrow> u8 list list" where
  "queued st = (case m_decoder st of None \<Rightarrow> [] | Some x \<Rightarrow> map snd (waiting (dt_decoder x)))"

definition room_for :: "Streamer \<Rightarrow> u8 list \<Rightarrow> bool" where
  "room_for st bs \<longleftrightarrow> (case m_decoder st of None \<Rightarrow> False
     | Some x \<Rightarrow> length (stream_bytes (dt_decoder x)) + length bs \<le> stream_capacity)"

lemma OnVideoFrameReceived_queued:
  assumes st: "streamer_inv st" "m_initialize st" and bs: "bs \<noteq> []" "length bs \<le> received_capacity"
  shows "\<exists>st'. OnVideoFrameReceived fp t t1 t2 now (frame_of tv key bs) st = Inr (0, st') \<and> streamer_inv st' \<and> m_initialize st'
    \<and> queued st' = queued st @ (if room_for st bs then [bs] else [])"
proof -
  obtain x where x: "m_decoder st = Some x" "queues_inv (dt_decoder x)" "m_impl (dt_decoder x) \<noteq> None"
    using st by (auto simp: streamer_inv_def decoder_inv_def has_infos_def)
  have small: "int (length bs) < 2 ^ 31" using bs(2) by (simp add: received_capacity_def g_rtp_packet_buffer_size_def)
  obtain st' where st': "OnVideoFrameReceived fp t t1 t2 now (frame_of tv key bs) st = Inr (0, st')" "streamer_inv st'"
    using OnVideoFrameReceived_ok [OF st, of "frame_of tv key bs" fp t t1 t2 now] small by (auto simp: frame_of_def int32_range_def)
  let ?src = "\<lparr>vs_frame = \<lparr>fb_data = Some (bs, 0), fb_data_size = int (length bs)\<rparr>, vs_key_frame = key, vs_timestamp = tv\<rparr>"
  have so: "source_ok ?src" and fb: "frame_bytes ?src = bs"
    using bs(1) small by (simp_all add: source_ok_def ptr_mem_def int32_range_def frame_bytes_def)
  obtain r d where d: "QueuePush fp t t1 t2 ?src (dt_decoder x) = Inr (r, d)"
    "st' = st\<lparr>m_decoder := Some (x\<lparr>dt_decoder := d\<rparr>), m_push_frame_time := now\<rparr>"
    using st'(1) x(1) by (auto simp: OnVideoFrameReceived_def frame_of_def cbind_Inr_iff)
  have "map snd (waiting d) = map snd (waiting (dt_decoder x)) @ (if room_for st bs then [bs] else [])"
  proof (cases "room_for st bs")
    case True
    then have "length (stream_bytes (dt_decoder x)) + length (frame_bytes ?src) \<le> stream_capacity" by (simp add: room_for_def x(1) fb)
    from QueuePush_ok [OF x(2,3) so this, of fp t t1 t2] show ?thesis using d(1) True fb by auto
  next
    case False
    then have "stream_capacity < length (stream_bytes (dt_decoder x)) + length (frame_bytes ?src)" by (simp add: room_for_def x(1) fb)
    from QueuePush_refused [OF x(2) so this, of fp t t1 t2] show ?thesis using d(1) False by simp
  qed
  then show ?thesis using st' d(2) st(2) x(1) by (simp add: queued_def)
qed

section \<open>From the queues to FFmpeg\<close>

text \<open>The frame a turn of the decoder's thread takes, whose bytes it sends to FFmpeg.\<close>

definition turn_takes :: "pass_env \<times> bool \<times> timer_env \<Rightarrow> decode_thread \<Rightarrow> u8 list list" where
  "turn_takes e x = (case e of (pe, woken, te) \<Rightarrow>
     if dt_pc x = Looping \<and> \<not> dt_waiting x \<and> dec_running (dt_decoder x)
     then (case TakeSource (pe_fp pe) (pe_now pe) (dt_decoder x) (dt_locals x) of
             Inr (Some v, d, l) \<Rightarrow> [frame_bytes v] | _ \<Rightarrow> [])
     else [])"

lemma Decode_queues: "Decode av junk src dst d = Inr (ret, dst', d') \<Longrightarrow> m_queue_stream d' = m_queue_stream d \<and> m_queue_src d' = m_queue_src d"
  by (auto simp: Decode_def cbind_Inr_iff split: option.splits)

lemma TakeSource_waiting:
  assumes "TakeSource fp now d l = Inr (v, d', l')" "queues_inv d" "m_impl d = Some impl"
  shows "map snd (waiting d) = (case v of None \<Rightarrow> [] | Some x \<Rightarrow> [frame_bytes x]) @ map snd (waiting d')"
proof (cases "m_queue_src d = [] \<or> elapsed_ms fp (qv_time (hd (m_queue_src d))) now < of_int (queue_accumulate_time (GetInfo impl))")
  case True
  then show ?thesis using TakeSource_none [OF assms(3) True] assms(1) by simp
next
  case False
  then obtain x rest where "m_queue_src d = x # rest" "\<not> elapsed_ms fp (qv_time x) now < of_int (queue_accumulate_time (GetInfo impl))"
    by (cases "m_queue_src d") auto
  from TakeSource_ok [OF assms(2,3) this, of l] show ?thesis using assms(1) by auto
qed

lemma Decode_turn_waiting:
  assumes t: "Decode_turn e x = Inr x'" and inv: "decoder_inv x" "queues_inv (dt_decoder x)"
  shows "map snd (waiting (dt_decoder x)) = turn_takes e x @ map snd (waiting (dt_decoder x'))"
proof -
  obtain pe w te where e: "e = (pe, w, te)" by (cases e)
  obtain impl where impl: "m_impl (dt_decoder x) = Some impl" using inv(1) by (auto simp: decoder_inv_def has_infos_def)
  show ?thesis
  proof (cases "dt_pc x = Looping \<and> \<not> dt_waiting x \<and> dec_running (dt_decoder x)")
    case True
    then obtain dsts d l te' where p: "DecodePass pe (dt_decoder x) (dt_locals x) te = Inr (dsts, d, l, te')"
      "x' = x\<lparr>dt_decoder := d, dt_locals := l, dt_waiting := True\<rparr>"
      using t e by (auto simp: Decode_turn_def cbind_Inr_iff)
    then obtain v d1 l1 where ts: "TakeSource (pe_fp pe) (pe_now pe) (dt_decoder x) (dt_locals x) = Inr (v, d1, l1)"
      by (auto simp: DecodePass_def cbind_Inr_iff)
    have "d = d1 \<or> (\<exists>src dst dst' ret. Decode (pe_av pe) (pe_junk pe) src dst d1 = Inr (ret, dst', d))"
      using p(1) ts by (auto simp: DecodePass_def cbind_Inr_iff Let_def split: option.splits if_splits)
    then have "waiting d = waiting d1" using Decode_queues queues_other [of d d1] by blast
    moreover have "turn_takes e x = (case v of None \<Rightarrow> [] | Some x \<Rightarrow> [frame_bytes x])"
      using True ts e by (cases v) (simp_all add: turn_takes_def)
    ultimately show ?thesis using TakeSource_waiting [OF ts inv(2) impl] p(2) by simp
  next
    case False
    then have "turn_takes e x = []" using e by (simp only: turn_takes_def prod.case if_False)
    moreover have "m_queue_stream (dt_decoder x') = m_queue_stream (dt_decoder x) \<and> m_queue_src (dt_decoder x') = m_queue_src (dt_decoder x)"
      using t e False by (auto simp: Decode_turn_def DecodeBegin_def cbind_Inr_iff Let_def split: thread_pc.splits if_splits)
    ultimately show ?thesis using queues_other [of "dt_decoder x'" "dt_decoder x"] by simp
  qed
qed

section \<open>The whole stream\<close>

text \<open>The packets of a frame that is not finished.\<close>

definition pending_bytes :: "u8 list \<Rightarrow> u8 list list \<Rightarrow> u8 list" where
  "pending_bytes h ps = fold (\<lambda>p. spec_bytes h (p, False)) ps []"

lemma spec_frame_snoc: "spec_frame h (ps @ [p]) acc = spec_bytes h (p, True) (fold (\<lambda>p. spec_bytes h (p, False)) ps acc)"
  by (induction ps arbitrary: acc) simp_all

text \<open>
  The events: a packet arrives at the sink, and when it is the last of its frame the streamer gets the frame; the decoder's thread or
  the session's thread makes a turn; the streamer is activated, a client asks for another picture size, and a picture is decoded. The log
  \<open>got\<close> has the packets of every finished frame with whether the stream queue had room for it, \<open>taken\<close> the bytes that the decoder's
  thread gave to FFmpeg.
\<close>

inductive stream_reach :: "H264Sink \<Rightarrow> Streamer \<Rightarrow> H264Sink \<Rightarrow> Streamer \<Rightarrow> u8 list list \<Rightarrow> (bool \<times> u8 list list) list \<Rightarrow> u8 list list \<Rightarrow> bool"
  for s0 st0 where
  start: "stream_reach s0 st0 s0 st0 [] [] []"
| packet: "stream_reach s0 st0 s st ps got taken \<Longrightarrow> packet_ok (p, False) \<Longrightarrow> receive_packet t (p, False) s = Inr (fs, s')
    \<Longrightarrow> hand_over fp ts fs st = Inr st' \<Longrightarrow> stream_reach s0 st0 s' st' (ps @ [p]) got taken"
| last_packet: "stream_reach s0 st0 s st ps got taken \<Longrightarrow> packet_ok (p, True) \<Longrightarrow> receive_packet t (p, True) s = Inr (fs, s')
    \<Longrightarrow> hand_over fp ts fs st = Inr st'
    \<Longrightarrow> stream_reach s0 st0 s' st' [] (got @ [(room_for st (spec_frame (array_contents (m_header_buffer s)) (ps @ [p]) []), ps @ [p])]) taken"
| decoder_turn: "stream_reach s0 st0 s st ps got taken \<Longrightarrow> m_decoder st = Some x \<Longrightarrow> Decode_turn e x = Inr x'
    \<Longrightarrow> stream_reach s0 st0 s (st\<lparr>m_decoder := Some x'\<rparr>) ps got (taken @ turn_takes e x)"
| session_turn: "stream_reach s0 st0 s st ps got taken \<Longrightarrow> m_session st = Some y \<Longrightarrow> RTSP_turn re y = Inr (y', cs)
    \<Longrightarrow> stream_reach s0 st0 s (st\<lparr>m_session := Some y'\<rparr>) ps got taken"
| activate: "stream_reach s0 st0 s st ps got taken \<Longrightarrow> stopped st \<Longrightarrow> Streamer_Activate av now st = Inr (r, st')
    \<Longrightarrow> stream_reach s0 st0 s st' ps got taken"
| picture_size: "stream_reach s0 st0 s st ps got taken \<Longrightarrow> SetDecodeFrameInfo type info st = Inr st'
    \<Longrightarrow> stream_reach s0 st0 s st' ps got taken"
| picture: "stream_reach s0 st0 s st ps got taken \<Longrightarrow> Streamer_OnVideoDecompress fp t' t'' data st = (r', calls, st')
    \<Longrightarrow> stream_reach s0 st0 s st' ps got taken"

definition pipe_inv :: "u8 list \<Rightarrow> H264Sink \<Rightarrow> Streamer \<Rightarrow> u8 list list \<Rightarrow> (bool \<times> u8 list list) list \<Rightarrow> u8 list list \<Rightarrow> bool" where
  "pipe_inv h s st ps got taken \<longleftrightarrow> sink_inv s \<and> has_frame_callback s \<and> array_contents (m_header_buffer s) = h
     \<and> array_contents (m_received_buffer s) = pending_bytes h ps \<and> streamer_inv st \<and> m_initialize st
     \<and> map (\<lambda>ps. spec_frame h ps []) (map snd (filter fst got)) = taken @ queued st"

lemma pipe_packet:
  assumes "pipe_inv h s st ps got taken" "packet_ok (p, False)"
  shows "\<exists>s'. receive_packet t (p, False) s = Inr ([], s') \<and> pipe_inv h s' st (ps @ [p]) got taken"
  using receive_packet_ok [of s "(p, False)" t] assms by (auto simp: pipe_inv_def pending_bytes_def)

lemma pipe_last_packet:
  assumes inv: "pipe_inv h s st ps got taken" and p: "packet_ok (p, True)"
  shows "\<exists>s' st' f. receive_packet t (p, True) s = Inr ([f], s') \<and> hand_over fp ts [f] st = Inr st'
    \<and> pipe_inv h s' st' [] (got @ [(room_for st (spec_frame h (ps @ [p]) []), ps @ [p])]) taken"
proof -
  let ?bs = "spec_frame h (ps @ [p]) []"
  note i = inv [unfolded pipe_inv_def]
  obtain s' where s': "receive_packet t (p, True) s = Inr ([frame_of t (idr p) ?bs], s')" "sink_inv s'" "has_frame_callback s'"
    "array_contents (m_header_buffer s') = h" "array_contents (m_received_buffer s') = []"
    using receive_packet_ok [of s "(p, True)" t] i p by (auto simp: spec_frame_snoc pending_bytes_def)
  have "length h \<le> 1024" using i length_array_contents [of 1024 "m_header_buffer s"] by (auto simp: sink_inv_def array_inv_def)
  then have "length h + 4 \<le> received_capacity" by (simp add: received_capacity_def g_rtp_packet_buffer_size_def)
  from spec_frame_Cons_pos [OF this] have "?bs \<noteq> []" by (cases "ps @ [p]") (auto simp del: spec_frame.simps)
  moreover have "length ?bs \<le> received_capacity" using spec_frame_bounds [of "[]" h "ps @ [p]"] by simp
  moreover obtain c t1 t2 now where ts: "ts = (c, t1, t2, now)" by (cases ts)
  ultimately obtain st' where "OnVideoFrameReceived fp c t1 t2 now (frame_of t (idr p) ?bs) st = Inr (0, st')" "streamer_inv st'" "m_initialize st'"
    "queued st' = queued st @ (if room_for st ?bs then [?bs] else [])"
    using OnVideoFrameReceived_queued [of st ?bs fp c t1 t2 now t "idr p"] i by blast
  then show ?thesis using s' ts i by (auto simp: pipe_inv_def pending_bytes_def)
qed

lemma RTSP_turn_streamer:
  assumes "streamer_inv st" "m_initialize st" "m_session st = Some y" "RTSP_turn re y = Inr (y', cs)"
  shows "streamer_inv (st\<lparr>m_session := Some y'\<rparr>)"
  using assms RTSP_turn_inv [OF assms(4)] by (auto simp: streamer_inv_def)

lemma queued_decoder: "m_decoder st' = Some x' \<Longrightarrow> queued st' = map snd (waiting (dt_decoder x'))"
  by (simp add: queued_def)

lemma waiting_update [simp]: "waiting (d\<lparr>m_impl := i\<rparr>) = waiting d" "waiting (d\<lparr>dec_thread := th\<rparr>) = waiting d"
  by (simp_all add: waiting_def stream_bytes_def)

lemma SetDecodeFrameInfo_queued: "SetDecodeFrameInfo type info st = Inr st' \<Longrightarrow> queued st' = queued st"
  by (auto simp: SetDecodeFrameInfo_def Decoder_SetFrameInfo_def queued_def cbind_Inr_iff split: option.splits if_splits)

lemma dt_Activate_waiting: "dt_Activate av x = Inr (r, x') \<Longrightarrow> waiting (dt_decoder x') = waiting (dt_decoder x)"
  by (auto simp: dt_Activate_def Decoder_Activate_def cbind_Inr_iff Let_def split: option.splits if_splits prod.splits)

lemma Streamer_Activate_queued:
  assumes a: "Streamer_Activate av now st = Inr (r, st')"
  shows "queued st' = queued st"
proof (cases "m_initialize st")
  case False
  then show ?thesis using a by (simp add: Streamer_Activate_def)
next
  case True
  then obtain s r1 s' where s: "m_session st = Some s" "RTSP_Activate s = Inr (r1, s')"
    using a by (simp add: Streamer_Activate_def cbind_Inr_iff split: option.splits) blast
  show ?thesis
  proof (cases "r1 = 0")
    case False
    then show ?thesis using a s True by (auto simp: Streamer_Activate_def queued_def Let_def)
  next
    case True
    then obtain x r2 x' where x: "m_decoder st = Some x" "dt_Activate av x = Inr (r2, x')"
      using a s \<open>m_initialize st\<close> by (simp add: Streamer_Activate_def Let_def cbind_Inr_iff split: option.splits) blast
    then have "m_decoder st' = Some x'"
      using a s True \<open>m_initialize st\<close> by (auto simp: Streamer_Activate_def Let_def split: if_splits)
    then show ?thesis using x dt_Activate_waiting [OF x(2)] by (simp add: queued_def)
  qed
qed

lemma OnVideoDecompress_keeps:
  assumes "Streamer_OnVideoDecompress fp t t' data st = (r, calls, st')"
  shows "streamer_inv st' = streamer_inv st \<and> m_initialize st' = m_initialize st \<and> queued st' = queued st"
  using assms by (auto simp: Streamer_OnVideoDecompress_def PrintFPS_def streamer_inv_def queued_def Let_def split: prod.splits option.splits)

lemma pipe_decoder_turn:
  assumes inv: "pipe_inv h s st ps got taken" and x: "m_decoder st = Some x" and t: "Decode_turn e x = Inr x'"
  shows "pipe_inv h s (st\<lparr>m_decoder := Some x'\<rparr>) ps got (taken @ turn_takes e x)"
proof -
  note i = inv [unfolded pipe_inv_def]
  have d: "decoder_inv x" "queues_inv (dt_decoder x)" using i x by (auto simp: streamer_inv_def)
  have "streamer_inv (st\<lparr>m_decoder := Some x'\<rparr>)"
    using i x Decode_turn_inv [OF t d] by (auto simp: streamer_inv_def)
  moreover have "queued st = turn_takes e x @ queued (st\<lparr>m_decoder := Some x'\<rparr>)"
    using Decode_turn_waiting [OF t d] x by (simp add: queued_def)
  ultimately show ?thesis using i by (simp add: pipe_inv_def)
qed

lemma stream_reach_inv:
  assumes "stream_reach s0 st0 s st ps got taken" "pipe_inv h s0 st0 [] [] []"
  shows "pipe_inv h s st ps got taken"
  using assms
proof (induction rule: stream_reach.induct)
  case start
  then show ?case by simp
next
  case (packet s st ps got taken p t fs s' fp ts st')
  then show ?case using pipe_packet [of h s st ps got taken p t] by auto
next
  case (last_packet s st ps got taken p t fs s' fp ts st')
  have "array_contents (m_header_buffer s) = h" using last_packet by (simp add: pipe_inv_def)
  then show ?case using pipe_last_packet [of h s st ps got taken p t fp ts] last_packet by auto
next
  case (decoder_turn s st ps got taken x e x')
  then show ?case using pipe_decoder_turn by blast
next
  case (session_turn s st ps got taken y re y' cs)
  moreover have "queued (st\<lparr>m_session := Some y'\<rparr>) = queued st" by (simp add: queued_def)
  ultimately show ?case using RTSP_turn_streamer [of st y re y' cs] by (simp add: pipe_inv_def)
next
  case (activate s st ps got taken av now r st')
  then show ?case using Streamer_Activate_ok [of st av now] Streamer_Activate_queued [of av now st] by (auto simp: pipe_inv_def)
next
  case (picture_size s st ps got taken type info st')
  then show ?case
    using SetDecodeFrameInfo_cases [of st type info] SetDecodeFrameInfo_queued [of type info st] by (auto simp: pipe_inv_def split: if_splits)
next
  case (picture s st ps got taken fp t' t'' data r' calls st')
  then show ?case using OnVideoDecompress_keeps [of fp t' t'' data st] by (simp add: pipe_inv_def)
qed

section \<open>The beginning\<close>

lemma Streamer_Initialize_queued:
  assumes "Streamer_Initialize sessions decoders junk param st = Inr (0, st')" "\<not> m_initialize st"
    and "di_type (sti_decoder_info param) = DECODER_LIB_TYPE_FFMPEG"
  shows "queued st' = []"
proof -
  obtain d where "Decoder_Initialize (Factory_Initialize decoders) junk (sti_decoder_info param) True Decoder_new = Inr (0, d)" "waiting d = []"
    using Decoder_Initialize_ok [of "sti_decoder_info param" "Factory_Initialize decoders" DecoderImpl_FFmpeg_new Decoder_new junk True]
      Decoder_factory_ffmpeg assms(3) by (auto simp: Decoder_new_def)
  then show ?thesis
    using assms(1,2) by (auto simp: Streamer_Initialize_def queued_def decode_thread_new_def cbind_Inr_iff Let_def
        split: if_splits option.splits prod.splits)
qed

lemma pipe_inv_new:
  assumes "createNew to_float junk (Some cb) sub = Inr (infos, s)" "video_frame_received cb"
    and "streamer_inv st" "\<not> m_initialize st" "si_type (sti_session_info param) = SESSION_TYPE_RTSP"
    and "di_type (sti_decoder_info param) = DECODER_LIB_TYPE_FFMPEG" "length (di_frame_info (sti_decoder_info param)) = FT_NUM"
    and "Streamer_Initialize sessions decoders junk' param st = Inr (r, st')"
  shows "pipe_inv (case vs_sprops sub of None \<Rightarrow> [] | Some rs \<Rightarrow> sprop_header rs []) s st' [] [] []"
  using createNew_ok [of to_float junk cb sub] Streamer_Initialize_ok [OF assms(3-7), of sessions decoders junk']
    Streamer_Initialize_queued [of sessions decoders junk' param st st'] assms by (auto simp: pipe_inv_def pending_bytes_def)

lemma stream_reach_nonempty: "stream_reach s0 st0 s st ps got taken \<Longrightarrow> [] \<notin> set (map snd got)"
  by (induction rule: stream_reach.induct) auto

text \<open>The bytes of a frame whose packets all fit: the parameter sets stand before the last packet.\<close>

definition frame_layout :: "u8 list \<Rightarrow> u8 list list \<Rightarrow> u8 list" where
  "frame_layout h ps = concat (map unit_bytes (butlast ps)) @ h @ unit_bytes (last ps)"

definition fits_buffer :: "u8 list \<Rightarrow> u8 list list \<Rightarrow> bool" where
  "fits_buffer h ps \<longleftrightarrow> length h + sum_list (map (length \<circ> unit_bytes) ps) \<le> received_capacity"

lemma frames_layout:
  assumes "[] \<notin> set (map snd got)" "list_all (fits_buffer h) (map snd got)"
  shows "map (\<lambda>ps. spec_frame h ps []) (map snd (filter fst got)) = map (frame_layout h) (map snd (filter fst got))"
proof -
  have "spec_frame h ps [] = frame_layout h ps" if "ps \<in> set (map snd got)" for ps
  proof -
    have "ps \<noteq> []" using that assms(1) by metis
    moreover have "fits_buffer h ps" using that assms(2) by (auto simp: list_all_iff)
    ultimately show ?thesis using spec_frame_fits [of ps "[]" h] by (simp add: frame_layout_def fits_buffer_def)
  qed
  then show ?thesis by auto
qed

lemma room_for_first:
  assumes "pipe_inv h s st ps got taken" "queued st = []" "length bs \<le> stream_capacity"
  shows "room_for st bs"
proof -
  obtain x where x: "m_decoder st = Some x" "queues_inv (dt_decoder x)" using assms(1) by (auto simp: pipe_inv_def streamer_inv_def)
  then have "waiting (dt_decoder x) = []" using assms(2) by (simp add: queued_def)
  then have "stream_bytes (dt_decoder x) = []" using waiting_Nil x(2) by (fastforce simp: queues_inv_def)
  then show ?thesis using assms(3) x(1) by (simp add: room_for_def)
qed

text \<open>The receiving side never fails: a packet is always taken and its frame is handed over.\<close>

lemma pipe_receives:
  assumes "pipe_inv h s st ps got taken" "packet_ok p"
  shows "\<exists>fs s' st'. receive_packet t p s = Inr (fs, s') \<and> hand_over fp ts fs st = Inr st'"
proof (cases "snd p")
  case True
  then show ?thesis using pipe_last_packet [OF assms(1), of "fst p" t fp ts] assms(2) by (cases p) auto
next
  case False
  then show ?thesis using pipe_packet [OF assms(1), of "fst p" t] assms(2) by (cases p) auto
qed

end
