(* ===== verification/Delivery_Properties.thy ===== *)
theory Delivery_Properties
  imports Frame_Delivery Stream_Pipeline
begin

text \<open>
  The properties of the camera and its clients together, with a witness in which one client asks a camera for the display
  picture of stream 0 and gets three bytes of it; and of one stream from its packets to FFmpeg.
\<close>

section \<open>A camera with one client\<close>

definition dl_sync :: sync_os where
  "dl_sync = \<lparr>w_sem = 0, w_mutex = 0, rel_ok = True, rel_error = 0\<rparr>"

definition dl_turn :: turn_os where
  "dl_turn = \<lparr>running = True, running_cb = True, turn_sync = dl_sync\<rparr>"

text \<open>Two empty queues: object 0 is the camera's, object 1 the client's.\<close>

definition dl_shm :: shm where
  "dl_shm = (\<lambda>a. Some \<lparr>so_info = \<lparr>tail = 0, head = 0, queue_size = 4096, use_size = 0\<rparr>,
     m_user_space = replicate 32 0, so_buffer = replicate 4096 0\<rparr>)"

definition dl_view :: "nat \<Rightarrow> QueueShared" where
  "dl_view a = QueueShared_new\<lparr>qs_name := ''Q'', m_queue_info := Some a\<rparr>"

definition dl_sender :: "nat \<Rightarrow> SendWorker" where
  "dl_sender a = (SendWorker_new 0)\<lparr>m_send_queue := dl_view a\<rparr>"

definition dl_receiver :: "nat \<Rightarrow> RecvWorker" where
  "dl_receiver a = RecvWorker_new\<lparr>m_recv_queue := dl_view a, m_packet_buffer := replicate 8 0, has_callback_reader := True\<rparr>"

definition dl_items :: SendWorkers where
  "dl_items = [(SendWorkInfo_new 0)\<lparr>send_worker := dl_sender 1\<rparr>]"

definition dl_camera :: Camera where
  "dl_camera = (Camera_new RepeatWorkProc_new)\<lparr>m_streamers := [Some (Streamer_new 0), Some (Streamer_new 1), Some (Streamer_new 2)],
     m_recv_worker := dl_receiver 0, m_send_manager := dl_items\<rparr>"

definition dl_sys :: "shm \<Rightarrow> cam_sys" where
  "dl_sys m = \<lparr>cs_shm = m, cs_timers = \<lparr>te_inst = \<lparr>has_impl = True, timer_type = Some WINDOWS_MMTIMER\<rparr>, te_timer = 5,
     te_mgr = \<lparr>m_timer_min_resolution = 10, m_map_timers = []\<rparr>, te_table = replicate 4 ParamTimer_new\<rparr>, cs_unlocks = []\<rparr>"

definition dl_request :: Packet_StreamRequest where
  "dl_request = Packet_StreamRequest_new\<lparr>rq_queue_name := ''Q'', rq_stream_index := 0, video_streaming := True, rq_frame_type := 1\<rparr>"

definition dl_data :: DecoderVideoDest where
  "dl_data = DecoderVideoDest_new\<lparr>dd_frame := [FrameBuffer_new, \<lparr>fb_data = Some ([1, 2, 3], 0), fb_data_size = 3\<rparr>, FrameBuffer_new]\<rparr>"

lemma dl_shm_inv: "shm_inv a dl_shm" "shm_contents a dl_shm = []" "shm_capacity a dl_shm = 4095"
  by (simp_all add: shm_inv_def dl_shm_def ring_inv_def shm_contents_def ring_contents_def shm_capacity_def)

lemma dl_workers: "sender_ok a (dl_sender a)" "receiver_ok a (dl_receiver a)" "has_callback_reader (dl_receiver a)"
  by (simp_all add: sender_ok_def dl_sender_def SendWorker_new_def SetBuffer_def CPacketWriter_new_def receiver_ok_def
      dl_receiver_def mapped_def dl_view_def)

lemma dl_os: "admitted dl_sync" "good_turn dl_turn"
  by (simp_all add: admitted_def slot_released_def good_turn_def turn_admitted_def dl_sync_def dl_turn_def WAIT_OBJECT_0_def)

lemma dl_len: "msg_len [] (PStreamRequest dl_request) \<le> 1000"
  by code_simp

lemma dl_request_sendable: "sendable (PStreamRequest dl_request, [])"
  using dl_len by (simp add: sendable_def packet_buffer_size_def)
    (simp add: dl_request_def Packet_StreamRequest_new_def msg_typed_def int32_range_def)

lemma dl_pictures: "pictures_ok [] 0 dl_data" "rooms_ok [] 0 dl_data dl_items" "picture_of dl_data 1 = [1, 2, 3]"
    "msg_len [1, 2, 3] (frame_message [] 0 dl_data 1) \<le> 4095"
proof -
  have t: "list_all (\<lambda>ft. msg_typed (frame_message [] 0 dl_data ft) \<and> frame_data (frame_message [] 0 dl_data ft) = Inr (picture_of dl_data ft)
      \<and> msg_len (picture_of dl_data ft) (frame_message [] 0 dl_data ft) \<le> 1000) [0, 1, 2]"
    by code_simp
  have "sendable (frame_message [] 0 dl_data (int ft), picture_of dl_data (int ft))" if "ft < FT_NUM" for ft
  proof -
    have "ft = 0 \<or> ft = 1 \<or> ft = 2" using that by (auto simp: FT_NUM_def)
    then show ?thesis using t by (auto simp: sendable_def packet_buffer_size_def)
  qed
  then have s: "\<forall>ft < FT_NUM. sendable (frame_message [] 0 dl_data (int ft), picture_of dl_data (int ft))" by blast
  then have "\<forall>ft < FT_NUM. receivable (frame_message [] 0 dl_data (int ft), picture_of dl_data (int ft))"
    by (simp add: sendable_receivable)
  then show "pictures_ok [] 0 dl_data"
    by (simp add: pictures_ok_def dl_data_def DecoderVideoDest_new_def FT_NUM_def)
  show "rooms_ok [] 0 dl_data dl_items"
    using s sendable_writable [OF dl_workers(1)] by (auto simp: rooms_ok_def dl_items_def)
  show p: "picture_of dl_data 1 = [1, 2, 3]" by code_simp
  show "msg_len [1, 2, 3] (frame_message [] 0 dl_data 1) \<le> 4095" using t p by simp
qed

text \<open>The client has put its request into the camera's queue.\<close>

lemma dl_asked:
  "\<exists>m. shm_inv 0 m \<and> shm_contents 0 m = wire [(PStreamRequest dl_request, [])] \<and> others_kept 0 dl_shm m"
proof -
  have "length (shm_contents 0 dl_shm) + msg_len [] (PStreamRequest dl_request) \<le> shm_capacity 0 dl_shm"
    using dl_len by (simp add: dl_shm_inv)
  with SendPacket_cases [OF dl_workers(1) [of 0] dl_shm_inv(1) sendable_receivable [OF dl_request_sendable]
      sendable_writable [OF dl_workers(1) [of 0] dl_request_sendable], of 10 dl_sync] dl_os(1)
  obtain ret s' m cs where send: "SendPacket (PStreamRequest dl_request) 10 dl_sync (dl_sender 0) dl_shm = Inr (ret, s', m, cs)"
    "shm_inv 0 m" "shm_contents 0 m = wire [(PStreamRequest dl_request, [])]"
    by (auto simp: dl_shm_inv)
  have "mapped 0 (m_send_queue (dl_sender 0))" by (simp add: mapped_def dl_sender_def dl_view_def)
  from SendPacket_others [OF send(1) this] send show ?thesis by blast
qed

lemma dl_clients:
  assumes "others_kept 0 dl_shm m"
  shows "camera_inv dl_camera" "request_ok dl_camera dl_request" "senders_ready (m_send_manager dl_camera) m"
    "0 \<notin> queue_obj ` set (m_send_manager dl_camera)" "types_ok 0 (m_send_manager dl_camera)"
    "item_name (m_send_manager dl_camera ! 0) = ''Q''" "queue_obj (m_send_manager dl_camera ! 0) = 1"
    "shm_contents 1 m = []" "shm_capacity 1 m = 4095"
proof -
  have m1: "m 1 = dl_shm 1" using assms by (simp add: others_kept_def)
  note own = shm_local [where m' = m and m = dl_shm and b = 1, OF m1]
  show q: "queue_obj (m_send_manager dl_camera ! 0) = 1"
    by (simp add: dl_camera_def dl_items_def queue_obj_def dl_sender_def dl_view_def)
  show "camera_inv dl_camera"
    using Streamer_new_inv(1) by (simp add: camera_inv_def dl_camera_def dl_items_def)
  show "request_ok dl_camera dl_request"
    by (simp add: request_ok_def dl_request_def Packet_StreamRequest_new_def index_ok_def FT_NUM_def)
  show "senders_ready (m_send_manager dl_camera) m"
    using q dl_workers(1) [of 1] own(1) dl_shm_inv(1) by (simp add: dl_camera_def dl_items_def)
  show "0 \<notin> queue_obj ` set (m_send_manager dl_camera)" using q by (simp add: dl_camera_def dl_items_def)
  show "types_ok 0 (m_send_manager dl_camera)"
    by (simp add: types_ok_def dl_camera_def dl_items_def wants_frame_def SendWorkInfo_new_def)
  show "item_name (m_send_manager dl_camera ! 0) = ''Q''"
    by (simp add: item_name_def dl_camera_def dl_items_def SendWorker_GetQueueName_def dl_sender_def dl_view_def QS_GetName_def)
  show "shm_contents 1 m = []" "shm_capacity 1 m = 4095" using own dl_shm_inv by simp_all
qed

section \<open>Properties\<close>

text \<open>
  C5. A client that asks for a stream gets its pictures: when the camera's receiver takes a client's request for frames, the
  next picture of that stream is put, in the type the client asked for and with the camera's identification, into the client's
  queue, and the client's receiver reads it back, provided both sides get their waits, the client's queue is empty and large enough and the end
  mark of the message fits the sender's packet buffer (\<open>rooms_ok_frames\<close>: it fails only for a buffer one to four bytes short of the
  message, which may be much longer than the buffer).
\<close>

theorem picture_reaches_client:
  assumes "camera_inv c" "receiver_ok a (m_recv_worker c)" "has_callback_reader (m_recv_worker c)" "shm_inv a (cs_shm sys)"
    and "shm_contents a (cs_shm sys) = wire ((PStreamRequest p, bs) # ps)" "receivable (PStreamRequest p, bs)" "good_turn os1"
    and "request_ok c p" "video_streaming p" "0 \<le> rq_frame_type p" "rq_frame_type p < int FT_NUM"
    and "senders_ready (m_send_manager c) (cs_shm sys)" "a \<notin> queue_obj ` set (m_send_manager c)"
    and "types_ok (rq_stream_index p) (m_send_manager c)" "k < length (m_send_manager c)"
    and "item_name (m_send_manager c ! k) = rq_queue_name p" "b = queue_obj (m_send_manager c ! k)"
    and "pictures_ok (m_camera_guid c) (rq_stream_index p) data" "rooms_ok (m_camera_guid c) (rq_stream_index p) data (m_send_manager c)"
    and "admitted (os k)" "shm_contents b (cs_shm sys) = []"
    and "msg_len (picture_of data (rq_frame_type p)) (frame_message (m_camera_guid c) (rq_stream_index p) data (rq_frame_type p))
        \<le> shm_capacity b (cs_shm sys)"
    and "receiver_ok b r" "has_callback_reader r" "good_turn os2"
  shows "\<exists>c1 sys1 c2 sys2 r' m d cs. Camera_recv_turn rv os1 c sys = Inr (Some (LoopContinue, c1, sys1))
    \<and> Camera_OnVideoDecompress os (rq_stream_index p) data c1 sys1 = Inr (0, c2, sys2)
    \<and> ThreadLoop_turn os2 r (cs_shm sys2) = Some (Inr (LoopContinue, r', m, [d], cs))
    \<and> delivers (frame_message (m_camera_guid c) (rq_stream_index p) data (rq_frame_type p), picture_of data (rq_frame_type p)) d"
  using request_brings_picture [where rv = rv, OF assms(1-16)] assms(17-25) by simp

theorem picture_reaches_client_witness:
  "\<forall>rv. \<exists>m c1 sys1 c2 sys2 r' m' d cs. shm_contents 0 m = wire [(PStreamRequest dl_request, [])]
    \<and> Camera_recv_turn rv dl_turn dl_camera (dl_sys m) = Inr (Some (LoopContinue, c1, sys1))
    \<and> Camera_OnVideoDecompress (\<lambda>i. dl_sync) 0 dl_data c1 sys1 = Inr (0, c2, sys2)
    \<and> ThreadLoop_turn dl_turn (dl_receiver 1) (cs_shm sys2) = Some (Inr (LoopContinue, r', m', [d], cs))
    \<and> delivers (frame_message [] 0 dl_data 1, [1, 2, 3]) d"
proof
  fix rv
  obtain m where m: "shm_inv 0 m" "shm_contents 0 m = wire [(PStreamRequest dl_request, [])]" "others_kept 0 dl_shm m"
    using dl_asked by blast
  note cl = dl_clients [OF m(3)]
  have rq: "rq_stream_index dl_request = 0" "rq_frame_type dl_request = 1" "video_streaming dl_request" "rq_queue_name dl_request = ''Q''"
    by (simp_all add: dl_request_def)
  have cam: "m_recv_worker dl_camera = dl_receiver 0" "m_camera_guid dl_camera = []" "0 < length (m_send_manager dl_camera)" "cs_shm (dl_sys m) = m"
    by (simp_all add: dl_camera_def Camera_new_def dl_items_def dl_sys_def)
  show "\<exists>m c1 sys1 c2 sys2 r' m' d cs. shm_contents 0 m = wire [(PStreamRequest dl_request, [])]
    \<and> Camera_recv_turn rv dl_turn dl_camera (dl_sys m) = Inr (Some (LoopContinue, c1, sys1))
    \<and> Camera_OnVideoDecompress (\<lambda>i. dl_sync) 0 dl_data c1 sys1 = Inr (0, c2, sys2)
    \<and> ThreadLoop_turn dl_turn (dl_receiver 1) (cs_shm sys2) = Some (Inr (LoopContinue, r', m', [d], cs))
    \<and> delivers (frame_message [] 0 dl_data 1, [1, 2, 3]) d"
    using picture_reaches_client [where c = dl_camera and a = 0 and sys = "dl_sys m" and p = dl_request and bs = "[]" and ps = "[]"
        and ?os1.0 = dl_turn and k = 0 and b = 1 and data = dl_data and os = "\<lambda>i. dl_sync" and r = "dl_receiver 1" and ?os2.0 = dl_turn and rv = rv]
      dl_workers dl_os sendable_receivable [OF dl_request_sendable] dl_pictures cl rq cam m by (auto simp: FT_NUM_def dl_camera_def)
qed

text \<open>
  C6. A picture sent to the clients changes only their queues: the queue of every client that asked for this stream gets exactly
  the message of the picture of its own type when its wait was granted and there is room, the queues of the others
  and all other memory stay as they are, and the workers stay as they were asked.
\<close>

theorem picture_to_every_client:
  assumes "senders_ready (m_send_manager c) (cs_shm sys)" "pictures_ok (m_camera_guid c) si data" "types_ok si (m_send_manager c)"
    and "rooms_ok (m_camera_guid c) si data (m_send_manager c)"
  shows "\<exists>c' sys'. Camera_OnVideoDecompress os si data c sys = Inr (0, c', sys')
    \<and> (\<forall>k < length (m_send_manager c). let item = m_send_manager c ! k; b = queue_obj item in
        shm_contents b (cs_shm sys') = after_send (os k) (frame_msg (m_camera_guid c) si data item) (picture_of data (frame_type item))
            (shm_capacity b (cs_shm sys)) (shm_contents b (cs_shm sys))
        \<and> m_send_manager c' ! k = item\<lparr>send_worker := send_worker (m_send_manager c' ! k)\<rparr>)
    \<and> (\<forall>b. b \<notin> queue_obj ` set (m_send_manager c) \<longrightarrow> cs_shm sys' b = cs_shm sys b)"
  using SendFrame_ok [OF assms, of os] by (auto simp: Camera_OnVideoDecompress_def Let_def)

theorem picture_to_every_client_witness:
  "\<exists>c c' sys'. m_send_manager c = SetFrameInfo_loop ''Q'' 1 0 True dl_items
    \<and> Camera_OnVideoDecompress (\<lambda>i. dl_sync) 0 dl_data c (dl_sys dl_shm) = Inr (0, c', sys')
    \<and> shm_contents 1 (cs_shm sys') = msg_bytes [1, 2, 3] (frame_message [] 0 dl_data 1) \<and> cs_shm sys' 0 = dl_shm 0"
proof -
  let ?c = "dl_camera\<lparr>m_send_manager := SetFrameInfo_loop ''Q'' 1 0 True dl_items\<rparr>"
  have k: "others_kept 0 dl_shm dl_shm" by simp
  note cl = dl_clients [OF k]
  have mgr: "m_send_manager dl_camera = dl_items" by (simp add: dl_camera_def)
  have nm: "item_name (dl_items ! 0) = ''Q''" "length dl_items = 1" using cl(6) mgr by (simp_all add: dl_items_def)
  have it: "SetFrameInfo_loop ''Q'' 1 0 True dl_items = [(dl_items ! 0)\<lparr>frame_type := 1, stream_index := 0, wi_video_streaming := True\<rparr>]"
    using nm by (simp add: dl_items_def)
  have obj: "queue_obj (m_send_manager ?c ! 0) = 1" using cl(7) by (simp add: it mgr queue_obj_def)
  have cam: "m_camera_guid ?c = []" "length (m_send_manager ?c) = 1" "cs_shm (dl_sys dl_shm) = dl_shm"
    "frame_msg [] 0 dl_data (m_send_manager ?c ! 0) = Some (frame_message [] 0 dl_data 1)" "frame_type (m_send_manager ?c ! 0) = 1"
    by (simp_all add: it dl_camera_def Camera_new_def dl_sys_def frame_msg_def wants_frame_def)
  have h: "senders_ready (m_send_manager ?c) (cs_shm (dl_sys dl_shm))" "pictures_ok (m_camera_guid ?c) 0 dl_data" "types_ok 0 (m_send_manager ?c)"
    "rooms_ok (m_camera_guid ?c) 0 dl_data (m_send_manager ?c)"
    using cl dl_pictures cam mgr by (simp_all add: SetFrameInfo_loop_ready) (simp_all add: it types_ok_def FT_NUM_def rooms_ok_def dl_items_def)
  from picture_to_every_client [OF h, of "\<lambda>i. dl_sync"] obtain c' sys' where
    "Camera_OnVideoDecompress (\<lambda>i. dl_sync) 0 dl_data ?c (dl_sys dl_shm) = Inr (0, c', sys')"
    "shm_contents 1 (cs_shm sys') = msg_bytes [1, 2, 3] (frame_message [] 0 dl_data 1)" "cs_shm sys' 0 = dl_shm 0"
    using cl(4,8,9) cam obj dl_pictures dl_os dl_shm_inv by (auto simp: Let_def after_send_def it)
  moreover have "m_send_manager ?c = SetFrameInfo_loop ''Q'' 1 0 True dl_items" by simp
  ultimately show ?thesis by blast
qed

section \<open>From the packets to FFmpeg\<close>

definition pl_sub :: video_subsession where
  "pl_sub = \<lparr>vs_sprops = Some [[0x67, 1], [0x68, 2]], videoWidth = 640, videoHeight = 480, videoFPS = 30\<rparr>"

definition pl_param :: StreamerInfo where
  "pl_param = StreamerInfo_new\<lparr>sti_session_info := SessionInfo_new\<lparr>si_type := SESSION_TYPE_RTSP\<rparr>, sti_decoder_info := DecoderInfo_new\<rparr>"

lemma pl_param_ok:
  "si_type (sti_session_info pl_param) = SESSION_TYPE_RTSP" "di_type (sti_decoder_info pl_param) = DECODER_LIB_TYPE_FFMPEG"
  "length (di_frame_info (sti_decoder_info pl_param)) = FT_NUM"
  by (simp_all add: pl_param_def DecoderInfo_new_def DECODER_LIB_TYPE_FFMPEG_def)

lemma pl_header: "sprop_header [[0x67, 1], [0x68, 2]] [] = [0, 0, 0, 1, 0x67, 1, 0, 0, 0, 1, 0x68, 2]"
  by (simp add: put_def g_H264StartCode_def)

lemma pl_layout:
  "frame_layout [0, 0, 0, 1, 0x67, 1, 0, 0, 0, 1, 0x68, 2] [[0x65, 9]] = [0, 0, 0, 1, 0x67, 1, 0, 0, 0, 1, 0x68, 2, 0, 0, 0, 1, 0x65, 9]"
  "fits_buffer [0, 0, 0, 1, 0x67, 1, 0, 0, 0, 1, 0x68, 2] [[0x65, 9]]"
  by (simp_all add: frame_layout_def fits_buffer_def unit_bytes_def g_H264StartCode_def received_capacity_def g_rtp_packet_buffer_size_def)

text \<open>
  C7. The packets of a stream are decoded once and in order: from a new sink and a freshly initialized streamer, in any interleaving of
  arriving packets, turns of the decoder's thread and of the session's thread, activation, requests for picture sizes and decoded
  pictures, the finished frames for which the stream queue had room are those that the decoder's thread gave to FFmpeg followed by those
  that wait in its queues, each with the bytes of its packets and the parameter sets before the last of them, as long as every frame
  fits the receive buffer of the sink (\<open>fits_buffer\<close>; the sink drops what does not fit); and the next packet is always received and
  its frame handed over without undefined behaviour.
\<close>

theorem packets_decoded_in_order:
  assumes "createNew to_float junk (Some cb) sub = Inr (infos, s0)" "video_frame_received cb" "vs_sprops sub = Some rs"
    and "si_type (sti_session_info param) = SESSION_TYPE_RTSP" "di_type (sti_decoder_info param) = DECODER_LIB_TYPE_FFMPEG"
    and "length (di_frame_info (sti_decoder_info param)) = FT_NUM"
    and "Streamer_Initialize sessions decoders junk' param (Streamer_new i) = Inr (r, st0)"
    and "stream_reach s0 st0 s st ps got taken" "list_all (fits_buffer (sprop_header rs [])) (map snd got)"
  shows "map (frame_layout (sprop_header rs [])) (map snd (filter fst got)) = taken @ queued st
    \<and> (\<forall>p t. packet_ok p \<longrightarrow> (\<exists>fs s' st'. receive_packet t p s = Inr (fs, s') \<and> hand_over fp ts fs st = Inr st'))"
proof -
  have "\<not> m_initialize (Streamer_new i)" by (simp add: Streamer_new_def)
  from pipe_inv_new [OF assms(1,2) Streamer_new_inv(1) this assms(4-7)] assms(3)
  have inv: "pipe_inv (sprop_header rs []) s st ps got taken"
    using stream_reach_inv [OF assms(8)] by simp
  then have "map (\<lambda>ps. spec_frame (sprop_header rs []) ps []) (map snd (filter fst got)) = taken @ queued st" by (simp add: pipe_inv_def)
  then show ?thesis
    using frames_layout [OF stream_reach_nonempty [OF assms(8)] assms(9)] pipe_receives [OF inv] by simp
qed

theorem packets_decoded_in_order_witness:
  "\<exists>infos s0 st0 s st. createNew id (\<lambda>i. 0) (Some \<lparr>video_info_changed = True, video_frame_received = True\<rparr>) pl_sub = Inr (infos, s0)
    \<and> Streamer_Initialize Map.empty Map.empty (\<lambda>i. 0) pl_param (Streamer_new 0) = Inr (0, st0)
    \<and> stream_reach s0 st0 s st [] [(True, [[0x65, 9]])] []
    \<and> queued st = [[0, 0, 0, 1, 0x67, 1, 0, 0, 0, 1, 0x68, 2, 0, 0, 0, 1, 0x65, 9]]"
proof -
  let ?cb = "\<lparr>video_info_changed = True, video_frame_received = True\<rparr>" and ?h = "[0, 0, 0, 1, 0x67, 1, 0, 0, 0, 1, 0x68, 2] :: u8 list"
  have sub: "vs_sprops pl_sub = Some [[0x67, 1], [0x68, 2]]" by (simp add: pl_sub_def)
  obtain infos s0 where s0: "createNew id (\<lambda>i. 0) (Some ?cb) pl_sub = Inr (infos, s0)"
    using createNew_ok [of id "\<lambda>i. 0" ?cb pl_sub] by blast
  have new: "\<not> m_initialize (Streamer_new 0)" by (simp add: Streamer_new_def)
  obtain st0 where st0: "Streamer_Initialize Map.empty Map.empty (\<lambda>i. 0) pl_param (Streamer_new 0) = Inr (0, st0)"
    using Streamer_Initialize_ok [OF Streamer_new_inv(1) new pl_param_ok] by blast
  have inv: "pipe_inv ?h s0 st0 [] [] []"
    using pipe_inv_new [OF s0 _ Streamer_new_inv(1) new pl_param_ok st0] by (simp add: sub pl_header del: sprop_header.simps)
  have p: "packet_ok ([0x65, 9], True)" by (simp add: packet_ok_def g_rtp_packet_buffer_size_def)
  obtain s st f where step: "receive_packet t0 ([0x65, 9], True) s0 = Inr ([f], s)" "hand_over fp (0, 0, 0, 0) [f] st0 = Inr st"
    using pipe_last_packet [OF inv p] by blast
  have q: "queued st0 = []" using inv by (simp add: pipe_inv_def)
  have h: "array_contents (m_header_buffer s0) = ?h" using inv by (simp add: pipe_inv_def)
  have "spec_frame ?h [[0x65, 9]] [] = frame_layout ?h [[0x65, 9]]"
    using spec_frame_fits [of "[[0x65, 9]]" "[]" ?h] pl_layout(2) by (simp add: frame_layout_def fits_buffer_def del: spec_frame.simps)
  then have "room_for st0 (spec_frame (array_contents (m_header_buffer s0)) [[0x65, 9]] [])"
    using room_for_first [OF inv q] by (simp add: h pl_layout stream_capacity_def del: spec_frame.simps)
  then have r: "stream_reach s0 st0 s st [] [(True, [[0x65, 9]])] []"
    using stream_reach.last_packet [OF stream_reach.start p step] by (simp del: spec_frame.simps)
  show ?thesis
    using packets_decoded_in_order [OF s0 _ sub pl_param_ok st0 r] s0 st0 r
    by (simp add: pl_header pl_layout del: sprop_header.simps) blast
qed

end
