(* ===== verification/File_Operations.thy ===== *)
theory File_Operations
  imports Util_Strings
begin

text \<open>
  \<open>FileOperation\<close> of \<open>include/common/FileOperations.cpp\<close>: deleting, copying, moving and renaming files and folders. Nothing
  of the program calls it. The file system is a state of any type \<open>'s\<close>; what the Windows functions do to it and the handles
  \<open>'h\<close> of \<open>CFileFind\<close> are a parameter (\<open>win_files\<close>). An operation that throws has changed the state all the
  same. The recursions over folders follow what \<open>CFileFind\<close> lists while they change the file system, so that they need not
  end: \<open>None\<close> is "does not return".
\<close>

section \<open>Windows\<close>

datatype answer = IDYES | IDNO | IDCANCEL | NoAnswer

text \<open>The current file of a \<open>CFileFind\<close>.\<close>

record find_entry =
  GetFileName :: string
  GetFilePath :: string
  IsDots :: bool
  IsDirectory :: bool

text \<open>
  A function that fails gives the code of \<open>GetLastError\<close>. \<open>CanOpen\<close> is whether \<open>CreateFile\<close> opens an existing file for
  reading, \<open>AskDelete\<close> the answer to the message box.
\<close>

record ('s, 'h) win_files =
  GetFileAttributes :: "string \<Rightarrow> 's \<Rightarrow> u32 + u32"
  SetFileAttributes_normal :: "string \<Rightarrow> 's \<Rightarrow> u32 option \<times> 's"
  DeleteFile :: "string \<Rightarrow> 's \<Rightarrow> u32 option \<times> 's"
  RemoveDirectory :: "string \<Rightarrow> 's \<Rightarrow> u32 option \<times> 's"
  CreateDirectory :: "string \<Rightarrow> 's \<Rightarrow> u32 option \<times> 's"
  CopyFile :: "string \<Rightarrow> string \<Rightarrow> bool \<Rightarrow> 's \<Rightarrow> u32 option \<times> 's"
  MoveFile :: "string \<Rightarrow> string \<Rightarrow> 's \<Rightarrow> u32 option \<times> 's"
  CanOpen :: "string \<Rightarrow> 's \<Rightarrow> bool"
  FindFile :: "string \<Rightarrow> 's \<Rightarrow> 'h option"
  FindNextFile :: "'h \<Rightarrow> 's \<Rightarrow> find_entry \<times> bool \<times> 'h"
  AskDelete :: "string \<Rightarrow> 's \<Rightarrow> answer"
  FormatMessage :: "u32 \<Rightarrow> string"

section \<open>Names\<close>

definition MAX_PATH :: nat where "MAX_PATH = 260"

definition last_of :: "(char \<Rightarrow> bool) \<Rightarrow> string \<Rightarrow> nat" where
  "last_of P s = length s - length (takeWhile (\<lambda>c. \<not> P c) (rev s))"

text \<open>\<open>_tsplitpath\<close> of the C library: drive, directory, name and extension, into buffers of \<open>MAX_PATH\<close> characters.\<close>

definition path_parts :: "string \<Rightarrow> string \<times> string \<times> string \<times> string" where
  "path_parts s =
     (let (drive, r) = (if 2 \<le> length s \<and> s ! 1 = CHR '':'' then (take 2 s, drop 2 s) else ([], s));
          k = last_of (\<lambda>c. c = CHR ''/'' \<or> c = backslash) r;
          f = drop k r;
          d = last_of (\<lambda>c. c = CHR ''.'') f
      in if d = 0 then (drive, take k r, f, []) else (drive, take k r, take (d - 1) f, drop (d - 1) f))"

definition splitpath :: "string \<Rightarrow> (string \<times> string \<times> string \<times> string) cpp" where
  "splitpath s = (case path_parts s of (drive, dir, name, ext) \<Rightarrow>
     if length dir < MAX_PATH \<and> length name < MAX_PATH \<and> length ext < MAX_PATH then Inr (drive, dir, name, ext) else Inl OutOfBounds)"

text \<open>\<open>_tstoi\<close>: the number at the start of the string, 0 when there is none, kept within \<open>int\<close>.\<close>

definition tstoi :: "string \<Rightarrow> int" where
  "tstoi s = (case stoi s of Inr v \<Rightarrow> v | Inl StdOutOfRange \<Rightarrow>
       (if fst (split_sign (dropWhile is_space s)) then - (2 ^ 31) else 2 ^ 31 - 1) | Inl e \<Rightarrow> 0)"

definition ChangeFileName :: "string \<Rightarrow> string cpp" where
  "ChangeFileName sFileName = cbind (splitpath sFileName) (\<lambda>(drive, dir, sName, ext).
     let sNewName = (case str_find sName ''Copy '' 0 of
         None \<Rightarrow> ''Copy of '' @ sName @ ext
       | Some pos \<Rightarrow> (case str_find sName ''('' 0 of
             None \<Rightarrow> ''Copy (1) of '' @ drop 8 sName @ ext
           | Some pos1 \<Rightarrow> (case str_find sName '')'' 0 of
                 None \<Rightarrow> ''Copy of '' @ [] @ ext
               | Some pos2 \<Rightarrow>
                   let iCount = c_int (tstoi (take (pos2 - pos1 - 1) (drop (pos1 + 1) sName)) + 1) in
                   ''Copy ('' @ to_string iCount @ '') of '' @ drop (pos2 + 5) sName @ ext)))
     in Inr (drive @ dir @ sNewName))"

definition PreparePath :: "string \<Rightarrow> string" where
  "PreparePath sPath = (if drop (length sPath - 1) sPath \<noteq> [backslash] then sPath @ [backslash] else sPath)"

definition ParseFolderName :: "string \<Rightarrow> string" where
  "ParseFolderName sPathName =
     (let f = (case str_rfind sPathName backslash of None \<Rightarrow> sPathName | Some pos \<Rightarrow> take pos sPathName) in
      case str_rfind f backslash of None \<Rightarrow> [] | Some pos \<Rightarrow> drop (pos + 1) f)"

section \<open>The class\<close>

record FileOperation =
  m_sError :: string
  m_dwError :: u32
  m_bAskIfReadOnly :: bool
  m_bOverwriteMode :: bool
  m_bAborted :: bool
  m_iRecursionLimit :: int
  m_vecExcludeFolder :: "string list"

definition FO_Initialize :: "FileOperation \<Rightarrow> FileOperation" where
  "FO_Initialize o1 = o1\<lparr>m_sError := ''No error'', m_dwError := 0, m_bAskIfReadOnly := True, m_bOverwriteMode := False,
     m_bAborted := False, m_iRecursionLimit := -1\<rparr>"

definition FileOperation_new :: FileOperation where
  "FileOperation_new = FO_Initialize \<lparr>m_sError = [], m_dwError = 0, m_bAskIfReadOnly = False, m_bOverwriteMode = False,
     m_bAborted = False, m_iRecursionLimit = 0, m_vecExcludeFolder = []\<rparr>"

record FExeption =
  fe_text :: string
  fe_code :: u32

definition FExeption_code :: "('s, 'h) win_files \<Rightarrow> u32 \<Rightarrow> FExeption" where
  "FExeption_code api e = \<lparr>fe_text = FormatMessage api e, fe_code = e\<rparr>"

definition FExeption_text :: "string \<Rightarrow> FExeption" where
  "FExeption_text s = \<lparr>fe_text = s, fe_code = 0\<rparr>"

text \<open>How an operation ends that does not return normally.\<close>

datatype fail = Thrown FExeption | Undefined cpp_error

type_synonym ('a, 's) fo_result = "((fail + 'a) \<times> FileOperation \<times> 's) option"

definition fthen :: "('a, 's) fo_result \<Rightarrow> ('a \<Rightarrow> FileOperation \<Rightarrow> 's \<Rightarrow> ('b, 's) fo_result) \<Rightarrow> ('b, 's) fo_result" where
  "fthen r f = Option.bind r (\<lambda>(v, o1, s). (case v of Inl e \<Rightarrow> Some (Inl e, o1, s) | Inr x \<Rightarrow> f x o1 s))"

lemma fthen_mono [partial_function_mono]:
  assumes "mono_option B" "\<And>x o1 s. mono_option (\<lambda>f. C x o1 s f)"
  shows "mono_option (\<lambda>f. fthen (B f) (\<lambda>x o1 s. C x o1 s f))"
  unfolding fthen_def
proof (rule bind_mono [OF assms(1)])
  fix y
  show "mono_option (\<lambda>f. case y of (v, o1, s) \<Rightarrow> (case v of Inl e \<Rightarrow> Some (Inl e, o1, s) | Inr x \<Rightarrow> C x o1 s f))"
    using assms(2) by (cases y; cases "fst y") (auto intro: option.const_mono)
qed

lemma fthen_simps [simp]:
  "fthen None f = None" "fthen (Some (Inl e, o1, s)) f = Some (Inl e, o1, s)" "fthen (Some (Inr x, o1, s)) f = f x o1 s"
  by (simp_all add: fthen_def)

lemma fthen_Some: "fthen r f = Some z \<longleftrightarrow> (\<exists>e o1 s. r = Some (Inl e, o1, s) \<and> z = (Inl e, o1, s))
    \<or> (\<exists>x o1 s. r = Some (Inr x, o1, s) \<and> f x o1 s = Some z)"
proof (cases r)
  case None
  then show ?thesis by simp
next
  case (Some y)
  obtain v o1 s where "y = (v, o1, s)" by (cases y)
  with Some show ?thesis by (cases v) auto
qed

definition FILE_ATTRIBUTE_READONLY :: u32 where "FILE_ATTRIBUTE_READONLY = 1"
definition FILE_ATTRIBUTE_DIRECTORY :: u32 where "FILE_ATTRIBUTE_DIRECTORY = 16"

definition PATH_ERROR :: int where "PATH_ERROR = -1"
definition PATH_NOT_FOUND :: int where "PATH_NOT_FOUND = 0"
definition PATH_IS_FILE :: int where "PATH_IS_FILE = 1"
definition PATH_IS_FOLDER :: int where "PATH_IS_FOLDER = 2"

text \<open>The errors that stand for a missing file are \<open>ERROR_FILE_NOT_FOUND\<close> (2) and \<open>ERROR_PATH_NOT_FOUND\<close> (3).\<close>

definition CheckPath :: "('s, 'h) win_files \<Rightarrow> string \<Rightarrow> 's \<Rightarrow> int" where
  "CheckPath api sPath s = (case GetFileAttributes api sPath s of
       Inr e \<Rightarrow> if e = 2 \<or> e = 3 then PATH_NOT_FOUND else PATH_ERROR
     | Inl dwAttr \<Rightarrow> if dwAttr AND FILE_ATTRIBUTE_DIRECTORY \<noteq> 0 then PATH_IS_FOLDER else PATH_IS_FILE)"

definition IsFileExist :: "('s, 'h) win_files \<Rightarrow> string \<Rightarrow> 's \<Rightarrow> bool" where
  "IsFileExist api sPathName s = CanOpen api sPathName s"

text \<open>Any answer but the three buttons falls out of the \<open>switch\<close>.\<close>

definition CanDelete :: "('s, 'h) win_files \<Rightarrow> string \<Rightarrow> FileOperation \<Rightarrow> 's \<Rightarrow> (fail + bool) \<times> FileOperation \<times> 's" where
  "CanDelete api sPathName o1 s =
     (let set_normal = (case SetFileAttributes_normal api sPathName s of (r, s') \<Rightarrow> (Inr (r = None), o1, s')) in
      case GetFileAttributes api sPathName s of
        Inr e \<Rightarrow> (Inr False, o1, s)
      | Inl dwAttr \<Rightarrow>
          if dwAttr AND FILE_ATTRIBUTE_READONLY \<noteq> 0 then
            if m_bAskIfReadOnly o1 then
              (case AskDelete api sPathName s of
                 IDYES \<Rightarrow> set_normal
               | IDNO \<Rightarrow> (Inr False, o1, s)
               | IDCANCEL \<Rightarrow> (Inl (Thrown (FExeption_code api 0)), o1\<lparr>m_bAborted := True\<rparr>, s)
               | NoAnswer \<Rightarrow> (Inr True, o1, s))
            else set_normal
          else (Inr True, o1, s))"

section \<open>Deleting\<close>

text \<open>\<open>DoDelete\<close> on a path, and the rest of its loop over a folder.\<close>

datatype 'h delete_job = DeletePath string | DeleteLoop string 'h

text \<open>The end of \<open>DoDelete\<close> for a folder.\<close>

definition remove_folder :: "('s, 'h) win_files \<Rightarrow> string \<Rightarrow> FileOperation \<Rightarrow> 's \<Rightarrow> (unit, 's) fo_result" where
  "remove_folder api sPathName o1 s = (case RemoveDirectory api sPathName s of
       (None, s') \<Rightarrow> Some (Inr (), o1, s')
     | (Some e, s') \<Rightarrow> if m_bAborted o1 then Some (Inr (), o1, s') else Some (Inl (Thrown (FExeption_code api e)), o1, s'))"

definition delete_file :: "('s, 'h) win_files \<Rightarrow> string \<Rightarrow> FileOperation \<Rightarrow> 's \<Rightarrow> (unit, 's) fo_result" where
  "delete_file api sPath o1 s = fthen (Some (CanDelete api sPath o1 s)) (\<lambda>can o2 s2.
     if \<not> can then Some (Inr (), o2\<lparr>m_bAborted := True\<rparr>, s2)
     else case DeleteFile api sPath s2 of
         (None, s3) \<Rightarrow> Some (Inr (), o2, s3)
       | (Some e, s3) \<Rightarrow> Some (Inl (Thrown (FExeption_code api e)), o2, s3))"

partial_function (option) delete_go :: "('s, 'h) win_files \<Rightarrow> 'h delete_job \<Rightarrow> FileOperation \<Rightarrow> 's \<Rightarrow> (unit, 's) fo_result" where
  "delete_go api job o1 s = (case job of
       DeletePath sPathName \<Rightarrow>
         if CheckPath api sPathName s = PATH_IS_FILE then delete_file api sPathName o1 s
         else (case FindFile api (PreparePath sPathName @ ''*.*'') s of
             None \<Rightarrow> remove_folder api sPathName o1 s
           | Some h \<Rightarrow> delete_go api (DeleteLoop sPathName h) o1 s)
     | DeleteLoop sPathName h \<Rightarrow>
         (case FindNextFile api h s of (ff, bRes, h') \<Rightarrow>
           fthen (if IsDots ff then Some (Inr (), o1, s) else delete_go api (DeletePath (GetFilePath ff)) o1 s) (\<lambda>u o2 s2.
             if bRes then delete_go api (DeleteLoop sPathName h') o2 s2 else remove_folder api sPathName o2 s2)))"

definition DoDelete :: "('s, 'h) win_files \<Rightarrow> string \<Rightarrow> FileOperation \<Rightarrow> 's \<Rightarrow> (unit, 's) fo_result" where
  "DoDelete api sPathName = delete_go api (DeletePath sPathName)"

text \<open>The \<open>catch\<close> of the public operations: what was thrown is stored, and \<open>f\<close> makes the result of it.\<close>

definition catching :: "(u32 \<Rightarrow> bool) \<Rightarrow> (bool, 's) fo_result \<Rightarrow> (bool, 's) fo_result" where
  "catching f r = Option.bind r (\<lambda>(v, o1, s). case v of
       Inl (Thrown e) \<Rightarrow> Some (Inr (f (fe_code e)), o1\<lparr>m_sError := fe_text e, m_dwError := fe_code e\<rparr>, s)
     | _ \<Rightarrow> Some (v, o1, s))"

definition Delete :: "('s, 'h) win_files \<Rightarrow> string \<Rightarrow> FileOperation \<Rightarrow> 's \<Rightarrow> (bool, 's) fo_result" where
  "Delete api sPathName o1 s =
     catching (\<lambda>code. if code = 0 then True else False) (fthen (DoDelete api sPathName o1 s) (\<lambda>u o2 s2. Some (Inr True, o2, s2)))"

section \<open>Renaming\<close>

definition DoRename :: "('s, 'h) win_files \<Rightarrow> string \<Rightarrow> string \<Rightarrow> FileOperation \<Rightarrow> 's \<Rightarrow> (unit, 's) fo_result" where
  "DoRename api sSource sDest o1 s = (case MoveFile api sSource sDest s of
       (None, s') \<Rightarrow> Some (Inr (), o1, s') | (Some e, s') \<Rightarrow> Some (Inl (Thrown (FExeption_code api e)), o1, s'))"

definition Rename :: "('s, 'h) win_files \<Rightarrow> string \<Rightarrow> string \<Rightarrow> FileOperation \<Rightarrow> 's \<Rightarrow> (bool, 's) fo_result" where
  "Rename api sSource sDest o1 s =
     catching (\<lambda>code. False) (fthen (DoRename api sSource sDest o1 s) (\<lambda>u o2 s2. Some (Inr True, o2, s2)))"

section \<open>Copying\<close>

partial_function (option) free_name :: "('s, 'h) win_files \<Rightarrow> string \<Rightarrow> 's \<Rightarrow> string cpp option" where
  "free_name api sDestFile s =
     (if IsFileExist api sDestFile s then
        (case ChangeFileName sDestFile of Inl e \<Rightarrow> Some (Inl e) | Inr sDestFile' \<Rightarrow> free_name api sDestFile' s)
      else Some (Inr sDestFile))"

definition DoFileCopy :: "('s, 'h) win_files \<Rightarrow> string \<Rightarrow> string \<Rightarrow> bool \<Rightarrow> FileOperation \<Rightarrow> 's \<Rightarrow> (unit, 's) fo_result" where
  "DoFileCopy api sSourceFile sDestFile bDelteAfterCopy o1 s =
     Option.bind (if \<not> m_bOverwriteMode o1 then map_option (map_sum id (\<lambda>d. (d, True))) (free_name api sDestFile s)
                  else Some (Inr (sDestFile, False)))
       (\<lambda>r. case r of
          Inl e \<Rightarrow> Some (Inl (Undefined e), o1, s)
        | Inr (sDest, bOvrwriteFails) \<Rightarrow> (case CopyFile api sSourceFile sDest bOvrwriteFails s of
            (Some e, s') \<Rightarrow> Some (Inl (Thrown (FExeption_code api e)), o1, s')
          | (None, s') \<Rightarrow> if bDelteAfterCopy then DoDelete api sSourceFile o1 s' else Some (Inr (), o1, s')))"

fun is_excluded :: "string list \<Rightarrow> string \<Rightarrow> bool" where
  "is_excluded [] strPath = False"
| "is_excluded (strExclude # rest) strPath =
     (if strExclude = take (length strExclude) strPath then True else is_excluded rest strPath)"

definition IsExcludePath :: "string \<Rightarrow> FileOperation \<Rightarrow> bool" where
  "IsExcludePath strPath o1 = is_excluded (m_vecExcludeFolder o1) strPath"

definition AddExcludePath :: "string \<Rightarrow> FileOperation \<Rightarrow> FileOperation" where
  "AddExcludePath strPath o1 = o1\<lparr>m_vecExcludeFolder := m_vecExcludeFolder o1 @ [strPath]\<rparr>"

definition ClearExcludePath :: "FileOperation \<Rightarrow> FileOperation" where
  "ClearExcludePath o1 = o1\<lparr>m_vecExcludeFolder := []\<rparr>"

text \<open>\<open>DoFolderCopy\<close> with a search pattern, and the rest of its loop.\<close>

datatype 'h copy_job = CopyPattern string string | CopyLoop 'h string

text \<open>What the loop does with a folder before it goes into it: \<open>None\<close> when it is passed over.\<close>

definition enter_folder :: "('s, 'h) win_files \<Rightarrow> find_entry \<Rightarrow> string \<Rightarrow> FileOperation \<Rightarrow> 's
    \<Rightarrow> ((string \<times> string) option, 's) fo_result" where
  "enter_folder api ff sDestFolder o1 s =
     (let sPathSource = GetFilePath ff @ [backslash] @ ''*.*''; sPathDest = sDestFolder @ GetFileName ff @ [backslash] in
      if m_iRecursionLimit o1 = 0 then Some (Inr None, o1, s)
      else if IsExcludePath sPathSource o1 then Some (Inr None, o1, s)
      else
        let dec = (if m_iRecursionLimit o1 > 0 then o1\<lparr>m_iRecursionLimit := m_iRecursionLimit o1 - 1\<rparr> else o1) in
        if CheckPath api sPathDest s = PATH_NOT_FOUND then
          (case CreateDirectory api sPathDest s of
             (Some e, s') \<Rightarrow> Some (Inl (Thrown (FExeption_code api e)), o1, s')
           | (None, s') \<Rightarrow> Some (Inr (Some (sPathSource, sPathDest)), dec, s'))
        else Some (Inr (Some (sPathSource, sPathDest)), dec, s))"

partial_function (option) copy_go :: "('s, 'h) win_files \<Rightarrow> bool \<Rightarrow> 'h copy_job \<Rightarrow> FileOperation \<Rightarrow> 's \<Rightarrow> (unit, 's) fo_result" where
  "copy_go api del job o1 s = (case job of
       CopyPattern sSourceFolder sDestFolder \<Rightarrow>
         (case FindFile api sSourceFolder s of None \<Rightarrow> Some (Inr (), o1, s)
          | Some h \<Rightarrow> copy_go api del (CopyLoop h sDestFolder) o1 s)
     | CopyLoop h sDestFolder \<Rightarrow>
         (case FindNextFile api h s of (ff, bRes, h') \<Rightarrow>
           fthen (if IsDots ff then Some (Inr (), o1, s)
                  else if IsDirectory ff then
                    fthen (enter_folder api ff sDestFolder o1 s) (\<lambda>t o2 s2. case t of None \<Rightarrow> Some (Inr (), o2, s2)
                      | Some (src, dst) \<Rightarrow> copy_go api del (CopyPattern src dst) o2 s2)
                  else DoFileCopy api (GetFilePath ff) (sDestFolder @ GetFileName ff) del o1 s)
             (\<lambda>u o2 s2. if bRes then copy_go api del (CopyLoop h' sDestFolder) o2 s2 else Some (Inr (), o2, s2))))"

definition DoFolderCopy :: "('s, 'h) win_files \<Rightarrow> string \<Rightarrow> string \<Rightarrow> bool \<Rightarrow> FileOperation \<Rightarrow> 's \<Rightarrow> (unit, 's) fo_result" where
  "DoFolderCopy api sSourceFolder sDestFolder del = copy_go api del (CopyPattern sSourceFolder sDestFolder)"

text \<open>\<open>Find\<close> of a \<open>CString\<close> finds the source anywhere in the destination.\<close>

definition CheckSelfRecursion :: "string \<Rightarrow> string \<Rightarrow> FileOperation \<Rightarrow> FileOperation" where
  "CheckSelfRecursion sSource sDest o1 =
     (if str_find sDest sSource 0 \<noteq> None then
        (let count1 = length (filter (\<lambda>c. c = backslash) sSource); count2 = length (filter (\<lambda>c. c = backslash) sDest) in
         if count2 \<ge> count1 then o1\<lparr>m_iRecursionLimit := int count2 - int count1\<rparr> else o1)
      else o1)"

definition lower :: "char \<Rightarrow> char" where
  "lower c = (if 65 \<le> (of_char c :: nat) \<and> (of_char c :: nat) \<le> 90 then char_of ((of_char c :: nat) + 32) else c)"

definition CheckSelfCopy :: "('s, 'h) win_files \<Rightarrow> string \<Rightarrow> string \<Rightarrow> 's \<Rightarrow> bool" where
  "CheckSelfCopy api sSource sDest s =
     (if CheckPath api sSource s = PATH_IS_FOLDER then
        (case str_rfind sSource backslash of None \<Rightarrow> False | Some pos \<Rightarrow> map lower (take pos sSource) = map lower sDest)
      else False)"

text \<open>\<open>DoCopy\<close>; the folder branch changes its copies of both paths, on which the later tests are made.\<close>

definition copy_folders :: "('s, 'h) win_files \<Rightarrow> string \<Rightarrow> string \<Rightarrow> bool \<Rightarrow> FileOperation \<Rightarrow> 's
    \<Rightarrow> (string \<times> string, 's) fo_result" where
  "copy_folders api sSource sDest del o1 s =
     (let err = Inl (Thrown (FExeption_text (sSource @ '' not found''))); src = PreparePath sSource @ ''*.*''; dst = PreparePath sDest in
      case FindFile api src s of None \<Rightarrow> Some (err, o1, s)
      | Some h \<Rightarrow> if \<not> fst (snd (FindNextFile api h s)) then Some (err, o1, s)
          else fthen (DoFolderCopy api src dst del o1 s) (\<lambda>u o2 s2. Some (Inr (src, dst), o2, s2)))"

definition copy_to_file :: "('s, 'h) win_files \<Rightarrow> string \<Rightarrow> string \<Rightarrow> FileOperation \<Rightarrow> 's \<Rightarrow> (unit, 's) fo_result" where
  "copy_to_file api sSource sDest o1 s =
     (if CheckPath api sSource s = PATH_IS_FILE \<and> CheckPath api sDest s = PATH_IS_FILE
      then DoFileCopy api sSource sDest False o1 s else Some (Inr (), o1, s))"

definition copy_into_folder :: "('s, 'h) win_files \<Rightarrow> string \<Rightarrow> string \<Rightarrow> FileOperation \<Rightarrow> 's \<Rightarrow> (unit, 's) fo_result" where
  "copy_into_folder api sSource sDest o1 s =
     (if CheckPath api sSource s = PATH_IS_FILE \<and> CheckPath api sDest s = PATH_IS_FOLDER
      then (case splitpath sSource of Inl e \<Rightarrow> Some (Inl (Undefined e), o1, s)
        | Inr (drive, dir, name, ext) \<Rightarrow> DoFileCopy api sSource (PreparePath sDest @ name @ ext) False o1 s)
      else Some (Inr (), o1, s))"

definition DoCopy :: "('s, 'h) win_files \<Rightarrow> string \<Rightarrow> string \<Rightarrow> bool \<Rightarrow> FileOperation \<Rightarrow> 's \<Rightarrow> (unit, 's) fo_result" where
  "DoCopy api sSource0 sDest0 del o0 s0 =
     (let o1 = CheckSelfRecursion sSource0 sDest0 o0; throw = (\<lambda>text. Some (Inl (Thrown (FExeption_text text)), o1, s0)) in
      if CheckPath api sSource0 s0 = PATH_NOT_FOUND then throw (sSource0 @ '' not found'')
      else if CheckPath api sDest0 s0 = PATH_NOT_FOUND then throw (sDest0 @ '' not found'')
      else if CheckPath api sSource0 s0 = PATH_IS_FOLDER \<and> CheckPath api sDest0 s0 = PATH_IS_FILE then throw ''Wrong operation''
      else
        fthen (if CheckPath api sSource0 s0 = PATH_IS_FOLDER \<and> CheckPath api sDest0 s0 = PATH_IS_FOLDER
               then copy_folders api sSource0 sDest0 del o1 s0 else Some (Inr (sSource0, sDest0), o1, s0))
          (\<lambda>(sSource, sDest) o2 s2. fthen (copy_to_file api sSource sDest o2 s2) (\<lambda>u o3 s3. copy_into_folder api sSource sDest o3 s3)))"

text \<open>After an exception the result is \<open>false\<close>: the \<open>true\<close> for the code 0 is overwritten in the next line.\<close>

definition limit_reset :: "(bool, 's) fo_result \<Rightarrow> (bool, 's) fo_result" where
  "limit_reset r = fthen r (\<lambda>b o1 s. Some (Inr b, o1\<lparr>m_iRecursionLimit := -1\<rparr>, s))"

definition Copy :: "('s, 'h) win_files \<Rightarrow> string \<Rightarrow> string \<Rightarrow> FileOperation \<Rightarrow> 's \<Rightarrow> (bool, 's) fo_result" where
  "Copy api sSource sDest o1 s =
     (if CheckSelfCopy api sSource sDest s then Some (Inr True, o1, s)
      else limit_reset (catching (\<lambda>code. False)
        (fthen (DoCopy api sSource sDest False o1 s) (\<lambda>u o2 s2. Some (Inr True, o2, s2)))))"

definition Replace :: "('s, 'h) win_files \<Rightarrow> string \<Rightarrow> string \<Rightarrow> FileOperation \<Rightarrow> 's \<Rightarrow> (bool, 's) fo_result" where
  "Replace api sSource sDest o1 s =
     (if CheckSelfCopy api sSource sDest s then Some (Inr True, o1, s)
      else let b = m_bAskIfReadOnly o1 in
        limit_reset (catching (\<lambda>code. False)
          (fthen (DoCopy api sSource sDest True (o1\<lparr>m_bAskIfReadOnly := False\<rparr>) s) (\<lambda>u o2 s2.
           fthen (DoDelete api sSource o2 s2) (\<lambda>u o3 s3. Some (Inr True, o3\<lparr>m_bAskIfReadOnly := b\<rparr>, s3))))))"

section \<open>What the recursions keep\<close>

text \<open>A relation between states that the single steps keep is kept by the recursion over a folder.\<close>

lemma delete_go_keeps:
  fixes Q :: "FileOperation \<times> 's \<Rightarrow> FileOperation \<times> 's \<Rightarrow> bool"
  assumes ret: "delete_go api job o1 s = Some (r, o2, s2)"
    and trans: "\<And>x y z. Q x y \<Longrightarrow> Q y z \<Longrightarrow> Q x z" and refl: "\<And>x. Q x x"
    and one: "\<And>p o1 s r o2 s2. delete_file api p o1 s = Some (r, o2, s2) \<Longrightarrow> Q (o1, s) (o2, s2)"
    and folder: "\<And>p o1 s r o2 s2. remove_folder api p o1 s = Some (r, o2, s2) \<Longrightarrow> Q (o1, s) (o2, s2)"
  shows "Q (o1, s) (o2, s2)"
proof -
  let ?P = "\<lambda>api' job o1 s (y :: (fail + unit) \<times> FileOperation \<times> 's). api' = api \<longrightarrow> Q (o1, s) (snd y)"
  have "?P api job o1 s (r, o2, s2)"
  proof (rule delete_go.raw_induct [where P = ?P, OF _ ret], intro impI, goal_cases)
    case (1 f api' job o1 s y)
    note api = 1(3) and eq = 1(2) [unfolded 1(3)]
    have IH: "Q (o1, s) (snd y)" if "f api job o1 s = Some y" for job o1 s y
      using 1(1) that api by simp
    have fl: "Q (o1, s) (snd y)" if "delete_file api p o1 s = Some y" for p o1 s y
      using that one [of p o1 s "fst y" "fst (snd y)" "snd (snd y)"] by simp
    have fo: "Q (o1, s) (snd y)" if "remove_folder api p o1 s = Some y" for p o1 s y
      using that folder [of p o1 s "fst y" "fst (snd y)" "snd (snd y)"] by simp
    show ?case
    proof (cases job)
      case (DeletePath p)
      then show ?thesis using eq IH fl fo by (auto split: if_splits option.splits)
    next
      case (DeleteLoop p h)
      obtain ff more h' where n: "FindNextFile api h s = (ff, more, h')" by (cases "FindNextFile api h s")
      have step: "Q (o1, s) (snd y)" if "(if IsDots ff then Some (Inr (), o1, s) else f api (DeletePath (GetFilePath ff)) o1 s) = Some y" for y
        using that IH refl by (auto split: if_splits)
      have rest: "Q (o2, s2) (snd y)" if "(if more then f api (DeleteLoop p h') o2 s2 else remove_folder api p o2 s2) = Some y" for o2 s2 y
        using that IH fo by (auto split: if_splits)
      have "fthen (if IsDots ff then Some (Inr (), o1, s) else f api (DeletePath (GetFilePath ff)) o1 s) (\<lambda>u o2 s2.
             if more then f api (DeleteLoop p h') o2 s2 else remove_folder api p o2 s2) = Some y"
        using eq by (simp add: DeleteLoop n)
      then consider e o2 s2 where "(if IsDots ff then Some (Inr (), o1, s) else f api (DeletePath (GetFilePath ff)) o1 s) = Some (Inl e, o2, s2)"
          "y = (Inl e, o2, s2)"
        | u o2 s2 where "(if IsDots ff then Some (Inr (), o1, s) else f api (DeletePath (GetFilePath ff)) o1 s) = Some (Inr u, o2, s2)"
          "(if more then f api (DeleteLoop p h') o2 s2 else remove_folder api p o2 s2) = Some y"
        unfolding fthen_Some by blast
      then show ?thesis
      proof cases
        case 1
        then show ?thesis using step by fastforce
      next
        case 2
        then show ?thesis using step [OF 2(1)] rest [OF 2(2)] trans by simp
      qed
    qed
  qed
  then show ?thesis by simp
qed

lemma copy_go_keeps:
  fixes Q :: "FileOperation \<times> 's \<Rightarrow> FileOperation \<times> 's \<Rightarrow> bool"
  assumes ret: "copy_go api del job o1 s = Some (r, o2, s2)"
    and trans: "\<And>x y z. Q x y \<Longrightarrow> Q y z \<Longrightarrow> Q x z" and refl: "\<And>x. Q x x"
    and one: "\<And>src dst o1 s r o2 s2. DoFileCopy api src dst del o1 s = Some (r, o2, s2) \<Longrightarrow> Q (o1, s) (o2, s2)"
    and folder: "\<And>ff dst o1 s r o2 s2. enter_folder api ff dst o1 s = Some (r, o2, s2) \<Longrightarrow> Q (o1, s) (o2, s2)"
  shows "Q (o1, s) (o2, s2)"
proof -
  let ?P = "\<lambda>api' del' job o1 s (y :: (fail + unit) \<times> FileOperation \<times> 's). api' = api \<and> del' = del \<longrightarrow> Q (o1, s) (snd y)"
  have "?P api del job o1 s (r, o2, s2)"
  proof (rule copy_go.raw_induct [where P = ?P, OF _ ret], intro impI, goal_cases)
    case (1 f api' del' job o1 s y)
    have [simp]: "api' = api" "del' = del" using 1(3) by simp_all
    have IH: "Q (o1, s) (snd y)" if "f api del job o1 s = Some y" for job o1 s y
      using 1(1) that by simp
    have fl: "Q (o1, s) (snd y)" if "DoFileCopy api src dst del o1 s = Some y" for src dst o1 s y
      using that one [of src dst o1 s "fst y" "fst (snd y)" "snd (snd y)"] by simp
    note eq = 1(2) [unfolded \<open>api' = api\<close> \<open>del' = del\<close>]
    show ?case
    proof (cases job)
      case (CopyPattern p d)
      then show ?thesis using eq IH refl by (auto split: option.splits)
    next
      case (CopyLoop h d)
      obtain ff more h' where n: "FindNextFile api h s = (ff, more, h')" by (cases "FindNextFile api h s")
      let ?go = "\<lambda>t o2 s2. case t of None \<Rightarrow> Some (Inr (), o2, s2) | Some (src, dst) \<Rightarrow> f api del (CopyPattern src dst) o2 s2"
      let ?one = "if IsDots ff then Some (Inr (), o1, s)
                  else if IsDirectory ff then fthen (enter_folder api ff d o1 s) ?go
                  else DoFileCopy api (GetFilePath ff) (d @ GetFileName ff) del o1 s"
      let ?rest = "\<lambda>(u :: unit) o2 s2. if more then f api del (CopyLoop h' d) o2 s2 else Some (Inr (), o2, s2)"
      have dir: "Q (o1, s) (snd y)" if "fthen (enter_folder api ff d o1 s) ?go = Some y" for y
        using that unfolding fthen_Some
      proof (elim disjE exE conjE)
        fix e o2 s2
        assume "enter_folder api ff d o1 s = Some (Inl e, o2, s2)" "y = (Inl e, o2, s2)"
        then show ?thesis using folder by fastforce
      next
        fix t o2 s2
        assume a: "enter_folder api ff d o1 s = Some (Inr t, o2, s2)" "?go t o2 s2 = Some y"
        have "Q (o2, s2) (snd y)" using a(2) IH refl by (auto split: option.splits prod.splits)
        then show ?thesis using folder [OF a(1)] trans by blast
      qed
      have step: "Q (o1, s) (snd y)" if "?one = Some y" for y
        using that fl dir refl by (auto split: if_splits)
      have rest: "Q (o2, s2) (snd y)" if "?rest u o2 s2 = Some y" for u o2 s2 y
        using that IH refl by (auto split: if_splits)
      have "fthen ?one ?rest = Some y" using eq by (simp add: CopyLoop n)
      then show ?thesis unfolding fthen_Some
      proof (elim disjE exE conjE)
        fix e o2 s2
        assume "?one = Some (Inl e, o2, s2)" "y = (Inl e, o2, s2)"
        then show ?thesis using step by fastforce
      next
        fix u o2 s2
        assume a: "?one = Some (Inr u, o2, s2)" "?rest u o2 s2 = Some y"
        show ?thesis using step [OF a(1)] rest [OF a(2)] trans by simp
      qed
    qed
  qed
  then show ?thesis by simp
qed

end
