(* ===== verification/File_Names.thy ===== *)
theory File_Names
  imports File_Operations
begin

text \<open>
  \<open>ChangeFileName\<close> and the loop of \<open>DoFileCopy\<close> that asks for a name nothing has yet: the names it goes through, and that it
  ends.
\<close>

section \<open>Positions\<close>

lemma str_find_first:
  assumes "matches_at s pat i" "\<And>j. j < i \<Longrightarrow> \<not> matches_at s pat j"
  shows "str_find s pat 0 = Some i"
proof (cases "str_find s pat 0")
  case None
  then show ?thesis using str_find_None [OF None, of i] assms(1) by simp
next
  case (Some j)
  note j = str_find_Some [OF Some]
  have "\<not> j < i" "\<not> i < j" using assms(2) j(2) j(3) [of i] assms(1) by auto
  then show ?thesis using Some by simp
qed

lemma str_find_prefix: "str_find (pat @ s) pat 0 = Some 0"
  by (rule str_find_first) (simp_all add: matches_at_def)

lemma matches_at_char: "matches_at s [c] j \<longleftrightarrow> j < length s \<and> s ! j = c"
  by (cases "j < length s") (auto simp: matches_at_def take_Suc_conv_app_nth hd_drop_conv_nth take_Suc)

lemma str_find_char: "c \<notin> set xs \<Longrightarrow> str_find (xs @ c # ys) [c] 0 = Some (length xs)"
  by (rule str_find_first) (auto simp: matches_at_char nth_append in_set_conv_nth)

lemma str_find_char_None: "c \<notin> set xs \<Longrightarrow> str_find xs [c] 0 = None"
  using str_find_Some(2) [of xs "[c]" 0] by (cases "str_find xs [c] 0") (auto simp: matches_at_char)

lemma last_of_none: "\<forall>c \<in> set s. \<not> P c \<Longrightarrow> last_of P s = 0"
  by (simp add: last_of_def takeWhile_eq_all_conv [THEN iffD2])

lemma last_of_here: "P c \<Longrightarrow> \<forall>x \<in> set ys. \<not> P x \<Longrightarrow> last_of P (xs @ c # ys) = length xs + 1"
  by (simp add: last_of_def takeWhile_append)

lemma last_of_split:
  obtains "last_of P s = 0" "\<forall>c \<in> set s. \<not> P c"
  | xs c ys where "s = xs @ c # ys" "P c" "\<forall>x \<in> set ys. \<not> P x" "last_of P s = length xs + 1"
proof (cases "\<exists>c \<in> set s. P c")
  case True
  then obtain xs c ys where c: "s = xs @ c # ys" "P c" "\<forall>x \<in> set ys. \<not> P x"
    by (rule split_list_last_propE)
  then have "last_of P s = length xs + 1" by (simp add: last_of_here)
  then show ?thesis by (rule that(2) [OF c])
next
  case False
  then have n: "\<forall>c \<in> set s. \<not> P c" by simp
  show ?thesis by (rule that(1) [OF last_of_none [OF n] n])
qed

section \<open>The parts of a path\<close>

definition no_slash :: "string \<Rightarrow> bool" where
  "no_slash s \<longleftrightarrow> CHR ''/'' \<notin> set s \<and> backslash \<notin> set s"

definition parts_ok :: "string \<times> string \<times> string \<times> string \<Rightarrow> bool" where
  "parts_ok = (\<lambda>(drive, dir, name, ext).
     (if drive = [] then length (dir @ name @ ext) < 2 \<or> (dir @ name @ ext) ! 1 \<noteq> CHR '':'' else length drive = 2 \<and> drive ! 1 = CHR '':'')
     \<and> (dir = [] \<or> last dir = CHR ''/'' \<or> last dir = backslash) \<and> no_slash (name @ ext)
     \<and> (if ext = [] then CHR ''.'' \<notin> set name else hd ext = CHR ''.'' \<and> CHR ''.'' \<notin> set (tl ext)))"

lemma path_parts_of:
  assumes "parts_ok (drive, dir, name, ext)"
  shows "path_parts (drive @ dir @ name @ ext) = (drive, dir, name, ext)"
proof -
  have d: "(if 2 \<le> length (drive @ dir @ name @ ext) \<and> (drive @ dir @ name @ ext) ! 1 = CHR '':''
      then (take 2 (drive @ dir @ name @ ext), drop 2 (drive @ dir @ name @ ext)) else ([], drive @ dir @ name @ ext)) = (drive, dir @ name @ ext)"
    using assms by (auto simp: parts_ok_def nth_append split: if_splits)
  have k: "last_of (\<lambda>c. c = CHR ''/'' \<or> c = backslash) (dir @ name @ ext) = length dir"
  proof (cases dir rule: rev_cases)
    case Nil
    then show ?thesis using assms by (auto simp: parts_ok_def no_slash_def intro!: last_of_none)
  next
    case (snoc xs c)
    then have c: "c = CHR ''/'' \<or> c = backslash" "no_slash (name @ ext)" using assms by (simp_all add: parts_ok_def split: if_splits)
    have "last_of (\<lambda>c. c = CHR ''/'' \<or> c = backslash) (xs @ c # name @ ext) = length xs + 1"
      by (rule last_of_here) (use c in \<open>auto simp: no_slash_def\<close>)
    then show ?thesis using snoc by simp
  qed
  have e: "last_of (\<lambda>c. c = CHR ''.'') (name @ ext) = (if ext = [] then 0 else length name + 1)"
  proof (cases ext)
    case Nil
    then show ?thesis using assms by (auto simp: parts_ok_def intro!: last_of_none)
  next
    case (Cons c cs)
    then have "c = CHR ''.''" "CHR ''.'' \<notin> set cs" using assms by (simp_all add: parts_ok_def)
    then have "last_of (\<lambda>c. c = CHR ''.'') (name @ c # cs) = length name + 1" by (intro last_of_here) auto
    then show ?thesis using Cons by simp
  qed
  show ?thesis unfolding path_parts_def Let_def d by (simp add: k e)
qed

lemma path_parts_ok:
  assumes "path_parts s = (drive, dir, name, ext)"
  shows "parts_ok (drive, dir, name, ext) \<and> s = drive @ dir @ name @ ext"
proof -
  define dr where "dr = (if 2 \<le> length s \<and> s ! 1 = CHR '':'' then (take 2 s, drop 2 s) else ([], s))"
  define r where "r = snd dr"
  define k where "k = last_of (\<lambda>c. c = CHR ''/'' \<or> c = backslash) r"
  define f where "f = drop k r"
  define d where "d = last_of (\<lambda>c. c = CHR ''.'') f"
  have p: "(drive, dir, name, ext) = (if d = 0 then (fst dr, take k r, f, []) else (fst dr, take k r, take (d - 1) f, drop (d - 1) f))"
    using assms unfolding path_parts_def Let_def dr_def [symmetric] r_def k_def f_def d_def by (simp add: case_prod_beta split: prod.splits)
  have dir: "drive = fst dr" "dir = take k r" "name @ ext = f" using p by (auto split: if_splits)
  have s: "s = drive @ dir @ name @ ext"
    unfolding dir(3) by (simp add: dir(1,2) f_def) (simp add: dr_def r_def)
  have drive: "if drive = [] then length (dir @ name @ ext) < 2 \<or> (dir @ name @ ext) ! 1 \<noteq> CHR '':'' else length drive = 2 \<and> drive ! 1 = CHR '':''"
  proof (cases "2 \<le> length s \<and> s ! 1 = CHR '':''")
    case True
    then have "drive = take 2 s" by (simp add: dir(1) dr_def)
    then show ?thesis using True by auto
  next
    case False
    then have "drive = []" by (auto simp: dir(1) dr_def)
    then show ?thesis using False s by auto
  qed
  have sl: "(dir = [] \<or> last dir = CHR ''/'' \<or> last dir = backslash) \<and> no_slash f"
  proof (cases rule: last_of_split [of "\<lambda>c. c = CHR ''/'' \<or> c = backslash" r])
    case 1
    then have "k = 0" by (simp add: k_def)
    then show ?thesis using 1(2) by (auto simp: dir(2) f_def no_slash_def)
  next
    case (2 xs c ys)
    then have "k = length xs + 1" by (simp add: k_def)
    then show ?thesis using 2(1-3) by (auto simp: dir(2) f_def no_slash_def)
  qed
  have dot: "if ext = [] then CHR ''.'' \<notin> set name else hd ext = CHR ''.'' \<and> CHR ''.'' \<notin> set (tl ext)"
  proof (cases rule: last_of_split [of "\<lambda>c. c = CHR ''.''" f])
    case 1
    then show ?thesis using p by (auto simp: d_def)
  next
    case (2 xs c ys)
    then show ?thesis using p by (auto simp: d_def)
  qed
  show ?thesis using s drive sl dot by (simp add: parts_ok_def dir(3))
qed

section \<open>The names a copy goes through\<close>

definition copy_name :: "string \<Rightarrow> nat \<Rightarrow> string" where
  "copy_name name k = (case k of 0 \<Rightarrow> name | Suc 0 \<Rightarrow> ''Copy of '' @ name
     | Suc (Suc j) \<Rightarrow> ''Copy ('' @ to_string (int j + 1) @ '') of '' @ name)"

lemma to_string_chars: "0 \<le> x \<Longrightarrow> c \<in> set (to_string x) \<Longrightarrow> is_digit c"
  by (auto simp: to_string_def dest: nat_digits_all_digits)

lemma to_string_no: "0 \<le> x \<Longrightarrow> \<not> is_digit c \<Longrightarrow> c \<notin> set (to_string x)"
  using to_string_chars by blast

lemma copy_name_length: "int k < 2 ^ 31 \<Longrightarrow> length (copy_name name k) \<le> length name + 21"
  using length_nat_digits [of _ 10] by (auto simp: copy_name_def to_string_def nat_add_distrib split: nat.splits)

lemma to_string_1: "to_string 1 = ''1''"
  by code_simp

lemma to_string_inj:
  assumes "0 \<le> x" "0 \<le> y" "to_string x = to_string y"
  shows "x = y"
proof -
  have "nat x = nat y" using arg_cong [OF assms(3), of digits_val] assms(1,2) by (simp add: to_string_def)
  then show ?thesis using assms(1,2) by simp
qed

lemma copy_name_inj:
  assumes "copy_name name j = copy_name name k"
  shows "j = k"
proof -
  have long: "length (copy_name name j) = length name + (case j of 0 \<Rightarrow> 0 | Suc 0 \<Rightarrow> 8 | Suc (Suc i) \<Rightarrow> 11 + length (to_string (int i + 1)))" for j
    by (simp add: copy_name_def split: nat.splits)
  have "to_string x \<noteq> []" for x by (simp add: to_string_def)
  then have pos: "0 < length (to_string x)" for x by simp
  show ?thesis
    using assms long [of j] long [of k] pos
    by (auto simp: copy_name_def dest!: to_string_inj [rotated 2] split: nat.splits)
qed

text \<open>The new names have nothing that ends a part of a path.\<close>

lemma copy_name_parts:
  assumes "parts_ok (drive, dir, name, ext)"
  shows "parts_ok (drive, dir, copy_name name k, ext)"
proof (cases k)
  case (Suc i)
  obtain p where p: "copy_name name k = CHR ''C'' # CHR ''o'' # p @ name" and ok: "no_slash p" "CHR ''.'' \<notin> set p"
  proof (cases i)
    case 0
    show ?thesis by (rule that [of "''py of ''"]) (simp_all add: Suc 0 copy_name_def no_slash_def backslash_def)
  next
    case s: (Suc j)
    have "CHR ''/'' \<notin> set (to_string (int j + 1))" "backslash \<notin> set (to_string (int j + 1))" "CHR ''.'' \<notin> set (to_string (int j + 1))"
      by (simp_all add: to_string_no is_digit_def backslash_def)
    then show ?thesis
      by (intro that [of "''py ('' @ to_string (int j + 1) @ '') of ''"])
         (simp_all add: Suc s copy_name_def no_slash_def backslash_def)
  qed
  have "(dir @ copy_name name k @ ext) ! 1 \<noteq> CHR '':''" if "drive = []"
    using assms that unfolding p parts_ok_def by (cases dir; cases "tl dir") auto
  then show ?thesis
    using assms ok by (auto simp: parts_ok_def p no_slash_def backslash_def split: if_splits)
qed (use assms in \<open>simp add: copy_name_def\<close>)

lemma tstoi_to_string: "int32_range x \<Longrightarrow> tstoi (to_string x) = x"
  by (simp add: tstoi_def stoi_to_string)

lemma ChangeFileName_next:
  assumes "parts_ok (drive, dir, name, ext)" "str_find name ''Copy '' 0 = None" "CHR ''('' \<notin> set name"
    and len: "length dir < MAX_PATH" "length name + 21 < MAX_PATH" "length ext < MAX_PATH" and k: "int k + 2 < 2 ^ 31"
  shows "ChangeFileName (drive @ dir @ copy_name name k @ ext) = Inr (drive @ dir @ copy_name name (Suc k) @ ext)"
proof -
  have "length (copy_name name k) < MAX_PATH" using copy_name_length [of k name] k len(2) by linarith
  then have sp: "splitpath (drive @ dir @ copy_name name k @ ext) = Inr (drive, dir, copy_name name k, ext)"
    using len path_parts_of [OF copy_name_parts [OF assms(1)]] by (simp add: splitpath_def)
  consider "k = 0" | "k = 1" | j where "k = Suc (Suc j)" by (cases k; cases "k - 1") auto
  then show ?thesis
  proof cases
    case 1
    then show ?thesis using sp assms(2) by (simp add: ChangeFileName_def copy_name_def)
  next
    case 2
    have "str_find (''Copy of '' @ name) ''Copy '' 0 = Some 0" using str_find_prefix [of "''Copy ''" "''of '' @ name"] by simp
    moreover have "str_find (''Copy of '' @ name) ''('' 0 = None" by (rule str_find_char_None) (simp add: assms(3))
    ultimately show ?thesis
      using sp by (simp add: ChangeFileName_def 2 copy_name_def to_string_1)
  next
    case (3 j)
    let ?d = "to_string (int j + 1)"
    have n: "copy_name name k = ''Copy ('' @ ?d @ '') of '' @ name" by (simp add: 3 copy_name_def)
    have "str_find (copy_name name k) ''Copy '' 0 = Some 0"
      unfolding n using str_find_prefix [of "''Copy ''" "''('' @ ?d @ '') of '' @ name"] by simp
    moreover have "str_find (copy_name name k) ''('' 0 = Some 5"
      unfolding n using str_find_char [of "CHR ''(''" "''Copy ''" "?d @ '') of '' @ name"] by simp
    moreover have "CHR '')'' \<notin> set (''Copy ('' @ ?d)" by (simp add: to_string_no is_digit_def)
    then have "str_find (copy_name name k) '')'' 0 = Some (6 + length ?d)"
      unfolding n using str_find_char [of "CHR '')''" "''Copy ('' @ ?d" "'' of '' @ name"] by simp
    moreover have "take (length ?d) (drop 6 (copy_name name k)) = ?d" by (simp add: n)
    moreover have "drop (11 + length ?d) (copy_name name k) = name"
    proof -
      have "drop (length (''Copy ('' @ ?d @ '') of '')) ((''Copy ('' @ ?d @ '') of '') @ name) = name" by (rule drop_length_append)
      moreover have "length (''Copy ('' @ ?d @ '') of '') = 11 + length ?d" by simp
      ultimately show ?thesis unfolding n by (simp only: append_assoc)
    qed
    moreover have "c_int (tstoi ?d + 1) = int j + 2"
      using k 3 by (simp add: tstoi_to_string int32_range_def c_int_id)
    ultimately show ?thesis
      unfolding ChangeFileName_def sp by (simp add: copy_name_def [of _ "Suc (Suc (Suc j))"] 3 add.commute)
  qed
qed

section \<open>The first free name\<close>

lemma free_name_free:
  fixes api :: "('s, 'h) win_files"
  assumes "free_name api p s = Some (Inr q)"
  shows "\<not> CanOpen api q s"
proof -
  let ?P = "\<lambda>(api :: ('s, 'h) win_files) p s (r :: string cpp). \<forall>q. r = Inr q \<longrightarrow> \<not> CanOpen api q s"
  have "?P api p s (Inr q)"
  proof (rule free_name.raw_induct [where P = ?P, OF _ assms], goal_cases)
    case (1 f api p s r)
    then show ?case by (fastforce simp: IsFileExist_def split: if_splits sum.splits)
  qed
  then show ?thesis by simp
qed

lemma free_name_steps:
  assumes "\<And>j. j < k \<Longrightarrow> CanOpen api (c j) s \<and> ChangeFileName (c j) = Inr (c (Suc j))" "\<not> CanOpen api (c k) s"
  shows "free_name api (c 0) s = Some (Inr (c k))"
  using assms
proof (induction k arbitrary: c)
  case 0
  then show ?case by (subst free_name.simps) (simp add: IsFileExist_def)
next
  case (Suc k)
  have "free_name api (c 0) s = free_name api (c (Suc 0)) s"
    using Suc.prems(1) [of 0] by (subst free_name.simps) (simp add: IsFileExist_def)
  then show ?case using Suc.IH [of "\<lambda>j. c (Suc j)"] Suc.prems by simp
qed

lemma some_name_free:
  assumes "finite {q. CanOpen api q s}" "inj c"
  shows "\<exists>k \<le> card {q. CanOpen api q s}. \<not> CanOpen api (c k) s \<and> (\<forall>j < k. CanOpen api (c j) s)"
proof -
  have "\<exists>k. k \<le> card {q. CanOpen api q s} \<and> \<not> CanOpen api (c k) s"
  proof (rule ccontr)
    assume "\<not> ?thesis"
    then have "c ` {.. card {q. CanOpen api q s}} \<subseteq> {q. CanOpen api q s}" by auto
    from card_mono [OF assms(1) this] show False
      using assms(2) by (simp add: card_image inj_on_subset)
  qed
  then obtain k0 where k0: "k0 \<le> card {q. CanOpen api q s}" "\<not> CanOpen api (c k0) s" by blast
  define k where "k = (LEAST k. \<not> CanOpen api (c k) s)"
  have "\<not> CanOpen api (c k) s" "k \<le> k0" unfolding k_def using k0(2) by (rule LeastI, rule Least_le)
  moreover have "CanOpen api (c j) s" if "j < k" for j using that not_less_Least unfolding k_def by blast
  ultimately show ?thesis using k0(1) by (intro exI [of _ k]) auto
qed

lemma free_name_found:
  assumes p: "path_parts p = (drive, dir, name, ext)" and "str_find name ''Copy '' 0 = None" "CHR ''('' \<notin> set name"
    and len: "length dir < MAX_PATH" "length name + 21 < MAX_PATH" "length ext < MAX_PATH"
    and files: "finite {q. CanOpen api q s}" "card {q. CanOpen api q s} < 2 ^ 30"
  shows "\<exists>k \<le> card {q. CanOpen api q s}. free_name api p s = Some (Inr (drive @ dir @ copy_name name k @ ext))
    \<and> \<not> CanOpen api (drive @ dir @ copy_name name k @ ext) s \<and> (\<forall>j < k. CanOpen api (drive @ dir @ copy_name name j @ ext) s)"
proof -
  let ?c = "\<lambda>k. drive @ dir @ copy_name name k @ ext"
  note ok = path_parts_ok [OF p]
  have "inj ?c" by (rule injI) (simp add: copy_name_inj)
  from some_name_free [OF files(1) this] obtain k where k: "k \<le> card {q. CanOpen api q s}" "\<not> CanOpen api (?c k) s"
    "\<forall>j < k. CanOpen api (?c j) s" by blast
  have "free_name api (?c 0) s = Some (Inr (?c k))"
  proof (rule free_name_steps [where c = ?c and k = k])
    fix j assume "j < k"
    then have "int j + 2 < 2 ^ 31" using k(1) files(2) by simp
    then show "CanOpen api (?c j) s \<and> ChangeFileName (?c j) = Inr (?c (Suc j))"
      using ChangeFileName_next [OF _ assms(2,3) len] ok k(3) \<open>j < k\<close> by blast
  qed (rule k(2))
  then show ?thesis using k ok by (intro exI [of _ k]) (simp add: copy_name_def)
qed

text \<open>
  The number and the name are found by the first parentheses of the whole name, so that a name with parentheses of its own is
  lost at the second copy, and all such files share the names that follow.
\<close>

lemma copies_of_a_name_with_parentheses:
  "ChangeFileName ''photo (1).jpg'' = Inr ''Copy of photo (1).jpg''"
  "ChangeFileName ''Copy of photo (1).jpg'' = Inr ''Copy (2) of .jpg''"
  "ChangeFileName ''Copy of notes (old.txt'' = Inr ''Copy of .txt''"
  by code_simp+

text \<open>An asked-for name that already has the count in it is counted on from there.\<close>

lemma copies_of_a_copy: "ChangeFileName ''C:/a/Copy (7) of b.txt'' = Inr ''C:/a/Copy (8) of b.txt''"
  by code_simp

end
