(* ===== verification/File_Copy.thy ===== *)
theory File_Copy
  imports File_Operations
begin

text \<open>
  What the operations of \<open>FileOperation\<close> keep: the settings of the object, the files that are already there, and the number of
  folders a copy may create; and how they report what went wrong.
\<close>

section \<open>Settings\<close>

text \<open>Deleting leaves the settings alone; copying changes only the recursion limit of them.\<close>

definition same_settings :: "FileOperation \<Rightarrow> FileOperation \<Rightarrow> bool" where
  "same_settings o1 o2 \<longleftrightarrow> m_bAskIfReadOnly o2 = m_bAskIfReadOnly o1 \<and> m_bOverwriteMode o2 = m_bOverwriteMode o1
     \<and> m_vecExcludeFolder o2 = m_vecExcludeFolder o1 \<and> m_sError o2 = m_sError o1 \<and> m_dwError o2 = m_dwError o1"

definition same_limit :: "FileOperation \<Rightarrow> FileOperation \<Rightarrow> bool" where
  "same_limit o1 o2 \<longleftrightarrow> same_settings o1 o2 \<and> m_iRecursionLimit o2 = m_iRecursionLimit o1"

lemma CanDelete_settings: "CanDelete api p o1 s = (r, o2, s2) \<Longrightarrow> same_limit o1 o2"
  by (auto simp: CanDelete_def same_limit_def same_settings_def Let_def split: sum.splits if_splits answer.splits prod.splits)

lemma delete_file_settings: "delete_file api p o1 s = Some (r, o2, s2) \<Longrightarrow> same_limit o1 o2"
  unfolding delete_file_def fthen_Some
  by (auto dest!: CanDelete_settings simp: same_limit_def same_settings_def split: if_splits option.splits prod.splits)

lemma DoDelete_settings: "DoDelete api p o1 s = Some (r, o2, s2) \<Longrightarrow> same_limit o1 o2"
  unfolding DoDelete_def
  by (drule delete_go_keeps [where Q = "\<lambda>x y. same_limit (fst x) (fst y)"])
     (auto simp: delete_file_settings remove_folder_def same_limit_def [abs_def] same_settings_def split: option.splits prod.splits if_splits
       dest: delete_file_settings)

lemma DoFileCopy_cases:
  assumes "DoFileCopy api src dst del o1 s = Some (r, o2, s2)"
  shows "(o2 = o1 \<and> s2 = s \<and> (\<exists>e. r = Inl (Undefined e))) \<or>
    (\<exists>d e s'. CopyFile api src d (\<not> m_bOverwriteMode o1) s = (e, s')
      \<and> (m_bOverwriteMode o1 \<and> d = dst \<or> \<not> m_bOverwriteMode o1 \<and> free_name api dst s = Some (Inr d))
      \<and> (o2 = o1 \<and> s2 = s' \<or> e = None \<and> del \<and> DoDelete api src o1 s' = Some (r, o2, s2)))"
proof -
  obtain v where v: "(if \<not> m_bOverwriteMode o1 then map_option (map_sum id (\<lambda>d. (d, True))) (free_name api dst s) else Some (Inr (dst, False))) = Some v"
    "(case v of Inl e \<Rightarrow> Some (Inl (Undefined e), o1, s)
        | Inr (sDest, bOvrwriteFails) \<Rightarrow> (case CopyFile api src sDest bOvrwriteFails s of
            (Some e, s') \<Rightarrow> Some (Inl (Thrown (FExeption_code api e)), o1, s')
          | (None, s') \<Rightarrow> if del then DoDelete api src o1 s' else Some (Inr (), o1, s'))) = Some (r, o2, s2)"
    using assms unfolding DoFileCopy_def bind_eq_Some_conv by blast
  show ?thesis
  proof (cases v)
    case (Inl e)
    then show ?thesis using v(2) by auto
  next
    case (Inr b)
    then obtain d fl where b: "v = Inr (d, fl)" by (cases b) simp
    have d: "fl = (\<not> m_bOverwriteMode o1)" "m_bOverwriteMode o1 \<and> d = dst \<or> \<not> m_bOverwriteMode o1 \<and> free_name api dst s = Some (Inr d)"
      using v(1) b by (auto split: if_splits) (case_tac z; simp)+
    obtain e s' where c: "CopyFile api src d fl s = (e, s')" by (cases "CopyFile api src d fl s")
    have "o2 = o1 \<and> s2 = s' \<or> e = None \<and> del \<and> DoDelete api src o1 s' = Some (r, o2, s2)"
      using v(2) b c by (cases e) (auto split: if_splits)
    then show ?thesis using c d by blast
  qed
qed

lemma DoFileCopy_settings: "DoFileCopy api src dst del o1 s = Some (r, o2, s2) \<Longrightarrow> same_limit o1 o2"
  by (drule DoFileCopy_cases) (auto dest: DoDelete_settings simp: same_limit_def same_settings_def)

lemma enter_folder_settings:
  assumes "enter_folder api ff d o1 s = Some (r, o2, s2)"
  shows "same_settings o1 o2 \<and> (m_iRecursionLimit o2 = m_iRecursionLimit o1
    \<or> 0 < m_iRecursionLimit o1 \<and> m_iRecursionLimit o2 = m_iRecursionLimit o1 - 1)"
  using assms by (auto simp: enter_folder_def same_settings_def Let_def split: if_splits option.splits prod.splits)

lemma copy_go_settings: "copy_go api del job o1 s = Some (r, o2, s2) \<Longrightarrow> same_settings o1 o2"
  by (drule copy_go_keeps [where Q = "\<lambda>x y. same_settings (fst x) (fst y)"])
     (auto dest: DoFileCopy_settings enter_folder_settings simp: same_limit_def same_settings_def)

lemma fthen_keeps:
  assumes "fthen r f = Some (v, o2, s2)" "\<And>x y z. Q x y \<Longrightarrow> Q y z \<Longrightarrow> Q x z" "\<And>v o' s'. r = Some (v, o', s') \<Longrightarrow> Q x (o', s')"
    and "\<And>a o' s'. f a o' s' = Some (v, o2, s2) \<Longrightarrow> Q (o', s') (o2, s2)"
  shows "Q x (o2, s2)"
  using assms(1) unfolding fthen_Some by (auto intro: assms(2-4))

text \<open>What every file copied and every folder entered keeps, \<open>DoCopy\<close> keeps.\<close>

lemma DoCopy_keeps:
  fixes Q :: "FileOperation \<times> 's \<Rightarrow> FileOperation \<times> 's \<Rightarrow> bool"
  assumes ret: "DoCopy api src dst del o1 s = Some (r, o2, s2)"
    and trans: "\<And>x y z. Q x y \<Longrightarrow> Q y z \<Longrightarrow> Q x z" and refl: "\<And>x. Q x x"
    and one: "\<And>b src dst o1 s r o2 s2. b = del \<or> \<not> b \<Longrightarrow> DoFileCopy api src dst b o1 s = Some (r, o2, s2) \<Longrightarrow> Q (o1, s) (o2, s2)"
    and folder: "\<And>ff dst o1 s r o2 s2. enter_folder api ff dst o1 s = Some (r, o2, s2) \<Longrightarrow> Q (o1, s) (o2, s2)"
  shows "Q (CheckSelfRecursion src dst o1, s) (o2, s2)"
proof -
  let ?o = "CheckSelfRecursion src dst o1"
  have one': "Q (o1, s) (o2, s2)" if "DoFileCopy api src dst False o1 s = Some (r, o2, s2)" for src dst o1 s r o2 s2
    using one that by blast
  have to_file: "Q (o1, s) (o2, s2)" if "copy_to_file api a b o1 s = Some (v, o2, s2)" for a b o1 s v o2 s2
    using that one' refl by (auto simp: copy_to_file_def split: if_splits)
  have into: "Q (o1, s) (o2, s2)" if "copy_into_folder api a b o1 s = Some (v, o2, s2)" for a b o1 s v o2 s2
    using that one' refl by (auto simp: copy_into_folder_def split: if_splits sum.splits)
  have go: "Q (o1, s) (o2, s2)" if "copy_go api del job o1 s = Some (v, o2, s2)" for job o1 s v o2 s2
    by (rule copy_go_keeps [OF that]) (blast intro: trans refl one folder)+
  have folders0: "Q (o1, s) (o2, s2)" if "copy_folders api a b del o1 s = Some (v, o2, s2)" for a b o1 s v o2 s2
    using that go refl by (auto simp: copy_folders_def DoFolderCopy_def fthen_Some Let_def split: option.splits if_splits)
  let ?folders = "if CheckPath api src s = PATH_IS_FOLDER \<and> CheckPath api dst s = PATH_IS_FOLDER
               then copy_folders api src dst del ?o s else Some (Inr (src, dst), ?o, s)"
  let ?rest = "\<lambda>(a, b) o2 s2. fthen (copy_to_file api a b o2 s2) (\<lambda>u o3 s3. copy_into_folder api a b o3 s3)"
  have folders: "Q (?o, s) (o', s')" if "?folders = Some (v, o', s')" for v o' s'
    using that folders0 refl by (auto split: if_splits)
  have rest: "Q (o', s') (o2, s2)" if "?rest ab o' s' = Some (r, o2, s2)" for ab o' s'
  proof -
    obtain a b where ab: "ab = (a, b)" by (cases ab)
    show ?thesis using that unfolding ab prod.case by (rule fthen_keeps) (auto intro: to_file into trans)
  qed
  have "o2 = ?o \<and> s2 = s \<or> fthen ?folders ?rest = Some (r, o2, s2)"
    using ret by (simp only: DoCopy_def Let_def split: if_splits) auto
  then show ?thesis
  proof
    assume f: "fthen ?folders ?rest = Some (r, o2, s2)"
    show ?thesis by (rule fthen_keeps [OF f]) (fact trans folders rest)+
  qed (simp add: refl)
qed

section \<open>Copying without overwriting\<close>

text \<open>
  What Windows documents of \<open>CopyFile\<close> that must not overwrite and of \<open>CreateDirectory\<close>: a file that exists stays as it is.
  \<open>content s p\<close> is what the file \<open>p\<close> holds, if there is one.
\<close>

definition content_kept :: "('s \<Rightarrow> string \<Rightarrow> 'c option) \<Rightarrow> 's \<Rightarrow> 's \<Rightarrow> bool" where
  "content_kept content s s' \<longleftrightarrow> (\<forall>p. content s p \<noteq> None \<longrightarrow> content s' p = content s p)"

definition careful_copy :: "('s, 'h) win_files \<Rightarrow> ('s \<Rightarrow> string \<Rightarrow> 'c option) \<Rightarrow> bool" where
  "careful_copy api content \<longleftrightarrow> (\<forall>src dst s r s'. CopyFile api src dst True s = (r, s') \<longrightarrow> content_kept content s s')
     \<and> (\<forall>p s r s'. CreateDirectory api p s = (r, s') \<longrightarrow> content_kept content s s')"

lemma content_kept_refl [simp]: "content_kept content s s"
  by (simp add: content_kept_def)

lemma content_kept_trans: "content_kept content s s' \<Longrightarrow> content_kept content s' s'' \<Longrightarrow> content_kept content s s''"
  by (simp add: content_kept_def)

definition copies_kept :: "('s \<Rightarrow> string \<Rightarrow> 'c option) \<Rightarrow> FileOperation \<times> 's \<Rightarrow> FileOperation \<times> 's \<Rightarrow> bool" where
  "copies_kept content x y \<longleftrightarrow> m_bOverwriteMode (fst y) = m_bOverwriteMode (fst x)
     \<and> (\<not> m_bOverwriteMode (fst x) \<longrightarrow> content_kept content (snd x) (snd y))"

lemma copies_kept_refl [simp]: "copies_kept content x x"
  by (simp add: copies_kept_def)

lemma copies_kept_trans: "copies_kept content x y \<Longrightarrow> copies_kept content y z \<Longrightarrow> copies_kept content x z"
  by (auto simp: copies_kept_def intro: content_kept_trans)

lemma DoFileCopy_kept:
  assumes "careful_copy api content" "DoFileCopy api src dst False o1 s = Some (r, o2, s2)"
  shows "copies_kept content (o1, s) (o2, s2)"
proof (cases "m_bOverwriteMode o1")
  case True
  then show ?thesis using DoFileCopy_settings [OF assms(2)] by (simp add: copies_kept_def same_limit_def same_settings_def)
next
  case False
  have "o2 = o1 \<and> (s2 = s \<or> (\<exists>d e. CopyFile api src d True s = (e, s2)))"
    using DoFileCopy_cases [OF assms(2)] False by fastforce
  then show ?thesis using assms(1) by (auto simp: copies_kept_def careful_copy_def)
qed

lemma enter_folder_kept:
  assumes "careful_copy api content" "enter_folder api ff d o1 s = Some (r, o2, s2)"
  shows "copies_kept content (o1, s) (o2, s2)"
proof -
  have "s2 = s \<or> (\<exists>p e. CreateDirectory api p s = (e, s2))"
    using assms(2) by (auto simp: enter_folder_def Let_def split: if_splits option.splits prod.splits)
  then have "content_kept content s s2" using assms(1) by (auto simp: careful_copy_def)
  then show ?thesis using enter_folder_settings [OF assms(2)] by (simp add: copies_kept_def same_settings_def)
qed

lemma DoCopy_kept:
  assumes "careful_copy api content" "DoCopy api src dst False o1 s = Some (r, o2, s2)"
  shows "copies_kept content (o1, s) (o2, s2)"
proof -
  have "copies_kept content (o1, s) (CheckSelfRecursion src dst o1, s)"
    by (simp add: CheckSelfRecursion_def copies_kept_def Let_def)
  moreover have "copies_kept content (CheckSelfRecursion src dst o1, s) (o2, s2)"
    by (rule DoCopy_keeps [where Q = "copies_kept content", OF assms(2)])
       (auto intro: copies_kept_trans DoFileCopy_kept [OF assms(1)] enter_folder_kept [OF assms(1)])
  ultimately show ?thesis by (rule copies_kept_trans)
qed

lemma Copy_cases:
  assumes "Copy api src dst o1 s = Some (r, o2, s2)"
  shows "o2 = o1 \<and> s2 = s \<and> r = Inr True
    \<or> (\<exists>v o3. DoCopy api src dst False o1 s = Some (v, o3, s2) \<and> m_bOverwriteMode o2 = m_bOverwriteMode o3
        \<and> (r = Inr True \<longleftrightarrow> v = Inr ()) \<and> (r = Inr False \<longleftrightarrow> (\<exists>e. v = Inl (Thrown e))))"
proof (cases "CheckSelfCopy api src dst s")
  case True
  then show ?thesis using assms by (simp add: Copy_def)
next
  case False
  then obtain v o3 s3 where d: "DoCopy api src dst False o1 s = Some (v, o3, s3)"
    using assms by (cases "DoCopy api src dst False o1 s") (auto simp: Copy_def limit_reset_def catching_def)
  then show ?thesis
    using assms False by (cases v) (auto simp: Copy_def limit_reset_def catching_def split: fail.splits)
qed

lemma Copy_kept:
  assumes "careful_copy api content" "\<not> m_bOverwriteMode o1" "Copy api src dst o1 s = Some (r, o2, s2)"
  shows "content_kept content s s2"
  using Copy_cases [OF assms(3)] DoCopy_kept [OF assms(1)] assms(2) by (fastforce simp: copies_kept_def)

section \<open>The recursion limit\<close>

text \<open>
  \<open>m_iRecursionLimit\<close> is lowered with every folder the copy goes into and never raised again: it bounds the number of folders that
  are created, not their depth. \<open>folders s\<close> is the number of folders in the file system.
\<close>

definition counts_folders :: "('s, 'h) win_files \<Rightarrow> ('s \<Rightarrow> nat) \<Rightarrow> bool" where
  "counts_folders api folders \<longleftrightarrow> (\<forall>p s r s'. CreateDirectory api p s = (r, s') \<longrightarrow> folders s' \<le> folders s + (if r = None then 1 else 0))
     \<and> (\<forall>src dst b s r s'. CopyFile api src dst b s = (r, s') \<longrightarrow> folders s' = folders s)"

definition within_limit :: "('s \<Rightarrow> nat) \<Rightarrow> FileOperation \<times> 's \<Rightarrow> FileOperation \<times> 's \<Rightarrow> bool" where
  "within_limit folders x y \<longleftrightarrow> (0 \<le> m_iRecursionLimit (fst x) \<longrightarrow> 0 \<le> m_iRecursionLimit (fst y)
     \<and> int (folders (snd y)) + m_iRecursionLimit (fst y) \<le> int (folders (snd x)) + m_iRecursionLimit (fst x))"

lemma within_limit_refl: "within_limit folders x x"
  by (simp add: within_limit_def)

lemma within_limit_trans: "within_limit folders x y \<Longrightarrow> within_limit folders y z \<Longrightarrow> within_limit folders x z"
  unfolding within_limit_def by linarith

lemma DoFileCopy_within:
  assumes "counts_folders api folders" "DoFileCopy api src dst False o1 s = Some (r, o2, s2)"
  shows "within_limit folders (o1, s) (o2, s2)"
proof -
  have "o2 = o1 \<and> folders s2 = folders s"
    using DoFileCopy_cases [OF assms(2)] assms(1) by (auto simp: counts_folders_def)
  then show ?thesis by (simp add: within_limit_def)
qed

lemma enter_folder_cases:
  assumes "enter_folder api ff d o1 s = Some (r, o2, s2)"
  shows "o2 = o1 \<and> (s2 = s \<or> (\<exists>p e. CreateDirectory api p s = (Some e, s2)))
    \<or> m_iRecursionLimit o1 \<noteq> 0 \<and> m_iRecursionLimit o2 = (if m_iRecursionLimit o1 > 0 then m_iRecursionLimit o1 - 1 else m_iRecursionLimit o1)
      \<and> (s2 = s \<or> (\<exists>p. CreateDirectory api p s = (None, s2)))"
  using assms by (auto simp: enter_folder_def Let_def split: if_splits option.splits prod.splits)

lemma enter_folder_within:
  assumes "counts_folders api folders" "enter_folder api ff d o1 s = Some (r, o2, s2)"
  shows "within_limit folders (o1, s) (o2, s2)"
proof -
  have no: "folders s' \<le> folders s" if "CreateDirectory api p s = (Some e, s')" for p e s'
    using that assms(1) unfolding counts_folders_def by fastforce
  have yes: "folders s' \<le> folders s + 1" if "CreateDirectory api p s = (None, s')" for p s'
    using that assms(1) unfolding counts_folders_def by fastforce
  from enter_folder_cases [OF assms(2)] show ?thesis
  proof (elim disjE conjE exE)
    fix p e
    assume "o2 = o1" "CreateDirectory api p s = (Some e, s2)"
    then show ?thesis using no [of p e s2] by (simp add: within_limit_def)
  next
    fix p
    assume "m_iRecursionLimit o1 \<noteq> 0" "CreateDirectory api p s = (None, s2)"
      "m_iRecursionLimit o2 = (if m_iRecursionLimit o1 > 0 then m_iRecursionLimit o1 - 1 else m_iRecursionLimit o1)"
    then show ?thesis using yes [of p s2] by (simp add: within_limit_def)
  qed (simp_all add: within_limit_def)
qed

lemma DoCopy_within:
  assumes "counts_folders api folders" "DoCopy api src dst False o1 s = Some (r, o2, s2)"
  shows "within_limit folders (CheckSelfRecursion src dst o1, s) (o2, s2)"
proof (rule DoCopy_keeps [where Q = "within_limit folders", OF assms(2)])
  fix x y z
  assume "within_limit folders x y" "within_limit folders y z"
  then show "within_limit folders x z" by (rule within_limit_trans)
next
  fix b src dst o1 s r o2 s2
  assume "b = False \<or> \<not> b" "DoFileCopy api src dst b o1 s = Some (r, o2, s2)"
  then have "DoFileCopy api src dst False o1 s = Some (r, o2, s2)" by simp
  then show "within_limit folders (o1, s) (o2, s2)" by (rule DoFileCopy_within [OF assms(1)])
next
  fix ff dst o1 s r o2 s2
  assume "enter_folder api ff dst o1 s = Some (r, o2, s2)"
  then show "within_limit folders (o1, s) (o2, s2)" by (rule enter_folder_within [OF assms(1)])
qed (rule within_limit_refl)

section \<open>A limited copy comes to an end\<close>

text \<open>
  What a search of Windows has left is finite: \<open>left\<close> is the number of entries it has yet to give. And the search for a free name of
  \<open>DoFileCopy\<close> ends, or is not made.
\<close>

definition searches_end :: "('s, 'h) win_files \<Rightarrow> ('h \<Rightarrow> nat) \<Rightarrow> bool" where
  "searches_end api left \<longleftrightarrow> (\<forall>h s ff h'. FindNextFile api h s = (ff, True, h') \<longrightarrow> left h' < left h)"

definition names_end :: "('s, 'h) win_files \<Rightarrow> FileOperation \<Rightarrow> bool" where
  "names_end api o1 \<longleftrightarrow> m_bOverwriteMode o1 \<or> (\<forall>p s. free_name api p s \<noteq> None)"

text \<open>A step that returns leaves the mode alone and does not raise a limit that is set.\<close>

definition limit_kept :: "FileOperation \<times> 's \<Rightarrow> FileOperation \<times> 's \<Rightarrow> bool" where
  "limit_kept x y \<longleftrightarrow> m_bOverwriteMode (fst y) = m_bOverwriteMode (fst x)
     \<and> (0 \<le> m_iRecursionLimit (fst x) \<longrightarrow> 0 \<le> m_iRecursionLimit (fst y) \<and> m_iRecursionLimit (fst y) \<le> m_iRecursionLimit (fst x))"

lemma limit_kept_refl [simp]: "limit_kept x x"
  by (simp add: limit_kept_def)

lemma limit_kept_trans: "limit_kept x y \<Longrightarrow> limit_kept y z \<Longrightarrow> limit_kept x z"
  by (auto simp: limit_kept_def)

lemma limit_kept_names: "limit_kept (o1, s) (o2, s2) \<Longrightarrow> names_end api o1 \<Longrightarrow> names_end api o2"
  by (simp add: limit_kept_def names_end_def)

lemma DoFileCopy_limit: "DoFileCopy api src dst del o1 s = Some (r, o2, s2) \<Longrightarrow> limit_kept (o1, s) (o2, s2)"
  by (drule DoFileCopy_settings) (simp add: same_limit_def same_settings_def limit_kept_def)

lemma enter_folder_limit: "enter_folder api ff d o1 s = Some (r, o2, s2) \<Longrightarrow> limit_kept (o1, s) (o2, s2)"
  by (drule enter_folder_settings) (auto simp: same_settings_def limit_kept_def)

lemma enter_folder_lowers:
  "enter_folder api ff d o1 s = Some (Inr (Some t), o2, s2) \<Longrightarrow> 0 \<le> m_iRecursionLimit o1 \<Longrightarrow>
   m_iRecursionLimit o2 < m_iRecursionLimit o1"
  by (auto simp: enter_folder_def Let_def split: if_splits option.splits prod.splits)

lemma enter_folder_returns: "\<exists>v o2 s2. enter_folder api ff d o1 s = Some (v, o2, s2)"
  by (auto simp: enter_folder_def Let_def split: option.splits prod.splits)

lemma copy_go_limit: "copy_go api del job o1 s = Some (r, o2, s2) \<Longrightarrow> limit_kept (o1, s) (o2, s2)"
  by (erule copy_go_keeps [where Q = limit_kept]) (auto intro: limit_kept_trans DoFileCopy_limit enter_folder_limit)

lemma DoFileCopy_returns: "names_end api o1 \<Longrightarrow> \<exists>v o2 s2. DoFileCopy api src dst False o1 s = Some (v, o2, s2)"
  unfolding names_end_def
proof (elim disjE)
  assume "\<forall>p s. free_name api p s \<noteq> None"
  then obtain y where "free_name api dst s = Some y" by blast
  then show ?thesis by (cases y) (auto simp: DoFileCopy_def split: option.splits prod.splits)
qed (auto simp: DoFileCopy_def split: option.splits prod.splits)

lemma fthen_returns:
  assumes "\<exists>v o2 s2. r = Some (v, o2, s2)" "\<And>x o2 s2. r = Some (Inr x, o2, s2) \<Longrightarrow> \<exists>v o3 s3. f x o2 s2 = Some (v, o3, s3)"
  shows "\<exists>v o2 s2. fthen r f = Some (v, o2, s2)"
proof -
  obtain v o2 s2 where r: "r = Some (v, o2, s2)" using assms(1) by blast
  then show ?thesis using assms(2) by (cases v) auto
qed

text \<open>
  With a limit that is set, the recursion ends: every folder it goes into lowers the limit, and every turn of a loop brings its
  search nearer to the end.
\<close>

lemma copy_go_returns:
  assumes "searches_end api left" "names_end api o1" "0 \<le> m_iRecursionLimit o1"
  shows "\<exists>v o2 s2. copy_go api False job o1 s = Some (v, o2, s2)"
  using assms(2,3)
proof (induction "nat (m_iRecursionLimit o1)" arbitrary: job o1 s rule: less_induct)
  case less
  have loop: "\<exists>v o3 s3. copy_go api False (CopyLoop h d) o2 s = Some (v, o3, s3)"
    if "names_end api o2" "0 \<le> m_iRecursionLimit o2" "m_iRecursionLimit o2 \<le> m_iRecursionLimit o1" for h d o2 s
    using that
  proof (induction "left h" arbitrary: h o2 s rule: less_induct)
    case inner: less
    obtain ff more h' where n: "FindNextFile api h s = (ff, more, h')" by (cases "FindNextFile api h s")
    let ?go = "\<lambda>t o2 s2. case t of None \<Rightarrow> Some (Inr (), o2, s2) | Some (src, dst) \<Rightarrow> copy_go api False (CopyPattern src dst) o2 s2"
    let ?one = "if IsDots ff then Some (Inr (), o2, s) else if IsDirectory ff then fthen (enter_folder api ff d o2 s) ?go
        else DoFileCopy api (GetFilePath ff) (d @ GetFileName ff) False o2 s"
    have sub: "\<exists>v o4 s4. ?go t o3 s3 = Some (v, o4, s4)" if t: "enter_folder api ff d o2 s = Some (Inr t, o3, s3)" for t o3 s3
    proof (cases t)
      case (Some p)
      have k: "limit_kept (o2, s) (o3, s3)" and l: "m_iRecursionLimit o3 < m_iRecursionLimit o2"
        using enter_folder_limit [OF t] enter_folder_lowers [OF t [unfolded Some]] inner.prems by simp_all
      then have "names_end api o3" "0 \<le> m_iRecursionLimit o3" "nat (m_iRecursionLimit o3) < nat (m_iRecursionLimit o1)"
        using inner.prems limit_kept_names [OF k] by (auto simp: limit_kept_def)
      then show ?thesis using less.hyps [of o3] Some by (cases p) simp
    qed simp
    have one: "\<exists>v o3 s3. ?one = Some (v, o3, s3)"
    proof -
      have "\<exists>v o3 s3. fthen (enter_folder api ff d o2 s) ?go = Some (v, o3, s3)"
        by (rule fthen_returns [OF enter_folder_returns]) (rule sub)
      then show ?thesis using DoFileCopy_returns [OF inner.prems(1)] by simp
    qed
    have kept: "limit_kept (o2, s) (o3, s3)" if "?one = Some (v, o3, s3)" for v o3 s3
      using that by (auto simp: fthen_Some split: if_splits option.splits prod.splits
          dest!: enter_folder_limit copy_go_limit DoFileCopy_limit intro: limit_kept_trans)
    have "\<exists>v o4 s4. (if more then copy_go api False (CopyLoop h' d) o3 s3 else Some (Inr (), o3, s3)) = Some (v, o4, s4)"
      if "?one = Some (Inr u, o3, s3)" for u o3 s3
    proof (cases more)
      case True
      then have "left h' < left h" using n assms(1) by (simp add: searches_end_def)
      moreover have "names_end api o3" "0 \<le> m_iRecursionLimit o3" "m_iRecursionLimit o3 \<le> m_iRecursionLimit o1"
        using kept [OF that] inner.prems by (auto simp: limit_kept_def names_end_def)
      ultimately show ?thesis using inner.hyps True by simp
    qed simp
    from fthen_returns [OF one this] show ?case
      by (subst copy_go.simps) (simp add: n)
  qed
  show ?case
  proof (cases job)
    case (CopyPattern p d)
    then show ?thesis using loop [of o1] less.prems
      by (subst copy_go.simps) (simp split: option.splits)
  next
    case (CopyLoop h d)
    then show ?thesis using loop [of o1] less.prems by simp
  qed
qed

lemma copy_to_file_returns: "names_end api o1 \<Longrightarrow> \<exists>v o2 s2. copy_to_file api a b o1 s = Some (v, o2, s2)"
  using DoFileCopy_returns [of api o1] by (simp add: copy_to_file_def)

lemma copy_into_folder_returns: "names_end api o1 \<Longrightarrow> \<exists>v o2 s2. copy_into_folder api a b o1 s = Some (v, o2, s2)"
  using DoFileCopy_returns [of api o1] by (auto simp: copy_into_folder_def split: sum.split)

lemma copy_folders_returns:
  assumes "searches_end api left" "names_end api o1" "0 \<le> m_iRecursionLimit o1"
  shows "\<exists>v o2 s2. copy_folders api a b False o1 s = Some (v, o2, s2)"
proof -
  have "\<exists>v o3 s3. fthen (DoFolderCopy api src dst False o1 s) (\<lambda>u o2 s2. Some (Inr (src, dst), o2, s2)) = Some (v, o3, s3)" for src dst
    by (rule fthen_returns) (use copy_go_returns [OF assms] in \<open>auto simp: DoFolderCopy_def\<close>)
  then show ?thesis by (auto simp: copy_folders_def Let_def split: option.split)
qed

lemma copy_folders_limit: "copy_folders api a b del o1 s = Some (v, o2, s2) \<Longrightarrow> limit_kept (o1, s) (o2, s2)"
  by (auto simp: copy_folders_def DoFolderCopy_def fthen_Some Let_def split: option.splits if_splits dest: copy_go_limit)

lemma copy_to_file_limit: "copy_to_file api a b o1 s = Some (v, o2, s2) \<Longrightarrow> limit_kept (o1, s) (o2, s2)"
  by (auto simp: copy_to_file_def split: if_splits dest: DoFileCopy_limit)

lemma DoCopy_returns:
  assumes "searches_end api left" "names_end api o1" "0 \<le> m_iRecursionLimit (CheckSelfRecursion src dst o1)"
  shows "\<exists>v o2 s2. DoCopy api src dst False o1 s = Some (v, o2, s2)"
proof -
  let ?o = "CheckSelfRecursion src dst o1"
  have n: "names_end api ?o"
    using assms(2) by (simp add: names_end_def CheckSelfRecursion_def Let_def)
  let ?folders = "if CheckPath api src s = PATH_IS_FOLDER \<and> CheckPath api dst s = PATH_IS_FOLDER
               then copy_folders api src dst False ?o s else Some (Inr (src, dst), ?o, s)"
  have kept: "names_end api o2" if "?folders = Some (v, o2, s2)" for v o2 s2
    using that n limit_kept_names [OF copy_folders_limit] by (auto split: if_splits)
  have "\<exists>v o3 s3. (case ab of (a, b) \<Rightarrow> fthen (copy_to_file api a b o2 s2) (\<lambda>u. copy_into_folder api a b)) = Some (v, o3, s3)"
    if f: "?folders = Some (Inr ab, o2, s2)" for ab o2 s2
  proof -
    obtain a b where ab: "ab = (a, b)" by (cases ab)
    note n2 = kept [OF f]
    have "\<exists>v o3 s3. fthen (copy_to_file api a b o2 s2) (\<lambda>u. copy_into_folder api a b) = Some (v, o3, s3)"
      by (rule fthen_returns [OF copy_to_file_returns [OF n2]])
         (rule copy_into_folder_returns [OF limit_kept_names [OF copy_to_file_limit n2]])
    then show ?thesis by (simp add: ab)
  qed
  moreover have "\<exists>v o2 s2. ?folders = Some (v, o2, s2)"
    using copy_folders_returns [OF assms(1) n assms(3)] by simp
  ultimately have "\<exists>v o2 s2. fthen ?folders (\<lambda>(a, b) o2 s2. fthen (copy_to_file api a b o2 s2) (\<lambda>u. copy_into_folder api a b)) = Some (v, o2, s2)"
    by (intro fthen_returns) (simp_all only: split_def)
  then show ?thesis by (simp add: DoCopy_def Let_def)
qed

lemma Copy_returns:
  assumes "searches_end api left" "names_end api o1" "0 \<le> m_iRecursionLimit (CheckSelfRecursion src dst o1)"
  shows "\<exists>r o2 s2. Copy api src dst o1 s = Some (r, o2, s2)"
proof -
  obtain v o2 s2 where "DoCopy api src dst False o1 s = Some (v, o2, s2)"
    using DoCopy_returns [OF assms] by blast
  then show ?thesis
    by (cases v) (auto simp: Copy_def limit_reset_def catching_def split: fail.split)
qed

text \<open>A copy of a folder into itself creates at most as many folders as the destination lies deeper than the source.\<close>

lemma Copy_into_itself:
  assumes "counts_folders api folders" "Copy api src dst o1 s = Some (r, o2, s2)" "str_find dst src 0 \<noteq> None"
    and "length (filter (\<lambda>c. c = backslash) src) \<le> length (filter (\<lambda>c. c = backslash) dst)"
  shows "folders s2 \<le> folders s + (length (filter (\<lambda>c. c = backslash) dst) - length (filter (\<lambda>c. c = backslash) src))"
proof -
  have lim: "m_iRecursionLimit (CheckSelfRecursion src dst o1)
      = int (length (filter (\<lambda>c. c = backslash) dst)) - int (length (filter (\<lambda>c. c = backslash) src))"
    using assms(3,4) by (simp add: CheckSelfRecursion_def Let_def)
  from Copy_cases [OF assms(2)] show ?thesis
  proof (elim disjE exE conjE)
    fix v o3
    assume "DoCopy api src dst False o1 s = Some (v, o3, s2)"
    from DoCopy_within [OF assms(1) this] have "0 \<le> m_iRecursionLimit o3"
      "int (folders s2) + m_iRecursionLimit o3 \<le> int (folders s) + m_iRecursionLimit (CheckSelfRecursion src dst o1)"
      using lim assms(4) by (simp_all add: within_limit_def)
    then show ?thesis using lim assms(4) by linarith
  qed simp
qed

section \<open>What the operations report\<close>

lemma IsExcludePath_prefix: "IsExcludePath p o1 \<longleftrightarrow> (\<exists>e \<in> set (m_vecExcludeFolder o1). take (length e) p = e)"
proof -
  have "is_excluded es p \<longleftrightarrow> (\<exists>e \<in> set es. take (length e) p = e)" for es
    by (induction es) auto
  then show ?thesis by (simp add: IsExcludePath_def)
qed

text \<open>Only the end of the exception's \<open>catch\<close> is reached: a source that is not there makes \<open>Copy\<close> fail, with the error code 0.\<close>

lemma Copy_missing:
  assumes "CheckPath api src s = PATH_NOT_FOUND"
  shows "Copy api src dst o1 s
    = Some (Inr False, o1\<lparr>m_sError := src @ '' not found'', m_dwError := 0, m_iRecursionLimit := -1\<rparr>, s)"
  using assms
  by (simp add: Copy_def CheckSelfCopy_def PATH_NOT_FOUND_def PATH_IS_FOLDER_def DoCopy_def Let_def FExeption_text_def catching_def
      limit_reset_def CheckSelfRecursion_def)

text \<open>A read-only file the user does not want deleted stays, and \<open>Delete\<close> returns \<open>true\<close>.\<close>

lemma Delete_declined:
  assumes "CheckPath api p s = PATH_IS_FILE" "GetFileAttributes api p s = Inl a" "a AND FILE_ATTRIBUTE_READONLY \<noteq> 0"
    and "m_bAskIfReadOnly o1" "AskDelete api p s = IDNO"
  shows "Delete api p o1 s = Some (Inr True, o1\<lparr>m_bAborted := True\<rparr>, s)"
  using assms
  by (simp add: Delete_def DoDelete_def delete_go.simps [of api "DeletePath p"] delete_file_def CanDelete_def catching_def)

lemma Delete_cancelled:
  assumes "CheckPath api p s = PATH_IS_FILE" "GetFileAttributes api p s = Inl a" "a AND FILE_ATTRIBUTE_READONLY \<noteq> 0"
    and "m_bAskIfReadOnly o1" "AskDelete api p s = IDCANCEL"
  shows "Delete api p o1 s = Some (Inr True, o1\<lparr>m_bAborted := True, m_sError := FormatMessage api 0, m_dwError := 0\<rparr>, s)"
  using assms
  by (simp add: Delete_def DoDelete_def delete_go.simps [of api "DeletePath p"] delete_file_def CanDelete_def catching_def FExeption_code_def)

lemma DoCopy_settings:
  assumes "DoCopy api src dst del o1 s = Some (r, o2, s2)"
  shows "same_settings o1 o2"
proof -
  have "same_settings (fst (CheckSelfRecursion src dst o1, s)) (fst (o2, s2))"
  proof (rule DoCopy_keeps [where Q = "\<lambda>x y. same_settings (fst x) (fst y)", OF assms])
    fix b src dst o1 s r o2 s2
    assume "DoFileCopy api src dst b o1 s = Some (r, o2, s2)"
    then show "same_settings (fst (o1, s)) (fst (o2, s2))" by (auto dest: DoFileCopy_settings simp: same_limit_def)
  next
    fix ff dst o1 s r o2 s2
    assume "enter_folder api ff dst o1 s = Some (r, o2, s2)"
    then show "same_settings (fst (o1, s)) (fst (o2, s2))" by (auto dest: enter_folder_settings)
  qed (simp_all add: same_settings_def)
  then show ?thesis by (simp add: CheckSelfRecursion_def same_settings_def Let_def split: if_splits)
qed

text \<open>
  A move that fails leaves the object asking no questions: the setting is put back only on the way that succeeds, so that the
  next \<open>Delete\<close> removes read-only files unasked.
\<close>

lemma reported_False:
  assumes "limit_reset (catching (\<lambda>code. False) r) = Some (Inr False, o2, s2)" "\<And>o3 s3. r \<noteq> Some (Inr False, o3, s3)"
  shows "\<exists>e o3. r = Some (Inl (Thrown e), o3, s2) \<and> m_bAskIfReadOnly o2 = m_bAskIfReadOnly o3"
proof -
  obtain o4 where c: "catching (\<lambda>code. False) r = Some (Inr False, o4, s2)" "o2 = o4\<lparr>m_iRecursionLimit := -1\<rparr>"
    using assms(1) by (auto simp: limit_reset_def fthen_Some)
  then obtain v o3 s3 where r: "r = Some (v, o3, s3)" by (cases r) (auto simp: catching_def)
  show ?thesis
  proof (cases v)
    case (Inl e)
    then show ?thesis using c r by (cases e) (auto simp: catching_def)
  next
    case (Inr b)
    then show ?thesis using c r assms(2) by (auto simp: catching_def)
  qed
qed

lemma Replace_failed:
  assumes "Replace api src dst o1 s = Some (Inr False, o2, s2)"
  shows "\<not> m_bAskIfReadOnly o2"
proof -
  let ?o = "o1\<lparr>m_bAskIfReadOnly := False\<rparr>"
  let ?body = "fthen (DoCopy api src dst True ?o s) (\<lambda>u o2 s2.
           fthen (DoDelete api src o2 s2) (\<lambda>u o3 s3. Some (Inr True, o3\<lparr>m_bAskIfReadOnly := m_bAskIfReadOnly o1\<rparr>, s3)))"
  have "limit_reset (catching (\<lambda>code. False) ?body) = Some (Inr False, o2, s2)"
    using assms by (auto simp: Replace_def Let_def split: if_splits)
  moreover have "?body \<noteq> Some (Inr False, o3, s3)" for o3 s3 by (auto simp: fthen_Some)
  ultimately have "\<exists>e o3. ?body = Some (Inl (Thrown e), o3, s2) \<and> m_bAskIfReadOnly o2 = m_bAskIfReadOnly o3" by (rule reported_False)
  then obtain e o3 where b: "?body = Some (Inl (Thrown e), o3, s2)" "m_bAskIfReadOnly o2 = m_bAskIfReadOnly o3" by (elim exE conjE)
  have "\<not> m_bAskIfReadOnly o3"
  proof -
    from b(1) consider "DoCopy api src dst True ?o s = Some (Inl (Thrown e), o3, s2)"
      | o4 s4 where "DoCopy api src dst True ?o s = Some (Inr (), o4, s4)" "DoDelete api src o4 s4 = Some (Inl (Thrown e), o3, s2)"
      by (auto simp: fthen_Some)
    then show ?thesis
      by cases (auto dest!: DoCopy_settings DoDelete_settings simp: same_limit_def same_settings_def)
  qed
  then show ?thesis using b(2) by simp
qed

end
