(* ===== verification/File_Properties.thy ===== *)
theory File_Properties
  imports File_Names File_Copy
begin

text \<open>
  The properties of the file operations, and a small file system on which the operations are run in the examples: the files with
  what they hold, and the folders. A \<open>CFileFind\<close> lists what was in the folder when it was opened.
\<close>

section \<open>A file system\<close>

record disk =
  dfiles :: "(string \<times> string) list"
  dfolders :: "string list"

definition win :: "string \<Rightarrow> string" where
  "win = map (\<lambda>c. if c = CHR ''/'' then backslash else c)"

definition bare :: "string \<Rightarrow> string" where
  "bare p = (if p \<noteq> [] \<and> last p = backslash then butlast p else p)"

definition disk_entries :: "string \<Rightarrow> disk \<Rightarrow> find_entry list" where
  "disk_entries dir s =
     (let inside = (\<lambda>p. take (length dir) p = dir \<and> backslash \<notin> set (drop (length dir) p) \<and> length dir < length p);
          entry = (\<lambda>b p. \<lparr>GetFileName = drop (length dir) p, GetFilePath = p, IsDots = False, IsDirectory = b\<rparr>)
      in map (entry False) (filter inside (map fst (dfiles s))) @ map (entry True) (filter inside (dfolders s)))"

definition disk_api :: "(disk, find_entry list) win_files" where
  "disk_api = \<lparr>
     GetFileAttributes = (\<lambda>p s. if bare p \<in> set (dfolders s) then Inl 16 else if map_of (dfiles s) p \<noteq> None then Inl 128 else Inr 2),
     SetFileAttributes_normal = (\<lambda>p s. (None, s)),
     DeleteFile = (\<lambda>p s. (None, s\<lparr>dfiles := filter (\<lambda>x. fst x \<noteq> p) (dfiles s)\<rparr>)),
     RemoveDirectory = (\<lambda>p s. if disk_entries (bare p @ [backslash]) s = []
        then (None, s\<lparr>dfolders := filter (\<lambda>x. x \<noteq> bare p) (dfolders s)\<rparr>) else (Some 145, s)),
     CreateDirectory = (\<lambda>p s. if bare p \<in> set (dfolders s) then (Some 183, s) else (None, s\<lparr>dfolders := bare p # dfolders s\<rparr>)),
     CopyFile = (\<lambda>src dst bFail s. case map_of (dfiles s) src of None \<Rightarrow> (Some 2, s)
        | Some c \<Rightarrow> if bFail \<and> map_of (dfiles s) dst \<noteq> None then (Some 80, s) else (None, s\<lparr>dfiles := (dst, c) # dfiles s\<rparr>)),
     MoveFile = (\<lambda>src dst s. (Some 2, s)),
     CanOpen = (\<lambda>p s. map_of (dfiles s) p \<noteq> None),
     FindFile = (\<lambda>p s. let l = disk_entries (take (length p - 3) p) s in if l = [] then None else Some l),
     FindNextFile = (\<lambda>h s. (hd h, tl h \<noteq> [], tl h)),
     AskDelete = (\<lambda>p s. IDYES),
     FormatMessage = (\<lambda>e. [])\<rparr>"

lemma disk_careful: "careful_copy disk_api (\<lambda>s p. map_of (dfiles s) p)"
  by (auto simp: careful_copy_def disk_api_def content_kept_def split: option.splits if_splits)

lemma disk_counts: "counts_folders disk_api (\<lambda>s. length (dfolders s))"
  by (auto simp: counts_folders_def disk_api_def split: option.splits if_splits)

lemma disk_searches: "searches_end disk_api length"
  by (auto simp: searches_end_def disk_api_def Nitpick.size_list_simp(2))

definition small_disk :: disk where
  "small_disk = \<lparr>dfiles = [(win ''C:/a/x'', ''one''), (win ''C:/a/b/x'', ''two'')], dfolders = [win ''C:/a'', win ''C:/a/b'']\<rparr>"

declare free_name.simps [code] copy_go.simps [code] delete_go.simps [code]

text \<open>The file goes into the folder under another name; the folder goes one level into itself.\<close>

lemma run_file:
  "Copy disk_api (win ''C:/a/x'') (win ''C:/a/b'') FileOperation_new small_disk
   = Some (Inr True, FileOperation_new, small_disk\<lparr>dfiles := (win ''C:/a/b/Copy of x'', ''one'') # dfiles small_disk\<rparr>)"
  by code_simp

lemma run_folder:
  "map_option (\<lambda>(r, o2, s2). (r, map fst (dfiles s2), dfolders s2))
     (Copy disk_api (win ''C:/a'') (win ''C:/a/b'') FileOperation_new small_disk)
   = Some (Inr True, [win ''C:/a/b/b/x'', win ''C:/a/b/b/Copy of x'', win ''C:/a/b/Copy of x'', win ''C:/a/x'', win ''C:/a/b/x''],
       [win ''C:/a/b/b'', win ''C:/a'', win ''C:/a/b''])"
  by code_simp

section \<open>Properties\<close>

lemma DoFileCopy_found:
  assumes "free_name api p s = Some (Inr q)" "\<not> m_bOverwriteMode o1"
  shows "DoFileCopy api src p False o1 s = (case CopyFile api src q True s of
      (None, s') \<Rightarrow> Some (Inr (), o1, s') | (Some e, s') \<Rightarrow> Some (Inl (Thrown (FExeption_code api e)), o1, s'))"
  using assms by (simp add: DoFileCopy_def split: option.splits prod.splits)

text \<open>
  C36. Copying a file without the overwrite mode always comes to an end, as long as its name has no copy count and no
  parenthesis, leaves room for the prefix and there are fewer than \<open>2 ^ 30\<close> files: the file goes under the first of the names
  "name", "Copy of name", "Copy (1) of name", "Copy (2) of name", ... that no file has, and \<open>CopyFile\<close> is told not to
  overwrite.
\<close>

theorem copy_finds_free_name:
  assumes "path_parts p = (drive, dir, name, ext)" "str_find name ''Copy '' 0 = None" "CHR ''('' \<notin> set name"
    and "length dir < MAX_PATH" "length name + 21 < MAX_PATH" "length ext < MAX_PATH"
    and "finite {q. CanOpen api q s}" "card {q. CanOpen api q s} < 2 ^ 30" and "\<not> m_bOverwriteMode o1"
  shows "\<exists>k \<le> card {q. CanOpen api q s}. (\<forall>j < k. CanOpen api (drive @ dir @ copy_name name j @ ext) s)
    \<and> \<not> CanOpen api (drive @ dir @ copy_name name k @ ext) s
    \<and> DoFileCopy api src p False o1 s = (case CopyFile api src (drive @ dir @ copy_name name k @ ext) True s of
        (None, s') \<Rightarrow> Some (Inr (), o1, s') | (Some e, s') \<Rightarrow> Some (Inl (Thrown (FExeption_code api e)), o1, s'))"
proof -
  let ?q = "\<lambda>k. drive @ dir @ copy_name name k @ ext"
  from free_name_found [OF assms(1-8)] obtain k where k: "k \<le> card {q. CanOpen api q s}" "free_name api p s = Some (Inr (?q k))"
    "\<not> CanOpen api (?q k) s" "\<forall>j < k. CanOpen api (?q j) s" by (elim exE conjE)
  show ?thesis using k(1,3,4) DoFileCopy_found [OF k(2) assms(9)] by (intro exI [of _ k] conjI)
qed

lemma small_disk_files: "{q. CanOpen disk_api q small_disk} = {win ''C:/a/x'', win ''C:/a/b/x''}"
  by (auto simp: disk_api_def small_disk_def)

lemma copy_finds_free_name_witness:
  "\<exists>k \<le> 2. \<not> CanOpen disk_api (''C:'' @ win ''/a/b/'' @ copy_name ''x'' k) small_disk
     \<and> (\<forall>j < k. CanOpen disk_api (''C:'' @ win ''/a/b/'' @ copy_name ''x'' j) small_disk)"
proof -
  have parts: "path_parts (win ''C:/a/b/x'') = (''C:'', win ''/a/b/'', ''x'', [])" "str_find ''x'' ''Copy '' 0 = None"
    by code_simp+
  have len: "length (win ''/a/b/'') < MAX_PATH" "length ''x'' + 21 < MAX_PATH" "length ([] :: string) < MAX_PATH"
    by (simp_all add: MAX_PATH_def win_def)
  have card: "card {q. CanOpen disk_api q small_disk} \<le> 2" "finite {q. CanOpen disk_api q small_disk}"
    unfolding small_disk_files by (simp_all add: card_insert_if)
  then have few: "card {q. CanOpen disk_api q small_disk} < 2 ^ 30" by simp
  have "CHR ''('' \<notin> set ''x''" "\<not> m_bOverwriteMode FileOperation_new" by (simp, code_simp)
  from copy_finds_free_name [OF parts this(1) len card(2) few this(2), of "[]"] card(1)
  show ?thesis by (auto intro: le_trans)
qed

text \<open>
  C35. Copying without the overwrite mode never changes a file that is there, whatever the source and the destination are, for
  files and for whole folders, and also when it fails halfway.
\<close>

theorem copy_keeps_existing:
  assumes "careful_copy api content" "\<not> m_bOverwriteMode o1" "Copy api src dst o1 s = Some (r, o2, s2)" "content s p = Some c"
  shows "content s2 p = Some c"
  using Copy_kept [OF assms(1-3)] assms(4) by (simp add: content_kept_def)

lemma copy_keeps_existing_witness:
  "\<exists>r o2 s2. Copy disk_api (win ''C:/a/x'') (win ''C:/a/b'') FileOperation_new small_disk = Some (r, o2, s2)
     \<and> map_of (dfiles s2) (win ''C:/a/b/x'') = Some ''two'' \<and> s2 \<noteq> small_disk"
proof -
  have "\<not> m_bOverwriteMode FileOperation_new" "map_of (dfiles small_disk) (win ''C:/a/b/x'') = Some ''two''" by code_simp+
  from copy_keeps_existing [where content = "\<lambda>s p. map_of (dfiles s) p", OF disk_careful this(1) run_file this(2)]
  show ?thesis using run_file by (auto simp: small_disk_def)
qed

text \<open>
  C37. Copying a folder into one that its path is found in, with as many separators or more, comes to an end, and creates at most
  as many folders as the destination has separators more than the source. It rests on every search of Windows giving finitely many
  entries, and, without the overwrite mode, on the search for free names ending (which is what C36 is about); the rest of the
  file system answers as it likes.
\<close>

theorem folder_into_itself:
  assumes "counts_folders api folders" "searches_end api left" "names_end api o1" "str_find dst src 0 \<noteq> None"
    and "length (filter (\<lambda>c. c = backslash) src) \<le> length (filter (\<lambda>c. c = backslash) dst)"
  shows "\<exists>r o2 s2. Copy api src dst o1 s = Some (r, o2, s2)
    \<and> folders s2 \<le> folders s + (length (filter (\<lambda>c. c = backslash) dst) - length (filter (\<lambda>c. c = backslash) src))"
proof -
  have "0 \<le> m_iRecursionLimit (CheckSelfRecursion src dst o1)"
    using assms(4,5) by (simp add: CheckSelfRecursion_def Let_def)
  then obtain r o2 s2 where "Copy api src dst o1 s = Some (r, o2, s2)"
    using Copy_returns [OF assms(2,3)] by blast
  with Copy_into_itself [OF assms(1) this assms(4,5)] show ?thesis by blast
qed

lemma folder_into_itself_witness:
  "\<exists>r o2 s2. Copy disk_api (win ''C:/a'') (win ''C:/a/b'') (FileOperation_new\<lparr>m_bOverwriteMode := True\<rparr>) small_disk = Some (r, o2, s2)
     \<and> length (dfolders s2) \<le> length (dfolders small_disk) + 1"
proof -
  have "str_find (win ''C:/a/b'') (win ''C:/a'') 0 \<noteq> None" by code_simp
  from folder_into_itself [where folders = "\<lambda>s. length (dfolders s)" and ?o1.0 = "FileOperation_new\<lparr>m_bOverwriteMode := True\<rparr>"
      and s = small_disk, OF disk_counts disk_searches _ this]
  show ?thesis by (simp add: names_end_def win_def backslash_def)
qed

end
