(* ===== verification/Preview_Window.thy ===== *)
theory Preview_Window
  imports Thread_Join
begin

text \<open>
  \<open>PreviewWnd\<close> of \<open>include/common\<close>: the window that shows the pictures of a stream in the builds with
  \<open>__SUPPORT_PREVIEW_WINDOW\<close>. Its thread makes the window and handles its messages; \<open>Deactivate\<close> sends the window the message
  to close and joins the thread. Drawing is the sequence of GDI calls it makes.
\<close>

section \<open>The object\<close>

text \<open>
  Beside \<open>m_window\<close> (is it set?) the state has what Windows keeps: whether the window is there, whether a sent \<open>WM_CLOSE\<close> waits
  for the thread, and whether the thread's queue has the message to quit.
\<close>

record PreviewWnd =
  m_window :: bool
  pv_thread :: InnerThread
  pv_pc :: thread_pc
  window_open :: bool
  close_sent :: bool
  quit_posted :: bool

definition PreviewWnd_new :: PreviewWnd where
  "PreviewWnd_new = \<lparr>m_window = False, pv_thread = InnerThread_new, pv_pc = NotStarted, window_open = False, close_sent = False,
     quit_posted = False\<rparr>"

text \<open>
  \<open>RegisterClassEx\<close> fails for a class name that the process has already registered, and for reasons of its own (\<open>ok\<close>).
\<close>

definition PV_Initialize :: "bool \<Rightarrow> bool \<Rightarrow> PreviewWnd \<Rightarrow> int \<times> bool \<times> PreviewWnd" where
  "PV_Initialize ok registered p =
     (let p1 = p\<lparr>pv_thread := SaveThreadName ''Preview window'' (pv_thread p)\<rparr> in
      if registered \<or> \<not> ok then (1, registered, p1) else (0, True, p1))"

definition PV_Finalize :: "PreviewWnd \<Rightarrow> int \<times> PreviewWnd" where
  "PV_Finalize p = (0, p)"

definition PV_Activate :: "PreviewWnd \<Rightarrow> (int \<times> PreviewWnd) cpp" where
  "PV_Activate p = cbind (StartThread (pv_thread p)) (\<lambda>(r, t).
     Inr (0, p\<lparr>pv_thread := t, pv_pc := Started, close_sent := False, quit_posted := False\<rparr>))"

section \<open>The thread\<close>

datatype window_msg = WM_CREATE | WM_PAINT | WM_CLOSE | WM_DESTROY | WM_OTHER

definition OnDestroy :: "PreviewWnd \<Rightarrow> PreviewWnd" where
  "OnDestroy p = p\<lparr>quit_posted := True\<rparr>"

text \<open>\<open>DefWindowProc\<close> answers \<open>WM_CLOSE\<close> by destroying the window, which sends \<open>WM_DESTROY\<close>.\<close>

definition WindowProc :: "window_msg \<Rightarrow> PreviewWnd \<Rightarrow> PreviewWnd" where
  "WindowProc msg p = (case msg of
       WM_DESTROY \<Rightarrow> OnDestroy p
     | WM_CLOSE \<Rightarrow> OnDestroy (p\<lparr>window_open := False\<rparr>)
     | _ \<Rightarrow> p)"

text \<open>What a turn of the thread gets: whether its window is made, and the posted message that waits for it, if any.\<close>

record preview_os =
  create_ok :: bool
  next_msg :: "window_msg option"

text \<open>
  \<open>GetMessage\<close> handles a sent message first, gives a posted one, and gives \<open>WM_QUIT\<close> only when no other is there. Without any it
  blocks, and the turn changes nothing.
\<close>

definition PV_turn :: "preview_os \<Rightarrow> PreviewWnd \<Rightarrow> PreviewWnd" where
  "PV_turn os p = (case pv_pc p of
       Started \<Rightarrow> if create_ok os then p\<lparr>m_window := True, window_open := True, pv_pc := Looping\<rparr> else p\<lparr>m_window := False, pv_pc := Ended\<rparr>
     | Looping \<Rightarrow>
         (let p1 = (if close_sent p then WindowProc WM_CLOSE (p\<lparr>close_sent := False\<rparr>) else p) in
          case next_msg os of
            Some msg \<Rightarrow> WindowProc msg p1
          | None \<Rightarrow> if quit_posted p1 then p1\<lparr>pv_pc := Ended\<rparr> else p1)
     | _ \<Rightarrow> p)"

text \<open>\<open>SendMessage\<close> to a window that is not there, or not yet, does nothing.\<close>

definition PV_stop :: "PreviewWnd \<Rightarrow> PreviewWnd" where
  "PV_stop p = (if m_window p \<and> window_open p then p\<lparr>close_sent := True\<rparr> else p)"

text \<open>\<open>Deactivate\<close> with the turns the thread makes meanwhile; \<open>None\<close>: it still waits.\<close>

definition PV_Deactivate :: "preview_os list \<Rightarrow> PreviewWnd \<Rightarrow> (int \<times> PreviewWnd) option" where
  "PV_Deactivate es p =
     (let p1 = PV_stop p in
      if joinable (pv_thread p1)
      then (let p2 = fold PV_turn es p1 in
            if pv_pc p2 = Ended then Some (0, p2\<lparr>pv_thread := JoinThread (pv_thread p2), pv_pc := NotStarted\<rparr>) else None)
      else Some (0, p1))"

section \<open>Drawing\<close>

datatype gdi_call =
    GetDC | CreateCompatibleDC | CreateCompatibleBitmap int int | SelectBitmap | SetDIBitsToDevice int int
  | SetStretchBltMode | SetBkMode | StretchBlt int int int int | SelectOldBitmap | DeleteBitmap | DeleteDC | ReleaseDC

text \<open>The rows of a 24-bit bitmap are padded to four bytes.\<close>

definition dib_size :: "int \<Rightarrow> int \<Rightarrow> int" where
  "dib_size width height = (width * 24 + 31) div 32 * 4 * height"

text \<open>\<open>rect\<close> is the client rectangle (left, top, right, bottom), whatever is in it when \<open>GetClientRect\<close> failed.\<close>

definition DrawImageByDibRGB24 :: "int \<times> int \<times> int \<times> int \<Rightarrow> u8 list \<Rightarrow> int \<Rightarrow> int \<Rightarrow> (int \<times> gdi_call list) cpp" where
  "DrawImageByDibRGB24 rect data width height = (case rect of (l, t, r, b) \<Rightarrow>
     let client_width = c_int (r - l); client_height = c_int (b - t) in
     if int (length data) < dib_size width height then Inl OutOfBounds
     else Inr (0, [GetDC, CreateCompatibleDC, CreateCompatibleBitmap width height, SelectBitmap, SetDIBitsToDevice width height,
       SetStretchBltMode, SetBkMode, StretchBlt client_width client_height width height, SelectOldBitmap, DeleteBitmap, DeleteDC, ReleaseDC]))"

definition DrawImage :: "int \<times> int \<times> int \<times> int \<Rightarrow> u8 list option \<Rightarrow> int \<Rightarrow> int \<Rightarrow> (int \<times> gdi_call list) cpp" where
  "DrawImage rect data width height = (case data of
       None \<Rightarrow> Inr (1, [])
     | Some d \<Rightarrow> if width < 0 \<or> height < 0 then Inr (1, []) else DrawImageByDibRGB24 rect d width height)"

section \<open>The join\<close>

text \<open>The window is made when asked for, and nobody but \<open>Deactivate\<close> closes it.\<close>

definition only_deactivate_closes :: "preview_os \<Rightarrow> bool" where
  "only_deactivate_closes os \<longleftrightarrow> create_ok os \<and> next_msg os \<noteq> Some WM_CLOSE \<and> next_msg os \<noteq> Some WM_DESTROY"

definition PV_good :: "PreviewWnd \<Rightarrow> bool" where
  "PV_good p \<longleftrightarrow> (pv_pc p = Started \<longrightarrow> \<not> window_open p \<and> \<not> close_sent p \<and> \<not> quit_posted p)
     \<and> (pv_pc p = Looping \<longrightarrow> m_window p \<and> (window_open p \<or> quit_posted p))"

definition PV_stopping :: "PreviewWnd \<Rightarrow> bool" where
  "PV_stopping p \<longleftrightarrow> pv_pc p = Looping \<and> (close_sent p \<or> quit_posted p)"

definition PV_lost :: "PreviewWnd \<Rightarrow> bool" where
  "PV_lost p \<longleftrightarrow> (pv_pc p = Started \<or> pv_pc p = Looping) \<and> \<not> close_sent p \<and> \<not> quit_posted p"

lemmas PV_defs = PV_turn_def PV_stop_def PV_good_def PV_stopping_def PV_lost_def WindowProc_def OnDestroy_def only_deactivate_closes_def

interpretation preview_thread: flagged_thread PV_turn PV_stop pv_pc only_deactivate_closes "\<lambda>os. next_msg os = None" "\<lambda>p. 0"
  PV_good PV_stopping PV_lost
proof
  fix s :: PreviewWnd and e
  assume "PV_stopping s" "pv_pc (PV_turn e s) \<noteq> Ended"
  then show "PV_stopping (PV_turn e s) \<and> (0 :: nat) \<le> 0 \<and> (next_msg e = None \<longrightarrow> (0 :: nat) < 0)"
    by (auto simp: PV_defs Let_def split: option.splits window_msg.splits if_splits)
next
  fix s :: PreviewWnd and e
  assume "PV_lost s" "only_deactivate_closes e"
  then show "PV_lost (PV_turn e s)"
    by (auto simp: PV_defs Let_def split: option.splits window_msg.splits)
qed (auto simp: PV_defs Let_def)

lemma preview_run: "fold PV_turn es p = preview_thread.run es p"
  by (induction es arbitrary: p) simp_all

lemma PV_turn_good: "PV_good p \<Longrightarrow> PV_good (PV_turn os p)"
  by (auto simp: PV_defs Let_def split: option.splits window_msg.splits if_splits thread_pc.splits)

lemma PV_Activate_good: "\<not> window_open p \<Longrightarrow> PV_Activate p = Inr (r, p') \<Longrightarrow> PV_good p' \<and> pv_pc p' = Started"
  by (auto simp: PV_Activate_def PV_good_def cbind_Inr_iff)

text \<open>
  \<open>Deactivate\<close> returns when the window is there and the thread comes to a turn without a message; before the window is made, nobody
  is told to close, and it waits for ever.
\<close>

lemma preview_join:
  assumes "PV_good p" "joinable (pv_thread p)" "list_all only_deactivate_closes es"
  shows "pv_pc p = Looping \<Longrightarrow> \<exists>e \<in> set es. next_msg e = None \<Longrightarrow> \<exists>p'. PV_Deactivate es p = Some (0, p') \<and> \<not> joinable (pv_thread p')"
    and "pv_pc p = Started \<Longrightarrow> PV_Deactivate es p = None"
proof -
  have j: "joinable (pv_thread (PV_stop p))" using assms(2) by (simp add: PV_stop_def)
  show "\<exists>p'. PV_Deactivate es p = Some (0, p') \<and> \<not> joinable (pv_thread p')" if "pv_pc p = Looping" "\<exists>e \<in> set es. next_msg e = None"
  proof -
    have "0 < length (filter (\<lambda>os. next_msg os = None) es)" using that(2) by (simp add: filter_empty_conv)
    then have "pv_pc (preview_thread.run es (PV_stop p)) = Ended"
      using preview_thread.join_returns [OF assms(1) that(1) assms(3)] by simp
    then show ?thesis using j by (simp add: PV_Deactivate_def preview_run JoinThread_def Let_def)
  qed
  show "PV_Deactivate es p = None" if "pv_pc p = Started"
    using preview_thread.join_blocks [OF assms(1) that assms(3)] j by (simp add: PV_Deactivate_def preview_run Let_def)
qed

text \<open>What is made for drawing is given back; a failed test draws nothing.\<close>

lemma DrawImage_released:
  assumes "DrawImage rect data width height = Inr (r, cs)"
  shows "count_list cs GetDC = count_list cs ReleaseDC" "count_list cs CreateCompatibleDC = count_list cs DeleteDC"
    "length (filter (\<lambda>c. \<exists>w h. c = CreateCompatibleBitmap w h) cs) = count_list cs DeleteBitmap" "r = 0 \<longleftrightarrow> cs \<noteq> []"
  using assms by (auto simp: DrawImage_def DrawImageByDibRGB24_def Let_def split: option.splits if_splits prod.splits)

text \<open>A packed picture has enough bytes when its rows need no padding, and too few otherwise.\<close>

lemma dib_size_padded:
  fixes width :: int
  assumes "0 \<le> width"
  shows "width * 3 \<le> (width * 24 + 31) div 32 * 4" "(width * 24 + 31) div 32 * 4 = width * 3 \<longleftrightarrow> width mod 4 = 0"
proof -
  obtain q r where w: "width = 4 * q + r" "0 \<le> r" "r < 4"
    using that [of "width div 4" "width mod 4"] by simp
  have "width * 24 + 31 = (24 * r + 31) + (3 * q) * 32" using w(1) by simp
  then have s: "(width * 24 + 31) div 32 = 3 * q + (24 * r + 31) div 32" by (simp only: div_mult_self1)
  have r: "r = 0 \<or> r = 1 \<or> r = 2 \<or> r = 3" using w(2,3) by linarith
  then have d: "(width * 24 + 31) div 32 * 4 = 12 * q + (if r = 0 then 0 else if r = 1 then 4 else if r = 2 then 8 else 12)"
    unfolding s by auto
  have m: "width mod 4 = r" using w by simp
  show "width * 3 \<le> (width * 24 + 31) div 32 * 4" "(width * 24 + 31) div 32 * 4 = width * 3 \<longleftrightarrow> width mod 4 = 0"
    unfolding d m using w(1) r by auto
qed

lemma DrawImage_packed:
  assumes "int (length d) = width * 3 * height" "0 \<le> width" "0 < height"
  shows "DrawImage rect (Some d) width height = Inl OutOfBounds \<longleftrightarrow> width mod 4 \<noteq> 0"
proof -
  have "width * 3 * height < (width * 24 + 31) div 32 * 4 * height \<longleftrightarrow> width * 3 < (width * 24 + 31) div 32 * 4"
    using assms(3) by (simp only: mult_less_cancel_right) simp
  also have "\<dots> \<longleftrightarrow> width mod 4 \<noteq> 0" using dib_size_padded [OF assms(2)] by linarith
  finally show ?thesis
    using assms by (simp add: DrawImage_def DrawImageByDibRGB24_def dib_size_def Let_def split: prod.splits)
qed

end
