(* ===== verification/Mini_Dump.thy ===== *)
theory Mini_Dump
  imports Util_Strings
begin

text \<open>
  \<open>MiniDump\<close> and \<open>DebugCallStack\<close> of \<open>include/common\<close>: the filter that writes a dump when an exception is not handled, and the
  text of an address on the stack. The calls that start it are commented out in \<open>Application\<close>. The system is the argument
  \<open>dump_os\<close>; the result has the calls that leave something behind. A \<open>TCHAR\<close> is a character.
\<close>

section \<open>Names\<close>

text \<open>The codes are those of \<open>winnt.h\<close>; the \<open>int\<close> they are compared with is the code as a 32-bit number.\<close>

definition exception_names :: "(u32 \<times> string) list" where
  "exception_names = [
     (0xC0000005, ''Access Violation''), (0x80000002, ''Data Type Misalignment''), (0x80000003, ''Break Point''),
     (0x80000004, ''Single Step''), (0xC000008C, ''Array Bounds Exceeded''), (0xC000008D, ''Float Denomal Operand''),
     (0xC000008E, ''Float DIvide By Zero''), (0xC000008F, ''Float Inexact Result''), (0xC0000090, ''Float Invalid Operation''),
     (0xC0000091, ''Float Overflow''), (0xC0000092, ''Float Stack Check''), (0xC0000093, ''Float Underflow''),
     (0xC0000094, ''Int Divide By Zero''), (0xC0000095, ''Int Overflow''), (0xC0000096, ''Privileged Instruction''),
     (0xC0000006, ''In Page Error''), (0xC000001D, ''Illegal Instruction''), (0xC0000025, ''Noncontiuable Exception''),
     (0xC00000FD, ''Stack Overflow''), (0xC0000026, ''Invalid Disposition''), (0x80000001, ''Guard Page''),
     (0xC0000008, ''Invalid Handle'')]"

definition GetExceptionCodeString :: "u32 \<Rightarrow> string" where
  "GetExceptionCodeString code = (case map_of exception_names code of Some name \<Rightarrow> name | None \<Rightarrow> ''Unknown'')"

text \<open>\<open>Left\<close> and \<open>Mid\<close> of a \<open>CString\<close> take no characters for a negative count, and no more than there are.\<close>

definition GetExeName :: "string \<Rightarrow> string" where
  "GetExeName module =
     (let name = (case str_rfind module backslash of None \<Rightarrow> module | Some pos \<Rightarrow> drop (pos + 1) module) in
      case str_rfind name (CHR ''.'') of None \<Rightarrow> [] | Some pos \<Rightarrow> take pos name)"

record SYSTEMTIME =
  wYear :: nat
  wMonth :: nat
  wDay :: nat
  wHour :: nat
  wMinute :: nat
  wSecond :: nat

definition dump_name :: "string \<Rightarrow> string \<Rightarrow> SYSTEMTIME \<Rightarrow> string" where
  "dump_name path exe t = path @ [backslash] @ exe @ ''_'' @ zero_padded 4 (wYear t) @ ''-'' @ zero_padded 2 (wMonth t) @ ''-''
     @ zero_padded 2 (wDay t) @ ''_'' @ zero_padded 2 (wHour t) @ ''-'' @ zero_padded 2 (wMinute t) @ ''-'' @ zero_padded 2 (wSecond t)
     @ ''.dmp''"

text \<open>
  \<open>_sntprintf\<close> puts at most \<open>MAX_PATH\<close> characters into the buffer, without an end when the text has that many; reading it as a
  string then leaves the buffer.
\<close>

definition DumpPath :: "string \<Rightarrow> string cpp" where
  "DumpPath text = (if length text < 260 then Inr text else Inl OutOfBounds)"

section \<open>The filter\<close>

datatype handle = INVALID_HANDLE_VALUE | FileHandle nat

record MiniDump =
  m_strPath :: string
  m_nDumpLevel :: int
  m_bSaveDump :: bool
  PreviousExceptionFilter :: "nat option"

definition MiniDump_statics :: MiniDump where
  "MiniDump_statics = \<lparr>m_strPath = [], m_nDumpLevel = 0, m_bSaveDump = True, PreviousExceptionFilter = None\<rparr>"

datatype dump_call =
    CreateFile string
  | MiniDumpWriteDump handle int
  | CloseHandle handle
  | TerminateProcess
  | LogDump string u32 string

record dump_os =
  has_dbghelp :: bool
  has_dump :: bool
  exe_path :: string
  local_time :: SYSTEMTIME
  new_file :: handle
  dump_written :: bool

definition EXCEPTION_EXECUTE_HANDLER :: int where "EXCEPTION_EXECUTE_HANDLER = 1"
definition EXCEPTION_CONTINUE_SEARCH :: int where "EXCEPTION_CONTINUE_SEARCH = 0"

definition write_dump :: "dump_os \<Rightarrow> MiniDump \<Rightarrow> string \<Rightarrow> int \<times> dump_call list" where
  "write_dump os md path =
     (let (h, cs) = (if m_bSaveDump md then (new_file os, [CreateFile path]) else (INVALID_HANDLE_VALUE, [])) in
      if h \<noteq> INVALID_HANDLE_VALUE then
        let cs1 = cs @ [MiniDumpWriteDump h (m_nDumpLevel md), CloseHandle h] in
        if dump_written os then (EXCEPTION_EXECUTE_HANDLER, cs1 @ [TerminateProcess])
        else (EXCEPTION_CONTINUE_SEARCH, cs1 @ [CloseHandle h])
      else (EXCEPTION_CONTINUE_SEARCH, cs @ [CloseHandle h]))"

definition UnHandledExceptionFilter :: "dump_os \<Rightarrow> u32 \<Rightarrow> MiniDump \<Rightarrow> (int \<times> dump_call list) cpp" where
  "UnHandledExceptionFilter os code md =
     (if \<not> has_dbghelp os \<or> \<not> has_dump os then Inr (EXCEPTION_CONTINUE_SEARCH, [])
      else cbind (DumpPath (dump_name (m_strPath md) (GetExeName (exe_path os)) (local_time os))) (\<lambda>path.
        let (r, cs) = write_dump os md path in Inr (r, LogDump path code (GetExceptionCodeString code) # cs)))"

text \<open>
  The system's filter is a number; \<open>SetUnhandledExceptionFilter\<close> gives back the one before. \<open>EnableHotFix\<close> clears the lowest bit of
  the exception policy where Windows has one.
\<close>

definition EnableHotFix :: "u32 option \<Rightarrow> u32 option" where
  "EnableHotFix policy = map_option (\<lambda>flags. flags AND NOT 1) policy"

definition MiniDump_Begin :: "string \<Rightarrow> nat \<Rightarrow> MiniDump \<Rightarrow> u32 option \<Rightarrow> nat option \<Rightarrow> bool \<times> MiniDump \<times> u32 option \<times> nat option" where
  "MiniDump_Begin path self md policy current =
     (True, md\<lparr>m_strPath := path, PreviousExceptionFilter := current\<rparr>, EnableHotFix policy, Some self)"

definition MiniDump_End :: "MiniDump \<Rightarrow> nat option \<Rightarrow> bool \<times> nat option" where
  "MiniDump_End md current = (True, PreviousExceptionFilter md)"

section \<open>The text of an address\<close>

definition kStrBufferSize :: nat where "kStrBufferSize = 1024"

text \<open>
  \<open>sprintf_s\<close> ends the process when the text does not fit. \<open>symbol\<close> is the name found for the address, empty when there is none;
  \<open>line\<close> the file name and line, when they are known.
\<close>

definition GetSymbolString :: "string \<Rightarrow> (string \<times> nat) option \<Rightarrow> nat option \<Rightarrow> string cpp" where
  "GetSymbolString symbol line address = (case address of
       None \<Rightarrow> Inr []
     | Some a \<Rightarrow>
         (let text = (case line of
              Some (file_name, number) \<Rightarrow> file_name @ ''('' @ nat_digits number @ '') : '' @ symbol
            | None \<Rightarrow> ''No line info : '' @ symbol)
          in if length text < kStrBufferSize then Inr text else Inl StdTerminate))"

section \<open>A captured stack\<close>

definition kMaxStackDepth :: nat where "kMaxStackDepth = 16"

record DCallStack =
  stack_addresses :: "nat list"
  stack_hash :: u32
  stack_count :: nat

text \<open>\<open>CaptureStackBackTrace\<close> gives the innermost addresses of \<open>stack\<close>, at most as many as asked for; \<open>junk\<close> is what the array held.\<close>

definition DCallStack_new :: "nat list \<Rightarrow> nat list \<Rightarrow> u32 \<Rightarrow> DCallStack" where
  "DCallStack_new junk stack hash =
     (let n = min kMaxStackDepth (length stack) in \<lparr>stack_addresses = take n stack @ drop n junk, stack_hash = hash, stack_count = n\<rparr>)"

definition address_at :: "DCallStack \<Rightarrow> nat \<Rightarrow> nat cpp" where
  "address_at s index = (if index < length (stack_addresses s) then Inr (stack_addresses s ! index) else Inl OutOfBounds)"

definition GetHash :: "DCallStack \<Rightarrow> u32" where
  "GetHash s = stack_hash s"

definition GetCount :: "DCallStack \<Rightarrow> nat" where
  "GetCount s = stack_count s"

section \<open>Properties of the filter\<close>

lemma GetExceptionCodeString_named: "(code, name) \<in> set exception_names \<Longrightarrow> GetExceptionCodeString code = name"
proof -
  have d: "distinct (map fst exception_names)" by code_simp
  show "(code, name) \<in> set exception_names \<Longrightarrow> GetExceptionCodeString code = name"
    by (simp add: GetExceptionCodeString_def map_of_is_SomeI [OF d])
qed

lemma GetExeName_file:
  assumes "backslash \<notin> set name" "CHR ''.'' \<notin> set ext" "backslash \<notin> set ext"
  shows "GetExeName (dir @ backslash # name @ CHR ''.'' # ext) = name"
proof -
  have "str_rfind (dir @ backslash # name @ CHR ''.'' # ext) backslash = Some (length dir)"
    using assms by (intro str_rfind_last) (auto simp: backslash_def)
  moreover have "str_rfind (name @ CHR ''.'' # ext) (CHR ''.'') = Some (length name)"
    by (rule str_rfind_last) (rule assms(2))
  ultimately show ?thesis by (simp add: GetExeName_def)
qed

text \<open>A module whose name has no dot has the empty name.\<close>

lemma GetExeName_no_dot: "backslash \<notin> set name \<Longrightarrow> CHR ''.'' \<notin> set name \<Longrightarrow> GetExeName name = []"
  by (simp add: GetExeName_def str_rfind_None)

text \<open>
  The filter ends the process exactly when the dump was written. Otherwise the handle is closed once more after the file was closed,
  or an invalid one is.
\<close>

lemma filter_handles_iff:
  assumes "UnHandledExceptionFilter os code md = Inr (r, cs)"
  shows "r = EXCEPTION_EXECUTE_HANDLER \<longleftrightarrow> TerminateProcess \<in> set cs"
    and "TerminateProcess \<in> set cs \<longleftrightarrow>
      has_dbghelp os \<and> has_dump os \<and> m_bSaveDump md \<and> new_file os \<noteq> INVALID_HANDLE_VALUE \<and> dump_written os"
  using assms
  by (auto simp: UnHandledExceptionFilter_def write_dump_def cbind_Inr_iff EXCEPTION_EXECUTE_HANDLER_def EXCEPTION_CONTINUE_SEARCH_def Let_def
      split: if_splits)

lemma filter_closes_twice:
  assumes "UnHandledExceptionFilter os code md = Inr (r, cs)" "has_dbghelp os" "has_dump os" "m_bSaveDump md" "new_file os = FileHandle h"
  shows "count_list cs (CloseHandle (FileHandle h)) = (if dump_written os then 1 else 2)"
  using assms by (auto simp: UnHandledExceptionFilter_def write_dump_def cbind_Inr_iff Let_def split: if_splits)

lemma filter_leaves_buffer:
  assumes "has_dbghelp os" "has_dump os" "wYear (local_time os) < 10000" "wMonth (local_time os) < 100" "wDay (local_time os) < 100"
    "wHour (local_time os) < 100" "wMinute (local_time os) < 100" "wSecond (local_time os) < 100"
  shows "UnHandledExceptionFilter os code md = Inl OutOfBounds \<longleftrightarrow> 235 \<le> length (m_strPath md) + length (GetExeName (exe_path os))"
proof -
  have "length (dump_name (m_strPath md) (GetExeName (exe_path os)) (local_time os))
      = length (m_strPath md) + length (GetExeName (exe_path os)) + 25"
    using assms(3-8) by (simp add: dump_name_def length_zero_padded)
  then show ?thesis
    using assms(1,2) by (simp add: UnHandledExceptionFilter_def DumpPath_def split: prod.splits)
qed

text \<open>\<open>End\<close> puts the filter back that was there before \<open>Begin\<close>, unless \<open>Begin\<close> was called twice.\<close>

lemma End_restores: "MiniDump_Begin path self md policy current = (r, md', policy', current') \<Longrightarrow> snd (MiniDump_End md' f) = current"
  by (auto simp: MiniDump_Begin_def MiniDump_End_def)

lemma Begin_twice:
  assumes "MiniDump_Begin path self md policy current = (r, md1, policy1, f1)" "MiniDump_Begin path' self md1 policy1 f1 = (r', md2, policy2, f2)"
  shows "snd (MiniDump_End md2 f2) = Some self"
  using assms by (auto simp: MiniDump_Begin_def MiniDump_End_def)

text \<open>A name and a path as long as they can be fit the text of an address only when they are short.\<close>

lemma GetSymbolString_no_line: "length symbol < 1009 \<Longrightarrow> GetSymbolString symbol None (Some a) = Inr (''No line info : '' @ symbol)"
  by (simp add: GetSymbolString_def kStrBufferSize_def)

text \<open>The addresses up to the count are the innermost ones of the stack, also when it is deeper than the array.\<close>

lemma captured_addresses:
  assumes "length junk = kMaxStackDepth" "s = DCallStack_new junk stack hash"
  shows "GetCount s = min 16 (length stack)" "i < GetCount s \<Longrightarrow> address_at s i = Inr (stack ! i)"
    "length (stack_addresses s) = kMaxStackDepth"
  using assms by (auto simp: DCallStack_new_def GetCount_def address_at_def kMaxStackDepth_def nth_append Let_def)

end
