(* ===== verification/Log_Format.thy ===== *)
theory Log_Format
  imports Util_Strings
begin

text \<open>
  \<open>CommonFormatterImpl\<close> and the operators of \<open>include/common/PLogCommon.cpp\<close>: the line that the log writes for a record of the log
  library, and how values are put into the message of one. \<open>LogTraceI\<close> logs the begin and the end of a scope.
\<close>

section \<open>Records\<close>

datatype Severity = none_severity | fatal | error_severity | warning | info_severity | debug | verbose

text \<open>
  What the log library has recorded: the name of the function as the library gives it, and the local time that \<open>localtime_s\<close> makes of
  the time of the record.
\<close>

record log_record =
  tm_hour :: nat
  tm_min :: nat
  tm_sec :: nat
  millitm :: nat
  getSeverity :: Severity
  getTid :: nat
  getFunc :: string
  getLine :: nat
  getMessage :: string

definition severityToStringShort :: "Severity \<Rightarrow> string" where
  "severityToStringShort severity = (case severity of
       fatal \<Rightarrow> ''F'' | error_severity \<Rightarrow> ''E'' | warning \<Rightarrow> ''W'' | info_severity \<Rightarrow> ''I'' | debug \<Rightarrow> ''D'' | verbose \<Rightarrow> ''V''
     | none_severity \<Rightarrow> ''N'')"

definition log_header :: string where
  "log_header = ''[CTec Log] Version 1.0'' @ [CHR 0x0A]"

section \<open>The line\<close>

text \<open>
  A name with a lambda in it is cut from its \<open><lambda_\<close> to the next \<open>()\<close>. Without one \<open>pos2\<close> is \<open>npos\<close>, the greatest \<open>size_t\<close>, and
  \<open>pos2 + 2\<close> is 1: an end before its begin.
\<close>

definition short_func :: "string \<Rightarrow> string cpp" where
  "short_func func = (case str_find func ''<lambda_'' 0 of
       None \<Rightarrow> Inr func
     | Some pos \<Rightarrow>
         (case str_find func ''()'' pos of
            None \<Rightarrow> if pos \<le> 1 then Inr (take pos func @ ''<lambda>'' @ drop 1 func) else Inl OutOfBounds
          | Some pos2 \<Rightarrow> Inr (take pos func @ ''<lambda>'' @ drop (pos2 + 2) func)))"

definition log_format :: "log_record \<Rightarrow> string cpp" where
  "log_format record1 = cbind (short_func (getFunc record1)) (\<lambda>func. Inr (
     zero_padded 2 (tm_hour record1) @ '':'' @ zero_padded 2 (tm_min record1) @ '':'' @ zero_padded 2 (tm_sec record1) @ ''.''
     @ zero_padded 3 (millitm record1) @ '' '' @ severityToStringShort (getSeverity record1) @ '' ['' @ nat_digits (getTid record1) @ ''] [''
     @ func @ ''@'' @ nat_digits (getLine record1) @ ''] '' @ getMessage record1 @ [CHR 0x0A]))"

section \<open>Values in a message\<close>

definition put :: "log_record \<Rightarrow> string \<Rightarrow> log_record" where
  "put record1 s = record1\<lparr>getMessage := getMessage record1 @ s\<rparr>"

definition put_bool :: "log_record \<Rightarrow> bool \<Rightarrow> log_record" where
  "put_bool record1 value1 = (if True = value1 then put record1 ''true'' else put record1 ''false'')"

record CPoint =
  pt_x :: int
  pt_y :: int

record CRect =
  rc_left :: int
  rc_top :: int
  rc_right :: int
  rc_bottom :: int

definition put_point :: "log_record \<Rightarrow> CPoint \<Rightarrow> log_record" where
  "put_point record1 v = put record1 (''('' @ to_string (pt_x v) @ '','' @ to_string (pt_y v) @ '')'')"

definition put_rect :: "log_record \<Rightarrow> CRect \<Rightarrow> log_record" where
  "put_rect record1 v = put record1 (''('' @ to_string (rc_left v) @ '','' @ to_string (rc_top v) @ '' ''
     @ to_string (c_int (rc_right v - rc_left v)) @ ''x'' @ to_string (c_int (rc_bottom v - rc_top v)) @ '')'')"

text \<open>
  \<open>LogTraceI\<close>: its record, which its constructor writes, and the new one of the same place that its destructor writes. The time and
  the thread are those of the moment.
\<close>

definition LogTraceI_begin :: "log_record \<Rightarrow> string \<Rightarrow> log_record" where
  "LogTraceI_begin r log = put (put (r\<lparr>getSeverity := info_severity, getMessage := []\<rparr>) ''Start '') log"

definition LogTraceI_end :: "log_record \<Rightarrow> log_record \<Rightarrow> string \<Rightarrow> log_record" where
  "LogTraceI_end now r log =
     put (put (now\<lparr>getSeverity := info_severity, getFunc := getFunc r, getLine := getLine r, getMessage := []\<rparr>) ''End '') log"

section \<open>Properties\<close>

text \<open>The name of a lambda as the compiler makes it: the number is cut out, what follows stays.\<close>

lemma short_func_lambda:
  assumes "str_find (outer @ ''<lambda_'' @ number @ ''()'' @ rest) ''<lambda_'' 0 = Some (length outer)"
    and "str_find (outer @ ''<lambda_'' @ number @ ''()'' @ rest) ''()'' (length outer) = Some (length outer + 8 + length number)"
  shows "short_func (outer @ ''<lambda_'' @ number @ ''()'' @ rest) = Inr (outer @ ''<lambda>'' @ rest)"
proof -
  let ?head = "outer @ ''<lambda_'' @ number @ ''()''"
  have "drop (length ?head) (?head @ rest) = rest" by (rule drop_length_append)
  moreover have "length outer + 8 + length number + 2 = length ?head" by simp
  ultimately have "drop (length outer + 8 + length number + 2) (outer @ ''<lambda_'' @ number @ ''()'' @ rest) = rest"
    by (simp only: append_assoc)
  then show ?thesis unfolding short_func_def assms(1) option.case assms(2) by simp
qed

lemma short_func_undefined_iff:
  "short_func func = Inl e \<longleftrightarrow> e = OutOfBounds \<and> (\<exists>pos > 1. str_find func ''<lambda_'' 0 = Some pos \<and> str_find func ''()'' pos = None)"
  by (auto simp: short_func_def split: option.splits if_splits)

lemma short_func_examples:
  "short_func ''Camera::Activate::<lambda_1f>::operator ()'' = Inr ''Camera::Activate::<lambda>''"
  "short_func ''Camera::Activate'' = Inr ''Camera::Activate''"
  "short_func ''Camera::Activate::<lambda_1f>::operator'' = Inl OutOfBounds"
  by code_simp+

text \<open>A line begins with 15 characters for the time and the severity, whatever the record is.\<close>

lemma length_severity: "length (severityToStringShort sev) = 1"
  by (simp add: severityToStringShort_def split: Severity.splits)

lemma log_format_columns:
  assumes "log_format r = Inr line" "tm_hour r < 24" "tm_min r < 60" "tm_sec r < 61" "millitm r < 1000"
  shows "take 2 line = zero_padded 2 (tm_hour r)" "take 3 (drop 9 line) = zero_padded 3 (millitm r)"
    "take 1 (drop 13 line) = severityToStringShort (getSeverity r)" "last line = CHR 0x0A"
proof -
  have l: "length (zero_padded 2 (tm_hour r)) = 2" "length (zero_padded 2 (tm_min r)) = 2" "length (zero_padded 2 (tm_sec r)) = 2"
    "length (zero_padded 3 (millitm r)) = 3"
    using assms(2-5) by (simp_all add: length_zero_padded)
  obtain func where line: "line = zero_padded 2 (tm_hour r) @ '':'' @ zero_padded 2 (tm_min r) @ '':'' @ zero_padded 2 (tm_sec r) @ ''.''
     @ zero_padded 3 (millitm r) @ '' '' @ severityToStringShort (getSeverity r) @ '' ['' @ nat_digits (getTid r) @ ''] [''
     @ func @ ''@'' @ nat_digits (getLine r) @ ''] '' @ getMessage r @ [CHR 0x0A]"
    using assms(1) by (auto simp: log_format_def cbind_Inr_iff)
  show "take 2 line = zero_padded 2 (tm_hour r)" "take 3 (drop 9 line) = zero_padded 3 (millitm r)"
    "take 1 (drop 13 line) = severityToStringShort (getSeverity r)" "last line = CHR 0x0A"
    unfolding line by (simp_all add: l length_severity drop_Cons')
qed

end
