(* ===== verification/Window_Controls.thy ===== *)
theory Window_Controls
  imports Log_Format File_Names
begin

text \<open>
  \<open>include/common/UtilWnd.cpp\<close>: helpers for rectangles, drawing, combo boxes and edit boxes, and \<open>WGDIPlus.cpp\<close>, which
  loads an image from a resource. Nothing of the program calls them. A control is a record of what Windows keeps of it.
\<close>

section \<open>Coordinates and drawing\<close>

text \<open>\<open>PtInRect\<close>: the right and the lower edge do not belong to a rectangle.\<close>

definition PtInRect :: "CRect \<Rightarrow> int \<times> int \<Rightarrow> bool" where
  "PtInRect r p = (rc_left r \<le> fst p \<and> fst p < rc_right r \<and> rc_top r \<le> snd p \<and> snd p < rc_bottom r)"

definition RectContains :: "CRect \<Rightarrow> CRect \<Rightarrow> bool" where
  "RectContains rt1 rt2 = (if PtInRect rt1 (rc_left rt2, rc_top rt2) \<and> PtInRect rt1 (rc_right rt2, rc_bottom rt2) then True else False)"

text \<open>A window is given by where the origin of its client area is on the screen.\<close>

definition ConvertToPoint :: "CPoint \<Rightarrow> CPoint \<Rightarrow> CPoint \<Rightarrow> CPoint" where
  "ConvertToPoint wnd_src wnd_dst pt =
     (let screen = \<lparr>pt_x = c_int (pt_x pt + pt_x wnd_src), pt_y = c_int (pt_y pt + pt_y wnd_src)\<rparr>
      in \<lparr>pt_x = c_int (pt_x screen - pt_x wnd_dst), pt_y = c_int (pt_y screen - pt_y wnd_dst)\<rparr>)"

text \<open>A device context: the pen and the brush (\<open>None\<close>: the null brush) that are selected, and the rectangles drawn.\<close>

record device =
  dc_pen :: u32
  dc_brush :: "u32 option"
  dc_drawn :: "(CRect \<times> u32 \<times> u32 option) list"

definition SelectPen :: "u32 \<Rightarrow> device \<Rightarrow> u32 \<times> device" where
  "SelectPen pen dc = (dc_pen dc, dc\<lparr>dc_pen := pen\<rparr>)"

definition SelectBrush :: "u32 option \<Rightarrow> device \<Rightarrow> u32 option \<times> device" where
  "SelectBrush brush dc = (dc_brush dc, dc\<lparr>dc_brush := brush\<rparr>)"

definition Rectangle :: "CRect \<Rightarrow> device \<Rightarrow> device" where
  "Rectangle rt dc = dc\<lparr>dc_drawn := dc_drawn dc @ [(rt, dc_pen dc, dc_brush dc)]\<rparr>"

definition draw_with :: "u32 option \<Rightarrow> device \<Rightarrow> CRect \<Rightarrow> u32 \<Rightarrow> device" where
  "draw_with brush dc rt line_color =
     (let (old_pen, dc1) = SelectPen line_color dc; (old_brush, dc2) = SelectBrush brush dc1; dc3 = Rectangle rt dc2
      in snd (SelectBrush old_brush (snd (SelectPen old_pen dc3))))"

definition DrawRectangle :: "device \<Rightarrow> CRect \<Rightarrow> u32 \<Rightarrow> device" where
  "DrawRectangle = draw_with None"

definition DrawRectangle_filled :: "device \<Rightarrow> CRect \<Rightarrow> u32 \<Rightarrow> u32 \<Rightarrow> device" where
  "DrawRectangle_filled dc rt line_color inner_color = draw_with (Some inner_color) dc rt line_color"

definition RGB :: "u8 \<Rightarrow> u8 \<Rightarrow> u8 \<Rightarrow> u32" where
  "RGB r g b = ucast r OR push_bit 8 (ucast g) OR push_bit 16 (ucast b)"

definition GetColor :: "u32 \<Rightarrow> u32" where
  "GetColor lbColor =
     (let r = ucast lbColor; g = ucast (drop_bit 8 lbColor); b = ucast (drop_bit 16 lbColor) in RGB r g b)"

section \<open>Combo boxes\<close>

type_synonym u64 = "64 word"

text \<open>The texts with their data, and the selected item, -1 for none.\<close>

record combo_box =
  cb_items :: "(string \<times> u64) list"
  cur_sel :: int

definition CB_ERR :: int where "CB_ERR = -1"

definition GetItemData :: "combo_box \<Rightarrow> int \<Rightarrow> u64" where
  "GetItemData c i = (if 0 \<le> i \<and> i < int (length (cb_items c)) then snd (cb_items c ! nat i) else word_of_int CB_ERR)"

definition SetItemData :: "combo_box \<Rightarrow> int \<Rightarrow> u64 \<Rightarrow> combo_box" where
  "SetItemData c i d = (if 0 \<le> i \<and> i < int (length (cb_items c))
     then c\<lparr>cb_items := (cb_items c)[nat i := (fst (cb_items c ! nat i), d)]\<rparr> else c)"

definition SetCurSel :: "combo_box \<Rightarrow> int \<Rightarrow> combo_box" where
  "SetCurSel c i = c\<lparr>cur_sel := (if 0 \<le> i \<and> i < int (length (cb_items c)) then i else CB_ERR)\<rparr>"

text \<open>The first item from \<open>i\<close> on that satisfies \<open>P\<close>.\<close>

fun first_item :: "(string \<times> u64 \<Rightarrow> bool) \<Rightarrow> int \<Rightarrow> (string \<times> u64) list \<Rightarrow> int option" where
  "first_item P i [] = None"
| "first_item P i (x # xs) = (if P x then Some i else first_item P (i + 1) xs)"

definition SetCurSel_ByData :: "combo_box \<Rightarrow> int \<Rightarrow> bool \<times> combo_box" where
  "SetCurSel_ByData c nData = (case first_item (\<lambda>x. (ucast (snd x) :: u32) = word_of_int nData) 0 (cb_items c) of
       None \<Rightarrow> (True, c) | Some i \<Rightarrow> (True, SetCurSel c i))"

definition SetCurSel_ByIndex :: "combo_box \<Rightarrow> int \<Rightarrow> bool \<times> combo_box" where
  "SetCurSel_ByIndex c nIdx =
     (let nItem = int (length (cb_items c)) in
      if nItem = 0 then (False, c)
      else if nIdx < 0 \<or> nIdx \<ge> nItem then (True, SetCurSel c 0)
      else (True, SetCurSel c nIdx))"

definition SetCurSel_ByText :: "combo_box \<Rightarrow> string \<Rightarrow> bool \<times> combo_box" where
  "SetCurSel_ByText c strText = (case first_item (\<lambda>x. fst x = strText) 0 (cb_items c) of
       None \<Rightarrow> (False, c) | Some i \<Rightarrow> (True, SetCurSel c i))"

text \<open>The result and the value put into \<open>nData\<close>, or \<open>None\<close> when it is left alone.\<close>

definition GetCurData :: "combo_box \<Rightarrow> bool \<times> int option" where
  "GetCurData c = (if cb_items c = [] then (False, None) else (True, Some (sint (ucast (GetItemData c (cur_sel c)) :: u32))))"

text \<open>The data are pointers to strings; \<open>mem\<close> has the strings there are.\<close>

definition GetCurData_string :: "(u64 \<Rightarrow> string option) \<Rightarrow> combo_box \<Rightarrow> (bool \<times> string option) cpp" where
  "GetCurData_string mem c =
     (if cb_items c = [] then Inr (False, None)
      else let p = GetItemData c (cur_sel c) in
        if p \<noteq> 0 then (case mem p of None \<Rightarrow> Inl DanglingPointer | Some s \<Rightarrow> Inr (True, Some s)) else Inr (False, None))"

text \<open>\<open>AddString\<close> puts the text where the control sorts it, at \<open>pos\<close>.\<close>

definition AddComboBoxItem :: "nat \<Rightarrow> combo_box \<Rightarrow> string \<Rightarrow> int \<Rightarrow> bool \<times> combo_box" where
  "AddComboBoxItem pos c strItemStr nData =
     (let c1 = c\<lparr>cb_items := take pos (cb_items c) @ (strItemStr, 0) # drop pos (cb_items c)\<rparr>
      in (True, SetItemData c1 (int pos) (word_of_int nData)))"

section \<open>Edit boxes and fonts\<close>

text \<open>An edit box is its text; the overloads with a buffer of 256 get at most 255 characters of it.\<close>

definition GetEditText_int :: "string \<Rightarrow> int" where
  "GetEditText_int text = tstoi text"

definition GetEditText_DWORD :: "string \<Rightarrow> u32" where
  "GetEditText_DWORD text = word_of_int (tstoi text)"

definition GetEditText :: "string \<Rightarrow> string" where
  "GetEditText text = take 255 text"

text \<open>\<open>narrow\<close> is the conversion of \<open>GetWindowTextA\<close> and \<open>widen\<close> that of \<open>SetWindowTextA\<close>.\<close>

definition GetEditText_A :: "(string \<Rightarrow> string) \<Rightarrow> string \<Rightarrow> string" where
  "GetEditText_A narrow text = take 255 (narrow text)"

definition SetEditText :: "string \<Rightarrow> string" where
  "SetEditText value1 = value1"

definition SetEditText_A :: "(string \<Rightarrow> string) \<Rightarrow> string \<Rightarrow> string" where
  "SetEditText_A widen value1 = widen value1"

definition SetEditText_int :: "int \<Rightarrow> string" where
  "SetEditText_int nData = to_string nData"

record LOGFONT =
  lfHeight :: int
  lfFaceName :: string

definition SetFontCtrl :: "LOGFONT \<Rightarrow> int \<Rightarrow> LOGFONT" where
  "SetFontCtrl log_font size1 = log_font\<lparr>lfHeight := c_int (size1 * 10)\<rparr>"

section \<open>Images\<close>

record WGDIPlus =
  m_token :: nat
  m_vaild :: bool

text \<open>\<open>GdiplusStartup\<close> gives a token, or fails.\<close>

definition WGDIPlus_new :: "nat option \<Rightarrow> WGDIPlus" where
  "WGDIPlus_new startup = (case startup of None \<Rightarrow> \<lparr>m_token = 0, m_vaild = False\<rparr> | Some t \<Rightarrow> \<lparr>m_token = t, m_vaild = True\<rparr>)"

text \<open>
  What Windows answers: the size of the resource if it is found, whether the memory is allocated, the resource and the memory locked and
  the stream made, and the image that GDI+ makes of the stream, null when it has none; \<open>status_ok\<close> is the state of an image.
\<close>

record 'i image_os =
  resource_size :: "nat option"
  alloc_ok :: bool
  resource_locked :: bool
  memory_locked :: bool
  stream_ok :: bool
  from_stream :: "'i option"
  status_ok :: "'i \<Rightarrow> bool"

datatype memory_call = GlobalAlloc nat | GlobalFree

definition LoadFromResource :: "'i image_os \<Rightarrow> 'i option \<Rightarrow> (bool \<times> 'i option \<times> memory_call list) cpp" where
  "LoadFromResource os img = (case resource_size os of
       None \<Rightarrow> Inr (False, img, [])
     | Some size1 \<Rightarrow>
        if size1 = 0 then Inr (False, img, [])
        else if alloc_ok os \<and> \<not> resource_locked os then Inr (False, img, [GlobalAlloc size1])
        else
          let img1 = (if alloc_ok os \<and> memory_locked os \<and> stream_ok os then from_stream os else img);
              cs = (if alloc_ok os then [GlobalAlloc size1, GlobalFree] else [])
          in (case img1 of None \<Rightarrow> Inl NullPointer
              | Some i \<Rightarrow> if \<not> status_ok os i then Inr (False, None, cs) else Inr (True, Some i, cs)))"

section \<open>Properties\<close>

text \<open>A rectangle does not contain itself; it contains what ends before its right and lower edge.\<close>

lemma RectContains_iff:
  assumes "rc_left b \<le> rc_right b" "rc_top b \<le> rc_bottom b"
  shows "RectContains a b \<longleftrightarrow> rc_left a \<le> rc_left b \<and> rc_right b < rc_right a \<and> rc_top a \<le> rc_top b \<and> rc_bottom b < rc_bottom a"
  using assms by (auto simp: RectContains_def PtInRect_def)

lemma RectContains_self: "\<not> RectContains r r"
  by (simp add: RectContains_def PtInRect_def)

lemma DrawRectangle_restores:
  "DrawRectangle dc rt line = dc\<lparr>dc_drawn := dc_drawn dc @ [(rt, line, None)]\<rparr>"
  "DrawRectangle_filled dc rt line inner = dc\<lparr>dc_drawn := dc_drawn dc @ [(rt, line, Some inner)]\<rparr>"
  by (simp_all add: DrawRectangle_def DrawRectangle_filled_def draw_with_def SelectPen_def SelectBrush_def Rectangle_def)

lemma GetColor_mask: "GetColor c = c AND 0xFFFFFF"
proof -
  have m: "(0xFFFFFF :: u32) = mask 24" by (simp add: mask_eq_exp_minus_1)
  show ?thesis unfolding m
  proof (rule bit_eqI)
    fix n
    show "bit (GetColor c) n = bit (c AND mask 24) n"
      by (cases "n < 8"; cases "n < 16") (auto simp: GetColor_def RGB_def Let_def bit_simps)
  qed
qed

lemma first_item_Some:
  assumes "first_item P i xs = Some j"
  shows "i \<le> j \<and> j < i + int (length xs) \<and> P (xs ! nat (j - i)) \<and> (\<forall>k < nat (j - i). \<not> P (xs ! k))"
  using assms
proof (induction xs arbitrary: i)
  case (Cons x xs)
  show ?case
  proof (cases "P x")
    case False
    then have IH: "i + 1 \<le> j \<and> j < i + 1 + int (length xs) \<and> P (xs ! nat (j - (i + 1))) \<and> (\<forall>k < nat (j - (i + 1)). \<not> P (xs ! k))"
      using Cons.IH [of "i + 1"] Cons.prems by simp
    then obtain n where n: "nat (j - i) = Suc n" "nat (j - (i + 1)) = n" by (cases "nat (j - i)") auto
    show ?thesis using IH False unfolding n by (auto simp: less_Suc_eq_0_disj)
  qed (use Cons.prems in auto)
qed simp

lemma first_item_None: "first_item P i xs = None \<longleftrightarrow> (\<forall>x \<in> set xs. \<not> P x)"
  by (induction xs arbitrary: i) auto

definition combo_ok :: "combo_box \<Rightarrow> bool" where
  "combo_ok c \<longleftrightarrow> - 1 \<le> cur_sel c \<and> cur_sel c < int (length (cb_items c))"

text \<open>Selecting by text selects the first item with the text, or leaves the selection and says so.\<close>

lemma SetCurSel_ByText_found:
  assumes "SetCurSel_ByText c text = (r, c')"
  shows "r \<longleftrightarrow> text \<in> fst ` set (cb_items c)" "r \<Longrightarrow> 0 \<le> cur_sel c' \<and> fst (cb_items c' ! nat (cur_sel c')) = text" "\<not> r \<Longrightarrow> c' = c"
proof -
  have "(r \<longleftrightarrow> text \<in> fst ` set (cb_items c)) \<and> (r \<longrightarrow> 0 \<le> cur_sel c' \<and> fst (cb_items c' ! nat (cur_sel c')) = text) \<and> (\<not> r \<longrightarrow> c' = c)"
  proof (cases "first_item (\<lambda>x. fst x = text) 0 (cb_items c)")
    case None
    then have "r = False" "c' = c" using assms by (simp_all add: SetCurSel_ByText_def)
    moreover have "\<forall>x \<in> set (cb_items c). fst x \<noteq> text" using None unfolding first_item_None .
    ultimately show ?thesis by auto
  next
    case (Some i)
    from first_item_Some [OF Some] have i: "0 \<le> i" "i < int (length (cb_items c))" "fst (cb_items c ! nat i) = text" by auto
    moreover have "text \<in> fst ` set (cb_items c)"
      using i by (auto intro!: image_eqI [of _ _ "cb_items c ! nat i"] nth_mem)
    ultimately show ?thesis using assms Some by (auto simp: SetCurSel_ByText_def SetCurSel_def)
  qed
  then show "r \<longleftrightarrow> text \<in> fst ` set (cb_items c)" "r \<Longrightarrow> 0 \<le> cur_sel c' \<and> fst (cb_items c' ! nat (cur_sel c')) = text" "\<not> r \<Longrightarrow> c' = c"
    by simp_all
qed

text \<open>Without a selection the number is -1, with the result \<open>TRUE\<close>, and the string is read through the pointer -1.\<close>

lemma GetCurData_no_selection:
  assumes "cb_items c \<noteq> []" "cur_sel c = -1" "mem (- 1) = None"
  shows "GetCurData c = (True, Some (- 1))" "GetCurData_string mem c = Inl DanglingPointer"
proof -
  have "(ucast (- 1 :: u64) :: u32) = - 1" by (rule bit_eqI) (simp add: bit_simps)
  then show "GetCurData c = (True, Some (- 1))" "GetCurData_string mem c = Inl DanglingPointer"
    using assms by (simp_all add: GetCurData_def GetCurData_string_def GetItemData_def CB_ERR_def)
qed

lemma edit_int_roundtrip: "int32_range n \<Longrightarrow> GetEditText_int (SetEditText_int n) = n"
  by (simp add: GetEditText_int_def SetEditText_int_def tstoi_to_string)

text \<open>A number above the range of \<open>int\<close> is read as the greatest \<open>int\<close>, also for a \<open>DWORD\<close>.\<close>

lemma edit_DWORD: "0 \<le> n \<Longrightarrow> GetEditText_DWORD (to_string n) = word_of_int (min n (2 ^ 31 - 1))"
proof -
  assume "0 \<le> n"
  then have "tstoi (to_string n) = min n (2 ^ 31 - 1)"
    by (auto simp: tstoi_def stoi_to_string int32_range_def split_sign_to_string)
  then show ?thesis by (simp only: GetEditText_DWORD_def)
qed

text \<open>
  The memory is given back on every way but one. When no image is made, the pointer of the caller is read: the state of an old image is
  the result, and a null pointer is dereferenced.
\<close>

lemma LoadFromResource_leaks_iff:
  assumes "LoadFromResource os img = Inr (r, img', cs)"
  shows "length (filter (\<lambda>c. c \<noteq> GlobalFree) cs) \<noteq> count_list cs GlobalFree \<longleftrightarrow>
    (\<exists>n > 0. resource_size os = Some n) \<and> alloc_ok os \<and> \<not> resource_locked os"
  using assms by (auto simp: LoadFromResource_def Let_def split: option.splits if_splits)

lemma LoadFromResource_null:
  assumes "resource_size os = Some n" "0 < n" "alloc_ok os" "resource_locked os" "\<not> memory_locked os \<or> \<not> stream_ok os"
  shows "LoadFromResource os None = Inl NullPointer"
  using assms by (auto simp: LoadFromResource_def)

end
