(* ===== verification/Queue_Tests.thy ===== *)
theory Queue_Tests
  imports Queue_Local Queue_Shared
begin

text \<open>
  The test functions of \<open>QueueLocalMemory.cpp\<close> and \<open>QueueSharedMemory.cpp\<close>: what they do on the queues of the model, and what their
  success says. The two objects of the second one are opened in the environments \<open>env1\<close> and \<open>env2\<close>, what Windows has before and after
  the first is made.
\<close>

definition str_send :: string where
  "str_send = ''hello world''"

definition test_name :: string where
  "test_name = ''MyFileMappingObject''"

text \<open>The buffer as a string: up to its first zero.\<close>

definition buffer_text :: "u8 list \<Rightarrow> string" where
  "buffer_text buffer = bytes_str (takeWhile (\<lambda>b. b \<noteq> 0) buffer)"

definition TestQueueLocalMemory :: "(nat \<Rightarrow> u8) \<Rightarrow> int cpp" where
  "TestQueueLocalMemory junk =
     cbind (QL_Initialize junk test_name 128 QueueLocal_new) (\<lambda>(r, q).
     if r \<noteq> 0 then Inr 1
     else
       cbind (wr (replicate 32 0) 0 (str_bytes str_send)) (\<lambda>buffer.
       cbind (QL_Push buffer (word_of_nat (length str_send)) q) (\<lambda>(r1, q1).
       cbind (QL_Front buffer 11 q1) (\<lambda>(r2, buffer2, q2).
       cbind (QL_Pop q2) (\<lambda>(r3, q3).
       if str_send \<noteq> buffer_text buffer2 then Inr 3 else Inr 0)))))"

definition TestQueueSharedMemory :: "map_env \<Rightarrow> map_env \<Rightarrow> shm \<Rightarrow> (int \<times> shm) cpp" where
  "TestQueueSharedMemory env1 env2 m =
     cbind (QS_Initialize env1 test_name 128 QueueShared_new m) (\<lambda>(r, queue1, m1).
     if r \<noteq> 0 then Inr (1, m1)
     else cbind (QS_Initialize env2 test_name 0 QueueShared_new m1) (\<lambda>(r, queue2, m2).
     if r \<noteq> 0 then Inr (2, m2)
     else
       cbind (wr (replicate 32 0) 0 (str_bytes str_send)) (\<lambda>buffer.
       cbind (QS_Push buffer (word_of_nat (length str_send)) queue1 m2) (\<lambda>(r1, m3).
       cbind (QS_Front buffer 11 queue2 m3) (\<lambda>(r2, buffer2, queue3).
       cbind (QS_Pop queue3 m3) (\<lambda>(r3, queue4, m4).
       if str_send \<noteq> buffer_text buffer2 then Inr (3, m4) else Inr (0, m4)))))))"

definition test_buffer :: "u8 list" where
  "test_buffer = str_bytes str_send @ replicate 21 0"

lemma length_str_send [simp]: "length str_send = 11"
  by (simp add: str_send_def)

lemma wr_test: "wr (replicate 32 0) 0 (str_bytes str_send) = Inr test_buffer"
  by (simp add: wr_def test_buffer_def)

lemma length_test_buffer [simp]: "length test_buffer = 32"
  by (simp add: test_buffer_def)

lemma test_buffer_text: "buffer_text test_buffer = str_send"
  by code_simp

lemma take_test_buffer: "take 11 test_buffer @ drop 11 test_buffer = test_buffer"
  by (rule append_take_drop_id)

text \<open>Both tests succeed, and leave the queue empty, for a queue that they make.\<close>

lemma TestQueueLocalMemory_succeeds: "TestQueueLocalMemory junk = Inr 0"
proof -
  have n: "ql_info QueueLocal_new = QueueInfo_new" by (simp add: QueueLocal_new_def)
  obtain q where q: "QL_Initialize junk test_name 128 QueueLocal_new = Inr (0, q)" "ql_inv q" "ql_contents q = []" "ql_capacity q = 127"
    using QL_Initialize_fresh [of 128 QueueLocal_new junk test_name] n by auto
  obtain q1 where q1: "QL_Push test_buffer 11 q = Inr (0, q1)" "ql_inv q1" "ql_contents q1 = take 11 test_buffer"
    using QL_Push_ok [OF q(2), of 11 test_buffer] q(3,4) by auto
  have f: "QL_Front test_buffer 11 q1 = Inr (0, test_buffer, q1\<lparr>ql_pop_data_len := 11\<rparr>)"
    using QL_Front_ok [OF q1(2), of 11 test_buffer] q1(3) by simp
  let ?q2 = "q1\<lparr>ql_pop_data_len := 11\<rparr>"
  have "ql_inv ?q2" "ql_contents ?q2 = take 11 test_buffer" using q1(2,3) by (simp_all add: ql_inv_def ql_contents_def cong: option.case_cong)
  then obtain q3 where "QL_Pop ?q2 = Inr (0, q3)" using QL_Pop_ok [of ?q2] by auto
  then show ?thesis
    by (simp add: TestQueueLocalMemory_def q(1) wr_test q1(1) f test_buffer_text)
qed

lemma TestQueueSharedMemory_succeeds:
  assumes "OpenFileMappingA env1 test_name = Inr e" "CreateFileMappingA env1 test_name (sizeof_QueueInfo + 128) = Inl h"
    and "MapViewOfFile env1 h = Inl a" "m a = Some (zero_obj (unat (sizeof_QueueInfo + 128)))"
    and "OpenFileMappingA env2 test_name = Inl h2" "MapViewOfFile env2 h2 = Inl a"
  shows "\<exists>m'. TestQueueSharedMemory env1 env2 m = Inr (0, m') \<and> shm_inv a m' \<and> shm_contents a m' = []"
proof -
  obtain q1 m1 where q1: "QS_Initialize env1 test_name 128 QueueShared_new m = Inr (0, q1, m1)" "mapped a q1" "shm_inv a m1"
    "shm_contents a m1 = []" "shm_capacity a m1 = 127"
    using QS_Initialize_create [where len = 128 and m = m and q = QueueShared_new, OF assms(1-4)] by auto
  obtain q2 where q2: "QS_Initialize env2 test_name 0 QueueShared_new m1 = Inr (0, q2, m1)" "mapped a q2"
    using QS_Initialize_open [OF assms(5,6)] by blast
  obtain m3 where m3: "QS_Push test_buffer 11 q1 m1 = Inr (0, m3)" "shm_inv a m3" "shm_contents a m3 = take 11 test_buffer"
    using QS_Push_ok [OF q1(2,3), of 11 test_buffer] q1(4,5) by auto
  have f: "QS_Front test_buffer 11 q2 m3 = Inr (0, test_buffer, q2\<lparr>m_pop_data_len := 11\<rparr>)"
    using QS_Front_ok [OF q2(2) m3(2), of 11 test_buffer] m3(3) by simp
  have "mapped a (q2\<lparr>m_pop_data_len := 11\<rparr>)" using q2(2) by (simp add: mapped_def)
  then obtain m4 where "QS_Pop (q2\<lparr>m_pop_data_len := 11\<rparr>) m3 = Inr (0, q2\<lparr>m_pop_data_len := 0\<rparr>, m4)" "shm_inv a m4" "shm_contents a m4 = []"
    using QS_Pop_ok [of a "q2\<lparr>m_pop_data_len := 11\<rparr>" m3] m3(2,3) by auto
  then show ?thesis
    by (simp add: TestQueueSharedMemory_def q1(1) q2(1) wr_test m3(1) f test_buffer_text)
qed

text \<open>
  The message is read back into the buffer it was sent from. So the test also succeeds when nothing goes through the queue: on one that
  is there already, empty and too small for the message.
\<close>

lemma TestQueueSharedMemory_blind:
  assumes "OpenFileMappingA env1 test_name = Inl h1" "MapViewOfFile env1 h1 = Inl a"
    and "OpenFileMappingA env2 test_name = Inl h2" "MapViewOfFile env2 h2 = Inl a"
    and inv: "shm_inv a m" "shm_contents a m = []" "shm_capacity a m < 11"
  shows "TestQueueSharedMemory env1 env2 m = Inr (0, m)"
proof -
  obtain q1 where q1: "QS_Initialize env1 test_name 128 QueueShared_new m = Inr (0, q1, m)" "mapped a q1"
    using QS_Initialize_open [OF assms(1,2)] by blast
  obtain q2 where q2: "QS_Initialize env2 test_name 0 QueueShared_new m = Inr (0, q2, m)" "mapped a q2"
      "m_pop_data_len q2 = m_pop_data_len QueueShared_new"
    using QS_Initialize_open [OF assms(3,4)] by blast
  have p: "QS_Push test_buffer 11 q1 m = Inr (SharedFailedCode_int NOT_ENOUGH_FREE_SPACE, m)"
    using QS_Push_full [OF q1(2) inv(1), of 11 test_buffer] inv(2,3) by simp
  have f: "QS_Front test_buffer 11 q2 m = Inr (SharedFailedCode_int READ_BUFFER_SIZE_IS_BIG, test_buffer, q2)"
    using QS_Front_short [OF q2(2) inv(1), of 11 test_buffer] inv(2) by simp
  have "QS_Pop q2 m = Inr (SharedFailedCode_int POP_DATA_EMPTY, q2, m)"
    using q2(3) by (simp add: QS_Pop_def QueueShared_new_def)
  then show ?thesis
    by (simp add: TestQueueSharedMemory_def q1(1) q2(1) wr_test p f test_buffer_text)
qed

end
