(* ===== verification/Self_Tests.thy ===== *)
theory Self_Tests
  imports Queue_Tests Sync_Channel
begin

text \<open>
  The test functions \<open>Test_Packet\<close> of \<open>PacketDefine.cpp\<close> and \<open>CTest_SyncDB\<close> of \<open>SyncSharedMemory.cpp\<close>, and what they return.
\<close>

section \<open>A packet written and read\<close>

definition packet_test_name :: string where
  "packet_test_name = ''LPREngineInfo''"

text \<open>\<open>junk\<close> is what the uninitialised \<open>m_pos\<close> of the writer holds; the reader works on the memory of the writer's vector.\<close>

definition Test_Packet :: "nat \<Rightarrow> int cpp option" where
  "Test_Packet junk =
     (case cbind (Start packet_test_name (CPacketWriter_new junk (Some []))) (\<lambda>(_, w1).
           cbind (Write_int32 ''EngineID'' 1 w1) (\<lambda>(_, w2).
           cbind (Write_int32 ''Width'' 1920 w2) (\<lambda>(_, w3).
           cbind (Write_int32 ''Height'' 1080 w3) (\<lambda>(_, w4).
           cbind (End w4) (\<lambda>(len, w5). cbind (GetBufferPtr w5) (\<lambda>buffer. Inr (len, buffer))))))) of
        Inl e \<Rightarrow> Some (Inl e)
      | Inr (len, buffer) \<Rightarrow>
          (case DoAnalyze buffer len CPacketReader_new of
             None \<Rightarrow> None
           | Some (Inl e) \<Rightarrow> Some (Inl e)
           | Some (Inr (_, reader)) \<Rightarrow> Some
               (if packet_test_name \<noteq> GetReadMainName reader then Inr 1
                else
                  cbind (Read_int32 buffer reader ''EngineID'' 0) (\<lambda>(_, nEngineID).
                  cbind (Read_int32 buffer reader ''Width'' 0) (\<lambda>(_, nWidth).
                  cbind (Read_int32 buffer reader ''Height'' 0) (\<lambda>(_, nHeight).
                    if 1 \<noteq> nEngineID then Inr 2
                    else if 1920 \<noteq> nWidth then Inr 3
                    else if 1080 \<noteq> nHeight then Inr 4
                    else Inr 0))))))"

definition packet_test_blocks :: "block list" where
  "packet_test_blocks = [int_block ''EngineID'' 1, int_block ''Width'' 1920, int_block ''Height'' 1080]"

lemma packet_test_len: "packet_len packet_test_name packet_test_blocks = 69"
  by code_simp

lemma Test_Packet_succeeds: "Test_Packet junk = Some (Inr 0)"
proof -
  let ?w = "CPacketWriter_new junk (Some [])" and ?n = packet_test_name and ?bs = packet_test_blocks
  have b: "m_buffer ?w = Some []" by (simp add: CPacketWriter_new_def)
  have s: "packet_len ?n ?bs \<le> start_size []" by (simp add: packet_test_len start_size_def)
  have "\<forall>x \<in> set ?bs. block_len x \<le> 69"
    using block_len_le [of _ ?bs] packet_test_len by (fastforce simp: packet_len_def)
  then have l: "\<forall>x \<in> set ?bs. block_len x < 2 ^ 32" by fastforce
  obtain rest where wp: "write_packet ?n ?bs ?w = Inr (wstate (packet_bytes ?n ?bs) rest)"
    using write_packet_fits [OF b s l] by blast
  let ?m = "packet_bytes ?n ?bs @ rest"
  have pl: "length (packet_bytes ?n ?bs) = 69"
    using packet_test_len by (simp add: packet_bytes_def packet_len_def)
  obtain r1 w1 r2 w2 r3 w3 r4 w4 r5 where st: "Start ?n ?w = Inr (r1, w1)" "Write_int32 ''EngineID'' 1 w1 = Inr (r2, w2)"
      "Write_int32 ''Width'' 1920 w2 = Inr (r3, w3)" "Write_int32 ''Height'' 1080 w3 = Inr (r4, w4)" "End w4 = Inr (r5, wstate (packet_bytes ?n ?bs) rest)"
    using wp [unfolded write_packet_def packet_test_blocks_def]
    by (auto simp: packet_test_blocks_def int_block_def Write_int32_def Write_string_bytes cbind_Inr_iff)
  have "r5 = 69" using st(5) pl by (auto simp: End_def cbind_Inr_iff c_int_small split: option.splits)
  then have wr: "cbind (Start ?n ?w) (\<lambda>(_, w1). cbind (Write_int32 ''EngineID'' 1 w1) (\<lambda>(_, w2).
      cbind (Write_int32 ''Width'' 1920 w2) (\<lambda>(_, w3). cbind (Write_int32 ''Height'' 1080 w3) (\<lambda>(_, w4).
      cbind (End w4) (\<lambda>(len, w5). cbind (GetBufferPtr w5) (\<lambda>buffer. Inr (len, buffer))))))) = Inr (69, ?m)"
    by (simp add: st GetBufferPtr_def)
  have names: "main_name_ok ?n" "\<forall>b \<in> set ?bs. block_name_ok (fst b)"
    by (simp_all add: packet_test_name_def main_name_ok_def packet_test_blocks_def int_block_def block_name_ok_def)
  let ?r = "CPacketReader_new\<lparr>m_main_name := ?n, m_block_items := items_at (int (blocks_pos ?n)) ?bs\<rparr>"
  have an: "DoAnalyze ?m 69 CPacketReader_new = Some (Inr (0, ?r))"
    using DoAnalyze_packet [OF names, of rest CPacketReader_new] packet_test_len by simp
  have "items_of ((m_stx @ le_bytes 4 (packet_len ?n ?bs) @ str_bytes ?n @ [GetStartBlockDelimiter]) @ blocks_bytes ?bs @ m_etx @ rest)
      (items_at (int (blocks_pos ?n)) ?bs) ?bs"
    by (rule items_of_packet) (simp add: blocks_pos_def)
  then have it: "items_of ?m (m_block_items ?r) ?bs" by (simp add: packet_bytes_def)
  have rd: "Read_int32 ?m ?r ''EngineID'' 0 = Inr (0, 1)" "Read_int32 ?m ?r ''Width'' 0 = Inr (0, 1920)" "Read_int32 ?m ?r ''Height'' 0 = Inr (0, 1080)"
    unfolding Read_int32_def Read_conv_items_of [OF it]
    by (simp_all add: packet_test_blocks_def int_block_def stoi_to_string int32_range_def)
  show ?thesis
    unfolding Test_Packet_def wr sum.case prod.case an option.case rd cbind.simps GetReadMainName_def by simp
qed

section \<open>A queue synchronised between two objects\<close>

record CTest_SyncDB =
  sd_writer :: SyncShared
  sd_reader :: SyncShared

definition CTest_SyncDB_new :: CTest_SyncDB where
  "CTest_SyncDB_new = \<lparr>sd_writer = SyncShared_new, sd_reader = SyncShared_new\<rparr>"

definition CTest_SyncDB_delete :: "CTest_SyncDB \<Rightarrow> CTest_SyncDB \<times> sys_call list" where
  "CTest_SyncDB_delete t =
     (let (w, cs) = Sync_Deactivate (sd_writer t); (r, cs') = Sync_Deactivate (sd_reader t)
      in (\<lparr>sd_writer = w, sd_reader = r\<rparr>, cs @ cs'))"

definition sync_test_name :: string where
  "sync_test_name = ''TEST_SYNC_QUEUE''"

definition sync_test_text :: string where
  "sync_test_text = ''Input Data''"

definition input_data :: "u8 list" where
  "input_data = str_bytes sync_test_text @ replicate 118 0"

text \<open>The two callbacks, on the queue object of their side and the shared memory; the second also on the output buffer.\<close>

definition funcInput :: "QueueShared \<times> shm \<Rightarrow> (bool \<times> QueueShared \<times> shm) cpp" where
  "funcInput = (\<lambda>(q, m). cbind (QS_Push input_data (word_of_nat (length sync_test_text)) q m) (\<lambda>(ret, m').
     Inr (if 0 = ret then True else False, q, m')))"

definition funcOutput :: "u8 list \<times> QueueShared \<times> shm \<Rightarrow> (bool \<times> u8 list \<times> QueueShared \<times> shm) cpp" where
  "funcOutput = (\<lambda>(output_data, q, m).
     cbind (QS_GetUseSize q m) (\<lambda>use.
     cbind (QS_Front output_data use q m) (\<lambda>(ret, output_data', q').
     if ret \<noteq> 0 then Inr (False, output_data', q', m)
     else cbind (QS_Pop q' m) (\<lambda>(ret', q'', m').
       if ret' \<noteq> 0 then Inr (False, output_data', q'', m') else Inr (True, output_data', q'', m')))))"

text \<open>
  The environments: what Windows has of the name at the two \<open>Initialize\<close>, the results of creating the objects of both sides, and of their waits.
\<close>

record sync_test_env =
  te_map1 :: map_env
  te_map2 :: map_env
  te_create1 :: create_os
  te_create2 :: create_os
  te_write :: sync_os
  te_read :: sync_os

definition SyncDB_Test :: "sync_test_env \<Rightarrow> CTest_SyncDB \<Rightarrow> shm \<Rightarrow> (int \<times> CTest_SyncDB \<times> shm) cpp" where
  "SyncDB_Test e t m =
     cbind (QS_Initialize (te_map1 e) sync_test_name 128 QueueShared_new m) (\<lambda>(ret, queue_writer, m1).
     if ret \<noteq> 0 then Inr (1, t, m1) else
     cbind (QS_Initialize (te_map2 e) sync_test_name 128 QueueShared_new m1) (\<lambda>(ret, queue_reader, m2).
     if ret \<noteq> 0 then Inr (2, t, m2) else
     cbind (Sync_Activate (te_create1 e) \<lparr>producer_count = 1, consumer_count = 1, ap_queue = queue_writer\<rparr> (sd_writer t) m2)
       (\<lambda>(ret, writer, m3, _). let t1 = t\<lparr>sd_writer := writer\<rparr> in
     if ret \<noteq> 0 then Inr (10, t1, m3) else
     cbind (Sync_Activate (te_create2 e) \<lparr>producer_count = 1, consumer_count = 1, ap_queue = queue_reader\<rparr> (sd_reader t1) m3)
       (\<lambda>(ret, reader, m4, _). let t2 = t1\<lparr>sd_reader := reader\<rparr> in
     if ret \<noteq> 0 then Inr (11, t2, m4) else
     cbind (SyncProducer funcInput INFINITE_ms writer (te_write e) (queue_writer, m4)) (\<lambda>(ret, (_, m5), _).
     if ret \<noteq> 0 then Inr (12, t2, m5) else
     cbind (SyncConsumer funcOutput INFINITE_ms reader (te_read e) (replicate 128 0, queue_reader, m5)) (\<lambda>(ret, (output_data, _, m6), _).
     if ret \<noteq> 0 then Inr (13, t2, m6) else
     if buffer_text input_data \<noteq> buffer_text output_data then Inr (14, t2, m6)
     else Inr (0, t2, m6)))))))"

lemma input_data_length [simp]: "length input_data = 128" "length sync_test_text = 10"
  by (simp_all add: input_data_def sync_test_text_def)

lemma buffer_text_zeros: "buffer_text (xs @ replicate n 0) = buffer_text xs"
  by (induction xs) (simp_all add: buffer_text_def bytes_str_def takeWhile_replicate)

lemma sync_activated_entry:
  assumes "admitted os" "slot_released os" "callback q = Inr (True, q')"
  shows "\<exists>cs. sync_access own other callback ms s os q = Inr (0, q', cs)"
  using sync_access_entry [where callback = callback, of os q True q'] assms by (simp add: admitted_def slot_released_def)

text \<open>
  What the test returns on any queue with room for its text: whether the text that comes out is the one that went in. It takes out
  everything, so what was in the queue before counts.
\<close>

lemma SyncDB_Test_result:
  assumes "QS_Initialize (te_map1 e) sync_test_name 128 QueueShared_new m = Inr (0, q1, m1)" "mapped a q1"
    and "QS_Initialize (te_map2 e) sync_test_name 128 QueueShared_new m1 = Inr (0, q2, m2)" "mapped a q2"
    and "Sync_Activate (te_create1 e) \<lparr>producer_count = 1, consumer_count = 1, ap_queue = q1\<rparr> (sd_writer t) m2 = Inr (0, s1, m3, cs1)"
    and "Sync_Activate (te_create2 e) \<lparr>producer_count = 1, consumer_count = 1, ap_queue = q2\<rparr> (sd_reader t) m3 = Inr (0, s2, m4, cs2)"
    and "admitted (te_write e)" "slot_released (te_write e)" "admitted (te_read e)" "slot_released (te_read e)"
    and inv: "shm_inv a m4" "length (shm_contents a m4) + 10 \<le> shm_capacity a m4" "length (shm_contents a m4) \<le> 118"
  shows "\<exists>m'. SyncDB_Test e t m = Inr (if buffer_text (shm_contents a m4 @ str_bytes sync_test_text) = sync_test_text
        then 0 else 14, t\<lparr>sd_writer := s1, sd_reader := s2\<rparr>, m') \<and> shm_inv a m' \<and> shm_contents a m' = []"
proof -
  let ?old = "shm_contents a m4" and ?txt = "str_bytes sync_test_text"
  have in10: "take 10 input_data = ?txt" by (simp add: input_data_def)
  obtain m5 where m5: "QS_Push input_data 10 q1 m4 = Inr (0, m5)" "shm_inv a m5" "shm_contents a m5 = ?old @ ?txt"
    using QS_Push_ok [OF assms(2) inv(1), of 10 input_data] inv(2) in10 by auto
  have "funcInput (q1, m4) = Inr (True, q1, m5)" by (simp add: funcInput_def m5(1))
  from sync_activated_entry [where callback = funcInput, OF assms(7,8) this] obtain c5 where
    p: "SyncProducer funcInput INFINITE_ms s1 (te_write e) (q1, m4) = Inr (0, (q1, m5), c5)"
    unfolding SyncProducer_def by blast
  obtain n where n: "QS_GetUseSize q2 m5 = Inr n" "unat n = length ?old + 10"
    using QS_GetUseSize_mapped [OF assms(4) m5(2)] m5(3) by auto
  let ?out = "?old @ ?txt @ replicate (118 - length ?old) 0"
  have f: "QS_Front (replicate 128 0) n q2 m5 = Inr (0, ?out, q2\<lparr>m_pop_data_len := n\<rparr>)"
    using QS_Front_ok [OF assms(4) m5(2), of n "replicate 128 0"] n(2) inv(3) m5(3) by simp
  have "0 < n" using n(2) by (metis unat_gt_0 add_gr_0 word_neq_0_conv zero_less_numeral)
  then obtain m6 where m6: "QS_Pop (q2\<lparr>m_pop_data_len := n\<rparr>) m5 = Inr (0, q2\<lparr>m_pop_data_len := 0\<rparr>, m6)" "shm_inv a m6" "shm_contents a m6 = []"
    using QS_Pop_ok [of a "q2\<lparr>m_pop_data_len := n\<rparr>" m5] assms(4) m5 n(2) by auto
  have "funcOutput (replicate 128 0, q2, m5) = Inr (True, ?out, q2\<lparr>m_pop_data_len := 0\<rparr>, m6)"
    by (simp add: funcOutput_def n(1) f m6(1))
  from sync_activated_entry [where callback = funcOutput, OF assms(9,10) this] obtain c6 where
    c: "SyncConsumer funcOutput INFINITE_ms s2 (te_read e) (replicate 128 0, q2, m5) = Inr (0, (?out, q2\<lparr>m_pop_data_len := 0\<rparr>, m6), c6)"
    unfolding SyncConsumer_def by blast
  have "buffer_text input_data = sync_test_text" by code_simp
  moreover have "buffer_text ?out = buffer_text (?old @ ?txt)"
    using buffer_text_zeros [of "?old @ ?txt"] by simp
  ultimately show ?thesis
    using assms(1,3,5,6) p c m6(2,3) by (simp add: SyncDB_Test_def eq_commute [of sync_test_text])
qed

text \<open>On a queue the test makes itself, with all objects made and all waits granted, it returns 0.\<close>

lemma SyncDB_Test_succeeds:
  assumes "OpenFileMappingA (te_map1 e) sync_test_name = Inr err"
    and "CreateFileMappingA (te_map1 e) sync_test_name (sizeof_QueueInfo + 128) = Inl h"
    and "MapViewOfFile (te_map1 e) h = Inl a" "m a = Some (zero_obj (unat (sizeof_QueueInfo + 128)))"
    and "OpenFileMappingA (te_map2 e) sync_test_name = Inl h2" "MapViewOfFile (te_map2 e) h2 = Inl a"
    and "all_ok (te_create1 e)" "all_ok (te_create2 e)"
    and "admitted (te_write e)" "slot_released (te_write e)" "admitted (te_read e)" "slot_released (te_read e)"
  shows "\<exists>t' m'. SyncDB_Test e t m = Inr (0, t', m') \<and> shm_inv a m' \<and> shm_contents a m' = []"
proof -
  obtain q1 m1 where q1: "QS_Initialize (te_map1 e) sync_test_name 128 QueueShared_new m = Inr (0, q1, m1)" "mapped a q1"
    and m1: "shm_inv a m1" "shm_contents a m1 = []" "shm_capacity a m1 = 127" "shm_user a m1 = replicate 32 0"
    using QS_Initialize_create [where len = 128 and m = m and q = QueueShared_new, OF assms(1-4)] by auto
  obtain q2 where q2: "QS_Initialize (te_map2 e) sync_test_name 128 QueueShared_new m1 = Inr (0, q2, m1)" "mapped a q2"
    using QS_Initialize_open [OF assms(5,6)] by blast
  let ?p1 = "\<lparr>producer_count = 1, consumer_count = 1, ap_queue = q1\<rparr>" and ?p2 = "\<lparr>producer_count = 1, consumer_count = 1, ap_queue = q2\<rparr>"
  obtain m3 where m3: "WriteSharedMemoryInfo ?p1 q1 m1 = Inr (0, m3)" "shm_inv a m3" "shm_user a m3 = user_info 1 1"
    "shm_contents a m3 = []" "shm_capacity a m3 = 127"
    using WriteSharedMemoryInfo_ok [OF q1(2) m1(1), of ?p1] m1 by auto
  obtain s1 cs1 where s1: "Sync_Activate (te_create1 e) ?p1 (sd_writer t) m1 = Inr (0, s1, m3, cs1)"
    using Sync_Activate_ok [of a ?p1 m1 "te_create1 e" 5 ?p1 m3] q1(2) m1(1,4) m3(1) assms(7) ReadSharedMemoryInfo_zero by fastforce
  obtain s2 cs2 where s2: "Sync_Activate (te_create2 e) ?p2 (sd_reader t) m3 = Inr (0, s2, m3, cs2)"
    using Sync_Activate_ok [of a ?p2 m3 "te_create2 e" 0 ?p2 m3] q2(2) m3(2,3) assms(8) ReadSharedMemoryInfo_user [of a q2 m3 1 1 ?p2] by fastforce
  have "buffer_text (str_bytes sync_test_text) = sync_test_text" by code_simp
  then show ?thesis
    using SyncDB_Test_result [OF q1 q2 s1 s2 assms(9-12) m3(2)] m3(4,5) by auto
qed

text \<open>
  A second run finds the counts of the first in the memory. When the first stopped after its write, its text is still there, and the
  second run returns 14 though each of its calls succeeded.
\<close>

lemma SyncDB_Test_leftover:
  assumes "OpenFileMappingA (te_map1 e) sync_test_name = Inl h1" "MapViewOfFile (te_map1 e) h1 = Inl a"
    and "OpenFileMappingA (te_map2 e) sync_test_name = Inl h2" "MapViewOfFile (te_map2 e) h2 = Inl a"
    and "all_ok (te_create1 e)" "all_ok (te_create2 e)"
    and "admitted (te_write e)" "slot_released (te_write e)" "admitted (te_read e)" "slot_released (te_read e)"
    and "shm_inv a m" "shm_user a m = user_info 1 1" "shm_contents a m = str_bytes sync_test_text" "shm_capacity a m = 127"
  shows "\<exists>t' m'. SyncDB_Test e t m = Inr (14, t', m') \<and> shm_contents a m' = []"
proof -
  obtain q1 where q1: "QS_Initialize (te_map1 e) sync_test_name 128 QueueShared_new m = Inr (0, q1, m)" "mapped a q1"
    using QS_Initialize_open [OF assms(1,2)] by blast
  obtain q2 where q2: "QS_Initialize (te_map2 e) sync_test_name 128 QueueShared_new m = Inr (0, q2, m)" "mapped a q2"
    using QS_Initialize_open [OF assms(3,4)] by blast
  have act: "\<exists>s' cs. Sync_Activate os \<lparr>producer_count = 1, consumer_count = 1, ap_queue = q\<rparr> s m = Inr (0, s', m, cs)"
    if "all_ok os" "mapped a q" for os q s
    using Sync_Activate_ok [of a "\<lparr>producer_count = 1, consumer_count = 1, ap_queue = q\<rparr>" m os 0] that assms(11,12)
      ReadSharedMemoryInfo_user [of a q m 1 1] by fastforce
  obtain s1 cs1 where s1: "Sync_Activate (te_create1 e) \<lparr>producer_count = 1, consumer_count = 1, ap_queue = q1\<rparr> (sd_writer t) m = Inr (0, s1, m, cs1)"
    using act [OF assms(5) q1(2)] by blast
  obtain s2 cs2 where s2: "Sync_Activate (te_create2 e) \<lparr>producer_count = 1, consumer_count = 1, ap_queue = q2\<rparr> (sd_reader t) m = Inr (0, s2, m, cs2)"
    using act [OF assms(6) q2(2)] by blast
  have "buffer_text (str_bytes sync_test_text @ str_bytes sync_test_text) \<noteq> sync_test_text" by code_simp
  then show ?thesis
    using SyncDB_Test_result [OF q1 q2 s1 s2 assms(7-11)] assms(13,14) by auto
qed

end
