(* ===== verification/Util_System.thy ===== *)
theory Util_System
  imports Util_Strings Fps_Checker
begin

text \<open>
  The functions of \<open>include/common/Util.cpp\<close> that ask Windows: files and directories, the conversions of the code pages, and the
  memory of the machine. What Windows answers is an argument; a size is a \<open>size_t\<close> of 64 bits.
\<close>

section \<open>Files\<close>

text \<open>The wide overload of \<open>IsExistFile\<close>; \<open>attributes\<close> is what \<open>GetFileAttributesW\<close> gives.\<close>

definition IsExistFile_w :: "(wstring \<Rightarrow> u32) \<Rightarrow> wstring \<Rightarrow> bool" where
  "IsExistFile_w attributes file_name = (if attributes file_name = 0xFFFFFFFF then False else True)"

definition A_SUBDIR :: u32 where "A_SUBDIR = 16"

text \<open>
  \<open>found path\<close> is the attribute of the first file \<open>_findfirst\<close> finds. When it finds none the structure keeps what was on the stack,
  \<open>junk\<close>.
\<close>

definition IsExistDirectory :: "u32 \<Rightarrow> (string \<Rightarrow> u32 option) \<Rightarrow> string \<Rightarrow> bool" where
  "IsExistDirectory junk found path = (if (case found path of Some a \<Rightarrow> a | None \<Rightarrow> junk) AND A_SUBDIR \<noteq> 0 then True else False)"

definition IsExistDirectory_w :: "u32 \<Rightarrow> (wstring \<Rightarrow> u32 option) \<Rightarrow> wstring \<Rightarrow> bool" where
  "IsExistDirectory_w junk found path = (if (case found path of Some a \<Rightarrow> a | None \<Rightarrow> junk) AND A_SUBDIR \<noteq> 0 then True else False)"

section \<open>Code pages\<close>

datatype code_page = CP_UTF8 | CP_ACP

text \<open>
  A conversion asks for the length first and then has the buffer of that length filled; \<open>out\<close> is what Windows makes of the characters,
  of which no more than \<open>n\<close> are written. A failed conversion makes nothing.
\<close>

definition converted :: "'b \<Rightarrow> ('a list \<Rightarrow> 'b list) \<Rightarrow> 'a list \<Rightarrow> 'b list" where
  "converted zero out src = (let n = length (out src); dst = replicate n zero in take n (out src) @ drop (length (out src)) dst)"

definition convert_unicode_to_utf8 :: "(code_page \<Rightarrow> wstring \<Rightarrow> string) \<Rightarrow> wstring \<Rightarrow> string" where
  "convert_unicode_to_utf8 WideCharToMultiByte src = converted (CHR 0x00) (WideCharToMultiByte CP_UTF8) src"

definition convert_utf8_to_unicode :: "(code_page \<Rightarrow> string \<Rightarrow> wstring) \<Rightarrow> string \<Rightarrow> wstring" where
  "convert_utf8_to_unicode MultiByteToWideChar src = converted 0 (MultiByteToWideChar CP_UTF8) src"

definition convert_muti_to_unicode :: "(code_page \<Rightarrow> string \<Rightarrow> wstring) \<Rightarrow> string \<Rightarrow> wstring" where
  "convert_muti_to_unicode MultiByteToWideChar src = converted 0 (MultiByteToWideChar CP_ACP) src"

definition convert_unicode_to_multi :: "(code_page \<Rightarrow> wstring \<Rightarrow> string) \<Rightarrow> wstring \<Rightarrow> string" where
  "convert_unicode_to_multi WideCharToMultiByte src = converted (CHR 0x00) (WideCharToMultiByte CP_ACP) src"

section \<open>Memory\<close>

record MEMORYSTATUS =
  AvailPhys :: nat
  TotalPhys :: nat
  AvailVirtual :: nat
  TotalVirtual :: nat

definition GetAvailPhysMemSize :: "MEMORYSTATUS \<Rightarrow> u32" where
  "GetAvailPhysMemSize s = word_of_nat (AvailPhys s)"
definition GetTotalPhysMemSize :: "MEMORYSTATUS \<Rightarrow> u32" where
  "GetTotalPhysMemSize s = word_of_nat (TotalPhys s)"
definition GetAvailVirtMemSize :: "MEMORYSTATUS \<Rightarrow> u32" where
  "GetAvailVirtMemSize s = word_of_nat (AvailVirtual s)"
definition GetTotalVirtMemSize :: "MEMORYSTATUS \<Rightarrow> u32" where
  "GetTotalVirtMemSize s = word_of_nat (TotalVirtual s)"

definition IsPhysMemAvail :: "MEMORYSTATUS \<Rightarrow> u32 \<Rightarrow> bool" where
  "IsPhysMemAvail s nRequired = (if GetAvailPhysMemSize s < nRequired then False else True)"

text \<open>Megabytes are divided as integers and rounded to a \<open>float\<close> then; gigabytes are rounded first.\<close>

definition in_MB :: "fp \<Rightarrow> nat \<Rightarrow> rat" where
  "in_MB fp x = fl32 fp (of_nat (x div (1024 * 1024)))"

definition in_GB :: "fp \<Rightarrow> nat \<Rightarrow> rat" where
  "in_GB fp x = fl32 fp (fl32 fp (of_nat x) / (1024 * 1024 * 1024))"

definition GetAvailPhysMemSizeInMB :: "fp \<Rightarrow> MEMORYSTATUS \<Rightarrow> rat" where
  "GetAvailPhysMemSizeInMB fp s = in_MB fp (AvailPhys s)"
definition GetTotalPhysMemSizeInMB :: "fp \<Rightarrow> MEMORYSTATUS \<Rightarrow> rat" where
  "GetTotalPhysMemSizeInMB fp s = in_MB fp (TotalPhys s)"
definition GetAvailVirtMemSizeInMB :: "fp \<Rightarrow> MEMORYSTATUS \<Rightarrow> rat" where
  "GetAvailVirtMemSizeInMB fp s = in_MB fp (AvailVirtual s)"
definition GetTotalVirtMemSizeInMB :: "fp \<Rightarrow> MEMORYSTATUS \<Rightarrow> rat" where
  "GetTotalVirtMemSizeInMB fp s = in_MB fp (TotalVirtual s)"
definition GetAvailPhysMemSizeInGB :: "fp \<Rightarrow> MEMORYSTATUS \<Rightarrow> rat" where
  "GetAvailPhysMemSizeInGB fp s = in_GB fp (AvailPhys s)"
definition GetTotalPhysMemSizeInGB :: "fp \<Rightarrow> MEMORYSTATUS \<Rightarrow> rat" where
  "GetTotalPhysMemSizeInGB fp s = in_GB fp (TotalPhys s)"
definition GetAvailVirtMemSizeInGB :: "fp \<Rightarrow> MEMORYSTATUS \<Rightarrow> rat" where
  "GetAvailVirtMemSizeInGB fp s = in_GB fp (AvailVirtual s)"
definition GetTotalVirtMemSizeInGB :: "fp \<Rightarrow> MEMORYSTATUS \<Rightarrow> rat" where
  "GetTotalVirtMemSizeInGB fp s = in_GB fp (TotalVirtual s)"

section \<open>Properties\<close>

lemma converted_out: "converted zero out src = out src"
  by (simp add: converted_def)

text \<open>Text that the code page can hold comes back from a round through it.\<close>

lemma utf8_roundtrip:
  assumes "\<And>s. from_bytes CP_UTF8 (to_bytes CP_UTF8 s) = s"
  shows "convert_utf8_to_unicode from_bytes (convert_unicode_to_utf8 to_bytes s) = s"
  using assms by (simp add: convert_utf8_to_unicode_def convert_unicode_to_utf8_def converted_out)

text \<open>For a path that is not there the answer is what was on the stack.\<close>

lemma IsExistDirectory_missing: "found path = None \<Longrightarrow> IsExistDirectory junk found path \<longleftrightarrow> junk AND A_SUBDIR \<noteq> 0"
  by (simp add: IsExistDirectory_def)

text \<open>The sizes are cut to 32 bits: with four gigabytes free, no memory is available.\<close>

lemma IsPhysMemAvail_small: "AvailPhys s < 2 ^ 32 \<Longrightarrow> IsPhysMemAvail s n \<longleftrightarrow> unat n \<le> AvailPhys s"
  by (auto simp: IsPhysMemAvail_def GetAvailPhysMemSize_def word_less_nat_alt unat_of_nat)

lemma IsPhysMemAvail_wraps: "AvailPhys s = 2 ^ 32 \<Longrightarrow> IsPhysMemAvail s n \<longleftrightarrow> n = 0"
proof -
  assume "AvailPhys s = 2 ^ 32"
  moreover have "(word_of_nat (2 ^ 32) :: u32) = 0" unfolding word_of_nat_eq_0_iff by simp
  ultimately have "GetAvailPhysMemSize s = 0" unfolding GetAvailPhysMemSize_def by (simp only:)
  then show ?thesis by (auto simp: IsPhysMemAvail_def word_gt_0)
qed

lemma in_MB_mono:
  assumes "\<And>x y. x \<le> y \<Longrightarrow> fl32 fp x \<le> fl32 fp y" "a \<le> b"
  shows "in_MB fp a \<le> in_MB fp b" "in_GB fp a \<le> in_GB fp b"
proof -
  have "a div (1024 * 1024) \<le> b div (1024 * 1024)" using assms(2) by (rule div_le_mono)
  then show "in_MB fp a \<le> in_MB fp b" unfolding in_MB_def by (intro assms(1)) simp
  show "in_GB fp a \<le> in_GB fp b" unfolding in_GB_def
    by (intro assms(1) divide_right_mono) (use assms(2) in simp_all)
qed

end
