(* ===== verification/Camera_Debug.thy ===== *)
theory Camera_Debug
  imports Camera_Inv Application
begin

text \<open>
  The sample stream that \<open>Camera::Activate\<close> starts in the debug build (\<open>__SUPPORT_SAMPLE_RTSP\<close>) when the command line has an
  \<open>RTSP\<close> address. The preview windows of that build are in \<open>Preview_Window\<close>.
\<close>

section \<open>Code\<close>

definition sample_info :: "string \<Rightarrow> StreamerInfo" where
  "sample_info rtsp_url =
     StreamerInfo_new\<lparr>sti_index := 0,
       sti_session_info := SessionInfo_new\<lparr>si_name := ''camera 01'', auth_id := ''admin'', auth_pw := ''admin'', si_type := SESSION_TYPE_RTSP,
         si_port := 554, si_url := rtsp_url\<rparr>,
       sti_callback := True,
       sti_decoder_info := DecoderInfo_new\<lparr>di_vcodec_id := VCODEC_ID_int VCODEC_ID_H264,
         di_frame_info := (replicate FT_NUM FrameInfo_new)[FT_DISPLAY := FrameInfo_new\<lparr>fi_pixel_format := VPIX_int VPIX_FMT_BGR24\<rparr>],
         di_fps := 30\<rparr>\<rparr>"

definition sample_frame :: FrameInfo where
  "sample_frame = FrameInfo_new\<lparr>fi_pixel_format := VPIX_int VPIX_FMT_BGR24, fi_decode := True, fi_width := 640, fi_height := 480\<rparr>"

text \<open>\<open>Initialize\<close> may reset the streamer; its result is not looked at.\<close>

definition SampleStream :: "load_env \<Rightarrow> string \<Rightarrow> Camera \<Rightarrow> cam_sys \<Rightarrow> (Camera \<times> cam_sys) cpp" where
  "SampleStream le rtsp_url c sys =
     cbind (InitializeStreamer le (sample_info rtsp_url) c) (\<lambda>(ret, c1).
     cbind (get_streamer 0 c1) (\<lambda>st.
     cbind (Streamer_Activate (le_av le 0) (le_now le 0) st) (\<lambda>(ret', st1).
     cbind (if IsActivate st1 then SetDecodeFrameInfo (int FT_DISPLAY) sample_frame st1 else Inr st1) (\<lambda>st2.
       AddCheck 0 (put_streamer 0 st2 c1) sys))))"

definition Camera_Activate_debug ::
  "Application \<Rightarrow> load_env \<Rightarrow> map_env \<Rightarrow> create_os \<Rightarrow> reset_os \<Rightarrow> Camera \<Rightarrow> cam_sys \<Rightarrow> (int \<times> Camera \<times> cam_sys) cpp" where
  "Camera_Activate_debug app le env os ros c sys =
     cbind (RecvWorker_Activate env os ros (camera_queue_name (m_camera_guid c)) 3 False True (m_recv_worker c) (cs_shm sys))
       (\<lambda>(ret, r, m, cs).
          let rtsp_url = snd (App_ReadCmdLineValue CMD_KEY_RTSP [] app); c1 = c\<lparr>m_recv_worker := r\<rparr>; sys1 = sys\<lparr>cs_shm := m\<rparr> in
          cbind (if rtsp_url \<noteq> [] then SampleStream le rtsp_url c1 sys1 else Inr (c1, sys1)) (\<lambda>(c2, sys2).
          cbind (RW_Activate (m_repeqt_worker c2)) (\<lambda>(ret', w). Inr (0, c2\<lparr>m_repeqt_worker := w\<rparr>, sys2))))"

section \<open>Properties\<close>

text \<open>Without the address the debug build activates a camera as the release build does.\<close>

lemma Camera_Activate_debug_release:
  assumes "snd (App_ReadCmdLineValue CMD_KEY_RTSP [] app) = []"
  shows "Camera_Activate_debug app le env os ros c sys = Camera_Activate env os ros c sys"
  using assms by (simp add: Camera_Activate_debug_def Camera_Activate_def Let_def cbind_assoc cong: cbind_cong)

text \<open>
  The sample stream on the first streamer of a camera that is initialized: the streamer is initialized, and runs when both of its parts
  could be activated; the check is added in any case.
\<close>

lemma SampleStream_effect:
  assumes "camera_inv c" "stopped (streamer_at c 0)" "\<not> m_initialize (streamer_at c 0)"
  shows "\<exists>c1 r. SampleStream le rtsp_url c sys = AddCheck 0 c1 sys \<and> camera_inv c1 \<and> m_initialize (streamer_at c1 0)
    \<and> (IsActivate (streamer_at c1 0) \<longleftrightarrow> r = (0 :: int))
    \<and> (\<forall>i. index_ok i \<and> i \<noteq> 0 \<longrightarrow> streamer_at c1 i = streamer_at c i) \<and> m_send_manager c1 = m_send_manager c"
proof -
  have ix: "index_ok 0" by (simp add: index_ok_def)
  note g = get_streamer_cases [OF assms(1), of 0]
  have si: "sti_index (sample_info rtsp_url) = 0" by (simp add: sample_info_def)
  obtain st1 where st1: "Streamer_Initialize (le_sessions le) (le_decoders le) (le_junk le) (sample_info rtsp_url) (streamer_at c 0) = Inr (0, st1)"
    "streamer_inv st1" "stopped st1" "m_initialize st1"
    using Streamer_Initialize_ok [of "streamer_at c 0" "sample_info rtsp_url"] g(2) [OF ix] assms(3)
    by (fastforce simp: sample_info_def DecoderInfo_new_def DECODER_LIB_TYPE_FFMPEG_def)
  let ?c1 = "put_streamer 0 st1 c"
  have i1: "InitializeStreamer le (sample_info rtsp_url) c = Inr (0, ?c1)" "camera_inv ?c1" "get_streamer 0 ?c1 = Inr st1"
    using st1 g ix assms(1) get_streamer_cases(1) [OF put_streamer_inv [OF assms(1) st1(2)]] streamer_at_put [OF assms(1) ix]
    by (simp_all add: InitializeStreamer_def si put_streamer_inv)
  obtain r st2 where st2: "Streamer_Activate (le_av le 0) (le_now le 0) st1 = Inr (r, st2)" "streamer_inv st2"
    "m_activate st2 \<longleftrightarrow> r = 0" "m_initialize st2"
    using Streamer_Activate_ok [OF st1(2,3)] st1(4) by metis
  have "\<exists>st3. (if IsActivate st2 then SetDecodeFrameInfo (int FT_DISPLAY) sample_frame st2 else Inr st2) = Inr st3
      \<and> streamer_inv st3 \<and> m_initialize st3 \<and> m_activate st3 = m_activate st2"
    using SetDecodeFrameInfo_cases [OF st2(2,4), of "int FT_DISPLAY" sample_frame] st2 by (auto simp: FT_DISPLAY_def FT_NUM_def)
  then obtain st3 where st3: "(if IsActivate st2 then SetDecodeFrameInfo (int FT_DISPLAY) sample_frame st2 else Inr st2) = Inr st3"
    "streamer_inv st3" "m_initialize st3" "m_activate st3 = m_activate st2" by blast
  let ?c3 = "put_streamer 0 st3 ?c1"
  have "SampleStream le rtsp_url c sys = AddCheck 0 ?c3 sys"
    by (simp add: SampleStream_def i1(1,3) st2(1) st3(1))
  moreover have "camera_inv ?c3" "streamer_at ?c3 0 = st3"
    using put_streamer_inv [OF i1(2) st3(2)] streamer_at_put [OF i1(2) ix] by simp_all
  moreover have "streamer_at ?c3 i = streamer_at c i" if "index_ok i" "i \<noteq> 0" for i
    using that by (simp add: streamer_at_def put_streamer_def index_ok_def)
  ultimately show ?thesis
    using st2(3) st3(3,4) by (intro exI [of _ ?c3] exI [of _ r]) (simp add: IsActivate_def put_streamer_def)
qed

end
