(* ===== verification/Timer_Linux.thy ===== *)
theory Timer_Linux
  imports Timer_Ex Thread_Join
begin

text \<open>
  The Linux implementation of the timers (\<open>CTimerLinuxSignal\<close> of \<open>include/common/TimerEx.cpp\<close>), which a Windows build leaves out:
  timers that raise a signal, and the thread that takes it. The class names \<open>m_condition_variable\<close> and \<open>CTimerInstance::TimerCallback\<close>,
  which are not declared; they are read as \<open>m_cv\<close> and its own \<open>TimerCallback\<close>. What both implementations promise of the timer table is
  the interface \<open>timer_table\<close>.
\<close>

section \<open>Code\<close>

definition ONE_MSEC_TO_NSEC :: int where "ONE_MSEC_TO_NSEC = 1000000"
definition ONE_SEC_TO_NSEC :: int where "ONE_SEC_TO_NSEC = 1000000000"

datatype posix_signal = SIGPIPE | SIGVTALRM

definition MY_TIMER_SIGNAL :: posix_signal where "MY_TIMER_SIGNAL = SIGVTALRM"

datatype posix_call =
    Sigaction posix_signal bool        \<comment> \<open>a handler, or the signal is ignored\<close>
  | SignalIgnore posix_signal
  | MaskSignal posix_signal bool       \<comment> \<open>blocked or unblocked in the calling thread\<close>
  | TimerCreate posix_signal int       \<comment> \<open>signal and its value\<close>
  | TimerSettime nat int int int int   \<comment> \<open>timer, seconds and nanoseconds of the first expiry and of the interval\<close>
  | TimerDelete nat

text \<open>What the system answers while a timer is made.\<close>

record posix_os =
  sigemptyset_ok :: bool
  sigaction_ok :: bool
  timer_created :: "nat option"
  settime_ok :: bool

definition InitSignal :: "int \<times> posix_call list" where
  "InitSignal = (0, [Sigaction SIGPIPE False])"

definition TimerCallback :: "int \<Rightarrow> 'f ParamTimer list \<Rightarrow> ('f \<times> int \<times> int) option cpp" where
  "TimerCallback sival_int ts = (let key = sival_int in Timer_CallBack key ts)"

text \<open>The interval of \<open>timer_settime\<close>: an \<open>int\<close> product, divided as C++ divides.\<close>

definition timer_interval :: "int \<Rightarrow> int \<times> int" where
  "timer_interval ms =
     (let nano_intv = c_int (ms * ONE_MSEC_TO_NSEC) in (c_div nano_intv ONE_SEC_TO_NSEC, c_mod nano_intv ONE_SEC_TO_NSEC))"

definition Linux_CreateTimer :: "posix_os \<Rightarrow> int \<Rightarrow> 'f ParamTimer \<Rightarrow> 'f ParamTimer list
    \<Rightarrow> (int \<times> int \<times> 'f ParamTimer list \<times> posix_call list) cpp" where
  "Linux_CreateTimer os id0 param ts =
     (let c1 = Sigaction MY_TIMER_SIGNAL True in
      if \<not> sigemptyset_ok os then Inr (1, id0, ts, [])
      else if \<not> sigaction_ok os then Inr (2, id0, ts, [c1])
      else
        let tid = CreateTimerId ts; c2 = TimerCreate MY_TIMER_SIGNAL tid in
        case timer_created os of
          None \<Rightarrow> Inr (3, tid, ts, [c1, c2])
        | Some timerId \<Rightarrow>
            if nat tid < length ts then
              let ts' = ts[nat tid := \<lparr>timer_os_id = timerId, timer_ms = timer_ms param, timer_ptr = timer_ptr param,
                                      timer_used = True, timer_func = timer_func param\<rparr>];
                  (s, n) = timer_interval (timer_ms param); cs = [c1, c2, TimerSettime timerId s n s n] in
              if \<not> settime_ok os then Inr (4, tid, ts', cs) else Inr (0, tid, ts', cs)
            else Inl OutOfBounds)"

definition Linux_DeleteTimer :: "int \<Rightarrow> 'f ParamTimer list \<Rightarrow> int \<times> 'f ParamTimer list \<times> posix_call list" where
  "Linux_DeleteTimer tid ts =
     (let index = (if tid < 0 then nat (tid + 2 ^ 64) else nat tid) in
      if length ts \<le> index then (1, ts, [])
      else let item = ts ! index in (0, ts[index := item\<lparr>timer_used := False\<rparr>], [TimerDelete (timer_os_id item)]))"

text \<open>\<open>DeleteTimerAll\<close> of the base class, with this \<open>DeleteTimer\<close>.\<close>

fun Linux_DeleteTimerAll :: "nat \<Rightarrow> nat \<Rightarrow> 'f ParamTimer list \<Rightarrow> 'f ParamTimer list \<times> posix_call list" where
  "Linux_DeleteTimerAll 0 index ts = (ts, [])"
| "Linux_DeleteTimerAll (Suc n) index ts =
     (let (ts', cs) = (if timer_used (ts ! index)
                       then (let (r, ts', cs) = Linux_DeleteTimer (int index) ts in (ts', cs))
                       else (ts, []));
          (ts'', cs') = Linux_DeleteTimerAll n (index + 1) ts' in
      (ts'', cs @ cs'))"

text \<open>
  The thread that takes the signal: it waits on the condition variable, without a predicate, and ends. \<open>notify_one\<close> wakes it only
  when it waits. A turn is what it does up to its wait, or its wait; \<open>e\<close> is a wakeup without a notification.
\<close>

record signal_thread =
  st_pc :: thread_pc
  st_notified :: bool

definition notify_one :: "signal_thread \<Rightarrow> signal_thread" where
  "notify_one s = (if st_pc s = Looping then s\<lparr>st_notified := True\<rparr> else s)"

definition threadTimerSignal :: "bool \<Rightarrow> signal_thread \<Rightarrow> signal_thread" where
  "threadTimerSignal e s = (case st_pc s of
       Started \<Rightarrow> s\<lparr>st_pc := Looping\<rparr>
     | Looping \<Rightarrow> if st_notified s \<or> e then s\<lparr>st_pc := Ended\<rparr> else s
     | _ \<Rightarrow> s)"

text \<open>The signal masks: no thread takes the timer signal but this one.\<close>

definition thread_masks :: "posix_call list" where
  "thread_masks = [MaskSignal MY_TIMER_SIGNAL True, MaskSignal MY_TIMER_SIGNAL False]"

definition Linux_Initialize :: "int \<times> signal_thread \<times> posix_call list" where
  "Linux_Initialize =
     (let (r, cs) = InitSignal in
      (0, \<lparr>st_pc = Started, st_notified = False\<rparr>, cs @ [SignalIgnore MY_TIMER_SIGNAL, MaskSignal MY_TIMER_SIGNAL True]))"

text \<open>\<open>es\<close> are the turns of the thread during the join; \<open>None\<close>: it still blocks.\<close>

definition Linux_Finalize :: "bool list \<Rightarrow> signal_thread \<Rightarrow> 'f ParamTimer list
    \<Rightarrow> (int \<times> signal_thread \<times> 'f ParamTimer list \<times> posix_call list) option" where
  "Linux_Finalize es s ts =
     (let (ts', cs) = Linux_DeleteTimerAll (length ts) 0 ts; s1 = notify_one s in
      if st_pc s1 \<noteq> NotStarted
      then (let s2 = fold threadTimerSignal es s1 in if st_pc s2 = Ended then Some (0, s2\<lparr>st_pc := NotStarted\<rparr>, ts', cs) else None)
      else Some (0, s1, ts', cs))"

section \<open>What an implementation does to the table\<close>

text \<open>
  The interface of a timer implementation to the table it shares with the callbacks: a successful \<open>create\<close> puts the function and the
  pointer into the entry \<open>CreateTimerId\<close> chooses, and \<open>delete\<close> frees an entry; both leave the others as they are.
\<close>

locale timer_table =
  fixes create :: "'o \<Rightarrow> 'f ParamTimer \<Rightarrow> 'f ParamTimer list \<Rightarrow> (int \<times> int \<times> 'f ParamTimer list) cpp"
    and delete :: "int \<Rightarrow> 'f ParamTimer list \<Rightarrow> int \<times> 'f ParamTimer list"
  assumes create_entry: "create os p ts = Inr (0, tid, ts') \<Longrightarrow> tid = CreateTimerId ts \<and> nat tid < length ts
      \<and> (\<exists>h. ts' = ts[nat tid := \<lparr>timer_os_id = h, timer_ms = timer_ms p, timer_ptr = timer_ptr p, timer_used = True, timer_func = timer_func p\<rparr>])"
    and delete_entry: "i < length ts \<Longrightarrow> \<exists>x. delete (int i) ts = (0, ts[i := x]) \<and> \<not> timer_used x"
begin

lemma create_id: "create os p ts = Inr (0, tid, ts') \<Longrightarrow> \<exists>i < length ts. tid = int i \<and> \<not> timer_used (ts ! i)"
  using create_entry [of os p ts tid ts'] nth_length_takeWhile [of timer_used ts] by (auto simp: CreateTimerId_eq)

lemma created_calls_back:
  assumes "create os p ts = Inr (0, tid, ts')" "timer_func p = Some f"
  shows "Timer_CallBack tid ts' = Inr (Some (f, tid, timer_ptr p))"
  using create_entry [OF assms(1)] create_id [OF assms(1)] assms(2) by (auto simp: Timer_CallBack_def)

lemma create_others:
  assumes "create os p ts = Inr (0, tid, ts')" "Timer_CallBack j ts = Inr (Some c)"
  shows "Timer_CallBack j ts' = Inr (Some c)"
proof -
  obtain i where "tid = int i" "i < length ts" "\<not> timer_used (ts ! i)" using create_id [OF assms(1)] by blast
  then show ?thesis
    using create_entry [OF assms(1)] assms(2) by (auto simp: Timer_CallBack_def nth_list_update Let_def split: if_splits option.splits)
qed

lemma deleted_silent: "i < length ts \<Longrightarrow> Timer_CallBack (int i) (snd (delete (int i) ts)) = Inr None"
  using delete_entry [of i ts] by (auto simp: Timer_CallBack_def)

lemma delete_others:
  "i < length ts \<Longrightarrow> j \<noteq> int i \<Longrightarrow> Timer_CallBack j (snd (delete (int i) ts)) = Timer_CallBack j ts"
  using delete_entry [of i ts] by (auto simp: Timer_CallBack_def nth_list_update)

text \<open>
  Histories: creations that succeed and deletions of existing entries. A timer calls its function with its pointer from its creation
  until its own deletion, whatever else is created and deleted.
\<close>

inductive history :: "'f ParamTimer list \<Rightarrow> (int \<times> 'f \<times> int) list \<Rightarrow> bool" where
  history_start: "\<forall>x \<in> set ts. \<not> timer_used x \<Longrightarrow> history ts []"
| history_create: "history ts live \<Longrightarrow> create os p ts = Inr (0, tid, ts') \<Longrightarrow> timer_func p = Some f
    \<Longrightarrow> history ts' ((tid, f, timer_ptr p) # live)"
| history_delete: "history ts live \<Longrightarrow> i < length ts
    \<Longrightarrow> history (snd (delete (int i) ts)) (filter (\<lambda>x. fst x \<noteq> int i) live)"

lemma history_calls_back:
  "history ts live \<Longrightarrow> (\<forall>(tid, f, ptr) \<in> set live. Timer_CallBack tid ts = Inr (Some (f, tid, ptr))) \<and> distinct (map fst live)"
proof (induction rule: history.induct)
  case (history_start ts)
  then show ?case by simp
next
  case (history_create ts live os p tid ts' f)
  have "Timer_CallBack tid ts \<noteq> Inr (Some c)" for c
    using create_id [OF history_create.hyps(2)] by (auto simp: Timer_CallBack_def)
  then have "tid \<notin> fst ` set live" using history_create.IH by fastforce
  then show ?case
    using history_create.IH created_calls_back [OF history_create.hyps(2,3)] create_others [OF history_create.hyps(2)] by fastforce
next
  case (history_delete ts live i)
  then show ?case
    using delete_others [OF history_delete.hyps(2)] by (auto simp: distinct_map_filter)
qed

end

definition Winmm_table :: "nat \<Rightarrow> 'f ParamTimer \<Rightarrow> 'f ParamTimer list \<Rightarrow> (int \<times> int \<times> 'f ParamTimer list) cpp" where
  "Winmm_table h p ts = cbind (Winmm_CreateTimer h p ts) (\<lambda>(r, tid, ts', cs). Inr (r, tid, ts'))"

definition Linux_table :: "posix_os \<times> int \<Rightarrow> 'f ParamTimer \<Rightarrow> 'f ParamTimer list \<Rightarrow> (int \<times> int \<times> 'f ParamTimer list) cpp" where
  "Linux_table o' p ts = cbind (Linux_CreateTimer (fst o') (snd o') p ts) (\<lambda>(r, tid, ts', cs). Inr (r, tid, ts'))"

definition without_calls :: "int \<times> 'f ParamTimer list \<times> 'c list \<Rightarrow> int \<times> 'f ParamTimer list" where
  "without_calls x = (fst x, fst (snd x))"

interpretation winmm: timer_table Winmm_table "\<lambda>tid ts. without_calls (Winmm_DeleteTimer tid ts)"
  by unfold_locales
     (auto simp: Winmm_table_def Winmm_CreateTimer_def Winmm_DeleteTimer_def without_calls_def cbind_Inr_iff Let_def split: if_splits)

interpretation linux: timer_table Linux_table "\<lambda>tid ts. without_calls (Linux_DeleteTimer tid ts)"
  by unfold_locales
     (auto simp: Linux_table_def Linux_CreateTimer_def Linux_DeleteTimer_def without_calls_def cbind_Inr_iff Let_def
       split: if_splits option.splits prod.splits)

section \<open>Where the Linux timers differ\<close>

text \<open>When the timer cannot be armed, the creation fails and its entry stays in use.\<close>

lemma Linux_CreateTimer_unarmed:
  assumes "sigemptyset_ok os" "sigaction_ok os" "timer_created os = Some h" "\<not> settime_ok os" "\<not> list_all timer_used ts"
  shows "\<exists>tid ts' cs. Linux_CreateTimer os id0 p ts = Inr (4, tid, ts', cs) \<and> timers_used ts' = insert (nat tid) (timers_used ts)
    \<and> nat tid \<notin> timers_used ts"
  using assms CreateTimerId_free [OF assms(5)]
  by (auto simp: Linux_CreateTimer_def timers_used_def nth_list_update Let_def split: prod.splits if_splits)

text \<open>The interval is the one asked for exactly for periods of at most 2147 milliseconds; ten seconds become 1.4 of them.\<close>

lemma timer_interval_exact:
  "(let (s, n) = timer_interval ms in s * 1000000000 + n = ms * 1000000) \<longleftrightarrow> \<bar>ms\<bar> \<le> 2147"
proof -
  have "(let (s, n) = timer_interval ms in s * 1000000000 + n) = c_int (ms * 1000000)"
    by (simp add: timer_interval_def c_mod_def ONE_MSEC_TO_NSEC_def ONE_SEC_TO_NSEC_def Let_def)
  moreover have "c_int x = x \<longleftrightarrow> int32_range x" for x
    using c_int_range [of x] by (auto intro: c_int_id)
  moreover have "int32_range (ms * 1000000) \<longleftrightarrow> \<bar>ms\<bar> \<le> 2147"
    by (auto simp: int32_range_def)
  ultimately show ?thesis by (simp add: split_beta Let_def)
qed

lemma ten_seconds: "timer_interval 10000 = (1, 410065408)"
  by code_simp

section \<open>The thread of the signal\<close>

interpretation signal_thread: flagged_thread threadTimerSignal notify_one st_pc "\<lambda>e. \<not> e" "\<lambda>e. True" "\<lambda>s. 0"
  "\<lambda>s. \<not> st_notified s" "\<lambda>s. st_pc s = Looping \<and> st_notified s" "\<lambda>s. st_pc s = Looping \<and> \<not> st_notified s"
  by unfold_locales (auto simp: notify_one_def threadTimerSignal_def)

end
