(* ===== verification/Old_Session.thy ===== *)
theory Old_Session
  imports Rtsp_Session
begin

text \<open>
  \<open>RtspSession\<close> of \<open>src/live555/RtspSession.cpp\<close>, from which \<open>Session_RTSP\<close> was made and to which nothing refers any more. It is written for
  an \<open>InnerThread\<close> whose \<open>StartThread\<close> takes the object; that class is not in the repository and is an argument (\<open>thread_ops\<close>). The clients
  and their handlers are those of \<open>Rtsp_Session\<close>. The ring buffer is only kept and given back: it is a value of the type \<open>'b\<close>.
\<close>

section \<open>Code\<close>

record Info =
  in_camera_id :: nat
  in_name :: string
  in_url :: string
  in_auth_id :: string
  in_auth_pw :: string
  in_port :: nat
  in_use_tcp :: bool

definition Info_new :: Info where
  "Info_new = \<lparr>in_camera_id = 0, in_name = [], in_url = [], in_auth_id = [], in_auth_pw = [], in_port = 554, in_use_tcp = True\<rparr>"

record 't thread_ops =
  op_save_name :: "string \<Rightarrow> 't \<Rightarrow> 't"
  op_start :: "'t \<Rightarrow> 't cpp"
  op_join :: "'t \<Rightarrow> 't"
  op_joinable :: "'t \<Rightarrow> bool"

text \<open>Where the thread is in its loop: before the test of the flag, in \<open>openURL\<close>, in the event loop, or in its sleep of three seconds.\<close>

datatype old_at = AtHead | InOpen | InLoop | AtSleep

record ('t, 'b) RtspSession =
  os_client :: "CustomRTSPClient option"
  os_watch :: bool
  os_info :: Info
  os_running :: bool
  os_buffer :: 'b
  os_thread :: 't
  os_pc :: thread_pc
  os_at :: old_at

definition RtspSession_new :: "'t \<Rightarrow> 'b \<Rightarrow> ('t, 'b) RtspSession" where
  "RtspSession_new t input_buffer = \<lparr>os_client = None, os_watch = False, os_info = Info_new, os_running = False,
     os_buffer = input_buffer, os_thread = t, os_pc = NotStarted, os_at = AtHead\<rparr>"

definition RtspSession_id :: "('t, 'b) RtspSession \<Rightarrow> nat" where
  "RtspSession_id s = in_camera_id (os_info s)"

definition RtspSession_info :: "('t, 'b) RtspSession \<Rightarrow> Info" where
  "RtspSession_info s = os_info s"

definition video_buffer :: "('t, 'b) RtspSession \<Rightarrow> 'b" where
  "video_buffer s = os_buffer s"

definition set_info :: "Info \<Rightarrow> ('t, 'b) RtspSession \<Rightarrow> ('t, 'b) RtspSession" where
  "set_info i s = s\<lparr>os_info := i\<rparr>"

definition RtspSession_start :: "'t thread_ops \<Rightarrow> ('t, 'b) RtspSession \<Rightarrow> (bool \<times> ('t, 'b) RtspSession) cpp" where
  "RtspSession_start ops s =
     (if os_running s then Inr (False, s)
      else cbind (op_start ops (op_save_name ops (in_name (os_info s)) (os_thread s))) (\<lambda>t.
        Inr (True, s\<lparr>os_thread := t, os_pc := Started, os_at := AtHead\<rparr>)))"

definition start_info :: "'t thread_ops \<Rightarrow> Info \<Rightarrow> ('t, 'b) RtspSession \<Rightarrow> ('t, 'b) RtspSession cpp" where
  "start_info ops i s = cbind (RtspSession_start ops (set_info i s)) (\<lambda>(r, s'). Inr s')"

definition stop_multi :: "('t, 'b) RtspSession \<Rightarrow> ('t, 'b) RtspSession" where
  "stop_multi s = s\<lparr>os_watch := True, os_running := False\<rparr>"

definition reconnect_rtsp :: "('t, 'b) RtspSession \<Rightarrow> ('t, 'b) RtspSession" where
  "reconnect_rtsp s = s\<lparr>os_watch := True\<rparr>"

text \<open>\<open>created\<close>: the library made a client; \<open>sent\<close>: its \<open>DESCRIBE\<close> was sent.\<close>

definition RtspSession_openURL :: "bool \<Rightarrow> bool \<Rightarrow> Info \<Rightarrow> ('t, 'b) RtspSession \<Rightarrow> bool \<times> ('t, 'b) RtspSession \<times> rtsp_call list" where
  "RtspSession_openURL created sent i s =
     (if \<not> created then (False, s\<lparr>os_client := None\<rparr>, [])
      else
        let s1 = s\<lparr>os_client := Some (CustomRTSPClient_new (in_use_tcp i))\<rparr>;
            authenticator = (in_auth_id (os_info s) \<noteq> [] \<and> in_auth_pw (os_info s) \<noteq> []) in
        (if sent then True else False, s1, [SendDescribe authenticator]))"

text \<open>The end of the body of the loop.\<close>

definition old_end_pass :: "('t, 'b) RtspSession \<Rightarrow> ('t, 'b) RtspSession" where
  "old_end_pass s = s\<lparr>os_at := (if os_running s then AtSleep else AtHead)\<rparr>"

text \<open>
  A turn of \<open>ThreadLoop\<close>: its beginning, the test of the flag, \<open>openURL\<close> with the clearing of the watch variable, a step of the event loop
  or its end, or the sleep. The client that was shut down stays in the pointer, closed.
\<close>

definition old_turn :: "rtsp_env \<Rightarrow> ('t, 'b) RtspSession \<Rightarrow> (('t, 'b) RtspSession \<times> rtsp_call list) cpp" where
  "old_turn e s = (case os_pc s of
       Started \<Rightarrow> Inr (s\<lparr>os_running := True, os_pc := Looping, os_at := AtHead\<rparr>, [])
     | Looping \<Rightarrow>
         (case os_at s of
            AtHead \<Rightarrow> Inr (if os_running s then s\<lparr>os_at := InOpen\<rparr> else s\<lparr>os_pc := Ended\<rparr>, [])
          | InOpen \<Rightarrow>
              (let (ok, s1, cs) = RtspSession_openURL (re_created e) (re_sent e) (os_info s) s in
               Inr (if ok then s1\<lparr>os_watch := False, os_at := InLoop\<rparr> else old_end_pass s1, cs))
          | InLoop \<Rightarrow>
              (case os_client s of None \<Rightarrow> Inl NullPointer
               | Some c \<Rightarrow>
                   if os_watch s
                   then cbind (shutdownStream c) (\<lambda>(c', cs). Inr (old_end_pass (s\<lparr>os_client := Some c'\<rparr>), cs))
                   else if \<not> rc_open c then Inr (s, [])
                   else cbind (handle (re_event e) c) (\<lambda>(c', cs).
                     let s1 = s\<lparr>os_client := Some c'\<rparr> in
                     Inr (if SetReconnect \<in> set cs then reconnect_rtsp s1 else s1, cs)))
          | AtSleep \<Rightarrow> Inr (s\<lparr>os_at := AtHead\<rparr>, []))
     | _ \<Rightarrow> Inr (s, []))"

primrec old_turns :: "rtsp_env list \<Rightarrow> ('t, 'b) RtspSession \<Rightarrow> (('t, 'b) RtspSession \<times> rtsp_call list) cpp" where
  "old_turns [] s = Inr (s, [])"
| "old_turns (e # es) s = cbind (old_turn e s) (\<lambda>(s1, cs). cbind (old_turns es s1) (\<lambda>(s2, cs'). Inr (s2, cs @ cs')))"

text \<open>\<open>join_multi\<close> with the turns of the thread during the join; \<open>None\<close>: it still blocks.\<close>

definition join_multi :: "'t thread_ops \<Rightarrow> rtsp_env list \<Rightarrow> ('t, 'b) RtspSession \<Rightarrow> ('t, 'b) RtspSession option cpp" where
  "join_multi ops es s =
     (if op_joinable ops (os_thread s)
      then cbind (old_turns es s) (\<lambda>(s', cs).
        Inr (if os_pc s' = Ended then Some (s'\<lparr>os_thread := op_join ops (os_thread s'), os_pc := NotStarted\<rparr>) else None))
      else Inr (Some (s\<lparr>os_thread := op_join ops (os_thread s)\<rparr>)))"

definition RtspSession_stop :: "'t thread_ops \<Rightarrow> rtsp_env list \<Rightarrow> ('t, 'b) RtspSession \<Rightarrow> ('t, 'b) RtspSession option cpp" where
  "RtspSession_stop ops es s =
     (let s1 = s\<lparr>os_watch := True, os_running := False\<rparr> in join_multi ops es s1)"

section \<open>Stopping\<close>

definition old_step :: "rtsp_env \<Rightarrow> ('t, 'b) RtspSession cpp \<Rightarrow> ('t, 'b) RtspSession cpp" where
  "old_step e r = cbind r (\<lambda>s. cbind (old_turn e s) (\<lambda>(s', cs). Inr s'))"

definition old_stop_step :: "('t, 'b) RtspSession cpp \<Rightarrow> ('t, 'b) RtspSession cpp" where
  "old_stop_step r = cbind r (\<lambda>s. Inr (stop_multi s))"

definition old_pc :: "('t, 'b) RtspSession cpp \<Rightarrow> thread_pc" where
  "old_pc r = (case r of Inl e \<Rightarrow> NotStarted | Inr s \<Rightarrow> os_pc s)"

definition old_open :: "('t, 'b) RtspSession \<Rightarrow> bool" where
  "old_open s \<longleftrightarrow> (\<exists>c. os_client s = Some c \<and> rc_open c)"

definition old_good :: "('t, 'b) RtspSession cpp \<Rightarrow> bool" where
  "old_good r \<longleftrightarrow> (\<exists>s. r = Inr s \<and> (os_pc s = Looping \<longrightarrow> os_at s \<noteq> InOpen \<and> (os_at s = InLoop \<longrightarrow> old_open s)))"

definition old_stopping :: "('t, 'b) RtspSession cpp \<Rightarrow> bool" where
  "old_stopping r \<longleftrightarrow> (\<exists>s. r = Inr s \<and> os_pc s = Looping \<and> \<not> os_running s \<and> os_at s \<noteq> InOpen
     \<and> (os_at s = InLoop \<longrightarrow> os_watch s \<and> old_open s))"

definition old_rank :: "('t, 'b) RtspSession cpp \<Rightarrow> nat" where
  "old_rank r = (case r of Inl e \<Rightarrow> 0 | Inr s \<Rightarrow> if os_at s = AtHead then 0 else 1)"

definition old_lost :: "('t, 'b) RtspSession cpp \<Rightarrow> bool" where
  "old_lost r \<longleftrightarrow> (case r of Inl e \<Rightarrow> True | Inr s \<Rightarrow> os_pc s = Looping \<and> os_running s)"

lemma old_stopping_turn:
  assumes "old_stopping (Inr s)"
  shows "\<exists>s' cs. old_turn e s = Inr (s', cs) \<and> (if os_at s = AtHead then os_pc s' = Ended else old_stopping (Inr s') \<and> os_at s' = AtHead)"
proof (cases "os_at s")
  case InLoop
  then obtain c where c: "os_watch s" "os_client s = Some c" "rc_open c" using assms by (auto simp: old_stopping_def old_open_def)
  then obtain c' cs where "shutdownStream c = Inr (c', cs)" using shutdownStream_open by blast
  then show ?thesis using assms InLoop c by (simp add: old_stopping_def old_turn_def old_end_pass_def)
qed (use assms in \<open>auto simp: old_stopping_def old_turn_def\<close>)

lemma old_lost_turn: "old_lost (Inr s) \<Longrightarrow> old_lost (cbind (old_turn e s) (\<lambda>(s', cs). Inr s'))"
  by (cases "old_turn e s")
     (auto simp: old_lost_def old_turn_def RtspSession_openURL_def old_end_pass_def reconnect_rtsp_def cbind_Inr_iff Let_def
      split: old_at.splits option.splits if_splits)

text \<open>The thread is stopped as the others are; \<open>openURL\<close> is again the place where it must not be.\<close>

interpretation old_thread: flagged_thread old_step old_stop_step old_pc "\<lambda>e. True" "\<lambda>e. True" old_rank old_good old_stopping old_lost
proof
  fix r assume "old_good r" "old_pc r = Looping"
  then show "old_stopping (old_stop_step r)"
    by (auto simp: old_good_def old_pc_def old_stopping_def old_stop_step_def stop_multi_def old_open_def)
next
  fix r and e :: rtsp_env
  assume st: "old_stopping r" and ne: "old_pc (old_step e r) \<noteq> Ended"
  obtain s where s: "r = Inr s" using st by (auto simp: old_stopping_def)
  show "old_stopping (old_step e r) \<and> old_rank (old_step e r) \<le> old_rank r \<and> (True \<longrightarrow> old_rank (old_step e r) < old_rank r)"
    using old_stopping_turn [of s e] st s ne by (auto simp: old_step_def old_pc_def old_rank_def split: if_splits)
next
  fix r and e :: rtsp_env assume "old_pc r = Ended"
  then show "old_pc (old_step e r) = Ended"
    by (cases r) (simp_all add: old_pc_def old_step_def old_turn_def)
next
  fix r show "old_pc (old_stop_step r) = old_pc r"
    by (cases r) (simp_all add: old_pc_def old_stop_step_def stop_multi_def)
next
  fix r and e :: rtsp_env assume "old_good r" "old_pc r = Started"
  then show "old_lost (old_step e (old_stop_step r))"
    by (auto simp: old_good_def old_pc_def old_stop_step_def stop_multi_def old_step_def old_turn_def old_lost_def)
next
  fix r and e :: rtsp_env assume "old_lost r"
  then show "old_lost (old_step e r)"
    using old_lost_turn by (cases r) (auto simp: old_step_def old_lost_def)
next
  fix r assume "old_lost r"
  then show "old_pc r \<noteq> Ended" by (auto simp: old_lost_def old_pc_def split: sum.splits)
qed

text \<open>Stopped while it opens the URL, the thread clears the watch variable after that, and waits for an event of the server.\<close>

lemma stop_in_open_waits:
  assumes "os_pc s = Looping" "os_at s = InOpen" "re_created e" "re_sent e" "\<forall>x \<in> set es. re_event x = NoEvent"
  shows "\<exists>s' cs. old_turns (e # es) (stop_multi s) = Inr (s', cs) \<and> os_pc s' = Looping \<and> \<not> os_running s'"
proof -
  have w: "\<exists>cs. old_turns es x = Inr (x, cs)"
    if "os_pc x = Looping" "os_at x = InLoop" "\<not> os_watch x" "os_client x = Some c" "rc_open c" "\<forall>y \<in> set es. re_event y = NoEvent" for x c es
    using that
  proof (induction es)
    case (Cons e es)
    have "x\<lparr>os_client := Some c\<rparr> = x" using Cons.prems(4) by (cases x) simp
    then have "old_turn e x = Inr (x, [])" using Cons.prems by (simp add: old_turn_def)
    then show ?case using Cons by simp
  qed simp
  obtain x where x: "old_turn e (stop_multi s) = Inr (x, [SendDescribe (in_auth_id (os_info s) \<noteq> [] \<and> in_auth_pw (os_info s) \<noteq> [])])"
    "os_pc x = Looping" "os_at x = InLoop" "\<not> os_watch x" "\<not> os_running x" "os_client x = Some (CustomRTSPClient_new (in_use_tcp (os_info s)))"
    using assms(1-4) by (auto simp: old_turn_def stop_multi_def RtspSession_openURL_def Let_def)
  have "rc_open (CustomRTSPClient_new (in_use_tcp (os_info s)))" by (simp add: CustomRTSPClient_new_def)
  from w [OF x(2,3,4,6) this assms(5)] show ?thesis using x by (auto simp: cbind_Inr_iff)
qed

section \<open>Starting\<close>

text \<open>
  On an \<open>InnerThread\<close> like the one of the repository, a second \<open>start\<close> before the thread has set its flag ends the process: the flag, which
  the thread sets, is all that \<open>start\<close> asks.
\<close>

definition repo_ops :: "InnerThread thread_ops" where
  "repo_ops = \<lparr>op_save_name = SaveThreadName, op_start = (\<lambda>t. cbind (StartThread t) (\<lambda>(b, t'). Inr t')), op_join = JoinThread, op_joinable = joinable\<rparr>"

lemma second_start_terminates:
  assumes "\<not> os_running s" "RtspSession_start repo_ops s = Inr (r, s')"
  shows "RtspSession_start repo_ops s' = Inl StdTerminate"
  using assms by (auto simp: RtspSession_start_def repo_ops_def StartThread_def SaveThreadName_def cbind_Inr_iff split: if_splits)

section \<open>Reconnections\<close>

text \<open>
  A session asked to reconnect sends its next \<open>DESCRIBE\<close> after it has shut down the old client and slept. \<open>Session_RTSP\<close> waits at a locker where
  this class sleeps, and never sends one.
\<close>

lemma old_session_reconnects:
  assumes "os_pc s = Looping" "os_running s" "os_at s = InLoop" "os_client s = Some c" "rc_open c" "re_created e4"
  shows "\<exists>s' cs. old_turns [e1, e2, e3, e4] (reconnect_rtsp s) = Inr (s', cs) \<and> describes cs = 1 \<and> os_running s' \<and> os_pc s' = Looping"
proof -
  obtain c' cs where sh: "shutdownStream c = Inr (c', cs)" using shutdownStream_open [OF assms(5)] by blast
  then have "describes cs = 0" by (rule shutdownStream_describes)
  then show ?thesis
    using assms sh
    by (simp add: old_turn_def reconnect_rtsp_def old_end_pass_def RtspSession_openURL_def Let_def)
qed

end
