(* ===== verification/Convert_Buffer.thy ===== *)
theory Convert_Buffer
  imports Decoder_Impl
begin

text \<open>
  The other \<open>Convert\<close> of \<open>Converter_FFmpeg\<close>, which takes a picture in memory instead of a frame of FFmpeg, and the helpers of
  \<open>FFmpeg.cpp\<close> that the decoder calls around its work. As before, a destination line size is 0 and left out.
\<close>

section \<open>Code\<close>

text \<open>\<open>sws_scale\<close> reads as many bytes of the source as \<open>av_image_fill_arrays\<close> said it has.\<close>

definition ptr_reads :: "byte_ptr \<Rightarrow> int \<Rightarrow> unit cpp" where
  "ptr_reads p n = (case p of None \<Rightarrow> Inl NullPointer
     | Some (mem, off) \<Rightarrow> if off < 0 \<or> off + n > int (length mem) then Inl OutOfBounds else Inr ())"

definition Convert_buffer :: "av_env \<Rightarrow> bool \<Rightarrow> byte_ptr \<Rightarrow> ConvertParam \<Rightarrow> Converter \<Rightarrow> (int \<times> byte_ptr \<times> Converter) cpp" where
  "Convert_buffer av junk src_buffer param c =
     (let (r, c1) = Converter_Initialize av junk (cp_sws param) c; d = cp_dst_buffer param in
      if r \<noteq> 0 then Inr (1, d, c1)
      else
        let n = av_image_fill_arrays av (src_pixel_format (cp_sws param)) (src_width (cp_sws param)) (src_height (cp_sws param)) in
        if n < 0 then Inr (1, d, c1)
        else if av_image_fill_arrays av (dst_pixel_format (cp_sws param)) (dst_width (cp_sws param)) (dst_height (cp_sws param)) < 0
        then Inr (1, d, c1)
        else (case m_sws_contexts c1 of None \<Rightarrow> Inl NullPointer
          | Some ctx \<Rightarrow> if sws_scale av ctx \<le> 0 then Inr (3, d, c1)
              else cbind (ptr_reads src_buffer n) (\<lambda>u. cbind (ptr_write d (av_picture av ctx)) (\<lambda>d'. Inr (0, d', c1)))))"

text \<open>\<open>Register\<close>: the static flag, and whether the network of FFmpeg is initialized by the call.\<close>

definition FFmpeg_Register :: "bool \<Rightarrow> bool \<times> bool" where
  "FFmpeg_Register init = (if False = init then (True, True) else (init, False))"

text \<open>\<open>av_strerror\<close> leaves at most 63 characters and a null character in the buffer of 64.\<close>

definition ErrorCode :: "(int \<Rightarrow> string) \<Rightarrow> int \<Rightarrow> string" where
  "ErrorCode av_strerror code =
     '' errCode['' @ to_string code @ '']: '' @ takeWhile (\<lambda>c. c \<noteq> CHR 0x00) (take 63 (av_strerror code) @ [CHR 0x00])"

section \<open>The two conversions\<close>

text \<open>
  With a source that has the bytes of its picture, the two conversions leave the same converter and the same destination; only the
  result after a failed \<open>sws_scale\<close> is another.
\<close>

lemma Convert_buffer_Convert:
  assumes n: "n = av_image_fill_arrays av (src_pixel_format (cp_sws param)) (src_width (cp_sws param)) (src_height (cp_sws param))"
    and "0 \<le> n" "ptr_reads src n = Inr ()"
  shows "Convert_buffer av junk src param c = cbind (Convert av junk param c) (\<lambda>(r, d, c'). Inr (if r = 2 then 3 else r, d, c'))"
  using assms(2,3) by (auto simp: Convert_buffer_def Convert_def n [symmetric] cbind_assoc Let_def split: prod.splits option.splits)

text \<open>It stays in the memory of both pictures: the result is 0, 1 or 3.\<close>

lemma Convert_buffer_ok:
  assumes n: "n = av_image_fill_arrays av (src_pixel_format p) (src_width p) (src_height p)" "0 \<le> n" "n \<le> int (length mem)"
    and "av_sized av" "converter_inv c" "buffer_ok fb" "fb_data fb \<noteq> None" "p = cp_sws param" "cp_dst_buffer param = fb_data fb"
    and "av_image_get_buffer_size av (dst_pixel_format p) (dst_width p) (dst_height p) \<le> fb_data_size fb"
  shows "\<exists>r data c'. Convert_buffer av junk (Some (mem, 0)) param c = Inr (r, data, c') \<and> r \<in> {0, 1, 3} \<and> converter_inv c'
    \<and> buffer_ok (fb\<lparr>fb_data := data\<rparr>)"
proof -
  obtain r data c' where c: "Convert av junk param c = Inr (r, data, c')" "converter_inv c'" "buffer_ok (fb\<lparr>fb_data := data\<rparr>)"
    using Convert_ok [OF assms(4-10)] by blast
  have "r \<in> {0, 1, 2}"
    using c(1) by (auto simp: Convert_def Let_def cbind_Inr_iff split: prod.splits if_splits option.splits)
  moreover have "ptr_reads (Some (mem, 0)) n = Inr ()" using n(3) by (simp add: ptr_reads_def)
  ultimately show ?thesis
    using Convert_buffer_Convert [of n av param "Some (mem, 0)" junk c] n assms(8) c by auto
qed

text \<open>A source shorter than its picture is read past its end as soon as the picture is scaled.\<close>

lemma Convert_buffer_short:
  assumes "converter_inv c" "fst (Converter_Initialize av junk (cp_sws param) c) = 0" "sws_scale av (cp_sws param) > 0"
    and "int (length mem) < av_image_fill_arrays av (src_pixel_format (cp_sws param)) (src_width (cp_sws param)) (src_height (cp_sws param))"
    and "0 \<le> av_image_fill_arrays av (dst_pixel_format (cp_sws param)) (dst_width (cp_sws param)) (dst_height (cp_sws param))"
  shows "Convert_buffer av junk (Some (mem, 0)) param c = Inl OutOfBounds"
  using assms Converter_Initialize_ok(2) [OF assms(1,2)]
  by (auto simp: Convert_buffer_def ptr_reads_def Let_def split: prod.splits)

lemma ErrorCode_bound: "length (ErrorCode f code) \<le> length (to_string code) + 75"
  using length_takeWhile_le [of "\<lambda>c. c \<noteq> CHR 0x00" "take 63 (f code)"] by (simp add: ErrorCode_def takeWhile_append)

end
