(* ===== verification/Sink_Modes.thy ===== *)
theory Sink_Modes
  imports H264_Sink Complex_Main
begin

text \<open>
  \<open>afterGettingFrame\<close> of \<open>H264Sink\<close> with both its modes. The mode is a local constant, \<open>ParseMode_Normal\<close>; the other one also ends a frame
  when the play time of a packet differs from that of the packet before it.
\<close>

section \<open>Code\<close>

datatype ParseMode = ParseMode_Normal | ParseMode_ForStupidRtspSever

text \<open>The members only this mode writes; a play time that is a number.\<close>

record play_times =
  m_timeval_previous :: timeval
  m_play_time_previous :: rat

definition deliver :: "bool \<Rightarrow> timeval \<Rightarrow> H264Sink \<Rightarrow> SessionVideoFrame list \<times> H264Sink" where
  "deliver key_frame presentationTime s =
     (if has_frame_callback s
      then [\<lparr>vf_codec_id = VCODEC_ID_int VCODEC_ID_H264,
             vf_buf_size = c_int (int (array_len (m_received_buffer s))),
             vf_buffer = take (array_len (m_received_buffer s)) (ax_data (m_received_buffer s)),
             vf_key_frame = key_frame, vf_timestamp = presentationTime\<rparr>]
      else [],
      s\<lparr>m_received_buffer := array_clear (m_received_buffer s)\<rparr>)"

definition afterGettingFrame_mode :: "ParseMode \<Rightarrow> nat \<Rightarrow> bool option \<Rightarrow> timeval \<Rightarrow> rat \<Rightarrow> H264Sink \<Rightarrow> play_times
    \<Rightarrow> (SessionVideoFrame list \<times> H264Sink \<times> play_times) cpp" where
  "afterGettingFrame_mode mode recv_packet_size marker presentationTime play_time_current s pt =
     cbind (isKeyFrame s) (\<lambda>key_frame.
       case marker of
         None \<Rightarrow> Inr ([], s, pt)
       | Some is_packet_finished \<Rightarrow>
           if mode = ParseMode_Normal then
             cbind (if is_packet_finished then appendH264HeaderPacket s else Inr s) (\<lambda>s1.
             cbind (appendH264BodyPacket recv_packet_size s1) (\<lambda>s2.
               let (fs, s3) = (if is_packet_finished then deliver key_frame presentationTime s2 else ([], s2)) in
               Inr (fs, s3, pt)))
           else
             let is_new_packet = (m_play_time_previous pt \<noteq> play_time_current);
                 finished = (if is_new_packet \<and> array_len (m_received_buffer s) > 0 then True else is_packet_finished) in
             cbind (if finished then appendH264HeaderPacket s else Inr s) (\<lambda>s1.
             cbind (appendH264BodyPacket recv_packet_size s1) (\<lambda>s2.
               let (fs, s3) = (if finished then deliver key_frame presentationTime s2 else ([], s2)) in
               Inr (fs, s3, \<lparr>m_timeval_previous = presentationTime, m_play_time_previous = play_time_current\<rparr>))))"

section \<open>Properties\<close>

text \<open>The mode of the program is the operation of \<open>H264_Sink\<close>; the other is that operation with the marker of \<open>new_time\<close>.\<close>

lemma normal_mode:
  "afterGettingFrame_mode ParseMode_Normal n marker t now s pt = cbind (afterGettingFrame n marker t s) (\<lambda>(fs, s'). Inr (fs, s', pt))"
  by (auto simp: afterGettingFrame_mode_def afterGettingFrame_def deliver_def cbind_assoc Let_def split: option.splits intro!: cbind_cong)

definition new_time :: "rat \<Rightarrow> H264Sink \<Rightarrow> play_times \<Rightarrow> bool" where
  "new_time now s pt \<longleftrightarrow> m_play_time_previous pt \<noteq> now \<and> array_len (m_received_buffer s) > 0"

lemma stupid_mode:
  "afterGettingFrame_mode ParseMode_ForStupidRtspSever n (Some b) t now s pt
    = cbind (afterGettingFrame n (Some (new_time now s pt \<or> b)) t s) (\<lambda>(fs, s'). Inr (fs, s', \<lparr>m_timeval_previous = t, m_play_time_previous = now\<rparr>))"
  by (auto simp: afterGettingFrame_mode_def afterGettingFrame_def deliver_def new_time_def cbind_assoc Let_def intro!: cbind_cong)

text \<open>
  In that mode the packet of the new time is put into the frame it should end: the packets received so far come with the parameter sets
  and this packet, and nothing is left for the new frame.
\<close>

lemma stupid_mode_takes_next:
  assumes s: "sink_inv s" "has_frame_callback s" and p: "packet_ok (p, True)"
    and r: "array_contents (m_received_buffer s) \<noteq> []" "m_play_time_previous pt \<noteq> now"
    and buf: "s0 = s\<lparr>m_rtp_packet_buffer := (m_rtp_packet_buffer s)\<lparr>ax_data := p @ drop (length p) (ax_data (m_rtp_packet_buffer s))\<rparr>\<rparr>"
  shows "\<exists>s'. afterGettingFrame_mode ParseMode_ForStupidRtspSever (length p) (Some False) t now s0 pt
      = Inr ([frame_of t (idr p) (spec_bytes (array_contents (m_header_buffer s)) (p, True) (array_contents (m_received_buffer s)))],
             s', \<lparr>m_timeval_previous = t, m_play_time_previous = now\<rparr>)
    \<and> array_contents (m_received_buffer s') = []"
proof -
  have "array_len (m_received_buffer s) > 0" using r(1) by (auto simp: array_contents_def array_len_def)
  then have "new_time now s0 pt" using r(2) buf by (simp add: new_time_def)
  moreover have "receive_packet t (p, True) s = afterGettingFrame (length p) (Some True) t s0"
    by (simp add: receive_packet_def buf Let_def)
  ultimately show ?thesis using receive_packet_ok [OF s p, of t] stupid_mode [of "length p" False t now s0 pt] by auto
qed

end
