(* ===== verification/Log_Lines.thy ===== *)
theory Log_Lines
  imports Streamer Log_Format
begin

text \<open>
  Where the log of the process is, and what the streamer and the RTSP handlers put into a message: \<open>InitializeLog\<close> of \<open>Application.cpp\<close>,
  the output operators of \<open>Streamer.cpp\<close> and \<open>rtsp_callback.cpp\<close>, and the callback of the streamer that only logs.
\<close>

section \<open>Code\<close>

definition wide :: "string \<Rightarrow> wstring" where
  "wide s = map of_char s"

text \<open>The result, the folder of the log file, and the folders it asks Windows to make; the appenders are those of the log library.\<close>

definition InitializeLog :: "(string \<Rightarrow> wstring) \<Rightarrow> wstring \<Rightarrow> string \<Rightarrow> int \<times> wstring \<times> wstring list" where
  "InitializeLog multi exe pname =
     (let (r, process_path) = GetProcessPath_w exe [];
          log_path = process_path @ wide (backslash # ''Log'' @ [backslash]) @ convert_unicode multi pname in
      (0, log_path, CreateDirectoryD_w log_path))"

definition put_video_frame :: "log_record \<Rightarrow> SessionVideoFrame \<Rightarrow> log_record" where
  "put_video_frame record1 f = put record1 ('' VideoFrame   codec_id['' @ to_string (vf_codec_id f) @ ''] buf_size['' @ to_string (vf_buf_size f)
     @ ''] key_frame['' @ (if vf_key_frame f then ''true'' else ''false'') @ '']'')"

definition put_video_info :: "log_record \<Rightarrow> int \<Rightarrow> int \<Rightarrow> log_record" where
  "put_video_info record1 width height = put record1 ('' VideoInfomaiton   width['' @ to_string width @ ''] height['' @ to_string height @ ''] '')"

definition put_client :: "log_record \<Rightarrow> string \<Rightarrow> log_record" where
  "put_client record1 url = put (put (put record1 ''[URL:'') url) '']: ''"

definition subsession_text :: "MediaSubsession \<Rightarrow> string" where
  "subsession_text s = mediumName s @ ''/'' @ codecName s"

definition OnVideoInfomationReceived :: "log_record \<Rightarrow> int \<Rightarrow> int \<Rightarrow> Streamer \<Rightarrow> (int \<times> log_record) cpp" where
  "OnVideoInfomationReceived record1 width height st =
     cbind (Streamer_GetSessionInfo st) (\<lambda>info. Inr (0, put_video_info (put record1 (si_name info)) width height))"

section \<open>Properties\<close>

text \<open>A streamer that has a session logs the size, and an operator only appends to the message.\<close>

lemma OnVideoInfomationReceived_ok:
  "m_session st = Some s \<Longrightarrow> \<exists>r'. OnVideoInfomationReceived r w h st = Inr (0, r')
    \<and> getMessage r' = getMessage r @ si_name (GetSessionInfo s) @ '' VideoInfomaiton   width['' @ to_string w @ ''] height['' @ to_string h @ ''] ''"
  by (simp add: OnVideoInfomationReceived_def Streamer_GetSessionInfo_def put_video_info_def put_def)

lemma InitializeLog_path:
  assumes "exe = path @ 0x5C # name" "0x5C \<notin> set name"
  shows "fst (snd (InitializeLog multi exe p)) = path @ wide (backslash # ''Log'' @ [backslash]) @ convert_unicode multi p"
proof -
  have "str_rfind exe 0x5C = Some (length path)" unfolding assms(1) by (rule str_rfind_last) (rule assms(2))
  then show ?thesis using assms by (simp add: InitializeLog_def GetProcessPath_w_def Let_def)
qed

end
