(* ===== verification/Spec2Isabelle.thy ===== *)
theory Spec2Isabelle
  imports Sync_Channel Queue_Local Send_Manager Util_Strings Timer_Locker H264_Sink Packet_Reference Camera_Properties Delivery_Properties File_Properties Preview_Window
    Mini_Dump Window_Controls Self_Tests Util_System Camera_Debug Timer_Linux Old_Session Convert_Buffer Sink_Modes Log_Lines
begin

text \<open>
  CameraEv: verification library.

  CameraEv is a Windows program that receives the video of one camera. A camera has three streams. Each
  \<open>Streamer\<close> (\<open>src/stream\<close>) has a session, which receives H.264 frames over RTSP (\<open>src/session\<close>,
  \<open>src/live555\<close>), and a decoder (\<open>src/decoder\<close>), whose thread decodes them with FFmpeg and converts the
  pictures to the formats asked for. The pictures go to other processes: every client has a queue in shared memory that
  the camera process fills, and the camera process has one on which the clients send their requests
  (\<open>include/network\<close> over \<open>include/common\<close>). \<open>Camera\<close> (\<open>src/Camera.cpp\<close>) answers the requests, sends the
  frames and states, and restarts a stream without frames; \<open>Application\<close> and \<open>main\<close> start and end the process.

  The theories, from the bottom; each opens with what it holds.

    \<^item> \<open>Cam_Prelude\<close>: C++ values and errors (\<open>cpp\<close>, \<open>cbind\<close>), memory, bytes; \<open>Std_Convert\<close>: \<open>std::to_string\<close>,
      \<open>std::stoi\<close>; \<open>Util_Strings\<close>: the string functions of \<open>Util.cpp\<close>; \<open>Cmd_Line\<close>: \<open>CmdLineParser\<close>.
    \<^item> \<open>Packet_Define\<close>, \<open>Packet_Codec\<close>, \<open>Packet_Parse\<close>: writer and reader of the wire format
      (\<open>PacketDefine.cpp\<close>), the format as a function of the content, and what the reader finds in a packet;
      \<open>Packet_Reference\<close>: a parser that always ends, with which the reader is compared on a body of any bytes.
      \<open>Packet_Messages\<close>: the six messages (\<open>PacketStruct.cpp\<close>) and their round trips.
    \<^item> \<open>Queue_Ring\<close>: the ring both queues share, the interface \<open>byte_queue\<close> of a byte queue and its abstract history
      \<open>spec_outs\<close>; \<open>Queue_Local\<close>, \<open>Queue_Shared\<close>: the two queues, each an interpretation of \<open>byte_queue\<close>.
    \<^item> \<open>Sync_Memory\<close>: the semaphores and the mutex around the shared queue; \<open>Sync_Workers\<close>: its two ends;
      \<open>Sync_Channel\<close>: the histories of both ends on one object (\<open>channel_reach\<close>); \<open>Send_Manager\<close>: the workers that
      send to the clients.
    \<^item> \<open>Timer_Ex\<close>: the timer table; \<open>Timer_Locker\<close>: \<open>Locker\<close>, \<open>CTimerLocker\<close> and their manager;
      \<open>Thread_Join\<close>: the interface \<open>flagged_thread\<close> of a thread that \<open>Deactivate\<close> stops and joins, interpreted by
      \<open>Repeat_Work\<close> (\<open>RepeatWorkProc.cpp\<close>), \<open>Decoder_Thread\<close>, \<open>Rtsp_Session\<close>, \<open>Preview_Window\<close>, \<open>Timer_Linux\<close> and \<open>Old_Session\<close>;
      \<open>Timer_Linux\<close>: the timers of a Linux build, with the interface \<open>timer_table\<close> that both implementations of the timers satisfy;
      \<open>Fps_Checker\<close>: \<open>FPSChecker.cpp\<close>.
    \<^item> \<open>H264_Sink\<close>: packets to frames; \<open>Sink_Create\<close>: how a sink is made; \<open>Sink_Modes\<close>: its two ways to end a frame; \<open>Rtsp_Session\<close>: the session and the handlers of its client;
      \<open>Old_Session\<close>: the class it was made from.
    \<^item> \<open>Decoder_Types\<close>, \<open>Decoder_Impl\<close> (FFmpeg and the converter), \<open>Convert_Buffer\<close> (the converter on a picture in memory), \<open>Decoder\<close> (the queues), \<open>Decoder_Thread\<close> (the
      passes of the thread and its buffers), \<open>Timer_Sharing\<close> (what threads that begin do to the lockers of the one timer manager).
    \<^item> \<open>Streamer\<close>, \<open>Camera\<close>: the operations; \<open>Streamer_Inv\<close>, \<open>Camera_Inv\<close>: their invariants and the steps of the
      whole camera (\<open>camera_step\<close>); \<open>System_Info\<close>: the setup files; \<open>Camera_Debug\<close>: the sample
      stream of the debug build; \<open>Application\<close>: start, main loop and end.
    \<^item> \<open>Frame_Delivery\<close>: the receive worker with the camera's callback, a broadcast to the queues of all clients, and
      a picture from a client's request to that client's receiver; \<open>Stream_Pipeline\<close>: one stream from the packets of its sink through the
      streamer and the queues of its decoder to FFmpeg (\<open>stream_reach\<close>).
    \<^item> \<open>File_Operations\<close>: the class \<open>FileOperation\<close>, which nothing of the program calls; \<open>File_Names\<close>: the names its copies
      go through; \<open>File_Copy\<close>: what its operations keep and report.
    \<^item> \<open>Preview_Window\<close>: the window of the debug builds, with its thread another interpretation of \<open>flagged_thread\<close>;
      \<open>Log_Format\<close>, \<open>Log_Lines\<close>, \<open>Mini_Dump\<close>, \<open>Window_Controls\<close>, \<open>Util_System\<close>: the log line, its folder and its values, the crash filter, the helpers for controls and images, and
      the questions \<open>Util.cpp\<close> asks Windows; \<open>Queue_Tests\<close>, \<open>Self_Tests\<close>: the test functions of the queues, the packets and the
      synchronised access.
    \<^item> \<open>Camera_Properties\<close> and \<open>Delivery_Properties\<close> hold the properties of the camera process, \<open>File_Properties\<close> those
      of the file operations, this theory those of the layers below the camera.

  How a definition corresponds to the code: it has the name of its C++ function, with the class in front where
  two classes share the name (\<open>QL_Push\<close>, \<open>QS_Push\<close>, \<open>Camera_Activate\<close>). The members of a class are a record,
  \<open>X_new\<close> is the state the constructor leaves, and an operation returns its result and the new record. \<open>Inl\<close> is where
  C++ leaves defined behaviour or an exception leaves the operation (\<open>cpp_error\<close>); return codes are values. A mutex that covers a whole operation
  makes it one step. A thread is the sequence of its turns, with what its environment does in each as an argument; an operation that
  joins one takes the turns the thread makes meanwhile, and \<open>None\<close> says that it still waits.

  What is not code of this program is an argument: the results of the Windows calls and waits (\<open>map_env\<close>, \<open>create_os\<close>,
  \<open>sync_os\<close>, \<open>reset_os\<close>), for any outcome; the readings of the clock; the rounding of \<open>float\<close> and \<open>double\<close> (\<open>fp\<close>); the
  answers of live555 (\<open>rtsp_env\<close>, for any answer); FFmpeg (\<open>av_env\<close>); the bytes of protobuf (\<open>pb_codec\<close>) and the code-page
  conversions. Properties that rely on one of them name what it documents: \<open>av_sized\<close>, a picture has the
  number of bytes that FFmpeg's own size function gives for it; \<open>codec_ok\<close>, a written message is parsed back; \<open>sem_run\<close>, the
  semaphores count.

  What the lemmas show. Of the channel: no message is lost, repeated or changed between a push and the callback of the
  receiver, a sender and a receiver keep the mutex and the slots, and which failures of the system break that. Of the packets: the
  round trips, and what the reader does on a body of any bytes: which blocks it returns, when it leaves its memory and when it does not return. Of the camera: its invariant in all interleavings of its operations and the
  requests of its clients, what a request may do to the process, how a picture gets to the client that asked for it, that the packets of a
  stream get to FFmpeg as frames, once and in order, and what a pass of the decoder may end in. Of the threads and the process: when a join returns, how often a
  session opens its URL, what a second process does to the first. Of the layers below: the setup files, the strings, the timers, the
  sink, which leaves out of a frame what its buffer does not take, and that a copy of files changes none that is there, finds a free name, and ends where a folder is copied into itself.

  Termination and bounds. There is no fuel where the code returns: its loops are structural or have a measure. The loops that may run
  for ever are \<open>partial_function (option)\<close> (the blocks of a packet, \<open>replace_all\<close>, \<open>split_string\<close>, the recursions of \<open>FileOperation\<close> over folders), and where they return is stated: the block loop by a reference parser with the offsets it has seen, \<open>replace_all\<close> for every pattern, the recursion of a copy while its limit is set (\<open>copy_go_returns\<close>, on the limit and on what a search has left);
  the loops of the threads and the main loop take the sequence of their turns. Lengths in packets and queues are 32 bits wide; a message
  may be longer than the packet buffer of the sender, which then grows, up to \<open>2 ^ 31\<close> bytes (\<open>receivable\<close>, \<open>writable\<close>); \<open>int\<close> wraps through \<open>c_int\<close>, as the compiler of the program does it.

  Not modelled: \<open>Control\<close> and \<open>PTZ\<close>, empty classes; the code protobuf generates; loading the symbols of the process; the names of threads, which the release build does not set.
  Log lines that an operation writes are left out; \<open>Log_Format\<close> has what a line looks like. Data races inside an operation are not expressed: an operation is a step.
\<close>

section \<open>A concrete channel for the witnesses\<close>

definition demo_shm :: shm where
  "demo_shm = (\<lambda>a. Some \<lparr>so_info = \<lparr>tail = 0, head = 0, queue_size = 200, use_size = 0\<rparr>,
     m_user_space = replicate 32 0, so_buffer = replicate 200 0\<rparr>)"

definition demo_queue :: QueueShared where
  "demo_queue = QueueShared_new\<lparr>m_queue_info := Some 0\<rparr>"

definition demo_sender :: SendWorker where
  "demo_sender = (SendWorker_new 0)\<lparr>m_send_queue := demo_queue\<rparr>"

definition demo_receiver :: RecvWorker where
  "demo_receiver = RecvWorker_new\<lparr>m_recv_queue := demo_queue, m_packet_buffer := replicate 8 0, has_callback_reader := True\<rparr>"

definition demo_message :: PacketStruct where
  "demo_message = PStreamStatus \<lparr>st_stream_index = 3, st_status = STATUS_code RECONNECT\<rparr>"

definition demo_sync :: sync_os where
  "demo_sync = \<lparr>w_sem = 0, w_mutex = 0, rel_ok = True, rel_error = 0\<rparr>"

definition demo_turn :: turn_os where
  "demo_turn = \<lparr>running = True, running_cb = True, turn_sync = demo_sync\<rparr>"

lemma demo_mapped: "mapped 0 demo_queue"
  by (simp add: mapped_def demo_queue_def)

lemma demo_shm_inv: "shm_inv a demo_shm" "shm_contents a demo_shm = []" "shm_capacity a demo_shm = 199"
  "shm_user a demo_shm = replicate 32 0"
  by (simp_all add: shm_inv_def demo_shm_def ring_inv_def shm_contents_def ring_contents_def shm_capacity_def shm_user_def)

lemma demo_workers: "sender_ok 0 demo_sender" "receiver_ok 0 demo_receiver" "has_callback_reader demo_receiver"
  using demo_mapped
  by (simp_all add: sender_ok_def demo_sender_def SendWorker_new_def SetBuffer_def CPacketWriter_new_def receiver_ok_def
      demo_receiver_def)

lemma demo_len: "msg_len [] demo_message = 67"
  by code_simp

lemma demo_sendable: "sendable (demo_message, [])"
  by (simp add: sendable_def demo_len packet_buffer_size_def) (simp add: demo_message_def msg_typed_def int32_range_def)

lemmas demo_fits = sendable_receivable [OF demo_sendable] sendable_writable [OF demo_workers(1) demo_sendable]

lemma demo_os: "admitted demo_sync" "slot_released demo_sync" "good_turn demo_turn"
  by (simp_all add: admitted_def slot_released_def good_turn_def turn_admitted_def demo_sync_def demo_turn_def WAIT_OBJECT_0_def)

section \<open>Messages between processes\<close>

text \<open>
  C1. In every history of a sender and a receiver on one shared queue, whatever their waits return,
  the receiver's callback has been called with a prefix of the messages that \<open>SendPacket\<close> pushed: each
  once, in order, with its packet name and a reader from which the message reads back.
\<close>

theorem channel_delivers_in_order:
  assumes "channel_reach a s0 r0 m0 s r m sent got"
    and "sender_ok a s0" "receiver_ok a r0" "has_callback_reader r0" "shm_inv a m0" "shm_contents a m0 = []"
  shows "\<exists>taken pending. sent = taken @ pending \<and> list_all2 delivers taken got \<and> shm_contents a m = wire pending"
  using channel_reach_inv [OF assms] by (auto simp: channel_inv_def)

lemma demo_send:
  "\<exists>s m. channel_reach 0 demo_sender demo_receiver demo_shm s demo_receiver m [(demo_message, [])] []"
proof -
  have "length (shm_contents 0 demo_shm) + msg_len [] demo_message \<le> shm_capacity 0 demo_shm"
    by (simp add: demo_shm_inv demo_len)
  with SendPacket_cases [OF demo_workers(1) demo_shm_inv(1) demo_fits, of "-1" demo_sync] demo_os(1)
  obtain ret s' m' cs where send: "SendPacket demo_message (-1) demo_sync demo_sender demo_shm = Inr (ret, s', m', cs)"
    "pushed_ret ret"
    by auto
  have start: "channel_reach 0 demo_sender demo_receiver demo_shm demo_sender demo_receiver demo_shm [] []"
    by (rule channel_start)
  have "SendPacket (fst (demo_message, [])) (-1) demo_sync demo_sender demo_shm = Inr (ret, s', m', cs)"
    by (simp add: send)
  from channel_send [OF start demo_fits this] show ?thesis
    using send(2) by auto
qed

theorem channel_delivers_in_order_witness:
  "\<exists>s m taken pending. channel_reach 0 demo_sender demo_receiver demo_shm s demo_receiver m [(demo_message, [])] []
    \<and> [(demo_message, [])] = taken @ pending \<and> list_all2 delivers taken [] \<and> shm_contents 0 m = wire pending"
proof -
  obtain s m where reach: "channel_reach 0 demo_sender demo_receiver demo_shm s demo_receiver m [(demo_message, [])] []"
    using demo_send by blast
  from channel_delivers_in_order [OF reach demo_workers demo_shm_inv(1,2)] reach show ?thesis
    by blast
qed

lemma demo_sent: "\<exists>m. shm_inv 0 m \<and> shm_contents 0 m = wire [(demo_message, [])]"
proof -
  have "length (shm_contents 0 demo_shm) + msg_len [] demo_message \<le> shm_capacity 0 demo_shm"
    by (simp add: demo_shm_inv demo_len)
  with SendPacket_cases [OF demo_workers(1) demo_shm_inv(1) demo_fits, of "-1" demo_sync] demo_os(1)
  show ?thesis
    by (auto simp: demo_shm_inv)
qed

text \<open>
  C2. A running receiver that gets its semaphore and the mutex in each turn delivers everything in the
  queue: as many turns as there are messages call the callback with each of them, and leave the queue empty.
\<close>

theorem channel_delivers_all:
  assumes "receiver_ok a r" "has_callback_reader r" "shm_inv a m" "shm_contents a m = wire ps" "\<forall>x \<in> set ps. receivable x"
    and "list_all good_turn oss" "length oss = length ps"
  shows "\<exists>r' m' ds. ThreadLoop_turns oss r m = Some (Inr (LoopContinue, r', m', ds)) \<and> list_all2 delivers ps ds
    \<and> shm_contents a m' = []"
  by (rule ThreadLoop_turns_deliver [OF assms])

theorem channel_delivers_all_witness:
  "\<exists>m r' m' d. shm_contents 0 m = wire [(demo_message, [])]
    \<and> ThreadLoop_turns [demo_turn] demo_receiver m = Some (Inr (LoopContinue, r', m', [d])) \<and> delivers (demo_message, []) d"
proof -
  obtain m where m: "shm_inv 0 m" "shm_contents 0 m = wire [(demo_message, [])]"
    using demo_sent by blast
  have "\<exists>r' m' ds. ThreadLoop_turns [demo_turn] demo_receiver m = Some (Inr (LoopContinue, r', m', ds))
      \<and> list_all2 delivers [(demo_message, [])] ds \<and> shm_contents 0 m' = []"
    by (rule channel_delivers_all [OF demo_workers(2,3) m]) (simp_all add: demo_fits demo_os)
  then show ?thesis
    using m(2) by (auto simp: list_all2_Cons1)
qed

text \<open>
  C3. Round trip of every message class: what a message's \<open>Writer\<close> leaves in the buffer, analysed and read
  back through the factory by the reader, is the same message, for messages that fit the writer's buffer as it is;
  C21 has what happens when it must grow.
\<close>

theorem message_roundtrip:
  assumes "m_buffer w = Some b" "msg_typed p" "frame_data p = Inr data" "msg_len data p \<le> start_size b" "msg_len data p < 2 ^ 31"
  shows "\<exists>w' buf p'. Writer p w = Inr w' \<and> m_buffer w' = Some buf
    \<and> decode_message buf (int (m_pos w')) = Some (Inr (0, Some p')) \<and> same_message buf p p'"
proof -
  obtain rest where w: "Writer p w = Inr (wstate (msg_bytes data p) rest)"
    using Writer_bytes [OF assms(1,3,4,5)] by blast
  show ?thesis
    using decode_msg_bytes [OF assms(2,3,5), of rest] by (simp add: w length_msg_bytes)
qed

definition demo_frame :: PacketStruct where
  "demo_frame = PFrame (Packet_Frame_new\<lparr>camera_guid := ''cam'', stream_width := 640, stream_height := 480,
     frame_buffer := Some ([9, 1, 2, 3, 9], 1), frame_buffer_len := 3\<rparr>)"

lemma demo_frame_facts: "msg_typed demo_frame" "frame_data demo_frame = Inr [1, 2, 3]" "msg_len [1, 2, 3] demo_frame < 1024"
  by code_simp+

theorem message_roundtrip_witness:
  "\<exists>w' buf p'. Writer demo_frame (CPacketWriter_new 0 (Some [])) = Inr w' \<and> m_buffer w' = Some buf
    \<and> decode_message buf (int (m_pos w')) = Some (Inr (0, Some p')) \<and> same_message buf demo_frame p'"
  by (rule message_roundtrip [of _ "[]" _ "[1, 2, 3]"])
    (use demo_frame_facts in \<open>simp_all add: CPacketWriter_new_def start_size_def\<close>)

section \<open>Queues\<close>

text \<open>
  C4. The shared-memory queue refines an ideal FIFO queue of its capacity: any history of sends by one
  process and receptions by the other has exactly the results of the ideal queue.
\<close>

theorem shared_queue_fifo:
  assumes "pair_inv q" "\<forall>p \<in> set ps. op_ok p"
  shows "\<exists>q'. queue_run pair_push pair_front pair_pop ps q = Inr (fst (spec_outs (pair_capacity q) ps (pair_contents q)), q')
    \<and> pair_inv q' \<and> pair_contents q' = snd (spec_outs (pair_capacity q) ps (pair_contents q))"
  by (rule shared_queue.queue_run_spec [OF assms])

definition demo_ops :: "queue_op list" where
  "demo_ops = [QSend [1, 2, 3], QRecv 2, QSend [4], QRecv 9, QRecv 2]"

definition demo_outs :: "queue_out list" where
  "demo_outs = [Sent True, Got [1, 2], Sent True, Short, Got [3, 4]]"

lemma demo_ops_ok: "\<forall>p \<in> set demo_ops. op_ok p"
  by (simp add: demo_ops_def op_ok_def)

lemma demo_spec: "4 \<le> cap \<Longrightarrow> spec_outs cap demo_ops [] = (demo_outs, [])"
  by (simp add: demo_ops_def demo_outs_def)

definition demo_pair :: pair_state where
  "demo_pair = \<lparr>pr = demo_queue, co = demo_queue, mem = demo_shm, obj = 0\<rparr>"

lemma demo_pair_facts: "pair_inv demo_pair" "pair_capacity demo_pair = 199" "pair_contents demo_pair = []"
  by (simp_all add: demo_pair_def pair_inv_def pair_capacity_def pair_contents_def demo_mapped demo_shm_inv)

theorem shared_queue_fifo_witness: "\<exists>q'. queue_run pair_push pair_front pair_pop demo_ops demo_pair = Inr (demo_outs, q')"
  using shared_queue_fifo [OF demo_pair_facts(1) demo_ops_ok] by (auto simp: demo_pair_facts demo_spec)

text \<open>C14. The queue in local memory refines the same ideal FIFO queue.\<close>

theorem local_queue_fifo:
  assumes "ql_inv q" "\<forall>p \<in> set ps. op_ok p"
  shows "\<exists>q'. queue_run ql_push ql_front QL_Pop ps q = Inr (fst (spec_outs (ql_capacity q) ps (ql_contents q)), q')
    \<and> ql_inv q' \<and> ql_contents q' = snd (spec_outs (ql_capacity q) ps (ql_contents q))"
  by (rule local_queue.queue_run_spec [OF assms])

definition demo_local :: QueueLocal where
  "demo_local = QueueLocal_new\<lparr>ql_info := \<lparr>tail = 0, head = 0, queue_size = 6, use_size = 0\<rparr>, ql_buffer := Some (replicate 6 0)\<rparr>"

lemma demo_local_facts: "ql_inv demo_local" "ql_capacity demo_local = 5" "ql_contents demo_local = []"
  by (simp_all add: demo_local_def ql_inv_def ring_inv_def ql_capacity_def ql_contents_def ring_contents_def)

theorem local_queue_fifo_witness: "\<exists>q'. queue_run ql_push ql_front QL_Pop demo_ops demo_local = Inr (demo_outs, q')"
  using local_queue_fifo [OF demo_local_facts(1) demo_ops_ok] by (auto simp: demo_local_facts demo_spec)

section \<open>Synchronised access\<close>

text \<open>
  C15. Over any sequence of producer and consumer accesses, and any outcome of their waits, the two
  semaphore counts and the number of slots lost add up to the number of slots there were.
\<close>

theorem sync_slots_conserved:
  assumes "sync_reach n produce consume q0 p c l q"
  shows "p + c + l = n"
  by (rule sync_reach_conserved [OF assms])

definition demo_mutex_timeout :: sync_os where
  "demo_mutex_timeout = \<lparr>w_sem = 0, w_mutex = WAIT_TIMEOUT, rel_ok = True, rel_error = 0\<rparr>"

definition demo_produce :: "nat \<Rightarrow> (bool \<times> nat) cpp" where
  "demo_produce x = Inr (True, x + 1)"

lemma demo_lost: "sync_reach 1 demo_produce demo_produce 0 0 0 1 0"
proof -
  have acc: "SyncProducer demo_produce 10 SyncShared_new demo_mutex_timeout 0 = Inr (10, 0,
      [WaitForExistSignal SemProducer 10 0, WaitForExistSignal MutexQueue INFINITE_ms WAIT_TIMEOUT])"
    by (simp add: SyncProducer_def sync_access_def mutex_switch_def demo_mutex_timeout_def WAIT_OBJECT_0_def WAIT_TIMEOUT_def
        SyncShared_new_def)
  have "sync_reach 1 demo_produce demo_produce 0 0 0 (0 + sem_lost demo_mutex_timeout) 0"
    by (rule sync_reach.produced [OF sync_reach.start acc])
      (simp_all add: WaitForExistSignal_def takes_def WAIT_OBJECT_0_def)
  then show ?thesis
    by (simp add: sem_lost_def demo_mutex_timeout_def WAIT_OBJECT_0_def WAIT_TIMEOUT_def)
qed

theorem sync_slots_conserved_witness:
  "sync_reach 1 demo_produce demo_produce 0 0 0 1 0 \<and> 0 + 0 + 1 = (1 :: nat)"
  using sync_slots_conserved [OF demo_lost] demo_lost by simp

text \<open>
  C16. Once all slots are lost, both sides are shut out for good: no access of a producer or a consumer that
  two semaphores at 0 allow succeeds, runs its callback or changes the queue.
\<close>

theorem lost_slots_block:
  assumes "sync_reach n produce consume q0 p c l q" "l = n"
    and "access = SyncProducer produce \<or> access = SyncConsumer consume" "access ms s os q = Inr (ret, q', cs)"
    and "sem_run SemProducer n cs p = Some p'" "sem_run SemConsumer n cs c = Some c'"
  shows "ret \<noteq> 0 \<and> q' = q"
proof -
  have zero: "p = 0" "c = 0"
    using sync_reach_conserved [OF assms(1)] assms(2) by simp_all
  have "\<not> (w_sem os = WAIT_OBJECT_0 \<and> w_mutex os = WAIT_OBJECT_0)"
    using assms(3-6) zero
    by (auto simp: SyncProducer_def SyncConsumer_def sync_access_def mutex_switch_def WaitForExistSignal_def takes_def Let_def
        cbind_Inr_iff split: if_splits)
  from assms(3) show ?thesis
  proof
    assume a: "access = SyncProducer produce"
    obtain r cs1 where "SyncProducer produce ms s os q = Inr (r, q, cs1)" "r \<in> {6, 7, 8, 10}"
      using sync_access_no_entry [OF \<open>\<not> (_ \<and> _)\<close>, of SemProducer SemConsumer produce ms s q] by (auto simp: SyncProducer_def)
    then show ?thesis using assms(4) a by auto
  next
    assume a: "access = SyncConsumer consume"
    obtain r cs1 where "SyncConsumer consume ms s os q = Inr (r, q, cs1)" "r \<in> {6, 7, 8, 10}"
      using sync_access_no_entry [OF \<open>\<not> (_ \<and> _)\<close>, of SemConsumer SemProducer consume ms s q] by (auto simp: SyncConsumer_def)
    then show ?thesis using assms(4) a by auto
  qed
qed

theorem lost_slots_block_witness:
  "\<exists>ret q' cs. SyncProducer demo_produce 10 SyncShared_new (demo_mutex_timeout\<lparr>w_sem := WAIT_TIMEOUT\<rparr>) 0 = Inr (ret, q', cs)
    \<and> ret \<noteq> 0 \<and> q' = 0"
proof -
  let ?os = "demo_mutex_timeout\<lparr>w_sem := WAIT_TIMEOUT\<rparr>"
  have acc: "SyncProducer demo_produce 10 SyncShared_new ?os 0 = Inr (8, 0, [WaitForExistSignal SemProducer 10 WAIT_TIMEOUT])"
    by (simp add: SyncProducer_def sync_access_def WAIT_OBJECT_0_def WAIT_TIMEOUT_def)
  have "(8 :: int) \<noteq> 0 \<and> (0 :: nat) = 0"
    by (rule lost_slots_block [OF demo_lost refl disjI1 [OF refl] acc])
      (simp_all add: WaitForExistSignal_def takes_def WAIT_OBJECT_0_def WAIT_TIMEOUT_def)
  then show ?thesis using acc by blast
qed

text \<open>
  C17. The mutex is released exactly when its wait was satisfied by ownership, and the queue is only touched then.
\<close>

theorem mutex_released_iff_taken:
  assumes "access = SyncProducer cb \<or> access = SyncConsumer cb" "access ms s os q = Inr (ret, q', cs)"
  shows "(ReleaseMutex MutexQueue \<in> set cs) = (WaitForExistSignal MutexQueue (m_timeout_mutex s) WAIT_OBJECT_0 \<in> set cs)
    \<and> (if ReleaseMutex MutexQueue \<in> set cs then \<exists>accepted. cb q = Inr (accepted, q') else q' = q)"
  using assms
  by (auto simp: SyncProducer_def SyncConsumer_def sync_access_def mutex_switch_def WaitForExistSignal_def Let_def
      cbind_Inr_iff split: if_splits)

theorem mutex_released_iff_taken_witness:
  "\<exists>cs. SyncProducer demo_produce 10 SyncShared_new demo_sync 0 = Inr (0, 1, cs) \<and> ReleaseMutex MutexQueue \<in> set cs
    \<and> WaitForExistSignal MutexQueue INFINITE_ms WAIT_OBJECT_0 \<in> set cs"
proof -
  have acc: "SyncProducer demo_produce 10 SyncShared_new demo_sync 0 = Inr (0, 1,
      [WaitForExistSignal SemProducer 10 0, WaitForExistSignal MutexQueue INFINITE_ms 0,
       ReleaseSemaphore SemConsumer True, ReleaseMutex MutexQueue])"
    by (simp add: SyncProducer_def sync_access_def mutex_switch_def demo_sync_def WAIT_OBJECT_0_def demo_produce_def
        SyncShared_new_def)
  show ?thesis
    using mutex_released_iff_taken [OF disjI1 [OF refl] acc] acc by (simp add: SyncShared_new_def)
qed

text \<open>
  C18. When the semaphore was taken and the wait for the mutex ends in any other way - a timeout, an abandoned
  mutex, a failure - the access returns \<open>Ret_WaitForObjectFailed\<close>, never \<open>Ret_MutexTimeout\<close>, makes no further
  call and so gives back neither the semaphore slot nor, when it was abandoned, the mutex.
\<close>

theorem mutex_failure_outcome:
  assumes "w_sem os = WAIT_OBJECT_0" "w_mutex os \<notin> {WAIT_OBJECT_0, WAIT_OBJECT_0 + 1, WAIT_OBJECT_0 + 2}"
  shows "SyncProducer cb ms s os q = Inr (SyncFailedCode_int Ret_WaitForObjectFailed, q,
      [WaitForExistSignal SemProducer ms WAIT_OBJECT_0, WaitForExistSignal MutexQueue (m_timeout_mutex s) (w_mutex os)])"
  using assms by (auto simp: SyncProducer_def sync_access_def mutex_switch_def Let_def)

theorem mutex_failure_outcome_witness:
  "SyncProducer demo_produce 10 SyncShared_new (demo_mutex_timeout\<lparr>w_mutex := WAIT_ABANDONED_0\<rparr>) 0 =
    Inr (SyncFailedCode_int Ret_WaitForObjectFailed, 0,
      [WaitForExistSignal SemProducer 10 WAIT_OBJECT_0, WaitForExistSignal MutexQueue INFINITE_ms WAIT_ABANDONED_0])"
  using mutex_failure_outcome [of "demo_mutex_timeout\<lparr>w_mutex := WAIT_ABANDONED_0\<rparr>" demo_produce 10 SyncShared_new 0]
  by (simp add: demo_mutex_timeout_def WAIT_OBJECT_0_def WAIT_ABANDONED_0_def SyncShared_new_def)

text \<open>
  C19. A successful \<open>SyncClear\<close> empties the queue and sets the semaphores back to their start: the producer's
  full, the consumer's empty, whatever they were.
\<close>

theorem sync_clear_resets:
  assumes "mapped a q" "shm_inv a m" "SyncClear s os q m = Inr (0, m', cs)"
    and "n = unat (m_producer_count s)" "k = unat (m_consumer_count s)" "p \<le> n" "c \<le> k"
    and "sem_run SemProducer n cs p = Some p'" "sem_run SemConsumer k cs c = Some c'"
  shows "shm_contents a m' = [] \<and> p' = n \<and> c' = 0"
proof -
  obtain m1 where m1: "QS_Clear q m = Inr (0, m1)" "shm_contents a m1 = []"
    using QS_Clear_ok [OF assms(1,2)] by blast
  have cs: "m' = m1" "cs = WaitForExistSignal MutexQueue (m_timeout_mutex s) (clear_mutex os) # ResetSemaphore s os @ [ReleaseMutex MutexQueue]"
    using assms(3) m1 by (auto simp: SyncClear_def Let_def split: if_splits)
  have p: "sem_run SemProducer n (release_loop (release_results os) 0 n) p = Some p'"
    using assms(4,8) drain_loop_producer
    by (auto simp: cs WaitForExistSignal_def ResetSemaphore_def sem_run_append split: option.splits)
  have c: "sem_run SemConsumer k (drain_loop (wait_results os) 0 k) c = Some c'"
    using assms(5,9) release_loop_consumer
    by (auto simp: cs WaitForExistSignal_def ResetSemaphore_def sem_run_append split: option.splits)
  show ?thesis
    using release_loop_fills [OF p assms(6)] drain_loop_empties [OF c assms(7)] m1(2) cs(1) by simp
qed

definition demo_reset :: reset_os where
  "demo_reset = \<lparr>clear_mutex = 0, release_results = (\<lambda>i. i < 1), wait_results = (\<lambda>i. if i < 1 then 0 else WAIT_TIMEOUT)\<rparr>"

definition demo_sync_shared :: SyncShared where
  "demo_sync_shared = SyncShared_new\<lparr>m_queue := True, m_producer_count := 2, m_consumer_count := 2\<rparr>"

lemma loops_2:
  "release_loop rs ii 2 = ReleaseSemaphore SemProducer (rs ii) #
     (if rs ii then [ReleaseSemaphore SemProducer (rs (ii + 1))] else [])"
  "drain_loop ws ii 2 = WaitSingle SemConsumer 0 (ws ii) #
     (if ws ii = WAIT_OBJECT_0 then [WaitSingle SemConsumer 0 (ws (ii + 1))] else [])"
  by (simp_all add: numeral_2_eq_2)

theorem sync_clear_resets_witness: "\<exists>m' cs. SyncClear demo_sync_shared demo_reset demo_queue demo_shm = Inr (0, m', cs)
    \<and> shm_contents 0 m' = [] \<and> sem_run SemProducer 2 cs 1 = Some 2 \<and> sem_run SemConsumer 2 cs 1 = Some 0"
proof -
  obtain m1 where m1: "QS_Clear demo_queue demo_shm = Inr (0, m1)"
    using QS_Clear_ok [OF demo_mapped demo_shm_inv(1)] by blast
  define cs where "cs = [WaitForExistSignal MutexQueue INFINITE_ms 0, ReleaseSemaphore SemProducer True,
    ReleaseSemaphore SemProducer False, WaitSingle SemConsumer 0 0, WaitSingle SemConsumer 0 WAIT_TIMEOUT, ReleaseMutex MutexQueue]"
  have r: "SyncClear demo_sync_shared demo_reset demo_queue demo_shm = Inr (0, m1, cs)"
  proof -
    have "ResetSemaphore demo_sync_shared demo_reset = [ReleaseSemaphore SemProducer True,
        ReleaseSemaphore SemProducer False, WaitSingle SemConsumer 0 0, WaitSingle SemConsumer 0 WAIT_TIMEOUT]"
      by (simp add: ResetSemaphore_def demo_sync_shared_def demo_reset_def WAIT_OBJECT_0_def WAIT_TIMEOUT_def loops_2)
    then show ?thesis
      using m1 by (simp add: SyncClear_def demo_sync_shared_def demo_reset_def SyncShared_new_def WAIT_OBJECT_0_def cs_def)
  qed
  have t: "sem_run SemProducer 2 cs 1 = Some 2" "sem_run SemConsumer 2 cs 1 = Some 0"
    by (simp_all add: cs_def WaitForExistSignal_def takes_def WAIT_OBJECT_0_def WAIT_TIMEOUT_def)
  have "shm_contents 0 m1 = [] \<and> (2 :: nat) = 2 \<and> (0 :: nat) = 0"
    by (rule sync_clear_resets [OF demo_mapped demo_shm_inv(1) r, of 2 2 1 1]) (simp_all add: demo_sync_shared_def t [unfolded One_nat_def])
  then show ?thesis using r t by blast
qed

text \<open>
  C20. Both ends of a queue work with the counts of whoever activates first: the second \<open>Activate\<close> takes them
  from the shared memory, whatever counts it was asked for.
\<close>

theorem activate_agree:
  assumes "mapped a (ap_queue ap1)" "mapped a (ap_queue ap2)" "shm_inv a m" "shm_user a m = replicate 32 0"
    and "producer_count ap1 \<noteq> 0" "consumer_count ap1 \<noteq> 0" "all_ok os1" "all_ok os2"
  shows "\<exists>s1 m1 cs1 s2 m2 cs2. Sync_Activate os1 ap1 s m = Inr (0, s1, m1, cs1) \<and> Sync_Activate os2 ap2 s' m1 = Inr (0, s2, m2, cs2)
    \<and> GetProducerCount s1 = producer_count ap1 \<and> GetConsumerCount s1 = consumer_count ap1
    \<and> GetProducerCount s2 = producer_count ap1 \<and> GetConsumerCount s2 = consumer_count ap1"
proof -
  obtain m1 where w: "WriteSharedMemoryInfo ap1 (ap_queue ap1) m = Inr (0, m1)" "shm_inv a m1"
    "shm_user a m1 = user_info (producer_count ap1) (consumer_count ap1)"
    using WriteSharedMemoryInfo_ok [OF assms(1,3)] by blast
  obtain s1 cs1 where a1: "Sync_Activate os1 ap1 s m = Inr (0, s1, m1, cs1)" "m_producer_count s1 = producer_count ap1"
    "m_consumer_count s1 = consumer_count ap1"
    using Sync_Activate_ok [OF assms(1,3,7) ReadSharedMemoryInfo_zero [OF assms(1,3,4)], of m1 s] w(1) by auto
  have r2: "ReadSharedMemoryInfo ap2 (ap_queue ap2) m1 =
      Inr (0, ap2\<lparr>producer_count := producer_count ap1, consumer_count := consumer_count ap1\<rparr>)"
    using ReadSharedMemoryInfo_user [OF assms(2) w(2,3)] assms(5,6) by simp
  obtain s2 cs2 where "Sync_Activate os2 ap2 s' m1 = Inr (0, s2, m1, cs2)" "m_producer_count s2 = producer_count ap1"
    "m_consumer_count s2 = consumer_count ap1"
    using Sync_Activate_ok [OF assms(2) w(2) assms(8) r2, of m1 s'] by auto
  then show ?thesis
    using a1 by (auto simp: GetProducerCount_def GetConsumerCount_def)
qed

definition demo_all_ok :: create_os where
  "demo_all_ok = \<lparr>sem_producer_ok = True, sem_consumer_ok = True, mutex_ok = True, exit_ok = True, unlock_ok = True\<rparr>"

definition demo_param :: "u32 \<Rightarrow> ActivateParam" where
  "demo_param n = \<lparr>producer_count = n, consumer_count = n, ap_queue = demo_queue\<rparr>"

theorem activate_agree_witness:
  "\<exists>s1 m1 cs1 s2 m2 cs2. Sync_Activate demo_all_ok (demo_param 100) SyncShared_new demo_shm = Inr (0, s1, m1, cs1)
    \<and> Sync_Activate demo_all_ok (demo_param 7) SyncShared_new m1 = Inr (0, s2, m2, cs2) \<and> GetProducerCount s2 = 100"
proof -
  have "\<exists>s1 m1 cs1 s2 m2 cs2. Sync_Activate demo_all_ok (demo_param 100) SyncShared_new demo_shm = Inr (0, s1, m1, cs1)
      \<and> Sync_Activate demo_all_ok (demo_param 7) SyncShared_new m1 = Inr (0, s2, m2, cs2)
      \<and> GetProducerCount s1 = producer_count (demo_param 100) \<and> GetConsumerCount s1 = consumer_count (demo_param 100)
      \<and> GetProducerCount s2 = producer_count (demo_param 100) \<and> GetConsumerCount s2 = consumer_count (demo_param 100)"
    by (rule activate_agree [where a = 0]) (simp_all add: demo_mapped demo_shm_inv all_ok_def demo_all_ok_def demo_param_def)
  moreover have "producer_count (demo_param 100) = 100" by (simp add: demo_param_def)
  ultimately show ?thesis by auto
qed

text \<open>
  The names of the three kernel objects of a queue are different exactly for queue names of at most
  124 characters: a longer name gives a semaphore and the mutex, or both semaphores, the same name.
\<close>

theorem object_names_distinct_iff:
  assumes "CHR 0x00 \<notin> set name"
  shows "distinct [object_name name ''-SamaphoreProducer'', object_name name ''-SemaphoreConsumer'', object_name name ''-Mutex'']
    = (length name \<le> 124)"
proof (cases "length name \<le> 124")
  case True
  then have len: "127 - length name = Suc (Suc (Suc (124 - length name)))" by simp
  show ?thesis
    using True by (simp add: object_name_char [OF assms] len)
next
  case False
  have "127 - length name \<le> 2" using False by simp
  then have "127 - length name = 0 \<or> 127 - length name = Suc 0 \<or> 127 - length name = Suc (Suc 0)"
    by linarith
  then have "take (127 - length name) ''-SamaphoreProducer'' = take (127 - length name) ''-SemaphoreConsumer''"
    by auto
  then show ?thesis
    using False by (simp add: object_name_char [OF assms])
qed

theorem object_names_distinct_iff_witness:
  "\<not> distinct [object_name (replicate 125 CHR ''q'') ''-SamaphoreProducer'', object_name (replicate 125 CHR ''q'') ''-SemaphoreConsumer'',
     object_name (replicate 125 CHR ''q'') ''-Mutex'']"
  using object_names_distinct_iff [of "replicate 125 CHR ''q''"] by simp

section \<open>Packets\<close>

text \<open>
  C21. Writing a packet leaves the buffer, in \<open>End\<close>, exactly when fewer than four bytes are left after the
  blocks: \<open>End\<close> writes its mark without making room for it.
\<close>

theorem write_packet_overflow_iff:
  assumes "m_buffer w = Some b" "length name + 9 \<le> start_size b" "\<forall>x \<in> set bl. block_len x < 2 ^ 32"
  shows "(write_packet name bl w = Inl OutOfBounds) = (room_after (start_size b - (length name + 9)) bl < 4)"
  using write_packet_result [OF assms] by (auto split: if_splits)

theorem write_packet_overflow_iff_witness:
  "write_packet ''N'' [(''D'', replicate 1006 0)] (CPacketWriter_new 0 (Some [])) = Inl OutOfBounds"
  using write_packet_overflow_iff [of "CPacketWriter_new 0 (Some [])" "[]" "''N''" "[(''D'', replicate 1006 0)]"]
  by (simp add: CPacketWriter_new_def start_size_def block_len_def)

text \<open>
  C22. A packet that is well formed up to a block whose length field is 0 is never analysed: if a colon follows
  anywhere behind the first byte of that block's name, in the packet or in the memory after it,
  \<open>DoAnalyze\<close> stays at the block for ever; otherwise it reads past the end of the memory. The bytes after the length field
  (\<open>rest\<close>) and after the packet (\<open>post\<close>) are any bytes, and any number of good blocks may stand before it.
\<close>

theorem zero_block_hangs:
  assumes "main_name_ok name" "\<forall>b \<in> set bs. block_name_ok (fst b)"
    and "n = length (framed n name (blocks_bytes bs @ le_bytes 4 0 @ rest))" "n < 2 ^ 31"
  shows "DoAnalyze (framed n name (blocks_bytes bs @ le_bytes 4 0 @ rest) @ post) (int n) r =
    (if GetBlockDataDelimiter \<in> set (tl (rest @ m_etx @ post)) then None else Some (Inl OutOfBounds))"
proof -
  let ?pre = "m_stx @ le_bytes 4 n @ str_bytes name @ [GetStartBlockDelimiter]"
  let ?post = "le_bytes 4 0 @ rest @ m_etx @ post"
  let ?m = "framed n name (blocks_bytes bs @ le_bytes 4 0 @ rest) @ post"
  let ?q = "length ?pre + length (blocks_bytes bs)"
  have m: "?m = ?pre @ blocks_bytes bs @ ?post" by (simp add: framed_def)
  have n: "n = length name + 17 + length (blocks_bytes bs) + length rest"
    using assms(3) by simp
  have e: "c_int (int n - 4) = int n - 4"
    using assms(4) c_int_end [of n] by (auto simp del: of_nat_add)
  have p: "9 + int (length name) = int (length ?pre)" by (simp add: m_stx_def)
  obtain its where "analyze_blocks ?m (int n - 4) (9 + int (length name)) [] = analyze_blocks ?m (int n - 4) (int ?q) its"
    using analyze_blocks_prefix [OF assms(2), of ?pre "int n - 4" ?post "[]"] assms(4) n
    unfolding m p by (auto simp: m_stx_def)
  also have "\<dots> = (if GetBlockDataDelimiter \<in> set (tl (rest @ m_etx @ post)) then None else Some (Inl OutOfBounds))"
    using analyze_blocks_zero_at [of "int ?q" "?pre @ blocks_bytes bs" "int n - 4" "rest @ m_etx @ post" its] assms(4) n
    unfolding m by (simp add: m_stx_def)
  finally show ?thesis
    using DoAnalyze_framed [of name n "blocks_bytes bs @ le_bytes 4 0 @ rest" post r] assms(1,4)
    unfolding assms(3) [symmetric] e by (simp del: length_framed split: if_splits)
qed

theorem zero_block_hangs_witness:
  "DoAnalyze (framed 21 ''X'' (le_bytes 4 0 @ [65, GetBlockDataDelimiter, 66])) (int 21) CPacketReader_new = None
   \<and> DoAnalyze (framed 19 ''X'' (le_bytes 4 0 @ [65])) (int 19) CPacketReader_new = Some (Inl OutOfBounds)"
  using zero_block_hangs [of "''X''" "[]" 21 "[65, GetBlockDataDelimiter, 66]" "[]" CPacketReader_new]
    zero_block_hangs [of "''X''" "[]" 19 "[65]" "[]" CPacketReader_new]
  by (simp add: main_name_ok_def m_etx_def GetBlockDataDelimiter_def char_byte_def)

text \<open>
  C23. On a packet with its two marks and a name, whatever its length field and the bytes of its body are,
  \<open>DoAnalyze\<close> does what the reference parser says, which always ends: it returns exactly the blocks the parser
  finds; it reads past the end of the memory where the parser comes to a block without a colon; and it does not
  return where the parser comes back to an offset it has been at. There is no other way for the loop to go on.
\<close>

theorem analyze_reference:
  assumes "main_name_ok name" "n < 2 ^ 32" "length (framed n name body @ post) < 2 ^ 31"
  shows "DoAnalyze (framed n name body @ post) (int (length (framed n name body))) r =
    (case ref_blocks (framed n name body @ post) (if n < 2 ^ 31 + 4 then int n - 4 else int n - 4 - 2 ^ 32)
        (9 + int (length name)) [] of
       Loops \<Rightarrow> None
     | Overruns \<Rightarrow> Some (Inl OutOfBounds)
     | Items its \<Rightarrow> Some (Inr (0, r\<lparr>m_main_name := name, m_block_items := its\<rparr>)))"
proof -
  have "length (framed n name body) < 2 ^ 31"
    using assms(3) by simp
  then show ?thesis
    unfolding DoAnalyze_framed [OF assms(1,2) \<open>length (framed n name body) < 2 ^ 31\<close>] c_int_end [OF assms(2)]
    using analyze_blocks_reference [where seen = "[]" and m = "framed n name body @ post"] assms(3)
    by (simp split: ref_result.splits)
qed

theorem analyze_reference_witness:
  "DoAnalyze (framed 31 ''X'' [11, 0, 0, 0, 65, 58, 1, 2, 3, 4, 5, 0xF5, 0xFF, 0xFF, 0xFF, 66, 58]) 31 CPacketReader_new = None"
proof -
  let ?b = "[11, 0, 0, 0, 65, 58, 1, 2, 3, 4, 5, 0xF5, 0xFF, 0xFF, 0xFF, 66, 58]"
  have m: "framed 31 ''X'' ?b = [16,32,48,64,31,0,0,0,88,0] @ ?b @ m_etx"
    by (simp add: framed_def m_stx_def m_etx_def char_byte_def str_bytes_def GetStartBlockDelimiter_def le_bytes_4)
  have one: "block_at (framed 31 ''X'' ?b) 10 = Some (11, [65])"
    by (simp add: m block_at_def m_etx_def char_byte_def)
  have two: "block_at (framed 31 ''X'' ?b) 21 = Some (4294967285, [66])"
    by (simp add: m block_at_def m_etx_def char_byte_def)
  have "ref_blocks (framed 31 ''X'' ?b) 27 10 [] = Loops"
    using one two by (simp add: ref_blocks.simps)
  then show ?thesis
    using analyze_reference [of "''X''" 31 ?b "[]" CPacketReader_new] by (simp add: main_name_ok_def)
qed
section \<open>Hostile bytes and failing calls\<close>

text \<open>
  C24. Whatever bytes are in the shared queue, the receiver's callback stays inside its memory: it returns, and
  it has either left the queue alone or removed a positive number of bytes from its head.
\<close>

theorem consumer_safe:
  assumes "mapped a q" "shm_inv a m" "8 \<le> length buf"
  shows "\<exists>ok buf' q' m'. CallbackConsumer (buf, q, m) = Inr (ok, buf', q', m') \<and> mapped a q' \<and> shm_inv a m' \<and> 8 \<le> length buf'
    \<and> (if ok then \<exists>n > 0. n \<le> length (shm_contents a m) \<and> shm_contents a m' = drop n (shm_contents a m) else m' = m)"
proof -
  obtain ok buf' q' m' where r: "CallbackConsumer (buf, q, m) = Inr (ok, buf', q', m')" "mapped a q'" "shm_inv a m'" "8 \<le> length buf'"
    "if ok then \<exists>n. 0 < n \<and> n \<le> length (shm_contents a m) \<and> shm_contents a m' = drop n (shm_contents a m) else m' = m"
    using CallbackConsumer_safe [OF assms] by blast
  then show ?thesis by auto
qed

definition garbage_shm :: shm where
  "garbage_shm = (\<lambda>a. Some \<lparr>so_info = \<lparr>tail = 20, head = 0, queue_size = 200, use_size = 20\<rparr>,
     m_user_space = replicate 32 0, so_buffer = replicate 200 7\<rparr>)"

lemma garbage_shm_facts: "shm_inv a garbage_shm" "take 4 (shm_contents a garbage_shm) \<noteq> m_stx"
proof -
  show "shm_inv a garbage_shm"
    by (simp add: shm_inv_def garbage_shm_def ring_inv_def)
  have "shm_contents a garbage_shm = replicate 20 7"
    by (simp add: shm_contents_def garbage_shm_def ring_contents_def)
  then have "hd (take 4 (shm_contents a garbage_shm)) = 7" by simp
  moreover have "hd m_stx \<noteq> 7" by (simp add: m_stx_def)
  ultimately show "take 4 (shm_contents a garbage_shm) \<noteq> m_stx" by metis
qed

theorem consumer_safe_witness:
  "\<exists>ok buf' q' m'. CallbackConsumer (replicate 8 0, demo_queue, garbage_shm) = Inr (ok, buf', q', m') \<and> shm_inv 0 m'"
  using consumer_safe [OF demo_mapped garbage_shm_facts(1), of "replicate 8 0"] by auto

text \<open>
  C25. When the bytes at the head of the queue are not the start of a packet, the receiver never gets past them:
  no number of turns of \<open>ThreadLoop\<close> delivers anything or changes the queue.
\<close>

theorem garbage_blocks_for_ever:
  assumes "receiver_ok a r" "shm_inv a m" "take 4 (shm_contents a m) \<noteq> m_stx"
  shows "\<exists>ctl r'. ThreadLoop_turns oss r m = Some (Inr (ctl, r', m, [])) \<and> receiver_ok a r'"
  by (rule ThreadLoop_turns_stuck [OF assms])

theorem garbage_blocks_for_ever_witness:
  "\<exists>ctl r'. ThreadLoop_turns [demo_turn, demo_turn] demo_receiver garbage_shm = Some (Inr (ctl, r', garbage_shm, []))"
  using garbage_blocks_for_ever [OF demo_workers(2) garbage_shm_facts] by blast

text \<open>
  C26. A message is lost when the receiver takes it from the queue and the release of the producer's semaphore
  fails: the turn removes it and calls no callback.
\<close>

theorem message_dropped:
  assumes "receiver_ok a r" "has_callback_reader r" "shm_inv a m" "shm_contents a m = wire (x # ps)" "receivable x"
    and "running os" "turn_admitted os" "\<not> slot_released (turn_sync os)"
  shows "\<exists>r' m' cs. ThreadLoop_turn os r m = Some (Inr (LoopContinue, r', m', [], cs)) \<and> shm_contents a m' = wire ps"
  using ThreadLoop_turn_msg [OF assms(1-7)] assms(8) by auto

theorem message_dropped_witness:
  "\<exists>m r' m' cs. shm_contents 0 m = wire [(demo_message, [])]
    \<and> ThreadLoop_turn (demo_turn\<lparr>turn_sync := demo_sync\<lparr>rel_ok := False, rel_error := 6\<rparr>\<rparr>) demo_receiver m
        = Some (Inr (LoopContinue, r', m', [], cs)) \<and> shm_contents 0 m' = []"
proof -
  obtain m where m: "shm_inv 0 m" "shm_contents 0 m = wire [(demo_message, [])]"
    using demo_sent by blast
  let ?os = "demo_turn\<lparr>turn_sync := demo_sync\<lparr>rel_ok := False, rel_error := 6\<rparr>\<rparr>"
  have "\<exists>r' m' cs. ThreadLoop_turn ?os demo_receiver m = Some (Inr (LoopContinue, r', m', [], cs)) \<and> shm_contents 0 m' = wire []"
    by (rule message_dropped [OF demo_workers(2,3) m demo_fits(1)])
      (simp_all add: demo_turn_def turn_admitted_def admitted_def demo_sync_def slot_released_def WAIT_OBJECT_0_def ERROR_TOO_MANY_POSTS_def)
  then show ?thesis
    using m(2) by auto
qed

section \<open>Values in packets\<close>

text \<open>
  C27. Numbers in a packet: \<open>Read\<close> gives back the number whose decimal digits the block holds exactly when it
  fits an \<open>int\<close>; the unsigned and the 64-bit overloads also throw \<open>std::out_of_range\<close> on all others, which
  their writers accept.
\<close>

theorem number_read_back:
  assumes "items_of packet (m_block_items r) bs" "map_of bs name = Some (str_bytes (to_string v))"
  shows "Read_int32 packet r name d1 = (if int32_range v then Inr (0, v) else Inl StdOutOfRange)
    \<and> Read_uint32 packet r name d2 = (if int32_range v then Inr (0, word_of_int v) else Inl StdOutOfRange)
    \<and> Read_int64 packet r name d3 = (if int32_range v then Inr (0, word_of_int v) else Inl StdOutOfRange)
    \<and> Read_uint64 packet r name d4 = (if int32_range v then Inr (0, word_of_int v) else Inl StdOutOfRange)"
  using assms(2)
  by (simp add: Read_int32_def Read_uint32_def Read_int64_def Read_uint64_def Read_conv_items_of [OF assms(1)] stoi_to_string)

definition demo_number_blocks :: "block list" where
  "demo_number_blocks = [(''N'', str_bytes (to_string 3000000000)), (''N'', str_bytes (to_string 5))]"

theorem number_read_back_witness:
  "Read_uint32 (blocks_bytes demo_number_blocks) (CPacketReader_new\<lparr>m_block_items := items_at 0 demo_number_blocks\<rparr>) ''N'' 0
    = Inl StdOutOfRange"
proof -
  let ?r = "CPacketReader_new\<lparr>m_block_items := items_at 0 demo_number_blocks\<rparr>"
  have "items_of (blocks_bytes demo_number_blocks) (m_block_items ?r) demo_number_blocks"
    using items_of_packet [of 0 "[]" demo_number_blocks "[]"] by simp
  moreover have "map_of demo_number_blocks ''N'' = Some (str_bytes (to_string 3000000000))"
    by (simp add: demo_number_blocks_def)
  ultimately show ?thesis
    using number_read_back by (fastforce simp: int32_range_def)
qed

section \<open>Local memory\<close>

text \<open>
  \<open>SetData\<close> of the local queue: a range that ends at the end of the buffer is refused, and a range whose end
  wraps around 32 bits passes the check and is written outside the buffer.
\<close>

theorem local_set_data_check:
  assumes "ql_inv q" "unat len \<le> length data"
  shows "(if unat (queue_size (ql_info q)) \<le> unat (pos + len) then QL_SetData pos data len q = Inr (6, q)
    else if unat pos + unat len < 2 ^ 32 then \<exists>buf. ql_buffer q = Some buf \<and> QL_SetData pos data len q = Inr (0, q\<lparr>ql_buffer :=
        Some (take (unat pos) buf @ take (unat len) data @ drop (unat pos + unat len) buf)\<rparr>)
    else QL_SetData pos data len q = Inl OutOfBounds)"
  using QL_SetData_cases [OF assms, of pos] by simp

theorem local_set_data_check_witness:
  "QL_SetData 4 [1, 2] 2 demo_local = Inr (6, demo_local) \<and> QL_SetData 0xFFFFFFFF [1, 2] 2 demo_local = Inl OutOfBounds"
proof -
  have "QL_SetData 4 [1, 2] 2 demo_local = Inr (6, demo_local)"
    using local_set_data_check [OF demo_local_facts(1), where len = 2 and data = "[1, 2]" and pos = 4] by (simp add: demo_local_def)
  moreover have "QL_SetData 0xFFFFFFFF [1, 2] 2 demo_local = Inl OutOfBounds"
    using local_set_data_check [OF demo_local_facts(1), where len = 2 and data = "[1, 2]" and pos = "0xFFFFFFFF"] by (simp add: demo_local_def)
  ultimately show ?thesis by blast
qed

text \<open>
  A second \<open>Initialize\<close> of the local queue allocates a new buffer and keeps the old positions: after one with a
  buffer shorter than the old write position, the next \<open>Push\<close> that its check lets through is out of bounds.
\<close>

theorem local_reinitialize_stale:
  assumes "0 < unat len" "unat len < 2 ^ 31" "unat len < unat (tail (ql_info q))" "use_size (ql_info q) = 0" "0 < unat n" "unat n < unat len"
    and "unat n \<le> length data"
  shows "\<exists>q'. QL_Initialize junk name len q = Inr (0, q') \<and> QL_Push data n q' = Inl OutOfBounds"
proof -
  let ?t = "tail (ql_info q)"
  obtain q' where q': "QL_Initialize junk name len q = Inr (0, q')" "ql_info q' = (ql_info q)\<lparr>queue_size := len\<rparr>"
    "ql_buffer q' = Some (map junk [0..<unat len])"
    using QL_Initialize_keeps [OF assms(1,2)] by blast
  have fits: "\<not> n > QL_GetFreeSize q'"
  proof -
    have "unat (len - 1) = unat len - 1" using assms(1) by (simp add: unat_diff_le word_le_nat_alt Suc_le_eq)
    then show ?thesis
      using assms(4,6) by (simp add: QL_GetFreeSize_def QL_GetQueueSize_def QL_GetUseSize_def q' word_less_nat_alt)
  qed
  have out: "wr (map junk [0..<unat len]) (unat ?t) d = Inl OutOfBounds" for d
    using assms(3) by (simp add: wr_def)
  have "ring_push ((ql_info q)\<lparr>queue_size := len\<rparr>) (map junk [0..<unat len]) data n = Inl OutOfBounds"
  proof (cases "len - ?t < n")
    case True
    then have "unat (len - ?t) \<le> length data" using assms(7) by (simp add: word_less_nat_alt)
    then show ?thesis using True by (simp add: ring_push_def Let_def rd_n_def out)
  next
    case False
    then show ?thesis using assms(7) by (simp add: ring_push_def Let_def rd_n_def out)
  qed
  then show ?thesis
    using q' fits by (simp add: QL_Push_def)
qed

theorem local_reinitialize_stale_witness:
  "\<exists>q'. QL_Initialize (\<lambda>i. 0) ''q'' 3 (demo_local\<lparr>ql_info := \<lparr>tail = 5, head = 5, queue_size = 6, use_size = 0\<rparr>\<rparr>) = Inr (0, q')
    \<and> QL_Push [9] 1 q' = Inl OutOfBounds"
  by (rule local_reinitialize_stale) simp_all

section \<open>Send workers\<close>

text \<open>
  C28. Over any sequence of the manager's operations, whatever the calls return, no two workers serve the same queue.
\<close>

theorem manager_names_distinct:
  assumes "manager_step\<^sup>*\<^sup>* [] items"
  shows "distinct (map item_name items)"
  using manager_reach_distinct [OF assms] by (simp add: names_def)

definition demo_env :: map_env where
  "demo_env = \<lparr>OpenFileMappingA = (\<lambda>n. Inl 0), CreateFileMappingA = (\<lambda>n k. Inr 5), MapViewOfFile = Inl\<rparr>"

theorem manager_names_distinct_witness:
  "\<exists>items. manager_step\<^sup>*\<^sup>* [] items \<and> map item_name items = [''q1''] \<and> distinct (map item_name items)"
proof -
  obtain w m' where w: "InsertSendWork demo_env demo_all_ok 0 ''q1'' 100 [] demo_shm
      = Inr (0, [(SendWorkInfo_new 0)\<lparr>send_worker := w\<rparr>], m')" "SendWorker_GetQueueName w = ''q1''"
    using InsertSendWork_ok [of demo_env "''q1''" 0 0 demo_shm demo_all_ok "[]" 0 100]
    by (auto simp: demo_env_def demo_shm_inv all_ok_def demo_all_ok_def names_def)
  have step: "manager_step\<^sup>*\<^sup>* [] [(SendWorkInfo_new 0)\<lparr>send_worker := w\<rparr>]"
    using m_insert [OF w(1)] by blast
  show ?thesis
    using manager_names_distinct [OF step] step w(2) by (intro exI [of _ "[(SendWorkInfo_new 0)\<lparr>send_worker := w\<rparr>]"]) (simp add: item_name_def)
qed

text \<open>
  C29. The frame type a client asked for is used as an index without a check. With workers and pictures that are
  otherwise in order, \<open>SendFrame\<close> leaves the frame arrays exactly when one of the workers of the list, at
  any place in it, streams this stream with a frame type that is neither -1, which is passed over, nor in
  \<open>0..2\<close>. In every other case it returns.
\<close>

theorem send_frame_bad_type:
  assumes "senders_ready items m" "pictures_ok guid si data" "rooms_ok guid si data items"
  shows "if \<exists>item \<in> set items. wi_video_streaming item \<and> stream_index item = si \<and> frame_type item \<noteq> -1
        \<and> (frame_type item < 0 \<or> 2 < frame_type item)
    then SendFrame guid si data os items m = Inl OutOfBounds
    else \<exists>x. SendFrame guid si data os items m = Inr x"
proof (cases "types_ok si items")
  case True
  then have "\<not> (\<exists>item \<in> set items. wi_video_streaming item \<and> stream_index item = si \<and> frame_type item \<noteq> -1
        \<and> (frame_type item < 0 \<or> 2 < frame_type item))"
    by (auto simp: types_ok_def wants_frame_def FT_NUM_def)
  moreover obtain x where "SendFrame guid si data os items m = Inr x"
    using SendFrame_ok [OF assms(1,2) True assms(3)] by blast
  ultimately show ?thesis by (simp only: if_False) blast
next
  case False
  have "\<exists>item \<in> set items. wants_frame si item \<and> \<not> (0 \<le> frame_type item \<and> frame_type item < int FT_NUM)"
    using False by (auto simp: types_ok_def)
  from split_list_first_prop [OF this] obtain pre item rest where i: "items = pre @ item # rest"
      "wants_frame si item" "\<not> (0 \<le> frame_type item \<and> frame_type item < int FT_NUM)" "types_ok si pre"
    by (auto simp: types_ok_def)
  have "senders_ready pre m" "rooms_ok guid si data pre"
    using assms(1,3) i(1) by (auto simp: senders_ready_def rooms_ok_def)
  then obtain x where "SendFrame guid si data os pre m = Inr x"
    using SendFrame_ok [OF _ assms(2) i(4)] by blast
  with i assms(2) have "SendFrame guid si data os items m = Inl OutOfBounds"
    by (auto simp: wants_frame_def pictures_ok_def intro!: SendFrame_bad)
  moreover have "item \<in> set items" using i(1) by simp
  ultimately show ?thesis
    using i(2,3) by (auto simp: wants_frame_def FT_NUM_def)
qed

theorem send_frame_bad_type_witness:
  "SendFrame [] 0 dl_data (\<lambda>i. dl_sync) (SetFrameInfo_loop ''Q'' 7 0 True dl_items) dl_shm = Inl OutOfBounds"
proof -
  have k: "others_kept 0 dl_shm dl_shm" by simp
  note cl = dl_clients [OF k]
  have mgr: "m_send_manager dl_camera = dl_items" by (simp add: dl_camera_def)
  have nm: "item_name (dl_items ! 0) = ''Q''" "length dl_items = 1" using cl(6) mgr by (simp_all add: dl_items_def)
  let ?items = "SetFrameInfo_loop ''Q'' 7 0 True dl_items"
  have it: "?items = [(dl_items ! 0)\<lparr>frame_type := 7, stream_index := 0, wi_video_streaming := True\<rparr>]"
    using nm by (simp add: dl_items_def)
  have h: "senders_ready ?items dl_shm" "rooms_ok [] 0 dl_data ?items"
    using cl dl_pictures mgr by (simp_all add: SetFrameInfo_loop_ready) (simp_all add: it rooms_ok_def dl_items_def)
  show ?thesis
    using send_frame_bad_type [OF h(1) dl_pictures(1) h(2), of "\<lambda>i. dl_sync"] by (simp add: it)
qed

section \<open>Command line, strings\<close>

text \<open>
  The map of a command line of \<open>-key:value\<close> arguments gives each key, in upper case, the value of its last argument.
\<close>

theorem command_line_last_wins:
  assumes "\<forall>(key, val) \<in> set kvs. CHR '':'' \<notin> set key"
  shows "m_mapItem (parse_params (map (\<lambda>(key, val). cmd_arg (CHR ''-'') key val) kvs) c) =
    m_mapItem c ++ map_of (rev (map (\<lambda>(key, val). (map to_upper key, val)) kvs))"
  by (rule parse_cmd_args [OF assms])

theorem command_line_last_wins_witness:
  "m_mapItem (parse_params (map (\<lambda>(key, val). cmd_arg (CHR ''-'') key val) [(''rtsp'', ''a:1''), (''RTSP'', ''b'')]) CmdLineParser_new) ''RTSP''
    = Some ''b''"
proof -
  have "m_mapItem (parse_params (map (\<lambda>(key, val). cmd_arg (CHR ''-'') key val) [(''rtsp'', ''a:1''), (''RTSP'', ''b'')]) CmdLineParser_new) =
      m_mapItem CmdLineParser_new ++ map_of (rev (map (\<lambda>(key, val). (map to_upper key, val)) [(''rtsp'', ''a:1''), (''RTSP'', ''b'')]))"
    by (rule command_line_last_wins) simp
  then show ?thesis
    by (simp add: to_upper_def)
qed

text \<open>
  C38. \<open>replace_all\<close> replaces the occurrences of a pattern from left to right, without looking again at what it
  inserted; with an empty pattern it does not return.
\<close>

theorem replace_all_correct: "replace_all message pat rep = (if pat = [] then None else Some (subst_all pat rep message))"
  using replace_loop_subst [of pat rep "[]" message] replace_loop_empty [of 0 message rep] by (simp add: replace_all_def)

text \<open>
  \<open>split_string\<close> appends the pieces between the separators: none contains the separator, and joined with it
  they are the string. With an empty separator it does not return.
\<close>

theorem split_string_correct:
  "if sep = [] then split_string str sep out = None
   else \<exists>ps. split_string str sep out = Some (0, out @ ps) \<and> ps \<noteq> [] \<and> join sep ps = str
     \<and> list_all (\<lambda>p. \<not> (\<exists>j. matches_at p sep j)) ps"
proof (cases "sep = []")
  case True
  then show ?thesis using split_loop_empty [of 0 str 0 out] by (simp add: split_string_def)
next
  case False
  obtain ps where "split_loop str sep 0 0 out = Some (out @ ps)" "ps \<noteq> []" "join sep ps = drop 0 str"
    "\<forall>p \<in> set ps. \<forall>j. \<not> matches_at p sep j"
    using split_loop_pieces [OF False, of str 0 out] by blast
  then show ?thesis using False by (simp add: split_string_def list_all_iff)
qed

section \<open>Timers\<close>

text \<open>
  Creating a timer takes the first free entry of the table, leaves the others alone, and an event of that entry
  calls the new function with its id and pointer; with all entries in use the entry past the end is written.
\<close>

theorem create_timer_slot:
  assumes "hTimer \<noteq> 0"
  shows "if list_all timer_used ts then Winmm_CreateTimer hTimer param ts = Inl OutOfBounds
    else \<exists>i ts' cs. Winmm_CreateTimer hTimer param ts = Inr (0, int i, ts', cs) \<and> i < length ts \<and> i \<notin> timers_used ts
      \<and> timers_used ts' = insert i (timers_used ts) \<and> length ts' = length ts \<and> list_update ts i (ts' ! i) = ts'
      \<and> Timer_CallBack (int i) ts' = Inr (map_option (\<lambda>f. (f, int i, timer_ptr param)) (timer_func param))"
proof (cases "list_all timer_used ts")
  case True
  then show ?thesis using Winmm_CreateTimer_full [OF True assms] by simp
next
  case False
  obtain i ts' where t: "Winmm_CreateTimer hTimer param ts = Inr (0, int i, ts', [TimeBeginPeriod 1, TimeSetEvent (timer_ms param) 1 (int i)])"
    "i < length ts" "i \<notin> timers_used ts" "timers_used ts' = insert i (timers_used ts)" "length ts' = length ts"
    "\<forall>j. j \<noteq> i \<longrightarrow> ts' ! j = ts ! j"
    "Timer_CallBack (int i) ts' = Inr (map_option (\<lambda>f. (f, int i, timer_ptr param)) (timer_func param))"
    using Winmm_CreateTimer_ok [OF False assms, of param] by blast
  moreover have "list_update ts i (ts' ! i) = ts'"
    using t(2,5,6) by (intro nth_equalityI) (auto simp: nth_list_update)
  ultimately show ?thesis using False by auto
qed

theorem create_timer_slot_witness:
  "Winmm_CreateTimer 1 ParamTimer_new (replicate 64 (ParamTimer_new\<lparr>timer_used := True\<rparr>)) = (Inl OutOfBounds :: (_ \<times> _ \<times> nat ParamTimer list \<times> _) cpp)"
  using create_timer_slot [of 1 "replicate 64 (ParamTimer_new\<lparr>timer_used := True\<rparr>)" "ParamTimer_new :: nat ParamTimer"]
  by (simp add: list_all_iff)

text \<open>
  \<open>DeleteTimerAll\<close> leaves no timer in use, and makes two system calls for each one that was.
\<close>

theorem delete_timer_all:
  "timers_used (fst (snd (DeleteTimerAll ts))) = {} \<and> length (snd (snd (DeleteTimerAll ts))) = 2 * card (timers_used ts)"
proof -
  have e: "snd (DeleteTimerAll ts) = DeleteTimerAll_loop (length ts) 0 ts"
    by (simp add: DeleteTimerAll_def split: prod.splits)
  show ?thesis
    using DeleteTimerAll_loop_used [of 0 "length ts" ts] unfolding e by simp
qed

text \<open>
  A locker of a list with period \<open>d\<close> is woken once for each full period of its own: \<open>n\<close> events of the list
  wake it as often as its period goes into the time counted before and since.
\<close>

theorem locker_woken_every_period:
  assumes "locker_ok d p"
  shows "int (wakes n d p) = (tl_period_count p + int n * d) div tl_period p"
  by (rule wakes_eq [OF assms])

theorem locker_woken_every_period_witness: "int (wakes 7 10 (CTimerLocker_new ''x'' 30 (None :: nat option))) = 2"
  using locker_woken_every_period [OF locker_ok_new [of 10 30], of 7 "''x''" "None :: nat option"]
  by (simp add: int32_range_def CTimerLocker_new_def)

text \<open>
  \<open>GetDivisor\<close> gives the least divisor of the time that is not below the resolution.
\<close>

theorem divisor_least:
  assumes "0 < GetTimerMinResolution mgr" "GetTimerMinResolution mgr \<le> ms"
  shows "\<exists>d. GetDivisor ms mgr = Inr d \<and> d dvd ms \<and> GetTimerMinResolution mgr \<le> d
    \<and> (\<nexists>e. GetTimerMinResolution mgr \<le> e \<and> e < d \<and> e dvd ms)"
  using GetDivisor_ok [of mgr ms] assms by (auto simp: GetTimerMinResolution_def)

theorem divisor_least_witness: "GetDivisor 33 \<lparr>m_timer_min_resolution = 10, m_map_timers = []\<rparr> = Inr 11"
proof -
  obtain d where d: "GetDivisor 33 \<lparr>m_timer_min_resolution = 10, m_map_timers = [] :: nat map_timers\<rparr> = Inr d" "d dvd 33" "10 \<le> d"
    "\<nexists>e. 10 \<le> e \<and> e < d \<and> e dvd 33"
    using divisor_least [of "\<lparr>m_timer_min_resolution = 10, m_map_timers = [] :: nat map_timers\<rparr>" 33]
    by (auto simp: GetTimerMinResolution_def)
  have "\<not> 11 < d" using d(4) by (auto dest: spec [of _ 11])
  moreover have "d \<noteq> 10" using d(2) by auto
  ultimately have "d = 11" using d(3) by simp
  then show ?thesis using d(1) by (simp add: GetDivisor_def GetTimerMinResolution_def)
qed

text \<open>
  C39. \<open>GetTimerLockerByTime\<close> keeps the invariant of the manager - one list per period with a timer slot of its own,
  names unique over all lists - and on success registers the name, once, with the time raised to the resolution.
\<close>

theorem get_timer_locker_invariant:
  assumes "manager_inv inst ts mgr" "int32_range ms0"
    and "GetTimerLockerByTime inst hTimer name ms0 callback mgr ts = Inr (item, mgr', ts', cs)"
  shows "manager_inv inst ts' mgr'
    \<and> map_names (m_map_timers mgr') = (map_names (m_map_timers mgr) - {name}) \<union> (if item = None then {} else {name})
    \<and> (item = None \<or> item = Some (CTimerLocker_new name (max ms0 (GetTimerMinResolution mgr)) callback))
    \<and> (if hTimer = 0 then True else item \<noteq> None)"
  using GetTimerLockerByTime_ok [OF assms] by (simp add: GetTimerMinResolution_def)

definition demo_manager :: "nat LockerManager" where
  "demo_manager = \<lparr>m_timer_min_resolution = 10, m_map_timers = []\<rparr>"

definition demo_instance :: TimerInstance where
  "demo_instance = \<lparr>has_impl = True, timer_type = Some WINDOWS_MMTIMER\<rparr>"

theorem get_timer_locker_invariant_witness:
  "\<exists>item mgr' ts' cs. GetTimerLockerByTime demo_instance 5 ''fps'' 33 (Some 0) demo_manager [ParamTimer_new, ParamTimer_new]
      = Inr (Some item, mgr', ts', cs) \<and> manager_inv demo_instance ts' mgr' \<and> map_names (m_map_timers mgr') = {''fps''}"
proof -
  let ?r = "GetTimerLockerByTime demo_instance 5 ''fps'' 33 (Some 0) demo_manager [ParamTimer_new, ParamTimer_new]"
  have inv: "manager_inv demo_instance [ParamTimer_new, ParamTimer_new] demo_manager"
    by (simp add: manager_inv_def demo_instance_def demo_manager_def int32_range_def)
  have "\<not> isl ?r" by code_simp
  then obtain item mgr' ts' cs where r: "?r = Inr (item, mgr', ts', cs)"
    by (cases ?r) auto
  have "manager_inv demo_instance ts' mgr'
    \<and> map_names (m_map_timers mgr') = (map_names (m_map_timers demo_manager) - {''fps''}) \<union> (if item = None then {} else {''fps''})
    \<and> (item = None \<or> item = Some (CTimerLocker_new ''fps'' (max 33 (GetTimerMinResolution demo_manager)) (Some 0)))
    \<and> (if (5 :: nat) = 0 then True else item \<noteq> None)"
    by (rule get_timer_locker_invariant [OF inv _ r]) (simp add: int32_range_def)
  then show ?thesis
    using r by (auto simp: demo_manager_def map_names_def)
qed

text \<open>
  One \<open>WakeUp\<close> lets as many waits through as \<open>SetWakeUpCount\<close> set, rather than asking for as many calls of
  \<open>WakeUp\<close> before a wait ends.
\<close>

theorem wake_up_count: "waits_through n (WakeUp (SetWakeUpCount cnt l)) = (int n \<le> max 0 cnt)"
  by (simp add: WakeUp_lets_through SetWakeUpCount_def GetLockCount_def)

text \<open>
  Deleting the only locker of a list kills its timer twice, once in \<open>Finalize\<close> and once more in the destructor,
  and so ends the timer resolution period twice although creating the list began it once.
\<close>

theorem last_locker_ends_period_twice:
  assumes "has_impl inst" "slot_ok ts k l" "list_ok k l" "list_lockers l = [p]" "tl_name p = name"
    and "m_map_timers mgr = (k, l) # m"
  shows "\<exists>ts' cs. DeleteTimerLocker inst name mgr ts = Inr (True, mgr\<lparr>m_map_timers := m\<rparr>, ts', cs)
    \<and> count_list cs (TimeEndPeriod 1) = 2 \<and> count_list cs (TimeKillEvent (timer_os_id (ts ! nat (list_timer_id l)))) = 2"
proof -
  let ?l = "l\<lparr>list_lockers := []\<rparr>"
  have s': "slot_ok ts k ?l" using assms(2) by (simp add: slot_ok_def)
  obtain i where i: "i < length ts" "list_timer_id l = int i" using assms(2) by (auto simp: slot_ok_def)
  have d: "DeleteItem name l = (True, Some (WakeUp p), ?l)" "IsEmpty ?l"
    using assms(4,5) by (simp_all add: DeleteItem_def IsEmpty_def)
  let ?ts1 = "ts[i := (ts ! i)\<lparr>timer_used := False, timer_ptr := 0\<rparr>]"
  let ?c = "[TimeKillEvent (timer_os_id (ts ! i)), TimeEndPeriod 1]"
  have f1: "LockerList_Finalize inst ?l ts = Inr (?l, ?ts1, ?c)"
    using assms(1) i by (simp add: LockerList_Finalize_def DeleteTimer_def TimerInstance_DeleteTimer_def Winmm_DeleteTimer_def Let_def)
  have f2: "\<exists>ts2. LockerList_Finalize inst ?l ?ts1 = Inr (?l, ts2, ?c)"
    using assms(1) i by (simp add: LockerList_Finalize_def DeleteTimer_def TimerInstance_DeleteTimer_def Winmm_DeleteTimer_def Let_def)
  then show ?thesis
    using f1 d assms(6) i by (auto simp: DeleteTimerLocker_def)
qed

definition demo_list :: "nat CTimerLockerList" where
  "demo_list = \<lparr>list_period = 11, list_timer_id = 0, list_lockers = [CTimerLocker_new ''fps'' 33 None]\<rparr>"

definition demo_timers :: timer_table where
  "demo_timers = [\<lparr>timer_os_id = 5, timer_ms = 11, timer_ptr = 11, timer_used = True, timer_func = Some CallbackTimer_closure\<rparr>]"

theorem last_locker_ends_period_twice_witness:
  "\<exists>ts' cs. DeleteTimerLocker demo_instance ''fps'' (demo_manager\<lparr>m_map_timers := [(11, demo_list)]\<rparr>) demo_timers
      = Inr (True, demo_manager\<lparr>m_map_timers := []\<rparr>, ts', cs) \<and> count_list cs (TimeEndPeriod 1) = 2"
proof -
  let ?mgr = "demo_manager\<lparr>m_map_timers := [(11, demo_list)]\<rparr>"
  have f: "has_impl demo_instance" "slot_ok demo_timers 11 demo_list" "list_ok 11 demo_list"
    "list_lockers demo_list = [CTimerLocker_new ''fps'' 33 None]" "tl_name (CTimerLocker_new ''fps'' 33 (None :: nat option)) = ''fps''"
    "m_map_timers ?mgr = (11, demo_list) # []"
    by (simp_all add: demo_instance_def slot_ok_def demo_timers_def demo_list_def list_ok_def locker_ok_def CTimerLocker_new_def
        int32_range_def)
  show ?thesis
    using last_locker_ends_period_twice [OF f] by auto
qed

text \<open>
  C40. The packets of a frame, of which the last is marked, make one call of the callback, whatever their size: with
  each packet after a start code and the parameter sets of the session before the last of them, of which the pieces that
  find no room in the receive buffer are left out. Nothing is left out exactly when all of it fits. The frame is a
  key frame exactly when the last packet is an IDR slice, whether that packet is in it or not, and the sink is then
  ready for the next frame.
\<close>

theorem h264_frame_delivered:
  assumes "sink_inv s" "has_frame_callback s" "array_contents (m_received_buffer s) = []"
    and "ps \<noteq> []" "\<forall>p \<in> set ps. packet_ok (p, False)" and "header = array_contents (m_header_buffer s)"
  shows "\<exists>bs s'. receive_all t (marked ps) s = Inr ([frame_of t (idr (last ps)) bs], s')
    \<and> bs = concat (keep_fitting received_capacity (frame_pieces header ps))
    \<and> (bs = concat (map unit_bytes (butlast ps)) @ header @ unit_bytes (last ps)
        \<longleftrightarrow> length header + sum_list (map (length \<circ> unit_bytes) ps) \<le> received_capacity)
    \<and> sink_inv s' \<and> has_frame_callback s' \<and> array_contents (m_received_buffer s') = []
    \<and> array_contents (m_header_buffer s') = header"
  using receive_all_frame [OF assms(1,2,4,5)] spec_frame_complete_iff [OF assms(4)] unfolding assms(3,6) by metis

definition demo_sink :: H264Sink where
  "demo_sink = \<lparr>has_frame_callback = True, m_header_buffer = \<lparr>ax_data = replicate 1024 0, ax_len = 0\<rparr>,
     m_rtp_packet_buffer = \<lparr>ax_data = replicate g_rtp_packet_buffer_size 0, ax_len = 0\<rparr>,
     m_received_buffer = \<lparr>ax_data = replicate received_capacity 0, ax_len = 0\<rparr>\<rparr>"

lemma demo_sink_ok:
  "sink_inv demo_sink" "has_frame_callback demo_sink" "array_contents (m_received_buffer demo_sink) = []"
  "array_contents (m_header_buffer demo_sink) = []"
  by (simp_all add: demo_sink_def sink_inv_def array_inv_def array_contents_def)

text \<open>Two small packets, which are all in the frame, and two as large as the packet buffer, of which the second is lost.\<close>

theorem h264_frame_delivered_witness:
  "\<forall>t. (\<exists>s'. receive_all t (marked [[0x67, 1], [0x65, 2]]) demo_sink
      = Inr ([frame_of t True [0, 0, 0, 1, 0x67, 1, 0, 0, 0, 1, 0x65, 2]], s'))
   \<and> (\<exists>s'. receive_all t (marked [replicate g_rtp_packet_buffer_size 0x61, replicate g_rtp_packet_buffer_size 0x65]) demo_sink
      = Inr ([frame_of t True (g_H264StartCode @ replicate g_rtp_packet_buffer_size 0x61 @ g_H264StartCode)], s'))"
proof
  fix t
  have sz: "0 < g_rtp_packet_buffer_size" by (simp add: g_rtp_packet_buffer_size_def)
  have h: "\<forall>p \<in> set [[0x67, 1], [0x65, 2]]. packet_ok (p, False)"
    "\<forall>p \<in> set [replicate g_rtp_packet_buffer_size 0x61, replicate g_rtp_packet_buffer_size 0x65]. packet_ok (p, False)"
    using sz by (simp_all add: packet_ok_def) (simp add: g_rtp_packet_buffer_size_def)
  note d = h264_frame_delivered [OF demo_sink_ok(1,2,3) _ _ demo_sink_ok(4) [symmetric], of _ t]
  have k: "concat (keep_fitting received_capacity (frame_pieces [] [[0x67, 1], [0x65, 2]])) = [0, 0, 0, 1, 0x67, 1, 0, 0, 0, 1, 0x65, 2]"
    "concat (keep_fitting received_capacity (frame_pieces []
      [replicate g_rtp_packet_buffer_size 0x61, replicate g_rtp_packet_buffer_size 0x65]))
      = g_H264StartCode @ replicate g_rtp_packet_buffer_size 0x61 @ g_H264StartCode"
    using sz by (simp_all add: frame_pieces_def g_H264StartCode_def received_capacity_def) (simp_all add: g_rtp_packet_buffer_size_def)
  have i: "idr (last [[0x67, 1], [0x65, 2]])"
    "idr (last [replicate g_rtp_packet_buffer_size 0x61, replicate g_rtp_packet_buffer_size 0x65])"
    using sz by (simp_all add: idr_def)
  show "(\<exists>s'. receive_all t (marked [[0x67, 1], [0x65, 2]]) demo_sink
      = Inr ([frame_of t True [0, 0, 0, 1, 0x67, 1, 0, 0, 0, 1, 0x65, 2]], s'))
   \<and> (\<exists>s'. receive_all t (marked [replicate g_rtp_packet_buffer_size 0x61, replicate g_rtp_packet_buffer_size 0x65]) demo_sink
      = Inr ([frame_of t True (g_H264StartCode @ replicate g_rtp_packet_buffer_size 0x61 @ g_H264StartCode)], s'))"
    using d [OF _ h(1)] d [OF _ h(2)] i unfolding k by auto
qed

end
